(* ===== verification/Lazygate_Prelude.thy ===== *)
theory Lazygate_Prelude
  imports Main "HOL-Library.Word"
begin

text \<open>
  Shared vocabulary of the development: Go's machine integers as words, byte slices and strings,
  the big-endian and little-endian codecs of \<^verbatim>\<open>encoding/binary\<close>, the outcome type of every partial
  operation of the program, and the generic facts about them that the component theories use.

  A Go \<^verbatim>\<open>string\<close> is a sequence of bytes, and an Isabelle \<^typ>\<open>char\<close> is one byte, so a Go string is a
  \<^typ>\<open>string\<close>; \<open>bytes_of_string\<close> and \<open>string_of_bytes\<close> are the conversions \<^verbatim>\<open>[]byte(s)\<close> and
  \<^verbatim>\<open>string(b)\<close>. Lengths and offsets of slices are natural numbers: a Go \<^verbatim>\<open>int\<close> is 64 bits wide and no
  slice of the program comes near that bound, so only conversions to narrower types can wrap, and
  these are written out as word conversions.
\<close>

unbundle bit_operations_syntax

section \<open>Machine types\<close>

type_synonym byte = "8 word"
type_synonym bytes = "byte list"
type_synonym u16 = "16 word"
type_synonym i32 = "32 word"
type_synonym u32 = "32 word"
type_synonym i64 = "64 word"
type_synonym u64 = "64 word"

named_theorems wire_simps \<open>encoders as byte lists\<close>
named_theorems reads_intro \<open>what a decoder yields on the bytes an encoder wrote\<close>
named_theorems cursor_ok \<open>decoders that stay inside their buffer\<close>

section \<open>Outcomes\<close>

text \<open>
  Go reports a failure in two ways: a returned error (or \<^verbatim>\<open>ok == false\<close>), modelled by \<open>Fail\<close>, and a
  run-time panic (a slice expression out of range), modelled by \<open>Panic\<close>.
\<close>

datatype 'a outcome = Ok 'a | Fail | Panic

definition is_Panic :: "'a outcome \<Rightarrow> bool" where
  "is_Panic x = (case x of Panic \<Rightarrow> True | _ \<Rightarrow> False)"

lemma is_Panic_simps [simp]:
  "\<not> is_Panic (Ok a)" "\<not> is_Panic Fail" "is_Panic Panic"
  by (simp_all add: is_Panic_def)

text \<open>
  Index and slice expressions, with the panic of an index outside the slice. Go lets the upper bound of a slice
  expression reach the capacity; here it must stay within the length, so that not panicking means that no
  byte beyond the slice is looked at.
\<close>

definition go_index :: "'a list \<Rightarrow> nat \<Rightarrow> 'a outcome" where
  "go_index xs i = (if i < length xs then Ok (xs ! i) else Panic)"

definition go_slice :: "'a list \<Rightarrow> int \<Rightarrow> int \<Rightarrow> 'a list outcome" where
  "go_slice xs lo hi =
     (if 0 \<le> lo \<and> lo \<le> hi \<and> hi \<le> int (length xs)
      then Ok (take (nat (hi - lo)) (drop (nat lo) xs)) else Panic)"

lemma go_index_inside [simp]: "i < length xs \<Longrightarrow> go_index xs i = Ok (xs ! i)"
  by (simp add: go_index_def)

lemma go_slice_prefix [simp]:
  "0 \<le> hi \<Longrightarrow> hi \<le> int (length xs) \<Longrightarrow> go_slice xs 0 hi = Ok (take (nat hi) xs)"
  by (simp add: go_slice_def)

lemma go_slice_suffix [simp]: "n \<le> length xs \<Longrightarrow> go_slice xs (int n) (int (length xs)) = Ok (drop n xs)"
  by (simp add: go_slice_def)

section \<open>Strings and byte slices\<close>

definition byte_of_char :: "char \<Rightarrow> byte" where
  "byte_of_char c = word_of_nat (of_char c)"

definition char_of_byte :: "byte \<Rightarrow> char" where
  "char_of_byte b = char_of (unat b)"

definition bytes_of_string :: "string \<Rightarrow> bytes" where
  "bytes_of_string s = map byte_of_char s"

definition string_of_bytes :: "bytes \<Rightarrow> string" where
  "string_of_bytes bs = map char_of_byte bs"

lemma char_of_byte_of_char [simp]: "char_of_byte (byte_of_char c) = c"
proof -
  have "(of_char c :: nat) < 256" by simp
  then have "unat (word_of_nat (of_char c) :: byte) = of_char c"
    by (simp add: unat_of_nat)
  then show ?thesis by (simp add: char_of_byte_def byte_of_char_def)
qed

lemma byte_of_char_of_byte [simp]: "byte_of_char (char_of_byte b) = b"
proof -
  have "unat b < 256" using unsigned_less [of b] by simp
  then show ?thesis by (simp add: char_of_byte_def byte_of_char_def)
qed

lemma string_of_bytes_of_string [simp]: "string_of_bytes (bytes_of_string s) = s"
  by (simp add: string_of_bytes_def bytes_of_string_def comp_def)

lemma bytes_of_string_of_bytes [simp]: "bytes_of_string (string_of_bytes bs) = bs"
  by (simp add: string_of_bytes_def bytes_of_string_def comp_def)

lemma length_bytes_of_string [simp]: "length (bytes_of_string s) = length s"
  by (simp add: bytes_of_string_def)

lemma length_string_of_bytes [simp]: "length (string_of_bytes s) = length s"
  by (simp add: string_of_bytes_def)

lemma bytes_of_string_append [simp]:
  "bytes_of_string (s @ t) = bytes_of_string s @ bytes_of_string t"
  by (simp add: bytes_of_string_def)

lemma bytes_of_string_simps [simp]:
  "bytes_of_string [] = []" "bytes_of_string (c # s) = byte_of_char c # bytes_of_string s"
  by (simp_all add: bytes_of_string_def)

lemma bytes_of_string_inj [simp]: "bytes_of_string s = bytes_of_string t \<longleftrightarrow> s = t"
  by (metis string_of_bytes_of_string)

section \<open>Fixed-width integers of encoding/binary\<close>

text \<open>
  The standard library's \<^verbatim>\<open>binary.BigEndian.AppendUint16\<close> and its wider and little-endian
  companions; signed Go integers share the bit pattern of the unsigned type of the same width.
\<close>

definition be16 :: "16 word \<Rightarrow> bytes" where
  "be16 v = [ucast (drop_bit 8 v), ucast v]"

definition be32 :: "32 word \<Rightarrow> bytes" where
  "be32 v = [ucast (drop_bit 24 v), ucast (drop_bit 16 v), ucast (drop_bit 8 v), ucast v]"

definition be64 :: "64 word \<Rightarrow> bytes" where
  "be64 v = [ucast (drop_bit 56 v), ucast (drop_bit 48 v), ucast (drop_bit 40 v),
     ucast (drop_bit 32 v), ucast (drop_bit 24 v), ucast (drop_bit 16 v), ucast (drop_bit 8 v),
     ucast v]"

definition le32 :: "32 word \<Rightarrow> bytes" where
  "le32 v = [ucast v, ucast (drop_bit 8 v), ucast (drop_bit 16 v), ucast (drop_bit 24 v)]"

text \<open>\<open>be_word\<close> folds a slice into a word, most significant byte first.\<close>

definition be_word :: "bytes \<Rightarrow> 'a::len word" where
  "be_word bs = foldl (\<lambda>acc b. push_bit 8 acc OR ucast b) 0 bs"

definition le_word :: "bytes \<Rightarrow> 'a::len word" where
  "le_word bs = be_word (rev bs)"

lemma length_be [simp]:
  "length (be16 a) = 2" "length (be32 b) = 4" "length (be64 c) = 8" "length (le32 d) = 4"
  by (simp_all add: be16_def be32_def be64_def le32_def)

lemma be_word_snoc: "(be_word (bs @ [b]) :: 'a::len word) = push_bit 8 (be_word bs) OR ucast b"
  by (simp add: be_word_def)

lemma be_word_Nil [simp]: "be_word [] = 0"
  by (simp add: be_word_def)

text \<open>One byte further down: the bits above position \<open>k + 8\<close> and the byte at \<open>k\<close> give the bits above \<open>k\<close>.\<close>

lemma join_byte:
  fixes v :: "'a::len word"
  shows "push_bit 8 (drop_bit (8 + k) v) OR ucast (ucast (drop_bit k v) :: byte) = drop_bit k v"
proof (rule bit_word_eqI)
  fix n assume "n < LENGTH('a)"
  then show "bit (push_bit 8 (drop_bit (8 + k) v) OR ucast (ucast (drop_bit k v) :: byte)) n =
      bit (drop_bit k v) n"
    by (cases "n < 8") (auto simp: bit_simps ac_simps)
qed

lemma top_byte:
  fixes v :: "'a::len word"
  assumes "LENGTH('a) \<le> 8 + k"
  shows "ucast (ucast (drop_bit k v) :: byte) = drop_bit k v"
  using assms
  by (intro bit_word_eqI) (auto simp: bit_simps not_less dest: bit_imp_le_length)

lemma be_word_be16 [simp]: "(be_word (be16 v) :: 16 word) = v"
  using join_byte [of 0 v]
  by (simp add: be_word_def be16_def top_byte)

lemma be_word_be32 [simp]: "(be_word (be32 v) :: 32 word) = v"
  using join_byte [of 0 v] join_byte [of 8 v] join_byte [of 16 v]
  by (simp add: be_word_def be32_def top_byte)

lemma be_word_be64 [simp]: "(be_word (be64 v) :: 64 word) = v"
  using join_byte [of 0 v] join_byte [of 8 v] join_byte [of 16 v] join_byte [of 24 v]
    join_byte [of 32 v] join_byte [of 40 v] join_byte [of 48 v]
  by (simp add: be_word_def be64_def top_byte)

lemma le_word_le32 [simp]: "(le_word (le32 v) :: 32 word) = v"
proof -
  have "rev (le32 v) = be32 v" by (simp add: le32_def be32_def)
  then show ?thesis by (simp add: le_word_def)
qed

section \<open>Slices\<close>

lemma take_drop_middle [simp]:
  "take (length b) (drop (length a) (a @ b @ c)) = b"
  by simp

section \<open>Lengths as int32\<close>

lemma sint_of_length: "n < 2 ^ 31 \<Longrightarrow> sint (word_of_nat n :: 32 word) = int n"
  by (simp add: signed_of_nat signed_take_bit_int_eq_self)

lemma sint_16_of_length: "n < 2 ^ 15 \<Longrightarrow> sint (word_of_nat n :: 16 word) = int n"
  by (simp add: signed_of_nat signed_take_bit_int_eq_self)

end
