(* ===== verification/Cursor.thy ===== *)
theory Cursor
  imports Lazygate_Prelude
begin

text \<open>
  The decoders of the program (\<^verbatim>\<open>packetReader\<close> and the packet decoders of \<^verbatim>\<open>proto/packets.go\<close>,
  \<^verbatim>\<open>packetDecoder\<close> of \<^verbatim>\<open>forge.go\<close>, \<^verbatim>\<open>joinGameReader\<close> of \<^verbatim>\<open>join_game.go\<close>, \<^verbatim>\<open>Reader\<close> of
  \<^verbatim>\<open>nbt/read.go\<close>) are all a byte slice with a position that only moves forward. They share the
  record \<open>cursor\<close>; an operation takes the cursor and returns an outcome and the moved cursor.
  \<open>rd_bind\<close> is the \<^verbatim>\<open>if !ok { return }\<close> after each field.

  \<open>reads m bs v\<close> says that \<open>m\<close>, placed at the bytes \<open>bs\<close> anywhere in a buffer, yields \<open>v\<close> and stops
  right after them. It composes along \<open>rd_bind\<close>, so that a decode-after-encode theorem of a packet is
  the sequence of its fields' theorems. \<open>stays_inside m\<close> says that \<open>m\<close> never panics, never changes the
  buffer and never leaves it.
\<close>

section \<open>Cursors and decoders\<close>

record cursor =
  cur_data :: bytes
  cur_pos :: nat

type_synonym 'a rd = "cursor \<Rightarrow> 'a outcome \<times> cursor"

definition cursor_at :: "bytes \<Rightarrow> nat \<Rightarrow> cursor" where
  "cursor_at d p = \<lparr>cur_data = d, cur_pos = p\<rparr>"

definition advance :: "nat \<Rightarrow> cursor \<Rightarrow> cursor" where
  "advance n r = r\<lparr>cur_pos := cur_pos r + n\<rparr>"

definition unread :: "cursor \<Rightarrow> bytes" where
  "unread r = drop (cur_pos r) (cur_data r)"

definition remaining :: "cursor \<Rightarrow> nat" where
  "remaining r = length (cur_data r) - cur_pos r"

definition cursor_wf :: "cursor \<Rightarrow> bool" where
  "cursor_wf r \<longleftrightarrow> cur_pos r \<le> length (cur_data r)"

text \<open>The byte at the position, and the next \<open>n\<close> bytes; both move the position.\<close>

definition rd_index :: "byte rd" where
  "rd_index r =
     (case go_index (cur_data r) (cur_pos r) of Ok b \<Rightarrow> (Ok b, advance 1 r) | _ \<Rightarrow> (Panic, r))"

definition rd_take :: "nat \<Rightarrow> bytes rd" where
  "rd_take n r =
     (case go_slice (cur_data r) (int (cur_pos r)) (int (cur_pos r) + int n) of
        Ok bs \<Rightarrow> (Ok bs, advance n r) | _ \<Rightarrow> (Panic, r))"

definition rd_return :: "'a \<Rightarrow> 'a rd" where
  "rd_return a r = (Ok a, r)"

definition rd_fail :: "'a rd" where
  "rd_fail r = (Fail, r)"

definition rd_bind :: "'a rd \<Rightarrow> ('a \<Rightarrow> 'b rd) \<Rightarrow> 'b rd" where
  "rd_bind m f r =
     (case m r of (Ok a, r') \<Rightarrow> f a r' | (Fail, r') \<Rightarrow> (Fail, r') | (Panic, r') \<Rightarrow> (Panic, r'))"

definition rd_guard :: "bool \<Rightarrow> 'a rd \<Rightarrow> 'a rd" where
  "rd_guard b m = (if b then m else rd_fail)"

text \<open>A counted loop that appends one decoded element per round.\<close>

primrec rd_repeat :: "nat \<Rightarrow> 'a rd \<Rightarrow> 'a list rd" where
  "rd_repeat 0 m = rd_return []"
| "rd_repeat (Suc n) m = rd_bind m (\<lambda>x. rd_bind (rd_repeat n m) (\<lambda>xs. rd_return (x # xs)))"

definition run_decoder :: "'a rd \<Rightarrow> bytes \<Rightarrow> 'a outcome" where
  "run_decoder m d = fst (m (cursor_at d 0))"

section \<open>Basic facts\<close>

lemma rd_index_inside: "1 \<le> remaining r \<Longrightarrow> rd_index r = (Ok (cur_data r ! cur_pos r), advance 1 r)"
  by (simp add: rd_index_def remaining_def)

lemma rd_take_inside: "n \<le> remaining r \<Longrightarrow> cursor_wf r \<or> 0 < n \<Longrightarrow> rd_take n r = (Ok (take n (unread r)), advance n r)"
  by (auto simp: rd_take_def go_slice_def remaining_def unread_def cursor_wf_def)

lemma cursor_at_simps [simp]:
  "cur_data (cursor_at d p) = d" "cur_pos (cursor_at d p) = p"
  "advance n (cursor_at d p) = cursor_at d (p + n)"
  by (simp_all add: cursor_at_def advance_def)

lemma cursor_at_self [simp]: "cursor_at (cur_data r) (cur_pos r) = r"
  by (cases r) (simp add: cursor_at_def)

lemma advance_simps [simp]:
  "cur_data (advance n r) = cur_data r" "cur_pos (advance n r) = cur_pos r + n"
  "advance 0 r = r" "advance m (advance n r) = advance (n + m) r"
  by (simp_all add: advance_def)

lemma length_unread [simp]: "length (unread r) = remaining r"
  by (simp add: unread_def remaining_def)

lemma unread_advance: "unread (advance n r) = drop n (unread r)"
  by (simp add: unread_def add.commute)

lemma remaining_advance [simp]: "remaining (advance n r) = remaining r - n"
  by (simp add: remaining_def)

lemma unread_at [simp]: "unread (cursor_at (pre @ post) (length pre)) = post"
  by (simp add: unread_def)

lemma remaining_at [simp]: "remaining (cursor_at (pre @ post) (length pre)) = length post"
  by (simp add: remaining_def)

lemma cursor_wf_advance: "n \<le> remaining r \<Longrightarrow> cursor_wf r \<Longrightarrow> cursor_wf (advance n r)"
  by (auto simp: cursor_wf_def remaining_def)

lemma cursor_wf_at [simp]: "cursor_wf (cursor_at d p) \<longleftrightarrow> p \<le> length d"
  by (simp add: cursor_wf_def)

lemma nth_unread: "i < remaining r \<Longrightarrow> unread r ! i = cur_data r ! (cur_pos r + i)"
  by (simp add: unread_def remaining_def)

lemma rd_return_inj [simp]: "rd_return a = rd_return b \<longleftrightarrow> a = b"
  by (auto simp: rd_return_def fun_eq_iff)

lemma rd_bind_assoc: "rd_bind (rd_bind m f) g = rd_bind m (\<lambda>a. rd_bind (f a) g)"
  by (rule ext) (simp add: rd_bind_def split: prod.splits outcome.splits)

section \<open>Decoding what was written\<close>

definition reads :: "'a rd \<Rightarrow> bytes \<Rightarrow> 'a \<Rightarrow> bool" where
  "reads m bs v \<longleftrightarrow>
     (\<forall>pre post. m (cursor_at (pre @ bs @ post) (length pre)) =
        (Ok v, cursor_at (pre @ bs @ post) (length pre + length bs)))"

definition reads_end :: "'a rd \<Rightarrow> bytes \<Rightarrow> 'a \<Rightarrow> bool" where
  "reads_end m bs v \<longleftrightarrow>
     (\<forall>pre. m (cursor_at (pre @ bs) (length pre)) =
        (Ok v, cursor_at (pre @ bs) (length pre + length bs)))"

lemma readsI:
  assumes "\<And>pre post. m (cursor_at (pre @ bs @ post) (length pre)) =
    (Ok v, cursor_at (pre @ bs @ post) (length pre + length bs))"
  shows "reads m bs v"
  using assms by (simp add: reads_def)

lemma reads_reads_end: "reads m bs v \<Longrightarrow> reads_end m bs v"
  unfolding reads_def reads_end_def by (metis append_Nil2)

lemma reads_bind:
  assumes "reads m bs a" and "reads (f a) cs v"
  shows "reads (rd_bind m f) (bs @ cs) v"
proof (rule readsI)
  fix pre post
  from assms(1) have "m (cursor_at (pre @ (bs @ cs) @ post) (length pre)) =
      (Ok a, cursor_at (pre @ (bs @ cs) @ post) (length pre + length bs))"
    by (simp add: reads_def)
  moreover from assms(2) have "f a (cursor_at ((pre @ bs) @ cs @ post) (length (pre @ bs))) =
      (Ok v, cursor_at ((pre @ bs) @ cs @ post) (length (pre @ bs) + length cs))"
    by (simp only: reads_def)
  ultimately show "rd_bind m f (cursor_at (pre @ (bs @ cs) @ post) (length pre)) =
      (Ok v, cursor_at (pre @ (bs @ cs) @ post) (length pre + length (bs @ cs)))"
    by (simp add: rd_bind_def add.assoc)
qed

lemma reads_end_bind:
  assumes "reads m bs a" and "reads_end (f a) cs v"
  shows "reads_end (rd_bind m f) (bs @ cs) v"
  unfolding reads_end_def
proof
  fix pre
  from assms(1) have "m (cursor_at (pre @ (bs @ cs)) (length pre)) =
      (Ok a, cursor_at (pre @ (bs @ cs)) (length pre + length bs))"
    by (simp add: reads_def)
  moreover from assms(2) have "f a (cursor_at ((pre @ bs) @ cs) (length (pre @ bs))) =
      (Ok v, cursor_at ((pre @ bs) @ cs) (length (pre @ bs) + length cs))"
    by (simp only: reads_end_def)
  ultimately show "rd_bind m f (cursor_at (pre @ (bs @ cs)) (length pre)) =
      (Ok v, cursor_at (pre @ (bs @ cs)) (length pre + length (bs @ cs)))"
    by (simp add: rd_bind_def add.assoc)
qed

lemma reads_return [reads_intro]: "reads (rd_return v) [] v"
  by (simp add: reads_def rd_return_def)

lemma reads_done: "v = w \<Longrightarrow> reads (rd_return v) [] w"
  by (simp add: reads_return)

lemma reads_map:
  "reads m bs a \<Longrightarrow> reads (rd_bind m (\<lambda>x. rd_return (f x))) bs (f a)"
  using reads_bind [of m bs a "\<lambda>x. rd_return (f x)" "[]"] by (simp add: reads_return)

lemma reads_guard: "b \<Longrightarrow> reads m bs v \<Longrightarrow> reads (rd_guard b m) bs v"
  by (simp add: rd_guard_def)

lemma reads_repeat:
  assumes "\<And>x. x \<in> set xs \<Longrightarrow> reads m (enc x) x"
  shows "reads (rd_repeat (length xs) m) (concat (map enc xs)) xs"
  using assms
proof (induction xs)
  case Nil
  then show ?case by (simp add: reads_return)
next
  case (Cons x xs)
  have "reads (rd_bind (rd_repeat (length xs) m) (\<lambda>ys. rd_return (x # ys)))
      (concat (map enc xs)) (x # xs)"
    by (rule reads_map) (simp add: Cons)
  moreover have "reads m (enc x) x" using Cons.prems by simp
  ultimately show ?case
    using reads_bind [where f = "\<lambda>x. rd_bind (rd_repeat (length xs) m) (\<lambda>xs. rd_return (x # xs))"]
    by fastforce
qed

lemma reads_run: "reads m bs v \<Longrightarrow> run_decoder m (bs @ post) = Ok v"
  unfolding reads_def run_decoder_def by (metis append_Nil fst_conv list.size(3))

lemma reads_end_run: "reads_end m bs v \<Longrightarrow> run_decoder m bs = Ok v"
  unfolding reads_end_def run_decoder_def by (metis append_Nil fst_conv list.size(3))

section \<open>Decoders that stay inside their buffer\<close>

definition stays_inside :: "'a rd \<Rightarrow> bool" where
  "stays_inside m \<longleftrightarrow>
     (\<forall>r. cursor_wf r \<longrightarrow>
        (case m r of (x, r') \<Rightarrow> \<not> is_Panic x \<and> cursor_wf r' \<and> cur_data r' = cur_data r \<and>
           cur_pos r \<le> cur_pos r'))"

lemma stays_insideI:
  assumes "\<And>r x r'. cursor_wf r \<Longrightarrow> m r = (x, r') \<Longrightarrow>
    \<not> is_Panic x \<and> cursor_wf r' \<and> cur_data r' = cur_data r \<and> cur_pos r \<le> cur_pos r'"
  shows "stays_inside m"
  using assms by (auto simp: stays_inside_def)

lemma stays_insideD:
  assumes "stays_inside m" and "cursor_wf r" and "m r = (x, r')"
  shows "\<not> is_Panic x" and "cursor_wf r'" and "cur_data r' = cur_data r" and "cur_pos r \<le> cur_pos r'"
  using assms by (auto simp: stays_inside_def)

lemma stays_inside_return [cursor_ok]: "stays_inside (rd_return a)"
  by (simp add: stays_inside_def rd_return_def)

lemma stays_inside_fail [cursor_ok]: "stays_inside rd_fail"
  by (simp add: stays_inside_def rd_fail_def)

lemma stays_inside_guard [cursor_ok]: "stays_inside m \<Longrightarrow> stays_inside (rd_guard b m)"
  by (simp add: rd_guard_def stays_inside_fail)

lemma stays_inside_bind [cursor_ok]:
  assumes m: "stays_inside m" and f: "\<And>a. stays_inside (f a)"
  shows "stays_inside (rd_bind m f)"
proof (rule stays_insideI)
  fix r x r'
  assume wf: "cursor_wf r" and run: "rd_bind m f r = (x, r')"
  obtain y q where mr: "m r = (y, q)" by fastforce
  note q = stays_insideD [OF m wf mr]
  show "\<not> is_Panic x \<and> cursor_wf r' \<and> cur_data r' = cur_data r \<and> cur_pos r \<le> cur_pos r'"
  proof (cases y)
    case (Ok a)
    with run mr have "f a q = (x, r')" by (simp add: rd_bind_def)
    from stays_insideD [OF f q(2) this] q show ?thesis by auto
  next
    case Fail
    with run mr q show ?thesis by (auto simp: rd_bind_def)
  next
    case Panic
    with q(1) show ?thesis by simp
  qed
qed

lemma stays_inside_repeat [cursor_ok]: "stays_inside m \<Longrightarrow> stays_inside (rd_repeat n m)"
  by (induction n) (simp_all add: cursor_ok)

lemma stays_inside_if [cursor_ok]:
  "stays_inside m \<Longrightarrow> stays_inside n \<Longrightarrow> stays_inside (if b then m else n)"
  by simp

lemma stays_inside_run: "stays_inside m \<Longrightarrow> \<not> is_Panic (run_decoder m d)"
  unfolding run_decoder_def stays_inside_def
  by (metis (no_types, lifting) case_prod_beta cursor_wf_at le0)

end
