(* ===== verification/VarInt.thy ===== *)
theory VarInt
  imports Cursor
begin

text \<open>
  \<^verbatim>\<open>proto/varint.go\<close>: the protocol's variable-length integers. \<open>ReadVarInt\<close> looks for the end of
  the number first and decodes the slice afterwards; the field readers of the program
  (\<^verbatim>\<open>packetReader.varInt\<close> and its two copies) decode byte by byte. \<open>varint_scan\<close> is the reference
  decoder both are proved equal to. A 32-bit number takes one to five bytes; a fifth byte with more
  than four significant bits loses them, as the shift of an \<^verbatim>\<open>int32\<close> does.
\<close>

section \<open>Definitions\<close>

fun decodeVarInt_loop :: "nat \<Rightarrow> i32 \<Rightarrow> bytes \<Rightarrow> i32" where
  "decodeVarInt_loop i result [] = result"
| "decodeVarInt_loop i result (b # bs) =
     decodeVarInt_loop (Suc i) (result OR push_bit (7 * i) (ucast (b AND 0x7F))) bs"

definition decodeVarInt :: "bytes \<Rightarrow> i32 outcome" where
  "decodeVarInt buf = Ok (decodeVarInt_loop 0 0 buf)"

function ReadVarInt_loop :: "bytes \<Rightarrow> nat \<Rightarrow> nat \<Rightarrow> (nat \<times> i32) outcome" where
  "ReadVarInt_loop buf mx len =
     (if len \<le> mx then
        (case go_index buf (len - 1) of
           Ok b \<Rightarrow>
             let extraByte = (b AND push_bit 7 1) > 0
             in if extraByte then ReadVarInt_loop buf mx (Suc len)
                else (case go_slice buf 0 (int len) of
                        Ok s \<Rightarrow> (case decodeVarInt s of Ok v \<Rightarrow> Ok (len, v) | _ \<Rightarrow> Fail)
                      | _ \<Rightarrow> Panic)
         | _ \<Rightarrow> Panic)
      else Fail)"
  by pat_completeness auto
termination
  by (relation "measure (\<lambda>(buf, mx, len). Suc mx - len)") auto

definition ReadVarInt :: "bytes \<Rightarrow> (nat \<times> i32) outcome" where
  "ReadVarInt buf = ReadVarInt_loop buf (if length buf < 5 then length buf else 5) 1"

function EncodeVarInt_loop :: "u32 \<Rightarrow> bytes" where
  "EncodeVarInt_loop u =
     (let b = ucast (u AND 0x7F) :: byte; u' = drop_bit 7 u
      in if u' \<noteq> 0 then (b OR 0x80) # EncodeVarInt_loop u' else [b])"
  by pat_completeness auto
termination
proof (relation "measure unat")
  fix u x :: u32 and b :: byte
  assume "b = ucast (u AND 0x7F)" and x: "x = drop_bit 7 u" and "x \<noteq> 0"
  then have "0 < unat u" by (cases "u = 0") (auto simp: unat_gt_0)
  moreover have "unat x = unat u div 2 ^ 7"
    unfolding x unat_drop_bit_eq by (rule drop_bit_eq_div)
  ultimately show "(x, u) \<in> measure unat" by simp
qed simp

definition EncodeVarInt :: "i32 \<Rightarrow> bytes" where
  "EncodeVarInt i = EncodeVarInt_loop i"

declare ReadVarInt_loop.simps [simp del] EncodeVarInt_loop.simps [simp del]

text \<open>The byte-by-byte loop of the field readers, over a cursor.\<close>

function varInt_loop :: "nat \<Rightarrow> i32 \<Rightarrow> i32 rd" where
  "varInt_loop i result r =
     (if i < 5 then
        if cur_pos r \<ge> length (cur_data r) then (Fail, r)
        else
          (case rd_index r of
             (Ok b, r') \<Rightarrow>
               let result' = result OR push_bit (7 * i) (ucast (b AND 0x7F))
               in if b AND 0x80 = 0 then (Ok result', r') else varInt_loop (Suc i) result' r'
           | (_, r') \<Rightarrow> (Panic, r'))
      else (Fail, r))"
  by pat_completeness auto
termination
  by (relation "measure (\<lambda>(i, result, r). 5 - i)") auto

declare varInt_loop.simps [simp del]

text \<open>The two loops without the checks that Go makes at each index: none of them fails.\<close>

lemma rd_index_next: "\<not> length (cur_data r) \<le> cur_pos r \<Longrightarrow> rd_index r = (Ok (cur_data r ! cur_pos r), advance 1 r)"
  by (rule rd_index_inside) (simp add: remaining_def)

lemma varInt_loop_step:
  "varInt_loop i result r =
     (if i < 5 then
        if cur_pos r \<ge> length (cur_data r) then (Fail, r)
        else
          let b = cur_data r ! cur_pos r;
              r' = advance 1 r;
              result' = result OR push_bit (7 * i) (ucast (b AND 0x7F))
          in if b AND 0x80 = 0 then (Ok result', r') else varInt_loop (Suc i) result' r'
      else (Fail, r))"
  by (subst varInt_loop.simps) (simp add: rd_index_next Let_def)

lemma ReadVarInt_loop_step:
  assumes "1 \<le> len" and "mx \<le> length buf"
  shows "ReadVarInt_loop buf mx len =
     (if len \<le> mx then
        let extraByte = ((buf ! (len - 1)) AND push_bit 7 1) > 0
        in if extraByte then ReadVarInt_loop buf mx (Suc len)
           else (case decodeVarInt (take len buf) of Ok v \<Rightarrow> Ok (len, v) | _ \<Rightarrow> Fail)
      else Fail)"
  using assms by (subst ReadVarInt_loop.simps) (simp add: Let_def)

section \<open>The reference decoder\<close>

fun varint_scan :: "nat \<Rightarrow> i32 \<Rightarrow> bytes \<Rightarrow> (i32 \<times> nat) option" where
  "varint_scan i acc [] = None"
| "varint_scan i acc (b # bs) =
     (if i < 5 then
        let acc' = acc OR push_bit (7 * i) (ucast (b AND 0x7F))
        in if b AND 0x80 = 0 then Some (acc', 1)
           else map_option (apsnd Suc) (varint_scan (Suc i) acc' bs)
      else None)"

lemma varint_scan_bounds:
  "varint_scan i acc bs = Some (v, n) \<Longrightarrow> 1 \<le> n \<and> n \<le> length bs \<and> n + i \<le> 5"
  by (induction i acc bs arbitrary: v n rule: varint_scan.induct)
    (fastforce simp: Let_def split: if_splits)+

lemma extra_byte_iff:
  "(0 :: byte) < b AND push_bit 7 1 \<longleftrightarrow> b AND 0x80 \<noteq> 0" "(0 :: byte) < b AND 0x80 \<longleftrightarrow> b AND 0x80 \<noteq> 0"
  by (simp_all add: word_gt_0)

lemma decodeVarInt_loop_append:
  "decodeVarInt_loop i acc (bs @ [b]) =
     decodeVarInt_loop i acc bs OR push_bit (7 * (i + length bs)) (ucast (b AND 0x7F))"
  by (induction i acc bs rule: decodeVarInt_loop.induct) simp_all

lemma ReadVarInt_loop_scan:
  assumes "k \<le> length buf"
  shows "ReadVarInt_loop buf (min 5 (length buf)) (Suc k) =
    (case varint_scan k (decodeVarInt_loop 0 0 (take k buf)) (drop k buf) of
       None \<Rightarrow> Fail | Some (v, n) \<Rightarrow> Ok (k + n, v))"
  using assms
proof (induction "5 - k" arbitrary: k)
  case 0
  then show ?case
    by (cases "drop k buf") (simp_all add: ReadVarInt_loop_step)
next
  case (Suc d)
  show ?case
  proof (cases "k < length buf")
    case False
    with Suc.prems show ?thesis by (simp add: ReadVarInt_loop_step)
  next
    case True
    then have dr: "drop k buf = buf ! k # drop (Suc k) buf"
      and tk: "take (Suc k) buf = take k buf @ [buf ! k]"
      by (simp_all add: Cons_nth_drop_Suc take_Suc_conv_app_nth)
    from Suc.hyps(2) have k5: "k < 5" by simp
    have step: "decodeVarInt_loop 0 0 (take (Suc k) buf) =
        decodeVarInt_loop 0 0 (take k buf) OR push_bit (7 * k) (ucast (buf ! k AND 0x7F))"
      using True by (simp add: tk decodeVarInt_loop_append)
    show ?thesis
    proof (cases "buf ! k AND 0x80 = 0")
      case True
      with k5 \<open>k < length buf\<close> show ?thesis
        by (simp add: ReadVarInt_loop_step [of "Suc k"] extra_byte_iff dr step decodeVarInt_def)
    next
      case False
      have "ReadVarInt_loop buf (min 5 (length buf)) (Suc (Suc k)) =
        (case varint_scan (Suc k) (decodeVarInt_loop 0 0 (take (Suc k) buf)) (drop (Suc k) buf) of
           None \<Rightarrow> Fail | Some (v, n) \<Rightarrow> Ok (Suc k + n, v))"
        using Suc.hyps \<open>k < length buf\<close> by simp
      with False k5 \<open>k < length buf\<close> show ?thesis
        by (simp add: ReadVarInt_loop_step [of "Suc k"] extra_byte_iff dr step Let_def
            split: option.splits prod.splits)
    qed
  qed
qed

lemma ReadVarInt_scan:
  "ReadVarInt buf =
     (case varint_scan 0 0 buf of None \<Rightarrow> Fail | Some (v, n) \<Rightarrow> Ok (n, v))"
proof -
  have "(if length buf < 5 then length buf else 5) = min 5 (length buf)" by simp
  then show ?thesis
    using ReadVarInt_loop_scan [of 0 buf] by (simp add: ReadVarInt_def split: option.splits)
qed

lemma varInt_loop_scan:
  "varint_scan i acc (unread r) = Some (v, n) \<Longrightarrow> varInt_loop i acc r = (Ok v, advance n r)"
  "varint_scan i acc (unread r) = None \<Longrightarrow> cursor_wf r \<Longrightarrow>
     \<exists>n. varInt_loop i acc r = (Fail, advance n r) \<and> n \<le> remaining r"
proof (induction i acc r arbitrary: v n rule: varInt_loop.induct)
  case (1 i acc r)
  let ?b = "cur_data r ! cur_pos r"
  let ?acc = "acc OR push_bit (7 * i) (ucast (?b AND 0x7F))"
  have un: "unread r = ?b # unread (advance 1 r)" if "cur_pos r < length (cur_data r)"
    using that by (simp add: unread_def Cons_nth_drop_Suc)
  note IH = "1.IH" [OF _ _ rd_index_next [symmetric] refl refl]
  { case 1
    then show ?case
      using un IH(1) [of "v" "n - 1"]
      by (cases "cur_pos r < length (cur_data r)")
        (auto simp: varInt_loop_step [of i] Let_def unread_def split: if_splits)
  next
    case 2
    show ?case
    proof (cases "i < 5 \<and> cur_pos r < length (cur_data r) \<and> ?b AND 0x80 \<noteq> 0")
      case True
      then have "varint_scan (Suc i) ?acc (unread (advance 1 r)) = None"
        using 2(1) un by (simp add: Let_def)
      moreover have "cursor_wf (advance 1 r)" using True by (simp add: cursor_wf_def)
      ultimately obtain n where n: "varInt_loop (Suc i) ?acc (advance 1 r) = (Fail, advance n (advance 1 r))"
        "n \<le> remaining (advance 1 r)"
        using True IH(2) by fastforce
      then have "varInt_loop i acc r = (Fail, advance (1 + n) r)"
        using True by (simp add: varInt_loop_step [of i] Let_def)
      moreover have "1 + n \<le> remaining r" using True n(2) by (auto simp: remaining_def)
      ultimately show ?thesis by blast
    next
      case False
      with 2(1) un have "varInt_loop i acc r = (Fail, advance 0 r)"
        by (cases "cur_pos r < length (cur_data r)")
          (auto simp: varInt_loop_step [of i] Let_def split: if_splits)
      then show ?thesis by (metis le0)
    qed }
qed

section \<open>Encoding\<close>

lemma seven_bits:
  fixes v :: "32 word"
  shows "take_bit (7 * i) v OR push_bit (7 * i) (drop_bit (7 * i) v AND 0x7F) = take_bit (7 * Suc i) v"
proof (rule bit_word_eqI)
  fix n assume n: "n < LENGTH(32)"
  have m: "(0x7F :: 32 word) = mask 7" by (simp add: mask_eq_exp_minus_1)
  show "bit (take_bit (7 * i) v OR push_bit (7 * i) (drop_bit (7 * i) v AND 0x7F)) n =
      bit (take_bit (7 * Suc i) v) n"
    using n by (auto simp: bit_simps m)
qed

lemma low_byte_bits:
  fixes u :: "32 word"
  shows "ucast ((ucast (u AND 0x7F) :: byte) AND 0x7F) = u AND 0x7F"
    and "ucast (((ucast (u AND 0x7F) :: byte) OR 0x80) AND 0x7F) = u AND 0x7F"
    and "(ucast (u AND 0x7F) :: byte) AND 0x80 = 0"
    and "((ucast (u AND 0x7F) :: byte) OR 0x80) AND 0x80 \<noteq> 0"
proof -
  have m: "(0x7F :: 32 word) = mask 7" "(0x7F :: byte) = mask 7" "(0x80 :: byte) = push_bit 7 1"
    by (simp_all add: mask_eq_exp_minus_1 push_bit_of_1)
  show "ucast ((ucast (u AND 0x7F) :: byte) AND 0x7F) = u AND 0x7F"
    unfolding m by (rule bit_word_eqI) (auto simp: bit_simps)
  show "ucast (((ucast (u AND 0x7F) :: byte) OR 0x80) AND 0x7F) = u AND 0x7F"
    unfolding m by (rule bit_word_eqI) (auto simp del: push_bit_of_1 simp: bit_simps)
  show "(ucast (u AND 0x7F) :: byte) AND 0x80 = 0"
    unfolding m by (rule bit_word_eqI) (auto simp del: push_bit_of_1 simp: bit_simps)
  have "bit (((ucast (u AND 0x7F) :: byte) OR 0x80) AND 0x80) 7"
    unfolding m by (auto simp del: push_bit_of_1 simp: bit_simps)
  then show "((ucast (u AND 0x7F) :: byte) OR 0x80) AND 0x80 \<noteq> 0" by auto
qed

lemma varint_scan_encode:
  assumes "i < 5" and "acc = take_bit (7 * i) v" and "u = drop_bit (7 * i) v"
  shows "varint_scan i acc (EncodeVarInt_loop u @ rest) = Some (v, length (EncodeVarInt_loop u)) \<and>
    length (EncodeVarInt_loop u) + i \<le> 5"
  using assms
proof (induction u arbitrary: i acc rule: EncodeVarInt_loop.induct)
  case (1 u)
  let ?u = "drop_bit 7 u"
  have u': "?u = drop_bit (7 * Suc i) v" by (simp add: "1.prems" ac_simps)
  have acc': "acc OR push_bit (7 * i) (u AND 0x7F) = take_bit (7 * Suc i) v"
    using "1.prems" seven_bits by simp
  show ?case
  proof (cases "?u = 0")
    case True
    then have "take_bit (7 * Suc i) v = v"
      using u' by (metis bits_ident or.right_neutral push_bit_of_0 add.left_neutral)
    with True "1.prems"(1) acc' show ?thesis
      by (simp add: EncodeVarInt_loop.simps [of u] low_byte_bits)
  next
    case False
    have "Suc i < 5"
    proof (rule ccontr)
      assume "\<not> Suc i < 5"
      then have "drop_bit (7 * Suc i) v = 0"
        by (intro bit_word_eqI) (auto simp: bit_simps dest: bit_imp_le_length)
      with False u' show False by simp
    qed
    from "1.IH" [OF refl refl False this refl u'] False "1.prems"(1) acc' show ?thesis
      by (simp add: EncodeVarInt_loop.simps [of u] low_byte_bits Let_def)
  qed
qed

lemma varint_scan_EncodeVarInt:
  "varint_scan 0 0 (EncodeVarInt v @ rest) = Some (v, length (EncodeVarInt v))"
  using varint_scan_encode [of 0 0 v v rest] by (simp add: EncodeVarInt_def)

lemma length_EncodeVarInt: "1 \<le> length (EncodeVarInt v)" "length (EncodeVarInt v) \<le> 5"
  using varint_scan_encode [of 0 0 v v "[]"] varint_scan_bounds [of 0 0 "EncodeVarInt v" v]
  by (simp_all add: EncodeVarInt_def)

lemma reads_varInt: "reads (varInt_loop 0 0) (EncodeVarInt v) v"
proof (rule readsI)
  fix pre post
  have "varint_scan 0 0 (unread (cursor_at (pre @ EncodeVarInt v @ post) (length pre))) =
      Some (v, length (EncodeVarInt v))"
    by (simp add: varint_scan_EncodeVarInt)
  from varInt_loop_scan(1) [OF this]
  show "varInt_loop 0 0 (cursor_at (pre @ EncodeVarInt v @ post) (length pre)) =
      (Ok v, cursor_at (pre @ EncodeVarInt v @ post) (length pre + length (EncodeVarInt v)))"
    by simp
qed

lemma varInt_loop_cases:
  assumes "cursor_wf r"
  obtains (Ok) v n where "varInt_loop i acc r = (Ok v, advance n r)" "n \<le> remaining r"
      "varint_scan i acc (unread r) = Some (v, n)"
    | (Fail) n where "varInt_loop i acc r = (Fail, advance n r)" "n \<le> remaining r"
proof (cases "varint_scan i acc (unread r)")
  case None
  with varInt_loop_scan(2) assms that(2) show ?thesis by blast
next
  case (Some p)
  obtain v n where p: "p = (v, n)" by fastforce
  with Some varint_scan_bounds have "n \<le> remaining r" by fastforce
  with Some p varInt_loop_scan(1) that(1) show ?thesis by simp
qed

lemma stays_inside_varInt_loop [cursor_ok]: "stays_inside (varInt_loop i acc)"
proof (rule stays_insideI)
  fix r x r' assume wf: "cursor_wf r" and run: "varInt_loop i acc r = (x, r')"
  from wf show "\<not> is_Panic x \<and> cursor_wf r' \<and> cur_data r' = cur_data r \<and> cur_pos r \<le> cur_pos r'"
    by (rule varInt_loop_cases [of r i acc]) (use run wf in \<open>auto simp: cursor_wf_advance\<close>)
qed

section \<open>How long an encoding is\<close>

lemma unat_drop_seven: "unat (drop_bit 7 (u :: u32)) = unat u div 2 ^ 7"
  unfolding unat_drop_bit_eq by (rule drop_bit_eq_div)

lemma length_EncodeVarInt_loop:
  "length (EncodeVarInt_loop u) \<le> Suc k \<longleftrightarrow> unat u < 2 ^ (7 * Suc k)"
proof (induction k arbitrary: u)
  case 0
  have "drop_bit 7 u = 0 \<longleftrightarrow> unat u < 2 ^ 7"
    unfolding unat_eq_0 [symmetric] unat_drop_seven by (simp add: div_eq_0_iff)
  then show ?case
    by (subst EncodeVarInt_loop.simps) (auto simp: Let_def Suc_le_eq EncodeVarInt_loop.simps [of "drop_bit 7 u"])
next
  case (Suc k)
  have "unat (drop_bit 7 u) < 2 ^ (7 * Suc k) \<longleftrightarrow> unat u < 2 ^ (7 * Suc (Suc k))"
    unfolding unat_drop_seven by (simp add: div_less_iff_less_mult power_add)
  moreover have "unat u < 2 ^ (7 * Suc (Suc k))" if "drop_bit 7 u = 0"
  proof -
    from that have "unat u div 2 ^ 7 = 0" unfolding unat_drop_seven [symmetric] by simp
    then have "unat u < 2 ^ 7" by (simp add: div_eq_0_iff)
    also have "(2 :: nat) ^ 7 \<le> 2 ^ (7 * Suc (Suc k))" by (rule power_increasing) simp_all
    finally show ?thesis .
  qed
  ultimately show ?case
    using Suc.IH [of "drop_bit 7 u"]
    by (subst EncodeVarInt_loop.simps) (auto simp: Let_def)
qed

lemma length_EncodeVarInt_le: "length (EncodeVarInt v) \<le> Suc k \<longleftrightarrow> unat v < 2 ^ (7 * Suc k)"
  by (simp only: EncodeVarInt_def length_EncodeVarInt_loop)

lemma EncodeVarInt_nonempty [simp]: "EncodeVarInt v \<noteq> []"
  using length_EncodeVarInt(1) [of v] by auto

text \<open>A proper prefix of an encoding is not a number.\<close>

lemma varint_scan_prefix:
  "k < length (EncodeVarInt_loop u) \<Longrightarrow> varint_scan i acc (take k (EncodeVarInt_loop u)) = None"
proof (induction u arbitrary: i acc k rule: EncodeVarInt_loop.induct)
  case (1 u)
  show ?case
  proof (cases k)
    case 0
    then show ?thesis by simp
  next
    case (Suc m)
    with "1.prems" have u: "drop_bit 7 u \<noteq> 0" and m: "m < length (EncodeVarInt_loop (drop_bit 7 u))"
      by (auto simp: EncodeVarInt_loop.simps [of u] Let_def split: if_splits)
    note "1.IH" [OF refl refl u m]
    with u Suc show ?thesis
      by (simp add: EncodeVarInt_loop.simps [of u] Let_def low_byte_bits)
  qed
qed

end
