(* ===== verification/Go_Float.thy ===== *)
theory Go_Float
  imports Lazygate_Prelude
begin

text \<open>
  Go's conversions between \<^verbatim>\<open>float32\<close> and \<^verbatim>\<open>float64\<close> on IEEE-754 bit patterns. NBT keeps a float
  tag as a \<^verbatim>\<open>float64\<close> and writes it as a \<^verbatim>\<open>float32\<close>, so the conversions are part of its wire
  behaviour. Narrowing rounds to the nearest value, ties to even; a NaN keeps its upper payload bits
  and becomes quiet, as the hardware conversion makes it.

  Shown here: narrowing undoes widening on every \<^verbatim>\<open>float32\<close> that is not a signalling NaN.
\<close>

type_synonym f32 = "32 word"
type_synonym f64 = "64 word"

section \<open>Definitions\<close>

fun top_bit :: "nat \<Rightarrow> nat" where
  "top_bit n = (if n < 2 then 0 else Suc (top_bit (n div 2)))"

declare top_bit.simps [simp del]

text \<open>Divide by \<open>2 ^ s\<close>, to nearest, ties to even.\<close>

definition round_even :: "nat \<Rightarrow> nat \<Rightarrow> nat" where
  "round_even n s =
     (let q = n div 2 ^ s; r = n mod 2 ^ s
      in if 2 ^ s < 2 * r \<or> (2 ^ s = 2 * r \<and> odd q) then Suc q else q)"

definition widen_nat :: "nat \<Rightarrow> nat \<Rightarrow> nat" where
  "widen_nat e m =
     (if e = 255 then
        2047 * 2 ^ 52 + (if m = 0 then 0 else (if m < 2 ^ 22 then m + 2 ^ 22 else m) * 2 ^ 29)
      else if e = 0 then
        (if m = 0 then 0 else (top_bit m + 874) * 2 ^ 52 + (m - 2 ^ top_bit m) * 2 ^ (52 - top_bit m))
      else (e + 896) * 2 ^ 52 + m * 2 ^ 29)"

definition narrow_nat :: "nat \<Rightarrow> nat \<Rightarrow> nat" where
  "narrow_nat e m =
     (if e = 2047 then
        255 * 2 ^ 23 + (if m = 0 then 0 else (let p = m div 2 ^ 29 in if p < 2 ^ 22 then p + 2 ^ 22 else p))
      else if e = 0 then 0
      else if 897 \<le> e then
        (let n = (e - 897) * 2 ^ 23 + round_even (2 ^ 52 + m) 29
         in if 255 * 2 ^ 23 \<le> n then 255 * 2 ^ 23 else n)
      else round_even (2 ^ 52 + m) (29 + (897 - e)))"

definition float64_of_float32 :: "f32 \<Rightarrow> f64" where
  "float64_of_float32 x =
     (let b = unat x
      in word_of_nat ((b div 2 ^ 31) * 2 ^ 63 + widen_nat ((b div 2 ^ 23) mod 2 ^ 8) (b mod 2 ^ 23)))"

definition float32_of_float64 :: "f64 \<Rightarrow> f32" where
  "float32_of_float64 x =
     (let b = unat x
      in word_of_nat ((b div 2 ^ 63) * 2 ^ 31 + narrow_nat ((b div 2 ^ 52) mod 2 ^ 11) (b mod 2 ^ 52)))"

definition signalling32 :: "f32 \<Rightarrow> bool" where
  "signalling32 x =
     (let b = unat x
      in (b div 2 ^ 23) mod 2 ^ 8 = 255 \<and> 0 < b mod 2 ^ 23 \<and> b mod 2 ^ 23 < 2 ^ 22)"

section \<open>Lemmas\<close>

lemma top_bit_bounds: "0 < n \<Longrightarrow> 2 ^ top_bit n \<le> n \<and> n < 2 ^ Suc (top_bit n)"
proof (induction n rule: top_bit.induct)
  case (1 n)
  show ?case
  proof (cases "n < 2")
    case True
    with "1.prems" have "n = 1" by simp
    then show ?thesis by (simp add: top_bit.simps)
  next
    case False
    with "1.IH" have "2 ^ top_bit (n div 2) \<le> n div 2 \<and> n div 2 < 2 ^ Suc (top_bit (n div 2))" by simp
    with False show ?thesis by (subst (1 2) top_bit.simps) auto
  qed
qed

lemma top_bit_less: "0 < n \<Longrightarrow> n < 2 ^ k \<Longrightarrow> top_bit n < k"
  using top_bit_bounds [of n] by (metis le_less_trans nat_power_less_imp_less zero_less_numeral)

lemma round_even_exact [simp]: "round_even (q * 2 ^ s) s = q"
  by (simp add: round_even_def Let_def)

lemma widen_split:
  assumes "e < 2 ^ 8" and "m < 2 ^ 23"
  shows "widen_nat e m < 2 ^ 63"
    and "narrow_nat ((widen_nat e m div 2 ^ 52) mod 2 ^ 11) (widen_nat e m mod 2 ^ 52) =
      e * 2 ^ 23 + (if e = 255 \<and> 0 < m \<and> m < 2 ^ 22 then m + 2 ^ 22 else m)"
proof -
  have fields: "E * 2 ^ 52 + M < 2 ^ 63" "((E * 2 ^ 52 + M) div 2 ^ 52) mod 2 ^ 11 = E"
    "(E * 2 ^ 52 + M) mod 2 ^ 52 = M" if "E < 2 ^ 11" "M < 2 ^ 52" for E M :: nat
    using that by simp_all
  consider "e = 255" | "e = 0" "m = 0" | "e = 0" "0 < m" | "0 < e" "e < 255"
    using assms(1) by fastforce
  then have "widen_nat e m < 2 ^ 63 \<and>
    narrow_nat ((widen_nat e m div 2 ^ 52) mod 2 ^ 11) (widen_nat e m mod 2 ^ 52) =
      e * 2 ^ 23 + (if e = 255 \<and> 0 < m \<and> m < 2 ^ 22 then m + 2 ^ 22 else m)"
  proof cases
    case 1
    define q where "q = (if 0 < m \<and> m < 2 ^ 22 then m + 2 ^ 22 else m)"
    have w: "widen_nat e m = 2047 * 2 ^ 52 + q * 2 ^ 29" using 1 by (simp add: widen_nat_def q_def)
    have q: "q * 2 ^ 29 < 2 ^ 52" "q = 0 \<or> \<not> q < 2 ^ 22" using assms(2) by (simp_all add: q_def)
    have "narrow_nat 2047 (q * 2 ^ 29) = 255 * 2 ^ 23 + q" using q(2) by (auto simp: narrow_nat_def)
    then show ?thesis using fields [of 2047, OF _ q(1)] 1 unfolding w by (simp add: q_def)
  next
    case 2
    then show ?thesis by (simp add: widen_nat_def narrow_nat_def)
  next
    case 3
    let ?k = "top_bit m"
    have k: "?k < 23" "2 ^ ?k \<le> m" "m < 2 ^ Suc ?k"
      using top_bit_less [OF 3(2) assms(2)] top_bit_bounds [OF 3(2)] by auto
    have pow: "2 ^ ?k * 2 ^ (52 - ?k) = (2 ^ 52 :: nat)"
      using k(1) by (simp add: power_add [symmetric] del: power_numeral)
    have M: "(m - 2 ^ ?k) * 2 ^ (52 - ?k) < 2 ^ 52"
      using k(3) unfolding pow [symmetric] by simp
    have sig: "2 ^ 52 + (m - 2 ^ ?k) * 2 ^ (52 - ?k) = m * 2 ^ (52 - ?k)"
      using k(2) unfolding pow [symmetric] by (simp add: add_mult_distrib [symmetric])
    have E: "?k + 874 < 2 ^ 11" using k(1) by simp
    have w: "widen_nat e m = (?k + 874) * 2 ^ 52 + (m - 2 ^ ?k) * 2 ^ (52 - ?k)"
      using 3 by (simp add: widen_nat_def)
    have s: "29 + (897 - (?k + 874)) = 52 - ?k" using k(1) by simp
    have "narrow_nat (?k + 874) ((m - 2 ^ ?k) * 2 ^ (52 - ?k)) = m"
      unfolding narrow_nat_def sig s using k(1) by simp
    then show ?thesis using fields [OF E M] 3 unfolding w by simp
  next
    case 4
    have M: "m * 2 ^ 29 < 2 ^ 52" using assms(2) by simp
    have E: "e + 896 < 2 ^ 11" using 4 by simp
    have sig: "2 ^ 52 + m * 2 ^ 29 = (2 ^ 23 + m) * 2 ^ 29" by simp
    have "narrow_nat (e + 896) (m * 2 ^ 29) = e * 2 ^ 23 + m"
      unfolding narrow_nat_def sig round_even_exact using 4 assms(2) by (auto simp: Let_def)
    moreover have "widen_nat e m = (e + 896) * 2 ^ 52 + m * 2 ^ 29" using 4 by (simp add: widen_nat_def)
    ultimately show ?thesis using fields [OF E M] 4 by simp
  qed
  then show "widen_nat e m < 2 ^ 63"
    "narrow_nat ((widen_nat e m div 2 ^ 52) mod 2 ^ 11) (widen_nat e m mod 2 ^ 52) =
      e * 2 ^ 23 + (if e = 255 \<and> 0 < m \<and> m < 2 ^ 22 then m + 2 ^ 22 else m)" by blast+
qed

lemma float32_fields:
  fixes x :: f32
  defines "b \<equiv> unat x"
  shows "b = (b div 2 ^ 31) * 2 ^ 31 + (((b div 2 ^ 23) mod 2 ^ 8) * 2 ^ 23 + b mod 2 ^ 23)"
    and "b div 2 ^ 31 < 2"
proof -
  define h where "h = b div 2 ^ 23"
  have top: "b div 2 ^ 31 = h div 2 ^ 8" by (simp add: h_def div_mult2_eq [symmetric])
  have "b = h * 2 ^ 23 + b mod 2 ^ 23" unfolding h_def by (rule div_mult_mod_eq [symmetric])
  moreover have "h = h div 2 ^ 8 * 2 ^ 8 + h mod 2 ^ 8" by (rule div_mult_mod_eq [symmetric])
  moreover have "B = H * 2 ^ 23 + m \<Longrightarrow> H = p * 2 ^ 8 + q \<Longrightarrow> B = p * 2 ^ 31 + (q * 2 ^ 23 + m)"
    for B H m p q :: nat by simp
  ultimately have "b = (h div 2 ^ 8) * 2 ^ 31 + ((h mod 2 ^ 8) * 2 ^ 23 + b mod 2 ^ 23)" by blast
  then show "b = (b div 2 ^ 31) * 2 ^ 31 + (((b div 2 ^ 23) mod 2 ^ 8) * 2 ^ 23 + b mod 2 ^ 23)"
    unfolding top h_def .
  have "b < 2 ^ 32" unfolding b_def using unsigned_less [of x, where 'a = nat] by simp
  then show "b div 2 ^ 31 < 2" by simp
qed

lemma float32_of_widened:
  "float32_of_float64 (float64_of_float32 x) = (if signalling32 x then x + 2 ^ 22 else x)"
proof -
  define b where "b = unat x"
  define s e m where "s = b div 2 ^ 31" and "e = (b div 2 ^ 23) mod 2 ^ 8" and "m = b mod 2 ^ 23"
  have e: "e < 2 ^ 8" and m: "m < 2 ^ 23" by (simp_all add: e_def m_def)
  have b: "b = s * 2 ^ 31 + (e * 2 ^ 23 + m)" and s: "s < 2"
    using float32_fields [of x] unfolding b_def [symmetric] s_def e_def m_def by simp_all
  define W where "W = widen_nat e m"
  have W: "W < 2 ^ 63" unfolding W_def by (rule widen_split(1) [OF e m])
  have u: "unat (float64_of_float32 x) = s * 2 ^ 63 + W"
  proof -
    have "s * 2 ^ 63 + W < 2 ^ 64" using s W by simp
    then show ?thesis
      unfolding float64_of_float32_def Let_def b_def [symmetric] s_def [symmetric] e_def [symmetric]
        m_def [symmetric] W_def [symmetric]
      unfolding unat_of_nat by simp
  qed
  have parts: "(s * 2 ^ 63 + W) div 2 ^ 63 = s"
    "((s * 2 ^ 63 + W) div 2 ^ 52) mod 2 ^ 11 = (W div 2 ^ 52) mod 2 ^ 11"
    "(s * 2 ^ 63 + W) mod 2 ^ 52 = W mod 2 ^ 52"
  proof -
    show "(s * 2 ^ 63 + W) div 2 ^ 63 = s" using W by simp
    have split: "s * 2 ^ 63 + W = (s * 2 ^ 11) * 2 ^ 52 + W" by simp
    have "((s * 2 ^ 11) * 2 ^ 52 + W) div 2 ^ 52 = s * 2 ^ 11 + W div 2 ^ 52"
      by (rule div_mult_self3) simp
    then show "((s * 2 ^ 63 + W) div 2 ^ 52) mod 2 ^ 11 = (W div 2 ^ 52) mod 2 ^ 11"
      unfolding split by (simp only: mod_mult_self3)
    show "(s * 2 ^ 63 + W) mod 2 ^ 52 = W mod 2 ^ 52"
      unfolding split by (rule mod_mult_self3)
  qed
  have sg: "signalling32 x \<longleftrightarrow> e = 255 \<and> 0 < m \<and> m < 2 ^ 22"
    by (simp add: signalling32_def b_def [symmetric] e_def m_def)
  have "float32_of_float64 (float64_of_float32 x) =
      word_of_nat (s * 2 ^ 31 + (e * 2 ^ 23 + (if e = 255 \<and> 0 < m \<and> m < 2 ^ 22 then m + 2 ^ 22 else m)))"
    unfolding float32_of_float64_def Let_def u parts unfolding W_def widen_split(2) [OF e m] ..
  also have "\<dots> = word_of_nat b + (if signalling32 x then 2 ^ 22 else 0)"
    unfolding sg by (subst b) simp
  also have "word_of_nat b = x" by (simp add: b_def)
  finally show ?thesis by simp
qed

lemma widen_quieted:
  assumes "signalling32 x"
  shows "float64_of_float32 (x + 2 ^ 22) = float64_of_float32 x"
proof -
  define b where "b = unat x"
  define h where "h = b div 2 ^ 23"
  have e: "h mod 2 ^ 8 = 255" and m: "0 < b mod 2 ^ 23" "b mod 2 ^ 23 < 2 ^ 22"
    using assms by (simp_all add: signalling32_def b_def [symmetric] h_def)
  have lt: "b < 2 ^ 32" unfolding b_def using unsigned_less [of x, where 'a = nat] by simp
  have fields: "(b + 2 ^ 22) div 2 ^ 23 = h" "(b + 2 ^ 22) mod 2 ^ 23 = b mod 2 ^ 23 + 2 ^ 22"
  proof -
    define r where "r = b mod 2 ^ 23"
    have r: "r + 2 ^ 22 < 2 ^ 23" using m(2) unfolding r_def [symmetric] by simp
    have "b + 2 ^ 22 = h * 2 ^ 23 + (r + 2 ^ 22)"
      unfolding h_def r_def by (simp only: add.assoc [symmetric] div_mult_mod_eq)
    moreover have "(h * 2 ^ 23 + c) div 2 ^ 23 = h \<and> (h * 2 ^ 23 + c) mod 2 ^ 23 = c" if "c < 2 ^ 23" for c
      using that by simp
    ultimately show "(b + 2 ^ 22) div 2 ^ 23 = h" "(b + 2 ^ 22) mod 2 ^ 23 = b mod 2 ^ 23 + 2 ^ 22"
      using r unfolding r_def [symmetric] by (simp_all only:)
  qed
  have div31: "n div 2 ^ 31 = n div 2 ^ 23 div 2 ^ 8" for n :: nat by (simp add: div_mult2_eq [symmetric])
  have "b div 2 ^ 31 = (b + 2 ^ 22) div 2 ^ 31" unfolding div31 fields h_def ..
  moreover have "b + 2 ^ 22 < 2 ^ 32"
  proof -
    have "(b + 2 ^ 22) div 2 ^ 31 < 2" using lt unfolding calculation [symmetric] by simp
    then show ?thesis by simp
  qed
  then have u: "unat (x + 2 ^ 22) = b + 2 ^ 22"
    by (simp add: unat_word_ariths b_def [symmetric])
  moreover have "widen_nat 255 (b mod 2 ^ 23 + 2 ^ 22) = widen_nat 255 (b mod 2 ^ 23)"
    using m by (simp add: widen_nat_def)
  ultimately show ?thesis
    unfolding float64_of_float32_def Let_def u b_def [symmetric] fields e h_def [symmetric] by simp
qed

lemma widen_narrow_widen [simp]:
  "float64_of_float32 (float32_of_float64 (float64_of_float32 x)) = float64_of_float32 x"
  using widen_quieted [of x] by (cases "signalling32 x") (simp_all only: float32_of_widened if_True if_False)

end
