(* ===== verification/Wire.thy ===== *)
theory Wire
  imports VarInt Go_Float
begin

text \<open>
  The field encoders and decoders of the protocol package: \<^verbatim>\<open>PacketWriter\<close> of
  \<^verbatim>\<open>proto/encode.go\<close> and \<^verbatim>\<open>packetReader\<close> of \<^verbatim>\<open>proto/packets.go\<close>. A float is its IEEE-754 bit
  pattern, so \<^verbatim>\<open>math.Float32bits\<close> is the identity of the model.

  The locale \<open>field_reader\<close> is the contract every field reader of the program offers: the var-int and
  the length-prefixed string read back what the writer wrote and stay inside the buffer. The counted
  string lists of the Forge and join-game packets are proved against it once.
\<close>

section \<open>PacketWriter\<close>

record PacketWriter =
  pw_buf :: bytes

definition NewPacketWriter :: PacketWriter where
  "NewPacketWriter = \<lparr>pw_buf = []\<rparr>"

definition Bytes :: "PacketWriter \<Rightarrow> bytes" where
  "Bytes w = pw_buf w"

definition Write :: "PacketWriter \<Rightarrow> bytes \<Rightarrow> PacketWriter" where
  "Write w b = w\<lparr>pw_buf := pw_buf w @ b\<rparr>"

definition WriteU8 :: "PacketWriter \<Rightarrow> byte \<Rightarrow> PacketWriter" where
  "WriteU8 w b = w\<lparr>pw_buf := pw_buf w @ [b]\<rparr>"

definition WriteBool :: "PacketWriter \<Rightarrow> bool \<Rightarrow> PacketWriter" where
  "WriteBool w b =
     (if b then w\<lparr>pw_buf := pw_buf w @ [1]\<rparr> else w\<lparr>pw_buf := pw_buf w @ [0]\<rparr>)"

definition WriteInt16 :: "PacketWriter \<Rightarrow> 16 word \<Rightarrow> PacketWriter" where
  "WriteInt16 w v = w\<lparr>pw_buf := pw_buf w @ be16 v\<rparr>"

definition WriteUint16 :: "PacketWriter \<Rightarrow> u16 \<Rightarrow> PacketWriter" where
  "WriteUint16 w v = w\<lparr>pw_buf := pw_buf w @ be16 v\<rparr>"

definition WriteInt32 :: "PacketWriter \<Rightarrow> i32 \<Rightarrow> PacketWriter" where
  "WriteInt32 w v = w\<lparr>pw_buf := pw_buf w @ be32 v\<rparr>"

definition WriteUint32 :: "PacketWriter \<Rightarrow> u32 \<Rightarrow> PacketWriter" where
  "WriteUint32 w v = w\<lparr>pw_buf := pw_buf w @ be32 v\<rparr>"

definition WriteInt64 :: "PacketWriter \<Rightarrow> i64 \<Rightarrow> PacketWriter" where
  "WriteInt64 w v = w\<lparr>pw_buf := pw_buf w @ be64 v\<rparr>"

definition WriteUint64 :: "PacketWriter \<Rightarrow> u64 \<Rightarrow> PacketWriter" where
  "WriteUint64 w v = w\<lparr>pw_buf := pw_buf w @ be64 v\<rparr>"

definition WriteFloat32 :: "PacketWriter \<Rightarrow> f32 \<Rightarrow> PacketWriter" where
  "WriteFloat32 w v = WriteUint32 w v"

definition WriteFloat64 :: "PacketWriter \<Rightarrow> f64 \<Rightarrow> PacketWriter" where
  "WriteFloat64 w v = WriteUint64 w v"

definition WriteVarInt :: "PacketWriter \<Rightarrow> i32 \<Rightarrow> PacketWriter" where
  "WriteVarInt w v = Write w (EncodeVarInt v)"

definition WriteString :: "PacketWriter \<Rightarrow> string \<Rightarrow> PacketWriter" where
  "WriteString w s = Write (WriteVarInt w (word_of_nat (length s))) (bytes_of_string s)"

definition WriteByteArray :: "PacketWriter \<Rightarrow> bytes \<Rightarrow> PacketWriter" where
  "WriteByteArray w b = Write (WriteVarInt w (word_of_nat (length b))) b"

section \<open>packetReader\<close>

definition packetReader_remaining :: "cursor \<Rightarrow> nat" where
  "packetReader_remaining r = remaining r"

definition packetReader_varInt :: "i32 rd" where
  "packetReader_varInt = varInt_loop 0 0"

definition packetReader_bool :: "bool rd" where
  "packetReader_bool r =
     (if packetReader_remaining r < 1 then (Fail, r)
      else rd_bind rd_index (\<lambda>v. rd_return (v \<noteq> 0)) r)"

definition packetReader_u8 :: "byte rd" where
  "packetReader_u8 r = (if packetReader_remaining r < 1 then (Fail, r) else rd_index r)"

definition packetReader_u16 :: "u16 rd" where
  "packetReader_u16 r =
     (if packetReader_remaining r < 2 then (Fail, r)
      else rd_bind (rd_take 2) (\<lambda>b. rd_return (be_word b)) r)"

definition packetReader_i64 :: "i64 rd" where
  "packetReader_i64 r =
     (if packetReader_remaining r < 8 then (Fail, r)
      else rd_bind (rd_take 8) (\<lambda>b. rd_return (be_word b)) r)"

definition packetReader_u64 :: "u64 rd" where
  "packetReader_u64 r =
     (if packetReader_remaining r < 8 then (Fail, r)
      else rd_bind (rd_take 8) (\<lambda>b. rd_return (be_word b)) r)"

definition packetReader_str :: "nat \<Rightarrow> string rd" where
  "packetReader_str maxLen = rd_bind packetReader_varInt (\<lambda>n r.
     if sint n < 0 \<or> int (packetReader_remaining r) < sint n \<or> int maxLen < sint n then (Fail, r)
     else rd_bind (rd_take (nat (sint n))) (\<lambda>b. rd_return (string_of_bytes b)) r)"

definition packetReader_rest :: "bytes rd" where
  "packetReader_rest r =
     (case go_slice (cur_data r) (int (cur_pos r)) (int (length (cur_data r))) of
        Ok b \<Rightarrow> (Ok b, r\<lparr>cur_pos := length (cur_data r)\<rparr>)
      | _ \<Rightarrow> (Panic, r))"

lemma packetReader_rest_wf: "cursor_wf r \<Longrightarrow> packetReader_rest r = (Ok (unread r), r\<lparr>cur_pos := length (cur_data r)\<rparr>)"
  by (simp add: packetReader_rest_def cursor_wf_def unread_def)

text \<open>The readers without Go's checks of each index: the guards before them make sure that none fails.\<close>

lemma packetReader_bool_eq:
  "packetReader_bool r =
     (if packetReader_remaining r < 1 then (Fail, r) else (Ok (cur_data r ! cur_pos r \<noteq> 0), advance 1 r))"
  by (simp add: packetReader_bool_def packetReader_remaining_def rd_bind_def rd_return_def rd_index_inside)

lemma packetReader_u8_eq:
  "packetReader_u8 r = (if packetReader_remaining r < 1 then (Fail, r) else (Ok (cur_data r ! cur_pos r), advance 1 r))"
  by (simp add: packetReader_u8_def packetReader_remaining_def rd_index_inside)

lemma packetReader_fixed_eq:
  "packetReader_u16 r = (if remaining r < 2 then (Fail, r) else (Ok (be_word (take 2 (unread r))), advance 2 r))"
  "packetReader_i64 r = (if remaining r < 8 then (Fail, r) else (Ok (be_word (take 8 (unread r))), advance 8 r))"
  "packetReader_u64 r = (if remaining r < 8 then (Fail, r) else (Ok (be_word (take 8 (unread r))), advance 8 r))"
  by (simp_all add: packetReader_u16_def packetReader_i64_def packetReader_u64_def packetReader_remaining_def
      rd_bind_def rd_return_def rd_take_inside)

section \<open>What the writer appends\<close>

definition wire_bool :: "bool \<Rightarrow> bytes" where
  "wire_bool b = [if b then 1 else 0]"

definition wire_string :: "string \<Rightarrow> bytes" where
  "wire_string s = EncodeVarInt (word_of_nat (length s)) @ bytes_of_string s"

definition wire_byte_array :: "bytes \<Rightarrow> bytes" where
  "wire_byte_array b = EncodeVarInt (word_of_nat (length b)) @ b"

lemma PacketWriter_appends [wire_simps]:
  "pw_buf NewPacketWriter = []"
  "pw_buf (Write w b) = pw_buf w @ b"
  "pw_buf (WriteU8 w c) = pw_buf w @ [c]"
  "pw_buf (WriteBool w q) = pw_buf w @ wire_bool q"
  "pw_buf (WriteInt16 w v16) = pw_buf w @ be16 v16"
  "pw_buf (WriteUint16 w v16) = pw_buf w @ be16 v16"
  "pw_buf (WriteInt32 w v32) = pw_buf w @ be32 v32"
  "pw_buf (WriteUint32 w v32) = pw_buf w @ be32 v32"
  "pw_buf (WriteInt64 w v64) = pw_buf w @ be64 v64"
  "pw_buf (WriteUint64 w v64) = pw_buf w @ be64 v64"
  "pw_buf (WriteFloat32 w v32) = pw_buf w @ be32 v32"
  "pw_buf (WriteFloat64 w v64) = pw_buf w @ be64 v64"
  "pw_buf (WriteVarInt w v32) = pw_buf w @ EncodeVarInt v32"
  "pw_buf (WriteString w s) = pw_buf w @ wire_string s"
  "pw_buf (WriteByteArray w b) = pw_buf w @ wire_byte_array b"
  "Bytes w = pw_buf w"
  by (simp_all add: NewPacketWriter_def Write_def WriteU8_def WriteBool_def WriteInt16_def
      WriteUint16_def WriteInt32_def WriteUint32_def WriteInt64_def WriteUint64_def
      WriteFloat32_def WriteFloat64_def WriteVarInt_def WriteString_def WriteByteArray_def
      Bytes_def wire_bool_def wire_string_def wire_byte_array_def)

lemma fold_WriteString [wire_simps]:
  "pw_buf (foldl (\<lambda>w s. WriteString w s) w xs) = pw_buf w @ concat (map wire_string xs)"
  by (induction xs arbitrary: w) (simp_all add: wire_simps)

section \<open>What the reader yields\<close>

lemma reads_fixed:
  assumes "length bs = n" and "conv bs = v"
  shows "reads (\<lambda>r. if remaining r < n then (Fail, r) else (Ok (conv (take n (unread r))), advance n r)) bs v"
proof (rule readsI)
  fix pre post
  have "remaining (cursor_at (pre @ bs @ post) (length pre)) = length bs + length post" by simp
  with assms show "(if remaining (cursor_at (pre @ bs @ post) (length pre)) < n
      then (Fail, cursor_at (pre @ bs @ post) (length pre))
      else (Ok (conv (take n (unread (cursor_at (pre @ bs @ post) (length pre))))),
            advance n (cursor_at (pre @ bs @ post) (length pre)))) =
      (Ok v, cursor_at (pre @ bs @ post) (length pre + length bs))"
    by auto
qed

lemma stays_inside_fixed:
  "stays_inside (\<lambda>r. if remaining r < n then (Fail, r) else (Ok (f r), advance n r))"
  by (rule stays_insideI) (auto simp: cursor_wf_advance split: if_splits)

lemma first_byte: "0 < remaining r \<Longrightarrow> cur_data r ! cur_pos r = hd (take (Suc 0) (unread r))"
  by (simp add: unread_def remaining_def hd_drop_conv_nth)

lemma single_byte_reader:
  "(\<lambda>r. if remaining r < 1 then (Fail, r) else (Ok (f (cur_data r ! cur_pos r)), advance 1 r)) =
   (\<lambda>r. if remaining r < 1 then (Fail, r) else (Ok ((\<lambda>b. f (hd b)) (take 1 (unread r))), advance 1 r))"
  by (rule ext) (simp add: first_byte)

lemma reads_packetReader_varInt [reads_intro]: "reads packetReader_varInt (EncodeVarInt v) v"
  by (simp add: packetReader_varInt_def reads_varInt)

lemma reads_packetReader_bool [reads_intro]: "reads packetReader_bool (wire_bool b) b"
  unfolding packetReader_bool_eq packetReader_remaining_def single_byte_reader [where f = "\<lambda>x. x \<noteq> 0"]
  by (rule reads_fixed) (simp_all add: wire_bool_def)

lemma reads_packetReader_u8 [reads_intro]: "reads packetReader_u8 [b] b"
  unfolding packetReader_u8_eq packetReader_remaining_def single_byte_reader [where f = "\<lambda>x. x"]
  by (rule reads_fixed) simp_all

lemma reads_packetReader_u16 [reads_intro]: "reads packetReader_u16 (be16 v) v"
  unfolding packetReader_fixed_eq by (rule reads_fixed) simp_all

lemma reads_packetReader_i64 [reads_intro]: "reads packetReader_i64 (be64 v) v"
  unfolding packetReader_fixed_eq by (rule reads_fixed) simp_all

lemma reads_packetReader_u64 [reads_intro]: "reads packetReader_u64 (be64 v) v"
  unfolding packetReader_fixed_eq by (rule reads_fixed) simp_all

lemma reads_end_rest [reads_intro]: "reads_end packetReader_rest bs bs"
  by (simp add: reads_end_def packetReader_rest_wf cursor_wf_def cursor_at_def unread_def)

lemma stays_inside_packetReader [cursor_ok]:
  "stays_inside packetReader_varInt" "stays_inside packetReader_bool" "stays_inside packetReader_u8"
  "stays_inside packetReader_u16" "stays_inside packetReader_i64" "stays_inside packetReader_u64"
  unfolding packetReader_varInt_def packetReader_bool_eq packetReader_u8_eq packetReader_fixed_eq
    packetReader_remaining_def
  by (rule stays_inside_varInt_loop stays_inside_fixed)+

lemma stays_inside_rest [cursor_ok]: "stays_inside packetReader_rest"
  by (simp add: stays_inside_def packetReader_rest_def cursor_wf_def go_slice_def)

text \<open>Length-prefixed strings, for any reader that checks the length against what is left.\<close>

definition str_body :: "(nat \<Rightarrow> bool) \<Rightarrow> i32 \<Rightarrow> string rd" where
  "str_body within n r =
     (if sint n < 0 \<or> int (remaining r) < sint n \<or> \<not> within (nat (sint n)) then (Fail, r)
      else (Ok (string_of_bytes (take (nat (sint n)) (unread r))), advance (nat (sint n)) r))"

lemma reads_str_body:
  assumes "within (length s)" and "length s < 2 ^ 31"
  shows "reads (str_body within (word_of_nat (length s))) (bytes_of_string s) s"
  using assms by (intro readsI) (simp add: str_body_def sint_of_length)

lemma stays_inside_str_body [cursor_ok]: "stays_inside (str_body within n)"
  by (rule stays_insideI)
    (auto simp: str_body_def cursor_wf_advance nat_le_iff split: if_splits)

section \<open>The contract of a field reader\<close>

locale field_reader =
  fixes varInt :: "i32 rd" and str :: "string rd" and within :: "nat \<Rightarrow> bool"
  assumes varInt_reads: "reads varInt (EncodeVarInt v) v"
    and varInt_inside: "stays_inside varInt"
    and str_reads: "within (length s) \<Longrightarrow> length s < 2 ^ 31 \<Longrightarrow> reads str (wire_string s) s"
    and str_inside: "stays_inside str"
begin

text \<open>A non-negative count followed by that many elements.\<close>

lemma counted_reads:
  assumes "\<And>x. x \<in> set xs \<Longrightarrow> reads elem (enc x) x" and "length xs < 2 ^ 31"
  shows "reads (rd_bind varInt (\<lambda>n. rd_guard (\<not> sint n < 0) (rd_repeat (nat (sint n)) elem)))
    (EncodeVarInt (word_of_nat (length xs)) @ concat (map enc xs)) xs"
  by (rule reads_bind [OF varInt_reads])
    (use assms in \<open>simp add: sint_of_length reads_guard reads_repeat\<close>)

lemma counted_inside:
  "stays_inside elem \<Longrightarrow>
   stays_inside (rd_bind varInt (\<lambda>n. rd_guard (\<not> sint n < 0) (rd_repeat (nat (sint n)) elem)))"
  by (intro cursor_ok varInt_inside)

lemma string_list_reads:
  assumes "\<And>s. s \<in> set xs \<Longrightarrow> within (length s) \<and> length s < 2 ^ 31" and "length xs < 2 ^ 31"
  shows "reads (rd_bind varInt (\<lambda>n. rd_guard (\<not> sint n < 0) (rd_repeat (nat (sint n)) str)))
    (EncodeVarInt (word_of_nat (length xs)) @ concat (map wire_string xs)) xs"
  by (rule counted_reads) (use assms str_reads in auto)

lemma string_pair_reads:
  assumes "within (length a)" "length a < 2 ^ 31" "within (length b)" "length b < 2 ^ 31"
  shows "reads (rd_bind str (\<lambda>a. rd_bind str (\<lambda>b. rd_return (a, b)))) (wire_string a @ wire_string b) (a, b)"
  by (rule reads_bind [OF str_reads [OF assms(1,2)]])
    (rule reads_map [where f = "\<lambda>b. (a, b)", OF str_reads [OF assms(3,4)]])

end

lemma varInt_loop_inside: "varInt_loop i acc r = (Ok v, r') \<Longrightarrow> cursor_wf r'"
  by (induction i acc r rule: varInt_loop.induct)
    (subst (asm) (2) varInt_loop_step, auto simp: rd_index_next cursor_wf_def Let_def split: if_splits)

lemma packetReader_str_body:
  "packetReader_str maxLen = rd_bind packetReader_varInt (str_body (\<lambda>n. n \<le> maxLen))"
proof
  fix r
  obtain x r' where v: "packetReader_varInt r = (x, r')" by fastforce
  have "cursor_wf r'" if "x = Ok n" for n
    using v that by (auto simp: packetReader_varInt_def dest: varInt_loop_inside)
  then show "packetReader_str maxLen r = rd_bind packetReader_varInt (str_body (\<lambda>n. n \<le> maxLen)) r"
    by (cases x) (auto simp: packetReader_str_def rd_bind_def v str_body_def packetReader_remaining_def rd_return_def
        rd_take_inside nat_le_iff)
qed

lemma reads_packetReader_str [reads_intro]:
  assumes "length s \<le> maxLen" and "length s < 2 ^ 31"
  shows "reads (packetReader_str maxLen) (wire_string s) s"
  unfolding packetReader_str_body wire_string_def
  by (rule reads_bind, rule reads_packetReader_varInt, rule reads_str_body) (use assms in auto)

lemma stays_inside_packetReader_str [cursor_ok]: "stays_inside (packetReader_str maxLen)"
  unfolding packetReader_str_body by (intro cursor_ok)

text \<open>One field of a packet: the rules that walk a decoder along the bytes of its encoder.\<close>

lemmas packet_step =
  reads_bind [OF reads_packetReader_varInt] reads_bind [OF reads_packetReader_bool]
  reads_bind [OF reads_packetReader_u8] reads_bind [OF reads_packetReader_u16]
  reads_bind [OF reads_packetReader_i64] reads_bind [OF reads_packetReader_u64]
  reads_bind [OF reads_packetReader_str] reads_done

lemma rest_step: "f bs = rd_return v \<Longrightarrow> reads_end (rd_bind packetReader_rest f) bs v"
  by (simp add: reads_end_def rd_bind_def packetReader_rest_wf cursor_wf_def rd_return_def unread_def cursor_at_def)

lemmas packet_end_step =
  reads_end_bind [OF reads_packetReader_varInt] reads_end_bind [OF reads_packetReader_bool]
  reads_end_bind [OF reads_packetReader_str] rest_step

interpretation packet_reader: field_reader packetReader_varInt "packetReader_str maxLen" "\<lambda>n. n \<le> maxLen"
  for maxLen
  by unfold_locales (simp_all add: reads_intro cursor_ok)

end
