(* ===== verification/Packets.thy ===== *)
theory Packets
  imports Wire
begin

text \<open>
  The login and status packets of \<^verbatim>\<open>proto/packets.go\<close> and the per-connection data of
  \<^verbatim>\<open>proto/client.go\<close>: handshake, login start, login plugin request and response, set compression,
  ping, and the client's protocol state and identity. A decoder returns \<open>Fail\<close> where the Go code
  returns an error.

  Shown here: every decoder inverts the encoder of its packet, none of them panics on any input, and
  the strings they accept respect the length limits the decoder asks for.
\<close>

section \<open>Packet identifiers\<close>

definition PacketHandshake :: byte where "PacketHandshake = 0x00"
definition PacketServerStatusRequest :: byte where "PacketServerStatusRequest = 0x00"
definition PacketServerPing :: byte where "PacketServerPing = 0x01"
definition PacketClientStatusResponse :: byte where "PacketClientStatusResponse = 0x00"
definition PacketClientPing :: byte where "PacketClientPing = 0x01"
definition PacketServerLoginStart :: byte where "PacketServerLoginStart = 0x00"
definition PacketServerEncryptionResponse :: byte where "PacketServerEncryptionResponse = 0x01"
definition PacketServerLoginPluginResponse :: byte where "PacketServerLoginPluginResponse = 0x02"
definition PacketClientLoginDisconnect :: byte where "PacketClientLoginDisconnect = 0x00"
definition PacketClientEncryptionRequest :: byte where "PacketClientEncryptionRequest = 0x01"
definition PacketClientLoginSuccess :: byte where "PacketClientLoginSuccess = 0x02"
definition PacketClientSetCompression :: byte where "PacketClientSetCompression = 0x03"
definition PacketClientLoginPluginRequest :: byte where "PacketClientLoginPluginRequest = 0x04"
definition PacketGameDisconnect :: byte where "PacketGameDisconnect = 0x1A"

section \<open>Packets\<close>

record Handshake =
  hs_ProtocolVersion :: i32
  hs_ServerAddr :: string
  hs_ServerPort :: u16
  hs_NextState :: i32

definition Handshake_Encode :: "Handshake \<Rightarrow> PacketWriter \<Rightarrow> PacketWriter" where
  "Handshake_Encode h w =
     (let w = WriteVarInt w (hs_ProtocolVersion h);
          w = WriteString w (hs_ServerAddr h);
          w = WriteUint16 w (hs_ServerPort h)
      in WriteVarInt w (hs_NextState h))"

definition DecodeHandshake :: "bytes \<Rightarrow> Handshake outcome" where
  "DecodeHandshake data = run_decoder
     (rd_bind packetReader_varInt (\<lambda>version.
      rd_bind (packetReader_str 255) (\<lambda>addr.
      rd_bind packetReader_u16 (\<lambda>port.
      rd_bind packetReader_varInt (\<lambda>next.
      rd_return \<lparr>hs_ProtocolVersion = version, hs_ServerAddr = addr, hs_ServerPort = port,
        hs_NextState = next\<rparr>))))) data"

record LoginStart =
  ls_Name :: string

definition LoginStart_Encode :: "LoginStart \<Rightarrow> PacketWriter \<Rightarrow> PacketWriter" where
  "LoginStart_Encode l w = WriteString w (ls_Name l)"

definition DecodeLoginStart :: "bytes \<Rightarrow> LoginStart outcome" where
  "DecodeLoginStart data = run_decoder
     (rd_bind (packetReader_str 16) (\<lambda>name. rd_return \<lparr>ls_Name = name\<rparr>)) data"

record LoginPluginResponse =
  lpr_MessageID :: i32
  lpr_Successful :: bool
  lpr_Data :: bytes

definition LoginPluginResponse_Encode :: "LoginPluginResponse \<Rightarrow> PacketWriter \<Rightarrow> PacketWriter" where
  "LoginPluginResponse_Encode l w =
     (let w = WriteVarInt w (lpr_MessageID l);
          w = WriteBool w (lpr_Successful l)
      in Write w (lpr_Data l))"

definition DecodeLoginPluginResponse :: "bytes \<Rightarrow> LoginPluginResponse outcome" where
  "DecodeLoginPluginResponse data = run_decoder
     (rd_bind packetReader_varInt (\<lambda>msgID.
      rd_bind packetReader_bool (\<lambda>successful.
      rd_bind packetReader_rest (\<lambda>rest.
      rd_return \<lparr>lpr_MessageID = msgID, lpr_Successful = successful, lpr_Data = rest\<rparr>)))) data"

record LoginPluginRequest =
  lpq_MessageID :: i32
  lpq_Channel :: string
  lpq_Data :: bytes

definition DecodeLoginPluginRequest :: "bytes \<Rightarrow> LoginPluginRequest outcome" where
  "DecodeLoginPluginRequest data = run_decoder
     (rd_bind packetReader_varInt (\<lambda>msgID.
      rd_bind (packetReader_str 32767) (\<lambda>channel.
      rd_bind packetReader_rest (\<lambda>rest.
      rd_return \<lparr>lpq_MessageID = msgID, lpq_Channel = channel, lpq_Data = rest\<rparr>)))) data"

record SetCompression =
  sc_Threshold :: i32

definition DecodeSetCompression :: "bytes \<Rightarrow> SetCompression outcome" where
  "DecodeSetCompression data = run_decoder
     (rd_bind packetReader_varInt (\<lambda>t. rd_return \<lparr>sc_Threshold = t\<rparr>)) data"

record PingRequest =
  pq_Time :: u64

definition DecodePingRequest :: "bytes \<Rightarrow> PingRequest outcome" where
  "DecodePingRequest data = run_decoder
     (rd_bind packetReader_u64 (\<lambda>t. rd_return \<lparr>pq_Time = t\<rparr>)) data"

record PingResponse =
  ps_Time :: u64

definition DecodePingResponse :: "bytes \<Rightarrow> PingResponse outcome" where
  "DecodePingResponse data = run_decoder
     (rd_bind packetReader_u64 (\<lambda>t. rd_return \<lparr>ps_Time = t\<rparr>)) data"

section \<open>Clients\<close>

datatype ClientState =
  ClientStateHandshake | ClientStateStatus | ClientStateLogin | ClientStatePlay

definition FromID :: "i32 \<Rightarrow> ClientState outcome" where
  "FromID i =
     (if i = 0 then Ok ClientStateHandshake
      else if i = 1 then Ok ClientStateStatus
      else if i = 2 then Ok ClientStateLogin
      else Fail)"

fun ToID :: "ClientState \<Rightarrow> i32" where
  "ToID ClientStateHandshake = 0"
| "ToID ClientStateStatus = 1"
| "ToID ClientStateLogin = 2"
| "ToID ClientStatePlay = -1"

record Client =
  cl_Peer :: string
  cl_state :: ClientState
  cl_compression :: i32

definition NewClient :: "string \<Rightarrow> Client" where
  "NewClient peer = \<lparr>cl_Peer = peer, cl_state = ClientStateHandshake, cl_compression = -1\<rparr>"

definition DummyClient :: Client where
  "DummyClient = NewClient ''0.0.0.0:0''"

definition SetState :: "Client \<Rightarrow> ClientState \<Rightarrow> Client" where
  "SetState c s = c\<lparr>cl_state := s\<rparr>"

definition Compressed :: "Client \<Rightarrow> i32" where
  "Compressed c = cl_compression c"

definition IsCompressed :: "Client \<Rightarrow> bool" where
  "IsCompressed c \<longleftrightarrow> 0 \<le> sint (cl_compression c)"

definition SetCompressionThreshold :: "Client \<Rightarrow> i32 \<Rightarrow> Client" where
  "SetCompressionThreshold c threshold = c\<lparr>cl_compression := threshold\<rparr>"

record ProfileProperty =
  pp_Name :: string
  pp_Value :: string
  pp_Signature :: "string option"

record GameProfile =
  gp_UUID :: bytes
  gp_Name :: string
  gp_Properties :: "ProfileProperty list"

record ClientInfo =
  ci_Protocol :: "u32 option"
  ci_Handshake :: "Handshake option"
  ci_Username :: "string option"
  ci_Profile :: "GameProfile option"

definition EmptyClientInfo :: ClientInfo where
  "EmptyClientInfo = \<lparr>ci_Protocol = None, ci_Handshake = None, ci_Username = None, ci_Profile = None\<rparr>"

definition GetProtocol :: "ClientInfo \<Rightarrow> u32 option" where
  "GetProtocol i =
     (case ci_Protocol i of
        Some p \<Rightarrow> Some p
      | None \<Rightarrow> (case ci_Handshake i of Some h \<Rightarrow> Some (hs_ProtocolVersion h) | None \<Rightarrow> None))"

section \<open>Decoding after encoding\<close>

text \<open>The writers of one packet, as the bytes they append to an empty writer.\<close>

definition encode_with :: "(PacketWriter \<Rightarrow> PacketWriter) \<Rightarrow> bytes" where
  "encode_with f = Bytes (f NewPacketWriter)"

lemma DecodeHandshake_Encode:
  assumes "length (hs_ServerAddr h) \<le> 255"
  shows "DecodeHandshake (encode_with (Handshake_Encode h) @ trailing) = Ok h"
proof -
  have "encode_with (Handshake_Encode h) =
      EncodeVarInt (hs_ProtocolVersion h) @ wire_string (hs_ServerAddr h) @ be16 (hs_ServerPort h) @
      EncodeVarInt (hs_NextState h) @ []"
    by (simp add: encode_with_def Handshake_Encode_def wire_simps)
  then show ?thesis
    unfolding DecodeHandshake_def
    by (simp only:) (intro reads_run packet_step, use assms in auto)
qed

lemma DecodeLoginStart_Encode:
  assumes "length (ls_Name l) \<le> 16"
  shows "DecodeLoginStart (encode_with (LoginStart_Encode l) @ trailing) = Ok l"
proof -
  have "encode_with (LoginStart_Encode l) = wire_string (ls_Name l) @ []"
    by (simp add: encode_with_def LoginStart_Encode_def wire_simps)
  then show ?thesis
    unfolding DecodeLoginStart_def
    by (simp only:) (intro reads_run packet_step, use assms in auto)
qed

lemma DecodeLoginPluginResponse_Encode:
  "DecodeLoginPluginResponse (encode_with (LoginPluginResponse_Encode l)) = Ok l"
proof -
  have "encode_with (LoginPluginResponse_Encode l) =
      EncodeVarInt (lpr_MessageID l) @ wire_bool (lpr_Successful l) @ lpr_Data l"
    by (simp add: encode_with_def LoginPluginResponse_Encode_def wire_simps)
  then show ?thesis
    unfolding DecodeLoginPluginResponse_def
    by (simp only:) (intro reads_end_run packet_end_step, simp)
qed

lemma reads_end_LoginPluginRequest:
  assumes "length (lpq_Channel q) \<le> 32767"
  shows "DecodeLoginPluginRequest
    (EncodeVarInt (lpq_MessageID q) @ wire_string (lpq_Channel q) @ lpq_Data q) = Ok q"
  unfolding DecodeLoginPluginRequest_def
  by (intro reads_end_run packet_end_step) (use assms in auto)

section \<open>Decoders are total\<close>

lemma decoders_never_panic:
  "\<not> is_Panic (DecodeHandshake data)"
  "\<not> is_Panic (DecodeLoginStart data)"
  "\<not> is_Panic (DecodeLoginPluginResponse data)"
  "\<not> is_Panic (DecodeLoginPluginRequest data)"
  "\<not> is_Panic (DecodeSetCompression data)"
  "\<not> is_Panic (DecodePingRequest data)"
  "\<not> is_Panic (DecodePingResponse data)"
  unfolding DecodeHandshake_def DecodeLoginStart_def DecodeLoginPluginResponse_def
    DecodeLoginPluginRequest_def DecodeSetCompression_def DecodePingRequest_def DecodePingResponse_def
  by (intro stays_inside_run cursor_ok)+

lemma packetReader_str_length:
  "packetReader_str maxLen r = (Ok s, r') \<Longrightarrow> length s \<le> maxLen"
  unfolding packetReader_str_body
  by (auto simp: rd_bind_def str_body_def split: prod.splits outcome.splits if_splits)

lemma FromID_ToID: "s \<noteq> ClientStatePlay \<Longrightarrow> FromID (ToID s) = Ok s"
  by (cases s) (simp_all add: FromID_def)

lemma FromID_Ok: "FromID i = Ok s \<longleftrightarrow> s \<noteq> ClientStatePlay \<and> i = ToID s"
  by (cases s) (auto simp: FromID_def split: if_splits)

end
