(* ===== verification/Status_Json.thy ===== *)
theory Status_Json
  imports Packets
begin

text \<open>
  The status response of \<^verbatim>\<open>proto/packets.go\<close>: its data and the JSON text the proxy writes for it and
  for chat messages. The JSON is assembled by hand in the source, so its escaping is the program's own
  code. \<open>json_valid\<close> stands for \<^verbatim>\<open>json.Valid\<close>, which only decides whether the opaque Forge metadata
  is copied.

  Shown here: the escaped form of any string reads back, character by character, as the string; it has
  no quote and no control character inside; decimal numbers read back and fit the ten-byte buffer.
\<close>

section \<open>Data\<close>

record ServerVersion =
  sv_Name :: string
  sv_Protocol :: u32

record OnlinePlayer =
  op_Name :: string
  op_ID :: string

record OnlinePlayers =
  pl_Max :: u32
  pl_Online :: u32
  pl_Sample :: "OnlinePlayer list"

record ServerStatus =
  st_Version :: ServerVersion
  st_Players :: OnlinePlayers
  st_Description :: string
  st_Favicon :: "string option"
  st_ForgeData :: string

section \<open>Rendering\<close>

definition backslash :: char where "backslash = CHR 0x5C"
definition quote :: char where "quote = CHR 0x22"

definition hex_digit :: "nat \<Rightarrow> char" where
  "hex_digit n = (if n < 10 then char_of (48 + n) else char_of (87 + n))"

text \<open>\<^verbatim>\<open>fmt.Fprintf(&sb, `\u%04x`, c)\<close>\<close>

definition u_escape :: "nat \<Rightarrow> string" where
  "u_escape n =
     [backslash, CHR ''u'', hex_digit (n div 4096 mod 16), hex_digit (n div 256 mod 16),
      hex_digit (n div 16 mod 16), hex_digit (n mod 16)]"

definition serde_char :: "char \<Rightarrow> string" where
  "serde_char c =
     (let n = (of_char c :: nat)
      in if n = 34 then [backslash, quote]
         else if n = 92 then [backslash, backslash]
         else if n = 8 then [backslash, CHR ''b'']
         else if n = 12 then [backslash, CHR ''f'']
         else if n = 10 then [backslash, CHR ''n'']
         else if n = 13 then [backslash, CHR ''r'']
         else if n = 9 then [backslash, CHR ''t'']
         else if n < 0x20 then u_escape n
         else [c])"

definition serdeJSONString :: "string \<Rightarrow> string" where
  "serdeJSONString s = [quote] @ concat (map serde_char s) @ [quote]"

text \<open>The loop that fills the buffer from its end.\<close>

function itoa_loop :: "nat \<Rightarrow> string \<Rightarrow> string" where
  "itoa_loop v buf = (if v = 0 then buf else itoa_loop (v div 10) (char_of (48 + v mod 10) # buf))"
  by pat_completeness auto
termination by (relation "measure fst") auto

declare itoa_loop.simps [simp del]

definition itoa :: "u32 \<Rightarrow> string" where
  "itoa v = (if v = 0 then ''0'' else itoa_loop (unat v) [])"

fun sample_JSON :: "bool \<Rightarrow> OnlinePlayer list \<Rightarrow> string" where
  "sample_JSON first [] = []"
| "sample_JSON first (p # ps) =
     (if first then [] else '','') @
     ''{\"name\":'' @ serdeJSONString (op_Name p) @ '',\"id\":'' @ serdeJSONString (op_ID p) @ ''}'' @
     sample_JSON False ps"

definition StatusResponseJSON :: "(string \<Rightarrow> bool) \<Rightarrow> ServerStatus \<Rightarrow> string" where
  "StatusResponseJSON json_valid s =
     ''{\"version\":{\"name\":'' @ serdeJSONString (sv_Name (st_Version s)) @
     '',\"protocol\":'' @ itoa (sv_Protocol (st_Version s)) @
     ''},\"players\":{\"max\":'' @ itoa (pl_Max (st_Players s)) @
     '',\"online\":'' @ itoa (pl_Online (st_Players s)) @
     '',\"sample\":['' @ sample_JSON True (pl_Sample (st_Players s)) @
     '']},\"description\":'' @ serdeJSONString (st_Description s) @
     '',\"favicon\":'' @ (case st_Favicon s of None \<Rightarrow> ''null'' | Some f \<Rightarrow> serdeJSONString f) @
     (if st_ForgeData s \<noteq> [] \<and> json_valid (st_ForgeData s)
      then '',\"forgeData\":'' @ st_ForgeData s else []) @
     ''}''"

definition ChatMessageJSON :: "string \<Rightarrow> string" where
  "ChatMessageJSON text = ''{\"text\":'' @ serdeJSONString text @ ''}''"

definition StringBytes :: "string \<Rightarrow> bytes" where
  "StringBytes s = EncodeVarInt (word_of_nat (length s)) @ bytes_of_string s"

section \<open>Reading the text back\<close>

text \<open>The reference reader of a JSON string body: up to the closing quote, undoing the escapes of the
  JSON grammar that the writer uses; a raw control character is an error.\<close>

definition hex_value :: "char \<Rightarrow> nat" where
  "hex_value c = (let n = of_char c in if n < 58 then n - 48 else n - 87)"

fun json_string :: "string \<Rightarrow> (string \<times> string) option" where
  "json_string [] = None"
| "json_string (c # cs) =
     (if c = quote then Some ([], cs)
      else if c = backslash then
        (case cs of
           e # cs' \<Rightarrow>
             if e = CHR ''u'' then
               (case cs' of
                  a # b # d # f # rest \<Rightarrow>
                    map_option (apfst (\<lambda>s. char_of (hex_value a * 4096 + hex_value b * 256 +
                        hex_value d * 16 + hex_value f) # s)) (json_string rest)
                | _ \<Rightarrow> None)
             else if e = quote \<or> e = backslash then map_option (apfst (\<lambda>s. e # s)) (json_string cs')
             else if e = CHR ''b'' then map_option (apfst (\<lambda>s. char_of (8 :: nat) # s)) (json_string cs')
             else if e = CHR ''f'' then map_option (apfst (\<lambda>s. char_of (12 :: nat) # s)) (json_string cs')
             else if e = CHR ''n'' then map_option (apfst (\<lambda>s. char_of (10 :: nat) # s)) (json_string cs')
             else if e = CHR ''r'' then map_option (apfst (\<lambda>s. char_of (13 :: nat) # s)) (json_string cs')
             else if e = CHR ''t'' then map_option (apfst (\<lambda>s. char_of (9 :: nat) # s)) (json_string cs')
             else None
         | [] \<Rightarrow> None)
      else if (of_char c :: nat) < 0x20 then None
      else map_option (apfst (\<lambda>s. c # s)) (json_string cs))"

lemma special_chars: "char_of (34 :: nat) = quote" "char_of (92 :: nat) = backslash"
  by code_simp+

lemma json_string_serde_char:
  "json_string (serde_char c @ rest) = map_option (apfst (\<lambda>s. c # s)) (json_string rest)"
proof -
  define n where "n = (of_char c :: nat)"
  have c: "c = char_of n" by (simp add: n_def)
  have esc: "quote \<noteq> backslash" by (simp add: quote_def backslash_def)
  have raw: "json_string (c # rest) = map_option (apfst (\<lambda>s. c # s)) (json_string rest)"
    if "n \<noteq> 34" "n \<noteq> 92" "\<not> n < 0x20"
    using that by (auto simp: quote_def backslash_def n_def)
  have ctl: "json_string (u_escape n @ rest) = map_option (apfst (\<lambda>s. c # s)) (json_string rest)" if "n < 0x20"
  proof -
    have "hex_value (hex_digit (n mod 16)) = n mod 16" "hex_value (hex_digit (n div 16)) = n div 16"
      "hex_value (hex_digit 0) = 0"
      using that by (auto simp: hex_value_def hex_digit_def Let_def)
    then show ?thesis using that esc by (simp add: u_escape_def c)
  qed
  consider "n = 34" | "n = 92" | "n = 8" | "n = 12" | "n = 10" | "n = 13" | "n = 9"
    | "n \<notin> {34, 92, 8, 12, 10, 13, 9}" "n < 0x20" | "n \<notin> {34, 92, 8, 12, 10, 13, 9}" "\<not> n < 0x20"
    by auto
  then show ?thesis
  proof cases
    case 1
    then have "c = quote" using c special_chars by simp
    then show ?thesis using esc by (simp add: serde_char_def quote_def backslash_def)
  next
    case 2
    then have "c = backslash" using c special_chars by simp
    then show ?thesis using esc by (simp add: serde_char_def quote_def backslash_def)
  next
    case 8
    then show ?thesis using ctl by (simp add: serde_char_def n_def [symmetric] Let_def)
  next
    case 9
    then show ?thesis using raw by (simp add: serde_char_def n_def [symmetric] Let_def del: json_string.simps)
  qed (simp_all add: serde_char_def n_def [symmetric] Let_def c, simp_all add: quote_def backslash_def)
qed

lemma json_string_serde:
  "json_string (concat (map serde_char s) @ quote # rest) = Some (s, rest)"
  by (induction s) (simp_all add: json_string_serde_char del: json_string.simps(2), simp)

text \<open>Nothing inside the quotes is a control character, and every quote there is escaped: so the text
  never ends early, whatever the string.\<close>

lemma serde_char_printable: "x \<in> set (serde_char c) \<Longrightarrow> 0x20 \<le> (of_char x :: nat)"
  by (auto simp: serde_char_def u_escape_def hex_digit_def quote_def backslash_def Let_def split: if_splits)

lemma serdeJSONString_printable: "x \<in> set (serdeJSONString s) \<Longrightarrow> 0x20 \<le> (of_char x :: nat)"
  by (auto simp: serdeJSONString_def quote_def dest: serde_char_printable)

fun decimal_value :: "nat \<Rightarrow> string \<Rightarrow> nat" where
  "decimal_value acc [] = acc"
| "decimal_value acc (c # cs) = decimal_value (10 * acc + (of_char c - 48)) cs"

lemma itoa_loop_value:
  "decimal_value 0 (itoa_loop v buf) = decimal_value v buf"
proof (induction v buf rule: itoa_loop.induct)
  case (1 v buf)
  have "(of_char (char_of (48 + v mod 10)) :: nat) - 48 = v mod 10" by simp
  then show ?case using 1 by (subst itoa_loop.simps) simp
qed

lemma itoa_value: "decimal_value 0 (itoa v) = unat v"
  by (auto simp: itoa_def itoa_loop_value unat_eq_0)

lemma itoa_loop_length: "v < 10 ^ k \<Longrightarrow> length (itoa_loop v buf) \<le> k + length buf"
proof (induction k arbitrary: v buf)
  case (Suc k)
  show ?case
  proof (cases "v = 0")
    case False
    have "v div 10 < 10 ^ k" using Suc.prems by simp
    from Suc.IH [OF this, of "char_of (48 + v mod 10) # buf"] show ?thesis
      using False by (simp add: itoa_loop.simps [of v])
  qed (simp add: itoa_loop.simps)
qed (simp add: itoa_loop.simps)

lemma itoa_fits: "length (itoa v) \<le> 10"
proof -
  have "unat v < 10 ^ 10" using unsigned_less [of v, where 'a = nat] by simp
  from itoa_loop_length [OF this, of "[]"] show ?thesis by (simp add: itoa_def)
qed

end
