(* ===== verification/Config.thy ===== *)
theory Config
  imports Lazygate_Prelude
begin

text \<open>
  The configuration of \<^verbatim>\<open>config.go\<close>: one record per section and the defaults. Durations are the
  source's \<^verbatim>\<open>uint32\<close> seconds; an IP address is the byte slice \<^verbatim>\<open>net.IP\<close> is. The field that carries the
  run-time admission counters is not part of the record: the counters have their own component.
\<close>

record SocketAddr =
  sa_IP :: bytes
  sa_Port :: int

record Public =
  pub_Address :: SocketAddr
  pub_Version :: string
  pub_Protocol :: u32

record ServerSection =
  sv_Directory :: string
  sv_Command :: string
  sv_ControllerManaged :: bool
  sv_Address :: SocketAddr
  sv_FreezeProcess :: bool
  sv_WakeOnStart :: bool
  sv_WakeOnCrash :: bool
  sv_ProbeOnStart :: bool
  sv_Forge :: bool
  sv_ForgeStatusFile :: string
  sv_StartTimeout :: u32
  sv_StopTimeout :: u32
  sv_WakeWhitelist :: bool
  sv_BlockBannedIps :: bool
  sv_DropBannedIps :: bool
  sv_SendProxyV2 :: bool

record Auth =
  au_OnlineMode :: bool
  au_SessionServer :: string
  au_ForwardingSecretFile :: string

record TimeSection =
  tm_SleepAfter :: u32
  tm_MinOnlineTime :: u32

record Motd =
  mo_Sleeping :: string
  mo_Starting :: string
  mo_Stopping :: string
  mo_FromServer :: bool

datatype Method = MethodKick | MethodHold | MethodForward | MethodLobby

record JoinKick =
  jk_Starting :: string
  jk_Stopping :: string

record JoinHold =
  jh_Timeout :: u32

record JoinForward =
  jf_Address :: SocketAddr
  jf_SendProxyV2 :: bool

record JoinLobby =
  jl_Timeout :: u32
  jl_Message :: string
  jl_ReadySound :: "string option"

record Join =
  jo_Methods :: "Method list"
  jo_Kick :: JoinKick
  jo_Hold :: JoinHold
  jo_Forward :: JoinForward
  jo_Lobby :: JoinLobby

record Lockout =
  lo_Enabled :: bool
  lo_Message :: string

record RconSection =
  rc_Enabled :: bool
  rc_Port :: u16
  rc_Password :: string
  rc_RandomizePassword :: bool
  rc_SendProxyV2 :: bool

record Advanced =
  ad_RewriteServerProperties :: bool

record ConfigConfig =
  cc_Version :: "string option"

record Config =
  cfg_Path :: string
  cfg_Public :: Public
  cfg_Server :: ServerSection
  cfg_Auth :: Auth
  cfg_Time :: TimeSection
  cfg_Motd :: Motd
  cfg_Join :: Join
  cfg_Lockout :: Lockout
  cfg_Rcon :: RconSection
  cfg_Advanced :: Advanced
  cfg_Config :: ConfigConfig

section \<open>Defaults\<close>

text \<open>\<^verbatim>\<open>net.IPv4\<close>: the sixteen-byte form of an IPv4 address.\<close>

definition IPv4 :: "byte \<Rightarrow> byte \<Rightarrow> byte \<Rightarrow> byte \<Rightarrow> bytes" where
  "IPv4 a b c d = replicate 10 0 @ [0xFF, 0xFF, a, b, c, d]"

text \<open>\<^verbatim>\<open>net.IP.To4\<close>, \<^verbatim>\<open>net.IP.To16\<close> (\<open>None\<close> is nil) and \<^verbatim>\<open>net.IP.IsLoopback\<close>\<close>

definition IP_To4 :: "bytes \<Rightarrow> bytes option" where
  "IP_To4 ip =
     (if length ip = 4 then Some ip
      else if length ip = 16 \<and> take 10 ip = replicate 10 0 \<and> ip ! 10 = 0xFF \<and> ip ! 11 = 0xFF
      then Some (drop 12 ip) else None)"

definition IP_To16 :: "bytes \<Rightarrow> bytes option" where
  "IP_To16 ip =
     (if length ip = 4 then Some (replicate 10 0 @ [0xFF, 0xFF] @ ip)
      else if length ip = 16 then Some ip else None)"

definition IP_IsLoopback :: "bytes \<Rightarrow> bool" where
  "IP_IsLoopback ip =
     (case IP_To4 ip of Some ip4 \<Rightarrow> ip4 ! 0 = 127 | None \<Rightarrow> ip = replicate 15 0 @ [1])"

definition ProtoDefaultVersion :: string where "ProtoDefaultVersion = ''1.20.3''"
definition ProtoDefaultProtocol :: u32 where "ProtoDefaultProtocol = 765"
definition CompressionThreshold :: i32 where "CompressionThreshold = 256"

definition defaultConfig :: Config where
  "defaultConfig =
     \<lparr>cfg_Path = [],
      cfg_Public =
        \<lparr>pub_Address = \<lparr>sa_IP = IPv4 0 0 0 0, sa_Port = 25565\<rparr>, pub_Version = ProtoDefaultVersion,
         pub_Protocol = ProtoDefaultProtocol\<rparr>,
      cfg_Server =
        \<lparr>sv_Directory = ''.'', sv_Command = [], sv_ControllerManaged = False,
         sv_Address = \<lparr>sa_IP = IPv4 127 0 0 1, sa_Port = 25566\<rparr>, sv_FreezeProcess = True,
         sv_WakeOnStart = False, sv_WakeOnCrash = False, sv_ProbeOnStart = False, sv_Forge = False,
         sv_ForgeStatusFile = [], sv_StartTimeout = 300, sv_StopTimeout = 150,
         sv_WakeWhitelist = True, sv_BlockBannedIps = True, sv_DropBannedIps = False,
         sv_SendProxyV2 = False\<rparr>,
      cfg_Auth =
        \<lparr>au_OnlineMode = False, au_SessionServer = ''https://sessionserver.mojang.com'',
         au_ForwardingSecretFile = []\<rparr>,
      cfg_Time = \<lparr>tm_SleepAfter = 60, tm_MinOnlineTime = 60\<rparr>,
      cfg_Motd =
        \<lparr>mo_Sleeping = string_of_bytes [0xE2, 0x98, 0xA0] @ '' Server is sleeping'' @
           string_of_bytes [0x0A, 0xC2, 0xA7] @ ''2'' @ string_of_bytes [0xE2, 0x98, 0xBB] @
           '' Join to start it up'',
         mo_Starting = string_of_bytes [0xC2, 0xA7] @ ''2'' @ string_of_bytes [0xE2, 0x98, 0xBB] @
           '' Server is starting...'' @ string_of_bytes [0x0A, 0xC2, 0xA7] @ ''7'' @
           string_of_bytes [0xE2, 0x8C, 0x9B] @ '' Please wait...'',
         mo_Stopping = string_of_bytes [0xE2, 0x98, 0xA0] @ '' Server going to sleep...'' @
           string_of_bytes [0x0A, 0xE2, 0x8C, 0x9B] @ '' Please wait...'',
         mo_FromServer = False\<rparr>,
      cfg_Join =
        \<lparr>jo_Methods = [MethodHold, MethodKick],
         jo_Kick =
           \<lparr>jk_Starting = ''Server is starting... '' @ string_of_bytes [0xC2, 0xA7] @ ''c'' @
              string_of_bytes [0xE2, 0x99, 0xA5, 0xC2, 0xA7] @ ''r'' @ string_of_bytes [0x0A, 0x0A] @
              ''This may take some time.'' @ string_of_bytes [0x0A, 0x0A] @
              ''Please try to reconnect in a minute.'',
            jk_Stopping = ''Server is going to sleep... '' @ string_of_bytes [0xC2, 0xA7] @ ''7'' @
              string_of_bytes [0xE2, 0x98, 0xA0, 0xC2, 0xA7] @ ''r'' @ string_of_bytes [0x0A, 0x0A] @
              ''Please try to reconnect in a minute to wake it again.''\<rparr>,
         jo_Hold = \<lparr>jh_Timeout = 25\<rparr>,
         jo_Forward =
           \<lparr>jf_Address = \<lparr>sa_IP = IPv4 127 0 0 1, sa_Port = 25565\<rparr>, jf_SendProxyV2 = False\<rparr>,
         jo_Lobby =
           \<lparr>jl_Timeout = 10 * 60,
            jl_Message = string_of_bytes [0xC2, 0xA7] @ ''2Server is starting'' @
              string_of_bytes [0x0A, 0xC2, 0xA7] @ ''7'' @ string_of_bytes [0xE2, 0x8C, 0x9B] @
              '' Please wait...'',
            jl_ReadySound = Some ''block.note_block.chime''\<rparr>\<rparr>,
      cfg_Lockout =
        \<lparr>lo_Enabled = False,
         lo_Message = ''Server is closed '' @ string_of_bytes [0xC2, 0xA7] @ ''7'' @
           string_of_bytes [0xE2, 0x98, 0xA0, 0xC2, 0xA7] @ ''r'' @ string_of_bytes [0x0A, 0x0A] @
           ''Please come back another time.''\<rparr>,
      cfg_Rcon =
        \<lparr>rc_Enabled = False, rc_Port = 25575, rc_Password = [], rc_RandomizePassword = True,
         rc_SendProxyV2 = False\<rparr>,
      cfg_Advanced = \<lparr>ad_RewriteServerProperties = True\<rparr>,
      cfg_Config = \<lparr>cc_Version = None\<rparr>\<rparr>"

text \<open>The settings the components look at, by their short names.\<close>

abbreviation ControllerManaged :: "Config \<Rightarrow> bool" where
  "ControllerManaged config \<equiv> sv_ControllerManaged (cfg_Server config)"

abbreviation FreezeProcess :: "Config \<Rightarrow> bool" where
  "FreezeProcess config \<equiv> sv_FreezeProcess (cfg_Server config)"

end
