(* ===== verification/Go_Strings.thy ===== *)
theory Go_Strings
  imports Lazygate_Prelude "HOL-Library.Sublist"
begin

text \<open>
  The functions of Go's \<^verbatim>\<open>strings\<close> and \<^verbatim>\<open>strconv\<close> packages that the program uses: splitting and
  joining, prefixes and suffixes, trimming of white space, \<^verbatim>\<open>strconv.ParseInt\<close> in base ten and the text of numbers. A Go
  string is its bytes; white space outside ASCII is given by its UTF-8 encodings, which is all that
  \<^verbatim>\<open>strings.TrimSpace\<close> can match.
\<close>

section \<open>Splitting, joining, prefixes\<close>

fun split_on :: "char \<Rightarrow> string \<Rightarrow> string list" where
  "split_on sep [] = [[]]"
| "split_on sep (c # s) =
     (if c = sep then [] # split_on sep s
      else (case split_on sep s of w # ws \<Rightarrow> (c # w) # ws | [] \<Rightarrow> [[c]]))"

fun join_with :: "string \<Rightarrow> string list \<Rightarrow> string" where
  "join_with sep [] = []"
| "join_with sep [w] = w"
| "join_with sep (w # ws) = w @ sep @ join_with sep ws"

definition HasPrefix :: "string \<Rightarrow> string \<Rightarrow> bool" where
  "HasPrefix s p \<longleftrightarrow> take (length p) s = p"

definition HasSuffix :: "string \<Rightarrow> string \<Rightarrow> bool" where
  "HasSuffix s p \<longleftrightarrow> HasPrefix (rev s) (rev p)"

definition TrimSuffix :: "string \<Rightarrow> string \<Rightarrow> string" where
  "TrimSuffix s p = (if HasSuffix s p then take (length s - length p) s else s)"

text \<open>\<^verbatim>\<open>strings.Index\<close> of a single byte.\<close>

fun index_of :: "char \<Rightarrow> string \<Rightarrow> nat option" where
  "index_of c [] = None"
| "index_of c (d # s) = (if c = d then Some 0 else map_option Suc (index_of c s))"

section \<open>White space\<close>

definition space_encodings :: "string list" where
  "space_encodings =
     [[CHR 0x09], [CHR 0x0A], [CHR 0x0B], [CHR 0x0C], [CHR 0x0D], [CHR 0x20],
      [CHR 0xC2, CHR 0x85], [CHR 0xC2, CHR 0xA0], [CHR 0xE1, CHR 0x9A, CHR 0x80],
      [CHR 0xE2, CHR 0x80, CHR 0x80], [CHR 0xE2, CHR 0x80, CHR 0x81], [CHR 0xE2, CHR 0x80, CHR 0x82],
      [CHR 0xE2, CHR 0x80, CHR 0x83], [CHR 0xE2, CHR 0x80, CHR 0x84], [CHR 0xE2, CHR 0x80, CHR 0x85],
      [CHR 0xE2, CHR 0x80, CHR 0x86], [CHR 0xE2, CHR 0x80, CHR 0x87], [CHR 0xE2, CHR 0x80, CHR 0x88],
      [CHR 0xE2, CHR 0x80, CHR 0x89], [CHR 0xE2, CHR 0x80, CHR 0x8A], [CHR 0xE2, CHR 0x80, CHR 0xA8],
      [CHR 0xE2, CHR 0x80, CHR 0xA9], [CHR 0xE2, CHR 0x80, CHR 0xAF], [CHR 0xE2, CHR 0x81, CHR 0x9F],
      [CHR 0xE3, CHR 0x80, CHR 0x80]]"

fun trim_prefixes :: "nat \<Rightarrow> string list \<Rightarrow> string \<Rightarrow> string" where
  "trim_prefixes 0 ps s = s"
| "trim_prefixes (Suc k) ps s =
     (case find (HasPrefix s) ps of None \<Rightarrow> s | Some p \<Rightarrow> trim_prefixes k ps (drop (length p) s))"

definition TrimSpace :: "string \<Rightarrow> string" where
  "TrimSpace s =
     (let t = trim_prefixes (length s) space_encodings s
      in rev (trim_prefixes (length t) (map rev space_encodings) (rev t)))"

section \<open>Lower case\<close>

text \<open>
  \<^verbatim>\<open>strings.ToLower\<close>, as far as a comparison with an ASCII literal can tell: the ASCII letters and the two
  letters outside ASCII whose lower-case form is an ASCII letter (U+0130 and U+212A). Every other letter
  outside ASCII keeps a form outside ASCII.
\<close>

definition lower_char :: "char \<Rightarrow> char" where
  "lower_char c = (let n = (of_char c :: nat) in if 65 \<le> n \<and> n \<le> 90 then char_of (n + 32) else c)"

function ToLower :: "string \<Rightarrow> string" where
  "ToLower s =
     (if s = [] then []
      else if HasPrefix s [CHR 0xC4, CHR 0xB0] then CHR ''i'' # ToLower (drop 2 s)
      else if HasPrefix s [CHR 0xE2, CHR 0x84, CHR 0xAA] then CHR ''k'' # ToLower (drop 3 s)
      else lower_char (hd s) # ToLower (tl s))"
  by pat_completeness auto
termination
  by (relation "measure length") auto

declare ToLower.simps [simp del]

section \<open>Decimal integers\<close>

text \<open>
  \<^verbatim>\<open>strconv.ParseInt(s, 10, bits)\<close>: an optional sign and at least one digit, nothing else. Out of
  range it reports an error and yields the nearest bound, which a caller that drops the error keeps;
  on a syntax error the value is zero.
\<close>

fun digits_value :: "nat \<Rightarrow> string \<Rightarrow> nat option" where
  "digits_value acc [] = Some acc"
| "digits_value acc (c # s) =
     (let n = (of_char c :: nat)
      in if 48 \<le> n \<and> n \<le> 57 then digits_value (10 * acc + (n - 48)) s else None)"

definition ParseInt :: "nat \<Rightarrow> string \<Rightarrow> int \<times> bool" where
  "ParseInt bits s =
     (let neg = (s \<noteq> [] \<and> hd s = CHR ''-'');
          body = (if s \<noteq> [] \<and> (hd s = CHR ''-'' \<or> hd s = CHR ''+'') then tl s else s)
      in if body = [] then (0, False)
         else case digits_value 0 body of
           None \<Rightarrow> (0, False)
         | Some n \<Rightarrow>
             if neg then (if 2 ^ (bits - 1) < n then (- (2 ^ (bits - 1)), False) else (- int n, True))
             else (if 2 ^ (bits - 1) \<le> n then (2 ^ (bits - 1) - 1, False) else (int n, True)))"

section \<open>Lemmas\<close>

lemma split_on_nonempty [simp]: "split_on sep s \<noteq> []"
  by (induction s) (auto split: list.splits)

lemma join_split: "join_with [sep] (split_on sep s) = s"
proof (induction s)
  case (Cons c s)
  obtain w ws where w: "split_on sep s = w # ws" by (cases "split_on sep s") auto
  with Cons show ?case by (cases ws) auto
qed simp

lemma split_on_no_sep: "w \<in> set (split_on sep s) \<Longrightarrow> sep \<notin> set w"
  by (induction s arbitrary: w) (auto split: if_splits list.splits)

lemma split_on_append: "sep \<notin> set w \<Longrightarrow> split_on sep (w @ sep # s) = w # split_on sep s"
  by (induction w) auto

lemma split_on_self: "sep \<notin> set w \<Longrightarrow> split_on sep w = [w]"
  by (induction w) auto

lemma split_join:
  "ws \<noteq> [] \<Longrightarrow> \<forall>w \<in> set ws. sep \<notin> set w \<Longrightarrow> split_on sep (join_with [sep] ws) = ws"
  by (induction "[sep]" ws rule: join_with.induct) (simp_all add: split_on_self split_on_append)

text \<open>White space at the ends, and what is left when it is gone.\<close>

lemma index_of_append:
  "index_of c (s @ t) = (case index_of c s of Some i \<Rightarrow> Some i | None \<Rightarrow> map_option ((+) (length s)) (index_of c t))"
  by (induction s) (auto simp: option.map_comp comp_def map_option_case split: option.splits)

lemma index_of_Some: "index_of c s = Some i \<Longrightarrow> i < length s \<and> c \<notin> set (take i s)"
  by (induction s arbitrary: i) (auto split: if_splits)

lemma index_of_None [simp]: "index_of c s = None \<longleftrightarrow> c \<notin> set s"
  by (induction s) auto

lemma index_of_absent [simp]: "c \<notin> set s \<Longrightarrow> index_of c s = None"
  by simp

lemma HasPrefix_prefix: "HasPrefix s p \<longleftrightarrow> prefix p s"
  by (metis HasPrefix_def append_eq_conv_conj prefix_def)

lemma trim_prefixes_step:
  assumes "find (HasPrefix s) ps = Some p"
  shows "p \<in> set ps" "s = p @ drop (length p) s"
  using assms by (auto simp: find_Some_iff HasPrefix_def) (metis append_take_drop_id)

lemma trim_prefixes_suffix: "suffix (trim_prefixes k ps s) s"
proof (induction k arbitrary: s)
  case (Suc k)
  show ?case
  proof (cases "find (HasPrefix s) ps")
    case (Some p)
    have "suffix (trim_prefixes k ps (drop (length p) s)) s"
      using Suc [of "drop (length p) s"] suffix_drop suffix_order.trans by blast
    then show ?thesis using Some by simp
  qed simp
qed simp

lemma trim_prefixes_done:
  assumes "[] \<notin> set ps" and "length s \<le> k"
  shows "find (HasPrefix (trim_prefixes k ps s)) ps = None"
  using assms(2)
proof (induction k arbitrary: s)
  case 0
  then show ?case using assms(1) by (auto simp: find_None_iff HasPrefix_prefix)
next
  case (Suc k)
  show ?case
  proof (cases "find (HasPrefix s) ps")
    case (Some p)
    then have "p \<noteq> []" using trim_prefixes_step(1) assms(1) by blast
    then have "length (drop (length p) s) \<le> k" using Suc.prems by (cases p) auto
    then show ?thesis using Suc.IH Some by simp
  qed simp
qed

lemma trim_prefixes_none [simp]: "find (HasPrefix s) ps = None \<Longrightarrow> trim_prefixes k ps s = s"
  by (cases k) auto

lemma trim_prefixes_fuel:
  assumes "[] \<notin> set ps" and "length s \<le> k" and "length s \<le> k'"
  shows "trim_prefixes k ps s = trim_prefixes k' ps s"
  using assms(2,3)
proof (induction k arbitrary: s k')
  case 0
  then show ?case using trim_prefixes_done [OF assms(1), of s 0] by simp
next
  case (Suc k)
  show ?case
  proof (cases "find (HasPrefix s) ps")
    case (Some p)
    then have p: "p \<noteq> []" "s \<noteq> []" using trim_prefixes_step [OF Some] assms(1) by auto
    then obtain k1 where k1: "k' = Suc k1" using Suc.prems by (cases k') auto
    have "length (drop (length p) s) \<le> k" "length (drop (length p) s) \<le> k1"
      using p(1) Suc.prems k1 length_greater_0_conv [of p] by (simp_all only: length_drop) arith+
    then show ?thesis using Suc.IH [of "drop (length p) s" k1] Some k1 by simp
  qed simp
qed

section \<open>TrimSpace\<close>

definition TrimLeft_space :: "string \<Rightarrow> string" where
  "TrimLeft_space s = trim_prefixes (length s) space_encodings s"

definition TrimRight_space :: "string \<Rightarrow> string" where
  "TrimRight_space s = rev (trim_prefixes (length s) (map rev space_encodings) (rev s))"

lemma TrimSpace_sides: "TrimSpace s = TrimRight_space (TrimLeft_space s)"
  by (simp add: TrimSpace_def TrimLeft_space_def TrimRight_space_def Let_def)

lemma space_encodings_nonempty [simp]: "[] \<notin> set space_encodings" "[] \<notin> set (map rev space_encodings)"
  by (simp_all add: space_encodings_def)

lemma TrimLeft_suffix: "suffix (TrimLeft_space s) s"
  by (simp add: TrimLeft_space_def trim_prefixes_suffix)

lemma TrimRight_prefix: "prefix (TrimRight_space s) s"
  using trim_prefixes_suffix [of "length s" "map rev space_encodings" "rev s"]
  by (simp add: TrimRight_space_def suffix_to_prefix)

lemma TrimSpace_chars: "set (TrimSpace s) \<subseteq> set s"
  using set_mono_prefix [OF TrimRight_prefix [of "TrimLeft_space s"]] set_mono_suffix [OF TrimLeft_suffix [of s]]
  by (simp add: TrimSpace_sides)

lemma TrimSpace_idem [simp]: "TrimSpace (TrimSpace s) = TrimSpace s"
proof -
  let ?u = "TrimLeft_space s" let ?t = "TrimRight_space ?u"
  have "find (HasPrefix ?u) space_encodings = None"
    by (simp only: TrimLeft_space_def) (rule trim_prefixes_done; simp)
  then have "find (HasPrefix ?t) space_encodings = None"
    using prefix_order.trans [OF _ TrimRight_prefix [of ?u]] by (auto simp: find_None_iff HasPrefix_prefix)
  then have left: "TrimLeft_space ?t = ?t" by (simp add: TrimLeft_space_def)
  have "find (HasPrefix (rev ?t)) (map rev space_encodings) = None"
    by (simp only: TrimRight_space_def rev_rev_ident) (rule trim_prefixes_done [OF space_encodings_nonempty(2)], simp)
  then have "TrimRight_space ?t = ?t" by (simp add: TrimRight_space_def)
  with left show ?thesis by (simp add: TrimSpace_sides)
qed

lemma trim_prefixes_keeps:
  assumes "\<forall>p \<in> set ps. c \<notin> set p" and "c \<in> set s"
  shows "c \<in> set (trim_prefixes k ps s)"
  using assms(2)
proof (induction k arbitrary: s)
  case (Suc k)
  show ?case
  proof (cases "find (HasPrefix s) ps")
    case (Some p)
    have "c \<in> set (drop (length p) s)"
      using trim_prefixes_step [OF Some] assms(1) Suc.prems by (metis Un_iff set_append)
    then show ?thesis using Suc.IH Some by simp
  qed (use Suc.prems in simp)
qed simp

lemma TrimSpace_keeps:
  assumes "\<And>p. p \<in> set space_encodings \<Longrightarrow> c \<notin> set p" and "c \<in> set s"
  shows "c \<in> set (TrimSpace s)"
proof -
  have "c \<in> set (TrimLeft_space s)" unfolding TrimLeft_space_def using assms by (intro trim_prefixes_keeps) auto
  then show ?thesis
    unfolding TrimSpace_sides TrimRight_space_def set_rev using assms(1) by (intro trim_prefixes_keeps) auto
qed

text \<open>Visible ASCII is no white space.\<close>

definition visible :: "char \<Rightarrow> bool" where
  "visible c \<longleftrightarrow> 0x20 < (of_char c :: nat) \<and> (of_char c :: nat) < 0x80"

lemma TrimSpace_ends:
  assumes "s \<noteq> []" and "visible (hd s)" and "visible (last s)"
  shows "TrimSpace s = s"
proof -
  have enc: "\<forall>p \<in> set space_encodings. p \<noteq> [] \<and> \<not> visible (hd p) \<and> \<not> visible (last p)"
    by (simp add: space_encodings_def visible_def)
  have none: "find (HasPrefix t) ps = None"
    if "t \<noteq> []" and "visible (hd t)" and "\<forall>p \<in> set ps. p \<noteq> [] \<and> \<not> visible (hd p)" for t ps
    using that by (auto simp: find_None_iff HasPrefix_prefix prefix_def)
  have "trim_prefixes k ps t = t" if "find (HasPrefix t) ps = None" for k ps t using that by (cases k) simp_all
  moreover have "find (HasPrefix s) space_encodings = None" using none [OF assms(1,2)] enc by blast
  moreover have "find (HasPrefix (rev s)) (map rev space_encodings) = None"
    using assms enc by (intro none) (auto simp: hd_rev)
  ultimately show ?thesis by (simp add: TrimSpace_def)
qed

lemma TrimSpace_visible: "list_all visible s \<Longrightarrow> TrimSpace s = s"
proof (cases "s = []")
  case False
  assume "list_all visible s"
  with False show ?thesis by (intro TrimSpace_ends) (auto simp: list_all_iff)
qed (simp add: TrimSpace_def)

text \<open>The end of a line: a carriage return is white space.\<close>

lemma find_CR:
  "find (HasPrefix (CHR 0x0D # s)) (map rev space_encodings) = Some [CHR 0x0D]"
  by (simp add: space_encodings_def HasPrefix_def)

lemma TrimRight_CR: "TrimRight_space (s @ [CHR 0x0D]) = TrimRight_space s"
  by (simp add: TrimRight_space_def find_CR)

lemma find_short: "find (HasPrefix []) space_encodings = None"
  "find (HasPrefix [CHR 0x0D]) space_encodings = Some [CHR 0x0D]"
  by (simp_all add: space_encodings_def HasPrefix_def)

lemma encodings_end: "p \<in> set space_encodings \<Longrightarrow> 2 \<le> length p \<Longrightarrow> CHR 0x0D \<notin> set p"
  by (auto simp: space_encodings_def)

lemma find_prefix_CR:
  assumes "s \<noteq> []"
  shows "find (HasPrefix (s @ [CHR 0x0D])) space_encodings = find (HasPrefix s) space_encodings"
proof -
  have "HasPrefix (s @ [CHR 0x0D]) p = HasPrefix s p" if p: "p \<in> set space_encodings" for p
  proof (cases "length p \<le> length s")
    case False
    then have "2 \<le> length p" using assms by (cases s) auto
    then have "\<not> HasPrefix (s @ [CHR 0x0D]) p" "\<not> HasPrefix s p"
      using encodings_end [OF p] False
      by (auto simp: HasPrefix_def)
    then show ?thesis by simp
  qed (simp add: HasPrefix_def)
  then show ?thesis by (intro find_cong) auto
qed

lemma TrimLeft_CR:
  "TrimLeft_space (s @ [CHR 0x0D]) = (if TrimLeft_space s = [] then [] else TrimLeft_space s @ [CHR 0x0D])"
proof -
  have "trim_prefixes (Suc k) space_encodings (s @ [CHR 0x0D]) =
      (let t = trim_prefixes k space_encodings s in if t = [] then [] else t @ [CHR 0x0D])"
    if "length s \<le> k" for k
    using that
  proof (induction k arbitrary: s)
    case 0
    then show ?case by (simp add: find_short)
  next
    case (Suc k)
    consider "s = []" | "s \<noteq> []" "find (HasPrefix s) space_encodings = None"
      | p where "s \<noteq> []" "find (HasPrefix s) space_encodings = Some p" by (cases "find (HasPrefix s) space_encodings") auto
    then show ?case
    proof cases
      case 1
      then show ?thesis by (simp add: find_short)
    next
      case 2
      then show ?thesis using find_prefix_CR [of s] by simp
    next
      case (3 p)
      note s = 3(1) and p = 3(2)
      have "p \<noteq> []" using trim_prefixes_step(1) [OF p] space_encodings_nonempty(1) by blast
      then have "length (drop (length p) s) \<le> k" using Suc.prems by (cases p) auto
      moreover have "length p \<le> length s" using trim_prefixes_step(2) [OF p]
        by (metis length_append le_add1)
      ultimately show ?thesis using Suc.IH [of "drop (length p) s"] p s find_prefix_CR [OF s] by simp
    qed
  qed
  then show ?thesis by (simp add: TrimLeft_space_def Let_def)
qed

lemma TrimSpace_CR [simp]: "TrimSpace (s @ [CHR 0x0D]) = TrimSpace s"
  by (simp add: TrimSpace_sides TrimLeft_CR TrimRight_CR)

section \<open>Numbers as text\<close>

text \<open>\<^verbatim>\<open>strconv.Itoa\<close> and \<^verbatim>\<open>%d\<close>: decimal text, with a sign where it is needed; and hexadecimal digits.\<close>

fun dec_nat :: "nat \<Rightarrow> string" where
  "dec_nat n = (if n < 10 then [char_of (48 + n)] else dec_nat (n div 10) @ [char_of (48 + n mod 10)])"

declare dec_nat.simps [simp del]

definition dec_int :: "int \<Rightarrow> string" where
  "dec_int i = (if i < 0 then CHR ''-'' # dec_nat (nat (- i)) else dec_nat (nat i))"

definition hexDigits :: string where "hexDigits = ''0123456789abcdef''"

fun hex_nat :: "nat \<Rightarrow> string" where
  "hex_nat n = (if n < 16 then [hexDigits ! n] else hex_nat (n div 16) @ [hexDigits ! (n mod 16)])"

declare hex_nat.simps [simp del]

definition digit :: "char \<Rightarrow> bool" where
  "digit c \<longleftrightarrow> 48 \<le> (of_char c :: nat) \<and> (of_char c :: nat) \<le> 57"

lemma digit_char: "n < 10 \<Longrightarrow> digit (char_of (48 + n)) \<and> (of_char (char_of (48 + n :: nat)) :: nat) = 48 + n"
  by (simp add: digit_def)

lemma dec_nat_digits: "list_all digit (dec_nat n) \<and> dec_nat n \<noteq> []"
proof (induction n rule: dec_nat.induct)
  case (1 n)
  then show ?case using digit_char by (subst (1 2) dec_nat.simps) simp
qed

lemma digits_value_snoc:
  "digits_value acc (s @ [c]) =
     (case digits_value acc s of None \<Rightarrow> None | Some v \<Rightarrow> digits_value v [c])"
  by (induction s arbitrary: acc) (simp_all add: Let_def)

lemma digits_value_dec: "digits_value 0 (dec_nat n) = Some n"
proof (induction n rule: dec_nat.induct)
  case (1 n)
  show ?case
  proof (cases "n < 10")
    case True
    then show ?thesis using digit_char [of n] by (subst dec_nat.simps) (simp add: digit_def)
  next
    case False
    then show ?thesis using 1 digit_char [of "n mod 10"]
      by (subst dec_nat.simps) (simp add: digits_value_snoc digit_def)
  qed
qed

lemma digit_sign: "digit c \<Longrightarrow> c \<noteq> CHR ''-'' \<and> c \<noteq> CHR ''+''"
  by (auto simp: digit_def)

lemma ParseInt_dec:
  assumes "- (2 ^ (bits - 1)) \<le> i" and "i < 2 ^ (bits - 1)"
  shows "ParseInt bits (dec_int i) = (i, True)"
proof -
  obtain c s where d: "dec_nat (nat \<bar>i\<bar>) = c # s" "digit c"
    using dec_nat_digits [of "nat \<bar>i\<bar>"] by (cases "dec_nat (nat \<bar>i\<bar>)") auto
  have v: "digits_value 0 (c # s) = Some (nat \<bar>i\<bar>)" using digits_value_dec [of "nat \<bar>i\<bar>"] d(1) by simp
  show ?thesis
  proof (cases "i < 0")
    case True
    then have "nat (- i) \<le> 2 ^ (bits - 1)" using assms(1) by (simp add: nat_le_iff)
    then show ?thesis using True d v by (simp add: ParseInt_def dec_int_def Let_def del: digits_value.simps)
  next
    case False
    then have "\<not> 2 ^ (bits - 1) \<le> nat i" using assms(2) by (simp add: le_nat_iff)
    then show ?thesis using False d v digit_sign [OF d(2)]
      by (simp add: ParseInt_def dec_int_def Let_def del: digits_value.simps)
  qed
qed

end
