(* ===== verification/Access.thy ===== *)
theory Access
  imports Lazygate_Prelude Go_Strings
begin

text \<open>
  The lists that decide who may wake the server: \<^verbatim>\<open>mc/ban.go\<close> and \<^verbatim>\<open>mc/whitelist.go\<close>. Two functions
  of the standard library are arguments: \<open>ip_string\<close> is \<^verbatim>\<open>net.ParseIP(s).String()\<close>, the canonical
  spelling of an address, and \<open>parse_time\<close> is \<^verbatim>\<open>time.ParseInLocation\<close> with the layout of the ban file
  (\<open>None\<close> on an error). Times are nanoseconds. The lists are given as the decoded JSON entries.
\<close>

record BannedIp =
  bi_IP :: string
  bi_Created :: "string option"
  bi_Source :: "string option"
  bi_Expires :: "string option"
  bi_Reason :: "string option"

type_synonym BannedIps = "string \<rightharpoonup> BannedIp"

definition expiryForever :: string where "expiryForever = ''forever''"
definition DefaultBanReason :: string where "DefaultBanReason = ''Banned by an operator.''"

definition NewBannedIps :: BannedIps where "NewBannedIps = Map.empty"

text \<open>\<^verbatim>\<open>expiry\<close>: \<open>Ok None\<close> is forever, \<open>Fail\<close> is a time that does not parse.\<close>

definition BannedIp_expiry :: "(string \<Rightarrow> int option) \<Rightarrow> BannedIp \<Rightarrow> int option outcome" where
  "BannedIp_expiry parse_time b =
     (case bi_Expires b of
        None \<Rightarrow> Ok None
      | Some e \<Rightarrow>
          if ToLower (TrimSpace e) = expiryForever then Ok None
          else case parse_time e of Some t \<Rightarrow> Ok (Some t) | None \<Rightarrow> Fail)"

definition BannedIp_IsBanned :: "(string \<Rightarrow> int option) \<Rightarrow> int \<Rightarrow> BannedIp \<Rightarrow> bool" where
  "BannedIp_IsBanned parse_time now b =
     (case BannedIp_expiry parse_time b of
        Ok (Some t) \<Rightarrow> now < t
      | _ \<Rightarrow> True)"

definition BannedIps_Get :: "(string \<Rightarrow> string) \<Rightarrow> BannedIps \<Rightarrow> string \<Rightarrow> BannedIp option" where
  "BannedIps_Get ip_string b ip = b (ip_string ip)"

definition BannedIps_IsBanned ::
  "(string \<Rightarrow> string) \<Rightarrow> (string \<Rightarrow> int option) \<Rightarrow> int \<Rightarrow> BannedIps \<Rightarrow> string \<Rightarrow> bool" where
  "BannedIps_IsBanned ip_string parse_time now b ip =
     (case b (ip_string ip) of None \<Rightarrow> False | Some e \<Rightarrow> BannedIp_IsBanned parse_time now e)"

definition LoadBannedIps :: "BannedIp list \<Rightarrow> BannedIps" where
  "LoadBannedIps ips = foldl (\<lambda>out e. out(bi_IP e \<mapsto> e)) NewBannedIps ips"

record Whitelist =
  wl_whitelist :: "string list"
  wl_ops :: "string list"

fun member_loop :: "string \<Rightarrow> string list \<Rightarrow> bool" where
  "member_loop username [] = False"
| "member_loop username (u # us) = (if u = username then True else member_loop username us)"

definition Whitelist_IsWhitelisted :: "Whitelist \<Rightarrow> string \<Rightarrow> bool" where
  "Whitelist_IsWhitelisted w username =
     (if member_loop username (wl_whitelist w) then True
      else if member_loop username (wl_ops w) then True
      else False)"

section \<open>Lemmas\<close>

lemma member_loop_iff [simp]: "member_loop u us \<longleftrightarrow> u \<in> set us"
  by (induction us) auto

lemma whitelisted_iff:
  "Whitelist_IsWhitelisted w u \<longleftrightarrow> u \<in> set (wl_whitelist w) \<or> u \<in> set (wl_ops w)"
  by (simp add: Whitelist_IsWhitelisted_def)

lemma LoadBannedIps_last: "LoadBannedIps ips = map_of (rev (map (\<lambda>e. (bi_IP e, e)) ips))"
proof -
  have "foldl (\<lambda>out e. out(bi_IP e \<mapsto> e)) m ips = m ++ map_of (rev (map (\<lambda>e. (bi_IP e, e)) ips))" for m
    by (induction ips arbitrary: m) (simp_all add: map_add_assoc [symmetric] fun_eq_iff map_add_def
        split: option.splits)
  then show ?thesis by (simp add: LoadBannedIps_def NewBannedIps_def)
qed

text \<open>A ban that has not expired, or whose expiry cannot be read, blocks the address.\<close>

lemma BannedIp_IsBanned_iff:
  "BannedIp_IsBanned parse_time now b \<longleftrightarrow>
     (case bi_Expires b of
        None \<Rightarrow> True
      | Some e \<Rightarrow> ToLower (TrimSpace e) = expiryForever \<or>
          (case parse_time e of None \<Rightarrow> True | Some t \<Rightarrow> now < t))"
  by (simp add: BannedIp_IsBanned_def BannedIp_expiry_def split: option.splits)

end
