(* ===== verification/Framing.thy ===== *)
theory Framing
  imports Packets
begin

text \<open>
  \<^verbatim>\<open>proto/packet.go\<close> and \<^verbatim>\<open>proto/zlib.go\<close>: a packet as an identifier and its data, framed by a
  length and, once a compression threshold is set, by the uncompressed length as well. The
  DEFLATE codec itself is a parameter, the record \<open>zlib\<close>: \<open>zl_write\<close> is what
  \<^verbatim>\<open>zlib.NewWriter\<close> produces for a buffer, and \<open>zl_read d n\<close> is what reading at most \<open>n\<close> bytes from
  \<^verbatim>\<open>zlib.NewReader\<close> over \<open>d\<close> yields (\<open>None\<close> when the reader reports an error). The documented
  behaviour the theorems rely on is \<open>zlib_inverse\<close>.
\<close>

section \<open>Definitions\<close>

record zlib =
  zl_write :: "bytes \<Rightarrow> bytes option"
  zl_read :: "bytes \<Rightarrow> nat \<Rightarrow> bytes option"

definition zlibCompress :: "zlib \<Rightarrow> bytes \<Rightarrow> bytes outcome" where
  "zlibCompress z data = (case zl_write z data of None \<Rightarrow> Fail | Some b \<Rightarrow> Ok b)"

definition zlibDecompress :: "zlib \<Rightarrow> bytes \<Rightarrow> int \<Rightarrow> bytes outcome" where
  "zlibDecompress z data expectedLen =
     (case zl_read z data (nat (expectedLen + 1)) of
        None \<Rightarrow> Fail
      | Some decompressed \<Rightarrow>
          if int (length decompressed) \<noteq> expectedLen then Fail else Ok decompressed)"

record RawPacket =
  rp_ID :: byte
  rp_Data :: bytes

definition NewRawPacket :: "byte \<Rightarrow> bytes \<Rightarrow> RawPacket" where
  "NewRawPacket i data = \<lparr>rp_ID = i, rp_Data = data\<rparr>"

definition readPacketIDData :: "bytes \<Rightarrow> RawPacket outcome" where
  "readPacketIDData buf =
     (case ReadVarInt buf of
        Ok (n, packetID) \<Rightarrow>
          (case go_slice buf (int n) (int (length buf)) of
             Ok buf \<Rightarrow> Ok (NewRawPacket (ucast packetID) buf)
           | _ \<Rightarrow> Panic)
      | Fail \<Rightarrow> Fail | Panic \<Rightarrow> Panic)"

definition DecodeWithoutLen :: "zlib \<Rightarrow> Client \<Rightarrow> bytes \<Rightarrow> RawPacket outcome" where
  "DecodeWithoutLen z client buf =
     (if \<not> IsCompressed client then readPacketIDData buf
      else case ReadVarInt buf of
        Ok (n, dataLen) \<Rightarrow>
          (case go_slice buf (int n) (int (length buf)) of
             Ok buf \<Rightarrow>
               if dataLen = 0 then readPacketIDData buf
               else (case zlibDecompress z buf (sint dataLen) of
                  Ok decompressed \<Rightarrow> readPacketIDData decompressed
                | _ \<Rightarrow> Fail)
           | _ \<Rightarrow> Panic)
      | Fail \<Rightarrow> Fail | Panic \<Rightarrow> Panic)"

definition DecodeWithLen :: "zlib \<Rightarrow> Client \<Rightarrow> bytes \<Rightarrow> RawPacket outcome" where
  "DecodeWithLen z client buf =
     (case ReadVarInt buf of
        Ok (n, pktLen) \<Rightarrow>
          (case go_slice buf (int n) (int (length buf)) of
             Ok buf \<Rightarrow>
               if sint pktLen < 0 \<or> int (length buf) < sint pktLen then Fail
               else (case go_slice buf 0 (sint pktLen) of
                  Ok buf \<Rightarrow> DecodeWithoutLen z client buf
                | _ \<Rightarrow> Panic)
           | _ \<Rightarrow> Panic)
      | Fail \<Rightarrow> Fail | Panic \<Rightarrow> Panic)"

definition encodeUncompressed :: "RawPacket \<Rightarrow> bytes outcome" where
  "encodeUncompressed p = Ok (EncodeVarInt (ucast (rp_ID p)) @ rp_Data p)"

definition encodeCompressed :: "zlib \<Rightarrow> RawPacket \<Rightarrow> i32 \<Rightarrow> bytes outcome" where
  "encodeCompressed z p threshold =
     (let payload = EncodeVarInt (ucast (rp_ID p)) @ rp_Data p;
          dataLen = word_of_nat (length payload) :: i32;
          compress = sint threshold < sint dataLen;
          dataLenHeader = if compress then dataLen else 0
      in case (if compress then zlibCompress z payload else Ok payload) of
           Ok payload \<Rightarrow> Ok (EncodeVarInt dataLenHeader @ payload)
         | _ \<Rightarrow> Fail)"

definition EncodeWithoutLen :: "zlib \<Rightarrow> RawPacket \<Rightarrow> Client \<Rightarrow> bytes outcome" where
  "EncodeWithoutLen z p client =
     (let threshold = Compressed client
      in if 0 \<le> sint threshold then encodeCompressed z p threshold else encodeUncompressed p)"

definition EncodeWithLen :: "zlib \<Rightarrow> RawPacket \<Rightarrow> Client \<Rightarrow> bytes outcome" where
  "EncodeWithLen z p client =
     (case EncodeWithoutLen z p client of
        Ok payload \<Rightarrow> Ok (EncodeVarInt (word_of_nat (length payload)) @ payload)
      | _ \<Rightarrow> Fail)"

section \<open>The codec's documented behaviour\<close>

text \<open>Reading back what was written yields the written bytes, cut at the number asked for.\<close>

definition zlib_inverse :: "zlib \<Rightarrow> bool" where
  "zlib_inverse z \<longleftrightarrow> (\<forall>d c n. zl_write z d = Some c \<longrightarrow> zl_read z c n = Some (take n d))"

text \<open>
  A concrete codec with that behaviour, for the witnesses: it stores the bytes, as a zlib stream of
  stored blocks does, without headers or checksum.
\<close>

definition stored_zlib :: zlib where
  "stored_zlib = \<lparr>zl_write = Some, zl_read = (\<lambda>d n. Some (take n d))\<rparr>"

lemma stored_zlib_inverse: "zlib_inverse stored_zlib"
  by (simp add: zlib_inverse_def stored_zlib_def)

section \<open>Decoding what was encoded\<close>

lemma ReadVarInt_EncodeVarInt [simp]:
  "ReadVarInt (EncodeVarInt v @ rest) = Ok (length (EncodeVarInt v), v)"
  by (simp add: ReadVarInt_scan varint_scan_EncodeVarInt)

lemma ReadVarInt_never_panics: "\<not> is_Panic (ReadVarInt buf)"
  by (simp add: ReadVarInt_scan split: option.splits prod.splits)

lemma ReadVarInt_bounds:
  "ReadVarInt buf = Ok (n, v) \<Longrightarrow> 1 \<le> n \<and> n \<le> 5 \<and> n \<le> length buf"
  by (auto simp: ReadVarInt_scan dest: varint_scan_bounds split: option.splits)

text \<open>The decoders without Go's checks of each slice: none of them fails.\<close>

lemma readPacketIDData_eq:
  "readPacketIDData buf =
     (case ReadVarInt buf of
        Ok (n, packetID) \<Rightarrow> Ok (NewRawPacket (ucast packetID) (drop n buf))
      | _ \<Rightarrow> Fail)"
  using ReadVarInt_bounds [of buf] ReadVarInt_never_panics [of buf]
  by (auto simp: readPacketIDData_def split: outcome.split)

lemma DecodeWithoutLen_eq:
  "DecodeWithoutLen z client buf =
     (if \<not> IsCompressed client then readPacketIDData buf
      else case ReadVarInt buf of
        Ok (n, dataLen) \<Rightarrow>
          (let buf = drop n buf
           in if dataLen = 0 then readPacketIDData buf
              else case zlibDecompress z buf (sint dataLen) of
                Ok decompressed \<Rightarrow> readPacketIDData decompressed
              | _ \<Rightarrow> Fail)
      | _ \<Rightarrow> Fail)"
  using ReadVarInt_bounds [of buf] ReadVarInt_never_panics [of buf]
  by (auto simp: DecodeWithoutLen_def Let_def split: outcome.split)

lemma DecodeWithLen_eq:
  "DecodeWithLen z client buf =
     (case ReadVarInt buf of
        Ok (n, pktLen) \<Rightarrow>
          (let buf = drop n buf
           in if sint pktLen < 0 \<or> int (length buf) < sint pktLen then Fail
              else DecodeWithoutLen z client (take (nat (sint pktLen)) buf))
      | _ \<Rightarrow> Fail)"
  using ReadVarInt_bounds [of buf] ReadVarInt_never_panics [of buf]
  by (auto simp: DecodeWithLen_def Let_def split: outcome.split)

lemma ucast_byte_back [simp]: "ucast (ucast (b :: byte) :: i32) = b"
  by (rule bit_word_eqI) (auto simp: bit_simps)

lemma readPacketIDData_encode:
  "readPacketIDData (EncodeVarInt (ucast (rp_ID p)) @ rp_Data p) = Ok p"
  by (simp add: readPacketIDData_eq NewRawPacket_def)

lemma zlibDecompress_Compress:
  assumes "zlib_inverse z" and "zlibCompress z d = Ok c"
  shows "zlibDecompress z c (int (length d)) = Ok d"
proof -
  from assms(2) have "zl_write z d = Some c"
    by (simp add: zlibCompress_def split: option.splits)
  with assms(1) have "zl_read z c (nat (int (length d) + 1)) = Some d"
    by (simp add: zlib_inverse_def)
  then show ?thesis by (simp add: zlibDecompress_def)
qed

lemma DecodeWithoutLen_Encode:
  assumes z: "IsCompressed client \<Longrightarrow> zlib_inverse z"
    and enc: "EncodeWithoutLen z p client = Ok payload"
    and len: "length (rp_Data p) + 5 < 2 ^ 31"
  shows "DecodeWithoutLen z client payload = Ok p"
proof (cases "IsCompressed client")
  case False
  with enc show ?thesis
    by (auto simp: EncodeWithoutLen_def Compressed_def IsCompressed_def encodeUncompressed_def
        DecodeWithoutLen_eq readPacketIDData_encode)
next
  case True
  let ?body = "EncodeVarInt (ucast (rp_ID p)) @ rp_Data p"
  have body: "0 < length ?body" "length ?body < 2 ^ 31"
    using len length_EncodeVarInt [of "ucast (rp_ID p)"] by auto
  then have n: "sint (word_of_nat (length ?body) :: i32) = int (length ?body)"
    by (intro sint_of_length)
  show ?thesis
  proof (cases "sint (cl_compression client) < int (length ?body)")
    case False
    with True enc n show ?thesis
      by (auto simp: EncodeWithoutLen_def Compressed_def IsCompressed_def encodeCompressed_def
          DecodeWithoutLen_eq readPacketIDData_encode Let_def)
  next
    case big: True
    from enc True n big obtain c where c: "zlibCompress z ?body = Ok c"
      and payload: "payload = EncodeVarInt (word_of_nat (length ?body)) @ c"
      by (auto simp: EncodeWithoutLen_def Compressed_def IsCompressed_def encodeCompressed_def Let_def
          split: outcome.splits)
    have "(word_of_nat (length ?body) :: i32) \<noteq> 0"
      using n body(1) by (metis of_nat_0_less_iff less_irrefl signed_0)
    moreover have "zlibDecompress z c (sint (word_of_nat (length ?body) :: i32)) = Ok ?body"
      unfolding n by (rule zlibDecompress_Compress [OF z [OF True] c])
    ultimately show ?thesis
      using True unfolding payload
      by (simp add: DecodeWithoutLen_eq readPacketIDData_encode Let_def)
  qed
qed

lemma DecodeWithLen_Encode:
  assumes z: "IsCompressed client \<Longrightarrow> zlib_inverse z"
    and enc: "EncodeWithLen z p client = Ok frame"
    and len: "length frame < 2 ^ 31" and data: "length (rp_Data p) + 5 < 2 ^ 31"
  shows "DecodeWithLen z client (frame @ trailing) = Ok p"
proof -
  from enc obtain payload where p: "EncodeWithoutLen z p client = Ok payload"
    and frame: "frame = EncodeVarInt (word_of_nat (length payload)) @ payload"
    by (auto simp: EncodeWithLen_def split: outcome.splits)
  have "length payload < 2 ^ 31" using len frame by simp
  then have "sint (word_of_nat (length payload) :: i32) = int (length payload)"
    by (rule sint_of_length)
  then show ?thesis
    using DecodeWithoutLen_Encode [OF z p data] unfolding frame
    by (simp add: DecodeWithLen_eq Let_def)
qed

lemma decode_never_panics:
  "\<not> is_Panic (readPacketIDData buf)"
  "\<not> is_Panic (DecodeWithoutLen z client buf)"
  "\<not> is_Panic (DecodeWithLen z client buf)"
proof -
  have id_data: "\<not> is_Panic (readPacketIDData b)" for b
    by (simp add: readPacketIDData_eq split: outcome.splits)
  then have without: "\<not> is_Panic (DecodeWithoutLen z client b)" for b
    by (simp add: DecodeWithoutLen_eq Let_def split: outcome.splits)
  show "\<not> is_Panic (readPacketIDData buf)" by (rule id_data)
  show "\<not> is_Panic (DecodeWithoutLen z client buf)" by (rule without)
  show "\<not> is_Panic (DecodeWithLen z client buf)"
    using without by (simp add: DecodeWithLen_eq Let_def split: outcome.splits)
qed

end
