(* ===== verification/Conn_Write.thy ===== *)
theory Conn_Write
  imports Framing Status_Json
begin

text \<open>
  Writing to a connection. A \<open>sink\<close> is what has been written so far, one entry per \<^verbatim>\<open>Write\<close> call, and
  how many more calls will succeed: a peer that goes away makes the next call fail, and the code's
  error paths are then taken. \<open>writePacket\<close> is the helper of the play packets and \<open>Kick\<close> is
  \<^verbatim>\<open>proto/action.go\<close>.
\<close>

record sink =
  sk_written :: "bytes list"
  sk_budget :: nat

definition conn_Write :: "bytes \<Rightarrow> sink \<Rightarrow> bool \<times> sink" where
  "conn_Write b c =
     (if sk_budget c = 0 then (False, c)
      else (True, c\<lparr>sk_written := sk_written c @ [b], sk_budget := sk_budget c - 1\<rparr>))"

definition writePacket :: "zlib \<Rightarrow> Client \<Rightarrow> RawPacket \<Rightarrow> sink \<Rightarrow> bool \<times> sink" where
  "writePacket z client packet c =
     (case EncodeWithLen z packet client of Ok encoded \<Rightarrow> conn_Write encoded c | _ \<Rightarrow> (False, c))"

text \<open>Several packets, stopping at the first error.\<close>

fun writePackets :: "zlib \<Rightarrow> Client \<Rightarrow> RawPacket list \<Rightarrow> sink \<Rightarrow> bool \<times> sink" where
  "writePackets z client [] c = (True, c)"
| "writePackets z client (p # ps) c =
     (case writePacket z client p c of
        (True, c') \<Rightarrow> writePackets z client ps c'
      | (False, c') \<Rightarrow> (False, c'))"

definition Kick_packet :: "Client \<Rightarrow> string \<Rightarrow> RawPacket" where
  "Kick_packet client msg =
     NewRawPacket (if cl_state client = ClientStatePlay then PacketGameDisconnect
                   else PacketClientLoginDisconnect)
       (StringBytes (ChatMessageJSON msg))"

definition Kick :: "zlib \<Rightarrow> Client \<Rightarrow> string \<Rightarrow> sink \<Rightarrow> bool \<times> sink" where
  "Kick z client msg c = writePacket z client (Kick_packet client msg) c"

section \<open>What arrives at the peer\<close>

lemma writePacket_ok:
  assumes "EncodeWithLen z p client = Ok b" and "0 < sk_budget c"
  shows "writePacket z client p c =
    (True, c\<lparr>sk_written := sk_written c @ [b], sk_budget := sk_budget c - 1\<rparr>)"
  using assms by (simp add: writePacket_def conn_Write_def)

lemma writePackets_prefix:
  "writePackets z client ps c = (ok, c') \<Longrightarrow> \<exists>bs. sk_written c' = sk_written c @ bs"
  by (induction ps arbitrary: c)
    (fastforce simp: writePacket_def conn_Write_def split: prod.splits bool.splits if_splits outcome.splits)+

text \<open>What has been written stays written.\<close>

definition appends :: "sink \<Rightarrow> sink \<Rightarrow> bool" where
  "appends k k' \<longleftrightarrow> (\<exists>bs. sk_written k' = sk_written k @ bs)"

lemma appends_refl [simp]: "appends k k"
  by (simp add: appends_def)

lemma appends_trans: "appends k k1 \<Longrightarrow> appends k1 k2 \<Longrightarrow> appends k k2"
  by (auto simp: appends_def)

lemma appends_set: "appends k k' \<Longrightarrow> set (sk_written k) \<subseteq> set (sk_written k')"
  by (auto simp: appends_def)

lemma writePacket_appends: "writePacket z client p k = (ok, k') \<Longrightarrow> appends k k'"
  by (auto simp: writePacket_def conn_Write_def appends_def split: outcome.splits if_splits)

lemma writePacket_frame:
  "writePacket z client p k = (True, k') \<Longrightarrow> \<exists>frame. EncodeWithLen z p client = Ok frame \<and> sk_written k' = sk_written k @ [frame]"
  by (auto simp: writePacket_def conn_Write_def split: outcome.splits if_splits)

lemma writePackets_appends: "writePackets z client ps k = (ok, k') \<Longrightarrow> appends k k'"
  by (auto simp: appends_def dest: writePackets_prefix)

text \<open>Without compression every packet can be encoded, so only the peer makes a write fail.\<close>

lemma writePacket_plain:
  assumes "\<not> IsCompressed client" and "0 < sk_budget k"
  shows "\<exists>k'. writePacket z client p k = (True, k') \<and> sk_budget k' = sk_budget k - 1"
  using assms
  by (auto simp: writePacket_def conn_Write_def EncodeWithLen_def EncodeWithoutLen_def IsCompressed_def Compressed_def
      encodeUncompressed_def)

lemma writePackets_plain:
  assumes "\<not> IsCompressed client" and "length ps \<le> sk_budget k"
  shows "\<exists>k'. writePackets z client ps k = (True, k') \<and> sk_budget k' = sk_budget k - length ps"
  using assms(2)
proof (induction ps arbitrary: k)
  case (Cons p ps)
  then obtain k1 where "writePacket z client p k = (True, k1)" "sk_budget k1 = sk_budget k - 1"
    using writePacket_plain [OF assms(1), of k z p] by auto
  then show ?case using Cons.IH [of k1] Cons.prems by auto
qed simp

end
