(* ===== verification/Nbt.thy ===== *)
theory Nbt
  imports Wire
begin

text \<open>
  \<^verbatim>\<open>nbt/nbt.go\<close>: named binary tags and their encoder. A \<^verbatim>\<open>Tag\<close> of the source is a struct whose
  \<^verbatim>\<open>Type\<close> says which of the value fields is set; here it is the tagged union of those fields. A
  \<^verbatim>\<open>Compound\<close> (a slice of names in insertion order beside a map) is the association list in that order;
  \<open>names\<close> and \<open>Get\<close> give back the two halves, and \<open>Insert_refines\<close> shows that \<open>Insert\<close> acts on them
  as the source does.

  The encoder runs over the interface \<^verbatim>\<open>ByteWriter\<close>, here a record of its methods. The locale
  \<open>byte_writer\<close> states what a writer promises, that each method appends the big-endian bytes of its
  argument, and is interpreted on both implementations of the interface.
\<close>

section \<open>Tags and compounds\<close>

datatype Tag =
    TEnd
  | TByte i64 | TShort i64 | TInt i64 | TLong i64
  | TFloat f64 | TDouble f64
  | TByteArray bytes | TString string
  | TList byte "Tag list"
  | TCompound "(string \<times> Tag) list"
  | TIntArray "i32 list" | TLongArray "i64 list"

type_synonym Compound = "(string \<times> Tag) list"

definition TagEnd :: byte where "TagEnd = 0"
definition TagByte :: byte where "TagByte = 1"
definition TagShort :: byte where "TagShort = 2"
definition TagInt :: byte where "TagInt = 3"
definition TagLong :: byte where "TagLong = 4"
definition TagFloat :: byte where "TagFloat = 5"
definition TagDouble :: byte where "TagDouble = 6"
definition TagByteArray :: byte where "TagByteArray = 7"
definition TagString :: byte where "TagString = 8"
definition TagList :: byte where "TagList = 9"
definition TagCompound :: byte where "TagCompound = 10"
definition TagIntArray :: byte where "TagIntArray = 11"
definition TagLongArray :: byte where "TagLongArray = 12"

lemmas tag_ids = TagEnd_def TagByte_def TagShort_def TagInt_def TagLong_def TagFloat_def
  TagDouble_def TagByteArray_def TagString_def TagList_def TagCompound_def TagIntArray_def
  TagLongArray_def

fun Type :: "Tag \<Rightarrow> byte" where
  "Type TEnd = TagEnd"
| "Type (TByte _) = TagByte"
| "Type (TShort _) = TagShort"
| "Type (TInt _) = TagInt"
| "Type (TLong _) = TagLong"
| "Type (TFloat _) = TagFloat"
| "Type (TDouble _) = TagDouble"
| "Type (TByteArray _) = TagByteArray"
| "Type (TString _) = TagString"
| "Type (TList _ _) = TagList"
| "Type (TCompound _) = TagCompound"
| "Type (TIntArray _) = TagIntArray"
| "Type (TLongArray _) = TagLongArray"

definition NewCompound :: Compound where "NewCompound = []"
definition Len :: "Compound \<Rightarrow> nat" where "Len c = length c"
definition Names :: "Compound \<Rightarrow> string list" where "Names c = map fst c"
definition Get :: "Compound \<Rightarrow> string \<Rightarrow> Tag option" where "Get c name = map_of c name"

fun Insert :: "Compound \<Rightarrow> string \<Rightarrow> Tag \<Rightarrow> Compound" where
  "Insert [] name tag = [(name, tag)]"
| "Insert ((n, t) # c) name tag = (if n = name then (n, tag) # c else (n, t) # Insert c name tag)"

text \<open>The accessors that fail on a missing key or a tag of another type.\<close>

definition GetCompound :: "Compound \<Rightarrow> string \<Rightarrow> Compound outcome" where
  "GetCompound c name = (case Get c name of Some (TCompound d) \<Rightarrow> Ok d | _ \<Rightarrow> Fail)"

fun tag_Compound :: "Tag \<Rightarrow> Compound option" where
  "tag_Compound (TCompound c) = Some c"
| "tag_Compound _ = None"

definition GetCompoundVec :: "Compound \<Rightarrow> string \<Rightarrow> Compound option list outcome" where
  "GetCompoundVec c name = (case Get c name of Some (TList _ ts) \<Rightarrow> Ok (map tag_Compound ts) | _ \<Rightarrow> Fail)"

definition GetStr :: "Compound \<Rightarrow> string \<Rightarrow> string outcome" where
  "GetStr c name = (case Get c name of Some (TString s) \<Rightarrow> Ok s | _ \<Rightarrow> Fail)"

definition InsertByte :: "Compound \<Rightarrow> string \<Rightarrow> 8 word \<Rightarrow> Compound" where
  "InsertByte c name v = Insert c name (TByte (scast v))"
definition InsertShort :: "Compound \<Rightarrow> string \<Rightarrow> 16 word \<Rightarrow> Compound" where
  "InsertShort c name v = Insert c name (TShort (scast v))"
definition InsertInt :: "Compound \<Rightarrow> string \<Rightarrow> i32 \<Rightarrow> Compound" where
  "InsertInt c name v = Insert c name (TInt (scast v))"
definition InsertLong :: "Compound \<Rightarrow> string \<Rightarrow> i64 \<Rightarrow> Compound" where
  "InsertLong c name v = Insert c name (TLong v)"
definition InsertFloat :: "Compound \<Rightarrow> string \<Rightarrow> f32 \<Rightarrow> Compound" where
  "InsertFloat c name v = Insert c name (TFloat (float64_of_float32 v))"
definition InsertDouble :: "Compound \<Rightarrow> string \<Rightarrow> f64 \<Rightarrow> Compound" where
  "InsertDouble c name v = Insert c name (TDouble v)"
definition InsertString :: "Compound \<Rightarrow> string \<Rightarrow> string \<Rightarrow> Compound" where
  "InsertString c name v = Insert c name (TString v)"

text \<open>The deep copy inserts a copy of every entry into an empty compound.\<close>

fun cloneTag :: "Tag \<Rightarrow> Tag" and cloneList :: "Tag list \<Rightarrow> Tag list"
  and Clone_loop :: "Compound \<Rightarrow> Compound \<Rightarrow> Compound" where
  "cloneTag (TCompound c) = TCompound (Clone_loop NewCompound c)"
| "cloneTag (TList e ts) = TList e (cloneList ts)"
| "cloneTag t = t"
| "cloneList [] = []"
| "cloneList (t # ts) = cloneTag t # cloneList ts"
| "Clone_loop out [] = out"
| "Clone_loop out ((name, t) # c) = Clone_loop (Insert out name (cloneTag t)) c"

definition Clone :: "Compound \<Rightarrow> Compound" where
  "Clone c = Clone_loop NewCompound c"

section \<open>The encoder\<close>

record 'w ByteWriter =
  bw_Write :: "'w \<Rightarrow> bytes \<Rightarrow> 'w"
  bw_WriteU8 :: "'w \<Rightarrow> byte \<Rightarrow> 'w"
  bw_WriteInt16 :: "'w \<Rightarrow> 16 word \<Rightarrow> 'w"
  bw_WriteInt32 :: "'w \<Rightarrow> i32 \<Rightarrow> 'w"
  bw_WriteInt64 :: "'w \<Rightarrow> i64 \<Rightarrow> 'w"
  bw_WriteFloat32 :: "'w \<Rightarrow> f32 \<Rightarrow> 'w"
  bw_WriteFloat64 :: "'w \<Rightarrow> f64 \<Rightarrow> 'w"
  bw_WriteVarInt :: "'w \<Rightarrow> i32 \<Rightarrow> 'w"

definition writeString :: "'w ByteWriter \<Rightarrow> 'w \<Rightarrow> string \<Rightarrow> 'w" where
  "writeString ops w s = bw_Write ops (bw_WriteInt16 ops w (word_of_nat (length s))) (bytes_of_string s)"

fun writeTag :: "'w ByteWriter \<Rightarrow> 'w \<Rightarrow> Tag \<Rightarrow> 'w"
  and writeItems :: "'w ByteWriter \<Rightarrow> 'w \<Rightarrow> Tag list \<Rightarrow> 'w"
  and writeInnerCompound :: "'w ByteWriter \<Rightarrow> 'w \<Rightarrow> Compound \<Rightarrow> 'w" where
  "writeTag ops w TEnd = w"
| "writeTag ops w (TByte n) = bw_WriteU8 ops w (ucast n)"
| "writeTag ops w (TShort n) = bw_WriteInt16 ops w (ucast n)"
| "writeTag ops w (TInt n) = bw_WriteInt32 ops w (ucast n)"
| "writeTag ops w (TLong n) = bw_WriteInt64 ops w n"
| "writeTag ops w (TFloat d) = bw_WriteFloat32 ops w (float32_of_float64 d)"
| "writeTag ops w (TDouble d) = bw_WriteFloat64 ops w d"
| "writeTag ops w (TByteArray bs) = bw_Write ops (bw_WriteInt32 ops w (word_of_nat (length bs))) bs"
| "writeTag ops w (TString s) = writeString ops w s"
| "writeTag ops w (TList elemType ts) =
     writeItems ops (bw_WriteInt32 ops (bw_WriteU8 ops w elemType) (word_of_nat (length ts))) ts"
| "writeTag ops w (TCompound c) = writeInnerCompound ops w c"
| "writeTag ops w (TIntArray vs) =
     foldl (bw_WriteInt32 ops) (bw_WriteInt32 ops w (word_of_nat (length vs))) vs"
| "writeTag ops w (TLongArray vs) =
     foldl (bw_WriteInt64 ops) (bw_WriteInt32 ops w (word_of_nat (length vs))) vs"
| "writeItems ops w [] = w"
| "writeItems ops w (t # ts) = writeItems ops (writeTag ops w t) ts"
| "writeInnerCompound ops w [] = bw_WriteU8 ops w TagEnd"
| "writeInnerCompound ops w ((name, t) # c) =
     writeInnerCompound ops (writeTag ops (writeString ops (bw_WriteU8 ops w (Type t)) name) t) c"

definition WriteCompoundTag :: "'w ByteWriter \<Rightarrow> 'w \<Rightarrow> Compound \<Rightarrow> 'w" where
  "WriteCompoundTag ops w c =
     writeInnerCompound ops (writeString ops (bw_WriteU8 ops w TagCompound) '''') c"

section \<open>The two writers\<close>

record Writer =
  nw_buf :: bytes

definition NewWriter :: Writer where "NewWriter = \<lparr>nw_buf = []\<rparr>"
definition Writer_Bytes :: "Writer \<Rightarrow> bytes" where "Writer_Bytes w = nw_buf w"
definition Writer_Write :: "Writer \<Rightarrow> bytes \<Rightarrow> Writer" where
  "Writer_Write w b = w\<lparr>nw_buf := nw_buf w @ b\<rparr>"
definition Writer_WriteU8 :: "Writer \<Rightarrow> byte \<Rightarrow> Writer" where
  "Writer_WriteU8 w b = w\<lparr>nw_buf := nw_buf w @ [b]\<rparr>"
definition Writer_WriteInt16 :: "Writer \<Rightarrow> 16 word \<Rightarrow> Writer" where
  "Writer_WriteInt16 w v = w\<lparr>nw_buf := nw_buf w @ [ucast (drop_bit 8 v), ucast v]\<rparr>"
definition Writer_WriteInt32 :: "Writer \<Rightarrow> i32 \<Rightarrow> Writer" where
  "Writer_WriteInt32 w v =
     w\<lparr>nw_buf := nw_buf w @
       [ucast (drop_bit 24 v), ucast (drop_bit 16 v), ucast (drop_bit 8 v), ucast v]\<rparr>"
definition Writer_WriteInt64 :: "Writer \<Rightarrow> i64 \<Rightarrow> Writer" where
  "Writer_WriteInt64 w v =
     w\<lparr>nw_buf := nw_buf w @
       [ucast (drop_bit 56 v), ucast (drop_bit 48 v), ucast (drop_bit 40 v), ucast (drop_bit 32 v),
        ucast (drop_bit 24 v), ucast (drop_bit 16 v), ucast (drop_bit 8 v), ucast v]\<rparr>"
definition Writer_WriteFloat32 :: "Writer \<Rightarrow> f32 \<Rightarrow> Writer" where
  "Writer_WriteFloat32 w v = Writer_WriteInt32 w v"
definition Writer_WriteFloat64 :: "Writer \<Rightarrow> f64 \<Rightarrow> Writer" where
  "Writer_WriteFloat64 w v = Writer_WriteInt64 w v"

text \<open>The writer's own copy of the var-int loop, appending to the buffer as it goes.\<close>

function Writer_varint_loop :: "u32 \<Rightarrow> Writer \<Rightarrow> Writer" where
  "Writer_varint_loop u w =
     (let b = ucast (u AND 0x7F) :: byte;
          u' = drop_bit 7 u;
          b' = (if u' \<noteq> 0 then b OR 0x80 else b);
          w' = w\<lparr>nw_buf := nw_buf w @ [b']\<rparr>
      in if u' = 0 then w' else Writer_varint_loop u' w')"
  by pat_completeness auto
termination
proof (relation "measure (unat \<circ> fst)", goal_cases)
  case (2 u w b x b' w')
  then have "0 < unat u" by (cases "u = 0") (auto simp: unat_gt_0)
  then show ?case using 2 by (simp add: unat_drop_seven)
qed simp

declare Writer_varint_loop.simps [simp del]

definition Writer_WriteVarInt :: "Writer \<Rightarrow> i32 \<Rightarrow> Writer" where
  "Writer_WriteVarInt w v = Writer_varint_loop v w"

definition Writer_ops :: "Writer ByteWriter" where
  "Writer_ops =
     \<lparr>bw_Write = Writer_Write, bw_WriteU8 = Writer_WriteU8, bw_WriteInt16 = Writer_WriteInt16,
      bw_WriteInt32 = Writer_WriteInt32, bw_WriteInt64 = Writer_WriteInt64,
      bw_WriteFloat32 = Writer_WriteFloat32, bw_WriteFloat64 = Writer_WriteFloat64,
      bw_WriteVarInt = Writer_WriteVarInt\<rparr>"

definition PacketWriter_ops :: "PacketWriter ByteWriter" where
  "PacketWriter_ops =
     \<lparr>bw_Write = Write, bw_WriteU8 = WriteU8, bw_WriteInt16 = WriteInt16,
      bw_WriteInt32 = WriteInt32, bw_WriteInt64 = WriteInt64,
      bw_WriteFloat32 = WriteFloat32, bw_WriteFloat64 = WriteFloat64,
      bw_WriteVarInt = WriteVarInt\<rparr>"

section \<open>Compounds keep their order and their last values\<close>

lemma Insert_map_of [simp]: "map_of (Insert c name tag) = (map_of c)(name \<mapsto> tag)"
  by (induction c name tag rule: Insert.induct) (auto simp: fun_upd_twist)

lemma Insert_names:
  "map fst (Insert c name tag) = (if name \<in> fst ` set c then map fst c else map fst c @ [name])"
  by (induction c name tag rule: Insert.induct) auto

lemma Insert_refines:
  "Names (Insert c name tag) = (if Get c name = None then Names c @ [name] else Names c)"
  "Get (Insert c name tag) = (Get c)(name \<mapsto> tag)"
  by (simp_all add: Names_def Get_def Insert_names map_of_eq_None_iff fun_eq_iff)

lemma distinct_Insert [simp]: "distinct (map fst c) \<Longrightarrow> distinct (map fst (Insert c name tag))"
  by (simp add: Insert_names)

lemma Insert_fresh [simp]: "name \<notin> fst ` set c \<Longrightarrow> Insert c name tag = c @ [(name, tag)]"
  by (induction c name tag rule: Insert.induct) auto

lemma set_Insert: "set (Insert c name tag) \<subseteq> insert (name, tag) (set c)"
  by (induction c name tag rule: Insert.induct) auto

text \<open>\<open>distinct_names\<close>: no compound inside the tag has a name twice; \<open>Insert\<close> is the only way the code
  extends one, so every tag of the program has this property, and copying such a tag gives it back.\<close>

fun distinct_names :: "Tag \<Rightarrow> bool" where
  "distinct_names (TList _ ts) = list_all distinct_names ts"
| "distinct_names (TCompound c) = (distinct (map fst c) \<and> list_all (\<lambda>p. distinct_names (snd p)) c)"
| "distinct_names _ = True"

lemma clone_same:
  "distinct_names t \<Longrightarrow> cloneTag t = t"
  "list_all distinct_names ts \<Longrightarrow> cloneList ts = ts"
  "distinct (map fst (out @ c)) \<Longrightarrow> list_all (\<lambda>p. distinct_names (snd p)) c \<Longrightarrow> Clone_loop out c = out @ c"
proof (induction t and ts and out c rule: cloneTag_cloneList_Clone_loop.induct)
  case (7 out name t c)
  have fresh: "name \<notin> fst ` set out" using "7.prems"(1) by auto
  have "cloneTag t = t" using "7.IH"(1) "7.prems"(2) by simp
  then show ?case using "7.IH"(2) "7.prems" fresh by simp
qed (simp_all add: NewCompound_def)

section \<open>What a writer promises\<close>

definition wire_nbt_string :: "string \<Rightarrow> bytes" where
  "wire_nbt_string s = be16 (word_of_nat (length s)) @ bytes_of_string s"

fun wire_tag :: "Tag \<Rightarrow> bytes" where
  "wire_tag TEnd = []"
| "wire_tag (TByte n) = [ucast n]"
| "wire_tag (TShort n) = be16 (ucast n)"
| "wire_tag (TInt n) = be32 (ucast n)"
| "wire_tag (TLong n) = be64 n"
| "wire_tag (TFloat d) = be32 (float32_of_float64 d)"
| "wire_tag (TDouble d) = be64 d"
| "wire_tag (TByteArray bs) = be32 (word_of_nat (length bs)) @ bs"
| "wire_tag (TString s) = wire_nbt_string s"
| "wire_tag (TList e ts) = [e] @ be32 (word_of_nat (length ts)) @ concat (map wire_tag ts)"
| "wire_tag (TCompound c) =
     concat (map (\<lambda>p. [Type (snd p)] @ wire_nbt_string (fst p) @ wire_tag (snd p)) c) @ [TagEnd]"
| "wire_tag (TIntArray vs) = be32 (word_of_nat (length vs)) @ concat (map be32 vs)"
| "wire_tag (TLongArray vs) = be32 (word_of_nat (length vs)) @ concat (map be64 vs)"

definition wire_compound :: "Compound \<Rightarrow> bytes" where
  "wire_compound c = [TagCompound] @ wire_nbt_string '''' @ wire_tag (TCompound c)"

locale byte_writer =
  fixes ops :: "'w ByteWriter" and out :: "'w \<Rightarrow> bytes"
  assumes Write_out: "out (bw_Write ops w b) = out w @ b"
    and WriteU8_out: "out (bw_WriteU8 ops w c) = out w @ [c]"
    and WriteInt16_out: "out (bw_WriteInt16 ops w v16) = out w @ be16 v16"
    and WriteInt32_out: "out (bw_WriteInt32 ops w v32) = out w @ be32 v32"
    and WriteInt64_out: "out (bw_WriteInt64 ops w v64) = out w @ be64 v64"
    and WriteFloat32_out: "out (bw_WriteFloat32 ops w v32) = out w @ be32 v32"
    and WriteFloat64_out: "out (bw_WriteFloat64 ops w v64) = out w @ be64 v64"
    and WriteVarInt_out: "out (bw_WriteVarInt ops w v32) = out w @ EncodeVarInt v32"
begin

lemmas writer_out = Write_out WriteU8_out WriteInt16_out WriteInt32_out WriteInt64_out
  WriteFloat32_out WriteFloat64_out WriteVarInt_out

lemma writeString_out: "out (writeString ops w s) = out w @ wire_nbt_string s"
  by (simp add: writeString_def wire_nbt_string_def writer_out)

lemma foldl_out:
  "out (foldl (bw_WriteInt32 ops) w vs) = out w @ concat (map be32 vs)"
  "out (foldl (bw_WriteInt64 ops) w us) = out w @ concat (map be64 us)"
  by (induction vs arbitrary: w) (simp_all add: writer_out, induction us arbitrary: w, simp_all add: writer_out)

lemma write_out:
  fixes o' :: "'w ByteWriter"
  assumes "o' = ops"
  shows "out (writeTag o' w t) = out w @ wire_tag t"
    "out (writeItems o' w ts) = out w @ concat (map wire_tag ts)"
    "out (writeInnerCompound o' w c) = out w @ wire_tag (TCompound c)"
  using assms
  by (induction o' w t and o' w ts and o' w c rule: writeTag_writeItems_writeInnerCompound.induct)
    (simp_all add: writer_out writeString_out foldl_out)

lemma WriteCompoundTag_out: "out (WriteCompoundTag ops w c) = out w @ wire_compound c"
  by (simp add: WriteCompoundTag_def wire_compound_def write_out writer_out writeString_out
      del: wire_tag.simps)

end

interpretation packet_writer: byte_writer PacketWriter_ops pw_buf
  by unfold_locales (simp_all add: PacketWriter_ops_def wire_simps)

lemma Writer_varint_loop_appends: "nw_buf (Writer_varint_loop u w) = nw_buf w @ EncodeVarInt_loop u"
proof (induction u w rule: Writer_varint_loop.induct)
  case (1 u w)
  show ?case
    using "1.IH" by (subst Writer_varint_loop.simps, subst EncodeVarInt_loop.simps) (simp add: Let_def)
qed

interpretation nbt_writer: byte_writer Writer_ops nw_buf
  by unfold_locales
    (simp_all add: Writer_ops_def Writer_Write_def Writer_WriteU8_def Writer_WriteInt16_def
      Writer_WriteInt32_def Writer_WriteInt64_def Writer_WriteFloat32_def Writer_WriteFloat64_def
      Writer_WriteVarInt_def Writer_varint_loop_appends EncodeVarInt_def be16_def be32_def be64_def)

end
