(* ===== verification/Nbt_Read.thy ===== *)
theory Nbt_Read
  imports Nbt
begin

text \<open>
  \<^verbatim>\<open>nbt/read.go\<close>: the binary NBT reader. Its string and byte-array readers compare a signed length
  with what is left and slice by it, so that a negative length is a slice out of range: a panic.

  The recursion of \<^verbatim>\<open>readTag\<close> follows the nesting of the input and its compound loop ends at a
  \<^verbatim>\<open>TagEnd\<close> byte; both consume a byte before they go on. \<open>readTag_fuel\<close> bounds the nesting by a
  counter; \<open>readTag\<close> starts it at one more than the unread bytes, and \<open>readTag_unfold\<close> shows that the
  counter is never what ends the recursion: \<open>readTag\<close> satisfies the equation of the source.
\<close>

section \<open>Definitions\<close>

definition Reader_Remaining :: "cursor \<Rightarrow> nat" where
  "Reader_Remaining r = remaining r"

definition NewReader :: "bytes \<Rightarrow> cursor" where
  "NewReader data = cursor_at data 0"

definition Reader_u8 :: "byte rd" where
  "Reader_u8 r =
     (if length (cur_data r) \<le> cur_pos r then (Fail, r)
      else (Ok (cur_data r ! cur_pos r), advance 1 r))"

definition Reader_i16 :: "16 word rd" where
  "Reader_i16 r =
     (if Reader_Remaining r < 2 then (Fail, r) else (Ok (be_word (take 2 (unread r))), advance 2 r))"

definition Reader_i32 :: "i32 rd" where
  "Reader_i32 r =
     (if Reader_Remaining r < 4 then (Fail, r) else (Ok (be_word (take 4 (unread r))), advance 4 r))"

definition Reader_i64 :: "i64 rd" where
  "Reader_i64 r =
     (if Reader_Remaining r < 8 then (Fail, r) else (Ok (be_word (take 8 (unread r))), advance 8 r))"

definition Reader_f32 :: "f32 rd" where
  "Reader_f32 r =
     (if Reader_Remaining r < 4 then (Fail, r) else (Ok (be_word (take 4 (unread r))), advance 4 r))"

definition Reader_f64 :: "f64 rd" where
  "Reader_f64 r =
     (if Reader_Remaining r < 8 then (Fail, r) else (Ok (be_word (take 8 (unread r))), advance 8 r))"

text \<open>\<^verbatim>\<open>r.data[r.pos : r.pos+int(n)]\<close> after the check \<^verbatim>\<open>int(n) > r.Remaining()\<close>: a negative \<open>n\<close>
  passes the check and the slice panics.\<close>

definition read_slice :: "int \<Rightarrow> bytes rd" where
  "read_slice n r =
     (if int (Reader_Remaining r) < n then (Fail, r)
      else if n < 0 then (Panic, r)
      else (Ok (take (nat n) (unread r)), advance (nat n) r))"

definition ReadString :: "string rd" where
  "ReadString = rd_bind Reader_i16 (\<lambda>n. rd_bind (read_slice (sint n)) (\<lambda>b. rd_return (string_of_bytes b)))"

text \<open>\<^verbatim>\<open>if int(n)*4 > r.Remaining() { return nil, false }\<close>\<close>

definition rd_require :: "int \<Rightarrow> 'a rd \<Rightarrow> 'a rd" where
  "rd_require n m r = (if int (Reader_Remaining r) < n then (Fail, r) else m r)"

text \<open>The loop of a compound: at most one round per unread byte.\<close>

primrec readEntries :: "nat \<Rightarrow> (byte \<Rightarrow> Tag rd) \<Rightarrow> Compound \<Rightarrow> Tag rd" where
  "readEntries 0 child c = rd_fail"
| "readEntries (Suc k) child c = rd_bind Reader_u8 (\<lambda>childType.
     if childType = TagEnd then rd_return (TCompound c)
     else rd_bind ReadString (\<lambda>name. rd_bind (child childType) (\<lambda>t.
       readEntries k child (Insert c name t))))"

definition readTag_body :: "(byte \<Rightarrow> Tag rd) \<Rightarrow> byte \<Rightarrow> Tag rd" where
  "readTag_body child tagID =
     (if tagID = TagEnd then rd_return TEnd
      else if tagID = TagByte then rd_bind Reader_u8 (\<lambda>v. rd_return (TByte (scast v)))
      else if tagID = TagShort then rd_bind Reader_i16 (\<lambda>v. rd_return (TShort (scast v)))
      else if tagID = TagInt then rd_bind Reader_i32 (\<lambda>v. rd_return (TInt (scast v)))
      else if tagID = TagLong then rd_bind Reader_i64 (\<lambda>v. rd_return (TLong v))
      else if tagID = TagFloat then rd_bind Reader_f32 (\<lambda>v. rd_return (TFloat (float64_of_float32 v)))
      else if tagID = TagDouble then rd_bind Reader_f64 (\<lambda>v. rd_return (TDouble v))
      else if tagID = TagByteArray then
        rd_bind Reader_i32 (\<lambda>n. rd_bind (read_slice (sint n)) (\<lambda>b. rd_return (TByteArray b)))
      else if tagID = TagString then rd_bind ReadString (\<lambda>s. rd_return (TString s))
      else if tagID = TagList then
        rd_bind Reader_u8 (\<lambda>elemType. rd_bind Reader_i32 (\<lambda>n.
          rd_bind (rd_repeat (nat (sint n)) (child elemType)) (\<lambda>ts. rd_return (TList elemType ts))))
      else if tagID = TagCompound then (\<lambda>r. readEntries (Suc (Reader_Remaining r)) child NewCompound r)
      else if tagID = TagIntArray then
        rd_bind Reader_i32 (\<lambda>n. rd_require (sint n * 4)
          (rd_bind (rd_repeat (nat (sint n)) Reader_i32) (\<lambda>vs. rd_return (TIntArray vs))))
      else if tagID = TagLongArray then
        rd_bind Reader_i32 (\<lambda>n. rd_require (sint n * 8)
          (rd_bind (rd_repeat (nat (sint n)) Reader_i64) (\<lambda>vs. rd_return (TLongArray vs))))
      else rd_fail)"

primrec readTag_fuel :: "nat \<Rightarrow> byte \<Rightarrow> Tag rd" where
  "readTag_fuel 0 tagID = rd_fail"
| "readTag_fuel (Suc f) tagID = readTag_body (readTag_fuel f) tagID"

definition readTag :: "byte \<Rightarrow> Tag rd" where
  "readTag tagID r = readTag_fuel (Suc (Reader_Remaining r)) tagID r"

definition ReadCompoundTag :: "Compound rd" where
  "ReadCompoundTag = rd_bind Reader_u8 (\<lambda>tagID. rd_bind ReadString (\<lambda>_. rd_bind (readTag tagID) (\<lambda>tag.
     case tag of TCompound c \<Rightarrow> rd_return c | _ \<Rightarrow> rd_fail)))"

section \<open>Readers only move forward\<close>

definition forward :: "'a rd \<Rightarrow> bool" where
  "forward m \<longleftrightarrow> (\<forall>r. remaining (snd (m r)) \<le> remaining r)"

named_theorems forward_intro \<open>readers that only move forward\<close>

lemma forwardD: "forward m \<Longrightarrow> m r = (x, r') \<Longrightarrow> remaining r' \<le> remaining r"
  unfolding forward_def by (metis snd_conv)

lemma forward_return [forward_intro]: "forward (rd_return v)"
  by (simp add: forward_def rd_return_def)

lemma forward_fail [forward_intro]: "forward rd_fail"
  by (simp add: forward_def rd_fail_def)

lemma forward_bind [forward_intro]:
  assumes "forward m" and "\<And>a. forward (f a)"
  shows "forward (rd_bind m f)"
  unfolding forward_def
proof
  fix r
  obtain x r' where m: "m r = (x, r')" by fastforce
  have f: "remaining (snd (f a r')) \<le> remaining r'" for a using assms(2) by (simp add: forward_def)
  show "remaining (snd (rd_bind m f r)) \<le> remaining r"
    using forwardD [OF assms(1) m] order_trans [OF f forwardD [OF assms(1) m]] m
    by (cases x) (simp_all add: rd_bind_def)
qed

lemma forward_repeat [forward_intro]: "forward m \<Longrightarrow> forward (rd_repeat n m)"
  by (induction n) (simp_all add: forward_intro)

lemma forward_fixed: "forward (\<lambda>r. if b r then (Fail, r) else (f r, advance k r))"
  by (simp add: forward_def)

lemma forward_readers [forward_intro]:
  "forward Reader_u8" "forward Reader_i16" "forward Reader_i32" "forward Reader_i64"
  "forward Reader_f32" "forward Reader_f64" "forward (read_slice n)"
  by (simp_all add: forward_def Reader_u8_def Reader_i16_def Reader_i32_def Reader_i64_def
      Reader_f32_def Reader_f64_def read_slice_def)

lemma forward_ReadString [forward_intro]: "forward ReadString"
  unfolding ReadString_def by (intro forward_intro)

lemma forward_require [forward_intro]: "forward m \<Longrightarrow> forward (rd_require n m)"
  by (simp add: forward_def rd_require_def)

lemma forward_entries [forward_intro]: "(\<And>t. forward (child t)) \<Longrightarrow> forward (readEntries k child c)"
  by (induction k arbitrary: c) (simp_all add: forward_intro)

lemma forward_entries_from:
  "(\<And>t. forward (child t)) \<Longrightarrow> forward (\<lambda>r. readEntries (k r) child c r)"
  using forward_entries [of child] by (simp add: forward_def)

lemma forward_body [forward_intro]: "(\<And>t. forward (child t)) \<Longrightarrow> forward (readTag_body child tagID)"
  by (simp add: readTag_body_def forward_intro forward_entries_from del: readEntries.simps)

lemma forward_readTag_fuel [forward_intro]: "forward (readTag_fuel f tagID)"
  by (induction f arbitrary: tagID) (simp_all add: forward_intro)

lemma forward_readTag [forward_intro]: "forward (readTag tagID)"
  using forward_readTag_fuel by (simp add: forward_def readTag_def del: readTag_fuel.simps)

section \<open>The recursion of the source\<close>

lemma rd_bind_local:
  assumes "m r = m' r" and "\<And>a r'. m r = (Ok a, r') \<Longrightarrow> f a r' = f' a r'"
  shows "rd_bind m f r = rd_bind m' f' r"
  using assms by (auto simp: rd_bind_def split: prod.splits outcome.splits)

lemma Reader_u8_consumes: "Reader_u8 r = (Ok b, r') \<Longrightarrow> remaining r' < remaining r"
  by (auto simp: Reader_u8_def remaining_def split: if_splits)

lemma rd_repeat_local:
  assumes "forward m" and "\<And>r'. remaining r' \<le> remaining r \<Longrightarrow> m r' = m' r'"
  shows "rd_repeat n m r = rd_repeat n m' r"
  using assms(2)
proof (induction n arbitrary: r)
  case (Suc n)
  show ?case
    unfolding rd_repeat.simps
  proof (rule rd_bind_local)
    fix a r'
    assume "m r = (Ok a, r')"
    then have le: "remaining r' \<le> remaining r" by (rule forwardD [OF assms(1)])
    show "rd_bind (rd_repeat n m) (\<lambda>xs. rd_return (a # xs)) r' =
        rd_bind (rd_repeat n m') (\<lambda>xs. rd_return (a # xs)) r'"
      by (rule rd_bind_local) (use Suc.IH [of r'] Suc.prems le in auto)
  qed (use Suc.prems in simp)
qed simp

lemma readEntries_local:
  assumes "\<And>t. forward (child t)"
    and "\<And>t r'. remaining r' < remaining r \<Longrightarrow> child t r' = child' t r'"
    and "remaining r < k" and "remaining r < k'"
  shows "readEntries k child c r = readEntries k' child' c r"
  using assms(2-)
proof (induction k arbitrary: r c k')
  case (Suc k)
  then obtain j where j: "k' = Suc j" by (cases k') auto
  show ?case
    unfolding j readEntries.simps
  proof (rule rd_bind_local [OF refl])
    fix b r1
    assume "Reader_u8 r = (Ok b, r1)"
    then have lt: "remaining r1 < remaining r" by (rule Reader_u8_consumes)
    have "rd_bind ReadString (\<lambda>name. rd_bind (child b) (\<lambda>t. readEntries k child (Insert c name t))) r1 =
        rd_bind ReadString (\<lambda>name. rd_bind (child' b) (\<lambda>t. readEntries j child' (Insert c name t))) r1"
    proof (intro rd_bind_local [OF refl] rd_bind_local)
      fix name r2
      assume "ReadString r1 = (Ok name, r2)"
      then have lt2: "remaining r2 < remaining r"
        using lt forwardD [OF forward_ReadString, of r1] by fastforce
      then show "child b r2 = child' b r2" by (rule Suc.prems)
      fix t r3
      assume "child b r2 = (Ok t, r3)"
      then have "remaining r3 < remaining r" using lt2 forwardD [OF assms(1)] by fastforce
      then show "readEntries k child (Insert c name t) r3 = readEntries j child' (Insert c name t) r3"
        using Suc.prems j by (intro Suc.IH) auto
    qed
    then show "(if b = TagEnd then rd_return (TCompound c)
          else rd_bind ReadString (\<lambda>name. rd_bind (child b) (\<lambda>t. readEntries k child (Insert c name t)))) r1 =
        (if b = TagEnd then rd_return (TCompound c)
          else rd_bind ReadString (\<lambda>name. rd_bind (child' b) (\<lambda>t. readEntries j child' (Insert c name t)))) r1"
      by simp
  qed
qed simp

lemma readTag_body_local:
  assumes fwd: "\<And>t. forward (child t)"
    and same: "\<And>t r'. remaining r' < remaining r \<Longrightarrow> child t r' = child' t r'"
  shows "readTag_body child tagID r = readTag_body child' tagID r"
proof -
  have lists: "rd_bind Reader_u8 (\<lambda>e. rd_bind Reader_i32 (\<lambda>n.
        rd_bind (rd_repeat (nat (sint n)) (child e)) (\<lambda>ts. rd_return (TList e ts)))) r =
      rd_bind Reader_u8 (\<lambda>e. rd_bind Reader_i32 (\<lambda>n.
        rd_bind (rd_repeat (nat (sint n)) (child' e)) (\<lambda>ts. rd_return (TList e ts)))) r"
  proof (intro rd_bind_local [OF refl] rd_bind_local rd_repeat_local fwd same)
    fix e r1 n r2 r3
    assume "Reader_u8 r = (Ok e, r1)" and "Reader_i32 r1 = (Ok n, r2)" and "remaining r3 \<le> remaining r2"
    then show "remaining r3 < remaining r"
      using Reader_u8_consumes [of r e r1] forwardD [OF forward_readers(3), of r1] by fastforce
  qed simp
  have "readEntries (Suc (remaining r)) child NewCompound r =
      readEntries (Suc (remaining r)) child' NewCompound r"
    by (rule readEntries_local [OF fwd same]) simp_all
  with lists show ?thesis by (simp add: readTag_body_def Reader_Remaining_def)
qed

lemma readTag_fuel_enough:
  "remaining r < f \<Longrightarrow> remaining r < f' \<Longrightarrow> readTag_fuel f tagID r = readTag_fuel f' tagID r"
proof (induction f arbitrary: f' tagID r)
  case (Suc f)
  then obtain g where g: "f' = Suc g" by (cases f') auto
  show ?case unfolding g readTag_fuel.simps
  proof (rule readTag_body_local [OF forward_readTag_fuel])
    fix t r'
    assume "remaining r' < remaining r"
    then show "readTag_fuel f t r' = readTag_fuel g t r'" using Suc.prems g by (intro Suc.IH) auto
  qed
qed simp

lemma readTag_unfold: "readTag tagID = readTag_body readTag tagID"
proof
  fix r
  have "readTag tagID r = readTag_body (readTag_fuel (remaining r)) tagID r"
    by (simp add: readTag_def Reader_Remaining_def)
  also have "\<dots> = readTag_body readTag tagID r"
  proof (rule readTag_body_local [OF forward_readTag_fuel])
    fix t r'
    assume "remaining r' < remaining r"
    then show "readTag_fuel (remaining r) t r' = readTag t r'"
      unfolding readTag_def Reader_Remaining_def by (intro readTag_fuel_enough) simp_all
  qed
  finally show "readTag tagID r = readTag_body readTag tagID r" .
qed

section \<open>Reading back what was written\<close>

text \<open>
  The tags whose values fit the width their type is written with. String lengths are written as 16
  bits and read as a signed number, so a string of 32768 bytes or more does not come back.
\<close>

fun writable :: "Tag \<Rightarrow> bool" where
  "writable (TByte n) = (scast (ucast n :: 8 word) = n)"
| "writable (TShort n) = (scast (ucast n :: 16 word) = n)"
| "writable (TInt n) = (scast (ucast n :: 32 word) = n)"
| "writable (TFloat d) = (float64_of_float32 (float32_of_float64 d) = d)"
| "writable (TByteArray bs) = (length bs < 2 ^ 31)"
| "writable (TString s) = (length s < 2 ^ 15)"
| "writable (TList e ts) = (length ts < 2 ^ 31 \<and> list_all (\<lambda>t. Type t = e \<and> writable t) ts)"
| "writable (TCompound c) =
     (distinct (map fst c) \<and>
      list_all (\<lambda>p. Type (snd p) \<noteq> TagEnd \<and> length (fst p) < 2 ^ 15 \<and> writable (snd p)) c)"
| "writable (TIntArray vs) = (length vs < 2 ^ 31)"
| "writable (TLongArray vs) = (length vs < 2 ^ 31)"
| "writable _ = True"

lemma reads_NewReader:
  assumes "reads m bs v"
  shows "m (NewReader (bs @ rest)) = (Ok v, cursor_at (bs @ rest) (length bs))"
  using assms spec [of _ "[]"] unfolding reads_def NewReader_def
  by (metis add.left_neutral append_Nil list.size(3))

lemma reads_Reader_u8 [reads_intro]: "reads Reader_u8 [b] b"
  by (rule readsI) (simp add: Reader_u8_def)

lemma reads_Reader_fixed [reads_intro]:
  "reads Reader_i16 (be16 v16) v16" "reads Reader_i32 (be32 v32) v32" "reads Reader_i64 (be64 v64) v64"
  "reads Reader_f32 (be32 v32) v32" "reads Reader_f64 (be64 v64) v64"
  unfolding Reader_i16_def Reader_i32_def Reader_i64_def Reader_f32_def Reader_f64_def Reader_Remaining_def
  by (rule reads_fixed; simp)+

lemma reads_slice [reads_intro]: "n = int (length bs) \<Longrightarrow> reads (read_slice n) bs bs"
  by (rule readsI) (simp add: read_slice_def Reader_Remaining_def)

lemma reads_ReadString [reads_intro]:
  assumes "length s < 2 ^ 15"
  shows "reads ReadString (wire_nbt_string s) s"
proof -
  have "reads (rd_bind (read_slice (sint (word_of_nat (length s) :: 16 word)))
      (\<lambda>b. rd_return (string_of_bytes b))) (bytes_of_string s) (string_of_bytes (bytes_of_string s))"
    by (rule reads_map) (use assms in \<open>simp add: reads_slice sint_16_of_length\<close>)
  then show ?thesis
    unfolding ReadString_def wire_nbt_string_def using reads_bind [OF reads_Reader_fixed(1)] by simp
qed

lemma reads_require: "n \<le> int (length bs) \<Longrightarrow> reads m bs v \<Longrightarrow> reads (rd_require n m) bs v"
  unfolding reads_def rd_require_def Reader_Remaining_def by simp

lemma reads_leaf: "reads m bs a \<Longrightarrow> g a = v \<Longrightarrow> reads (rd_bind m (\<lambda>x. rd_return (g x))) bs v"
  using reads_map [of m bs a g] by simp

lemma reads_entries:
  assumes "\<And>p. p \<in> set c \<Longrightarrow> reads (child (Type (snd p))) (wire_tag (snd p)) (snd p)"
    and "\<And>p. p \<in> set c \<Longrightarrow> Type (snd p) \<noteq> TagEnd \<and> length (fst p) < 2 ^ 15"
    and "distinct (map fst (acc @ c))" and "length c < k"
  shows "reads (readEntries k child acc)
    (concat (map (\<lambda>p. [Type (snd p)] @ wire_nbt_string (fst p) @ wire_tag (snd p)) c) @ [TagEnd])
    (TCompound (acc @ c))"
  using assms
proof (induction c arbitrary: acc k)
  case Nil
  then obtain j where "k = Suc j" by (cases k) auto
  then show ?case
    using reads_bind [OF reads_Reader_u8, of "\<lambda>childType. if childType = TagEnd then rd_return (TCompound acc)
        else rd_bind ReadString (\<lambda>name. rd_bind (child childType) (\<lambda>t. readEntries j child (Insert acc name t)))"
        TagEnd "[]"]
    by (simp add: reads_return)
next
  case (Cons p c)
  obtain j where j: "k = Suc j" using Cons.prems(4) by (cases k) auto
  obtain name t where p: "p = (name, t)" by (cases p)
  have fresh: "Insert acc name t = acc @ [(name, t)]" using Cons.prems(3) by (simp add: p)
  have t: "reads (child (Type t)) (wire_tag t) t" "Type t \<noteq> TagEnd" "length name < 2 ^ 15"
    using Cons.prems(1,2) [of p] by (simp_all add: p)
  have rest: "reads (readEntries j child (Insert acc name t))
    (concat (map (\<lambda>p. [Type (snd p)] @ wire_nbt_string (fst p) @ wire_tag (snd p)) c) @ [TagEnd])
    (TCompound (acc @ p # c))" (is "reads _ ?rest _")
    using Cons.IH [of "acc @ [(name, t)]" j] Cons.prems j unfolding fresh by (simp add: p)
  have "reads (rd_bind ReadString (\<lambda>name. rd_bind (child (Type t)) (\<lambda>t. readEntries j child (Insert acc name t))))
      (wire_nbt_string name @ wire_tag t @ ?rest) (TCompound (acc @ p # c))"
    by (rule reads_bind [OF reads_ReadString [OF t(3)]], rule reads_bind [OF t(1)], rule rest)
  then have "reads (readEntries k child acc) ([Type t] @ wire_nbt_string name @ wire_tag t @ ?rest)
      (TCompound (acc @ p # c))"
    unfolding j readEntries.simps by (intro reads_bind [OF reads_Reader_u8]) (simp add: t(2))
  then show ?case by (simp add: p)
qed

lemma tag_ids_distinct:
  "distinct [TagEnd, TagByte, TagShort, TagInt, TagLong, TagFloat, TagDouble, TagByteArray, TagString,
    TagList, TagCompound, TagIntArray, TagLongArray]"
  by (simp add: tag_ids)

lemmas readTag_cases = readTag_body_def tag_ids

lemma reads_body_compound:
  assumes "\<And>p. p \<in> set c \<Longrightarrow> reads (child (Type (snd p))) (wire_tag (snd p)) (snd p)"
    and "writable (TCompound c)"
  shows "reads (readTag_body child TagCompound) (wire_tag (TCompound c)) (TCompound c)"
proof (rule readsI)
  fix pre post
  let ?r = "cursor_at (pre @ wire_tag (TCompound c) @ post) (length pre)"
  have "length c \<le> length (concat (map (\<lambda>p. [Type (snd p)] @ wire_nbt_string (fst p) @ wire_tag (snd p)) c))"
    by (induction c) auto
  then have k: "length c < Suc (remaining ?r)" by simp
  have "reads (readEntries (Suc (remaining ?r)) child []) (wire_tag (TCompound c)) (TCompound ([] @ c))"
    unfolding wire_tag.simps by (rule reads_entries [OF assms(1)])
      (use assms(2) k in \<open>simp_all add: list_all_iff\<close>)
  then show "readTag_body child TagCompound ?r =
      (Ok (TCompound c), cursor_at (pre @ wire_tag (TCompound c) @ post) (length pre + length (wire_tag (TCompound c))))"
    by (simp add: reads_def readTag_cases Reader_Remaining_def NewCompound_def
        del: wire_tag.simps readEntries.simps)
qed

lemma reads_array:
  assumes "\<And>v. reads elem (enc v) v" and "\<And>v. length (enc v) = k" and "length vs < 2 ^ 31"
  shows "reads (rd_bind Reader_i32 (\<lambda>n. rd_require (sint n * int k)
        (rd_bind (rd_repeat (nat (sint n)) elem) (\<lambda>vs. rd_return (C vs)))))
    (be32 (word_of_nat (length vs)) @ concat (map enc vs)) (C vs)"
proof -
  have n: "sint (word_of_nat (length vs) :: i32) = int (length vs)" by (rule sint_of_length [OF assms(3)])
  have len: "length (concat (map enc vs)) = length vs * k" by (induction vs) (simp_all add: assms(2))
  have "reads (rd_bind (rd_repeat (length vs) elem) (\<lambda>vs. rd_return (C vs))) (concat (map enc vs)) (C vs)"
    by (rule reads_leaf [OF reads_repeat refl]) (rule assms(1))
  then show ?thesis
    by (intro reads_bind [OF reads_Reader_fixed(2)] reads_require) (simp_all only: n nat_int len of_nat_mult)
qed

lemma reads_body:
  assumes "writable t"
    and "\<And>e ts x. t = TList e ts \<Longrightarrow> x \<in> set ts \<Longrightarrow> reads (child (Type x)) (wire_tag x) x"
    and "\<And>c p. t = TCompound c \<Longrightarrow> p \<in> set c \<Longrightarrow> reads (child (Type (snd p))) (wire_tag (snd p)) (snd p)"
  shows "reads (readTag_body child (Type t)) (wire_tag t) t"
proof (cases t)
  case (TList e ts)
  have n: "nat (sint (word_of_nat (length ts) :: i32)) = length ts"
    using assms(1) TList by (simp add: sint_of_length)
  have "reads (rd_repeat (length ts) (child e)) (concat (map wire_tag ts)) ts"
    using assms(1,2) TList by (intro reads_repeat) (auto simp: list_all_iff)
  then have "reads (rd_bind Reader_u8 (\<lambda>e. rd_bind Reader_i32 (\<lambda>n.
      rd_bind (rd_repeat (nat (sint n)) (child e)) (\<lambda>ts. rd_return (TList e ts)))))
    ([e] @ be32 (word_of_nat (length ts)) @ concat (map wire_tag ts)) (TList e ts)"
    by (intro reads_bind [OF reads_Reader_u8] reads_bind [OF reads_Reader_fixed(2)]) (simp only: n reads_leaf)
  then show ?thesis by (simp add: TList readTag_cases)
next
  case (TCompound c)
  then show ?thesis using reads_body_compound assms by simp
next
  case (TByteArray bs)
  then have "reads (rd_bind Reader_i32 (\<lambda>n. rd_bind (read_slice (sint n)) (\<lambda>b. rd_return (TByteArray b))))
      (be32 (word_of_nat (length bs)) @ bs) (TByteArray bs)"
    using assms(1) by (intro reads_bind [OF reads_Reader_fixed(2)] reads_leaf reads_slice)
      (simp_all only: writable.simps sint_of_length reads_slice)
  then show ?thesis by (simp add: TByteArray readTag_cases)
next
  case (TIntArray vs)
  then show ?thesis
    using assms(1) reads_array [of Reader_i32 be32 4 vs TIntArray] by (simp add: readTag_cases reads_Reader_fixed)
next
  case (TLongArray vs)
  then show ?thesis
    using assms(1) reads_array [of Reader_i64 be64 8 vs TLongArray] by (simp add: readTag_cases reads_Reader_fixed)
qed (use assms(1) in \<open>auto simp: readTag_cases intro!: reads_leaf reads_return reads_Reader_u8 reads_Reader_fixed
      reads_ReadString\<close>)

lemma reads_readTag: "writable t \<Longrightarrow> reads (readTag (Type t)) (wire_tag t) t"
proof (induction t)
  case (TList e ts)
  then show ?case
    unfolding readTag_unfold [of "Type (TList e ts)"] by (intro reads_body) (auto simp: list_all_iff)
next
  case (TCompound c)
  have "reads (readTag (Type (snd p))) (wire_tag (snd p)) (snd p)" if "p \<in> set c" for p
    using TCompound.IH [of p "snd p"] TCompound.prems that by (cases p) (auto simp: list_all_iff)
  then show ?case
    unfolding readTag_unfold [of "Type (TCompound c)"] using TCompound.prems by (intro reads_body) auto
qed (subst readTag_unfold, rule reads_body, simp, simp, simp)+

lemma reads_ReadCompoundTag:
  assumes "writable (TCompound c)"
  shows "reads ReadCompoundTag (wire_compound c) c"
proof -
  have "reads (rd_bind (readTag TagCompound) (\<lambda>tag. case tag of TCompound c \<Rightarrow> rd_return c | _ \<Rightarrow> rd_fail))
      (wire_tag (TCompound c) @ []) c"
    by (rule reads_bind [OF reads_readTag [OF assms, simplified Type.simps]]) (simp add: reads_return)
  then show ?thesis
    unfolding ReadCompoundTag_def wire_compound_def
    by (intro reads_bind [OF reads_Reader_u8] reads_bind [OF reads_ReadString]) simp_all
qed

section \<open>What the reader accepts can be written again\<close>

definition yields :: "'a rd \<Rightarrow> ('a \<Rightarrow> bool) \<Rightarrow> bool" where
  "yields m P \<longleftrightarrow> (\<forall>r a r'. m r = (Ok a, r') \<longrightarrow> P a)"

lemma yieldsD: "yields m P \<Longrightarrow> m r = (Ok a, r') \<Longrightarrow> P a"
  by (auto simp: yields_def)

lemma yields_return: "P v \<Longrightarrow> yields (rd_return v) P"
  by (simp add: yields_def rd_return_def)

lemma yields_fail: "yields rd_fail P"
  by (simp add: yields_def rd_fail_def)

lemma yields_bind:
  assumes "yields m Q" and "\<And>a. Q a \<Longrightarrow> yields (f a) P"
  shows "yields (rd_bind m f) P"
  using assms unfolding yields_def rd_bind_def
  by (auto split: prod.splits outcome.splits) blast

lemma yields_if:
  "(b \<Longrightarrow> yields m P) \<Longrightarrow> (\<not> b \<Longrightarrow> yields m' P) \<Longrightarrow> yields (if b then m else m') P"
  by simp

lemma yields_True: "yields m (\<lambda>_. True)"
  by (simp add: yields_def)

lemma yields_repeat: "yields m P \<Longrightarrow> yields (rd_repeat n m) (\<lambda>xs. length xs = n \<and> list_all P xs)"
proof (induction n)
  case (Suc n)
  show ?case
    unfolding rd_repeat.simps
    by (rule yields_bind [OF Suc.prems], rule yields_bind [OF Suc.IH [OF Suc.prems]], rule yields_return) simp
qed (simp add: yields_return)

lemma yields_slice: "yields (read_slice n) (\<lambda>b. int (length b) = n)"
  by (auto simp: yields_def read_slice_def Reader_Remaining_def split: if_splits)

lemma yields_ReadString: "yields ReadString (\<lambda>s. length s < 2 ^ 15)"
  unfolding ReadString_def
proof (rule yields_bind [OF yields_True], rule yields_bind [OF yields_slice], rule yields_return)
  fix n :: "16 word" and b :: bytes
  assume "int (length b) = sint n"
  moreover have "sint n < 2 ^ 15" using sint_less [of n] by simp
  ultimately show "length (string_of_bytes b) < 2 ^ 15" by simp
qed

lemma nat_sint_bound: "nat (sint (n :: i32)) < 2 ^ 31"
  using sint_less [of n] by simp

lemma yields_entries:
  assumes "\<And>t. yields (child t) (\<lambda>x. writable x \<and> Type x = t)" and "writable (TCompound c)"
  shows "yields (readEntries k child c) (\<lambda>x. writable x \<and> Type x = TagCompound)"
  using assms(2)
proof (induction k arbitrary: c)
  case (Suc k)
  have step: "yields (rd_bind ReadString (\<lambda>name. rd_bind (child b) (\<lambda>t. readEntries k child (Insert c name t))))
      (\<lambda>x. writable x \<and> Type x = TagCompound)" if "b \<noteq> TagEnd" for b
  proof (rule yields_bind [OF yields_ReadString], rule yields_bind [OF assms(1)], rule Suc.IH)
    fix name :: string and t
    assume "length name < 2 ^ 15" "writable t \<and> Type t = b"
    then show "writable (TCompound (Insert c name t))"
      using Suc.prems set_Insert [of c name t] that by (fastforce simp: list_all_iff)
  qed
  show ?case
    unfolding readEntries.simps
    by (rule yields_bind [OF yields_True]) (use step Suc.prems in \<open>auto intro: yields_return\<close>)
qed (simp add: yields_fail)

lemma narrow_of_scast:
  "ucast (scast (a :: 8 word) :: i64) = a" "ucast (scast (b :: 16 word) :: i64) = b"
  "ucast (scast (c :: i32) :: i64) = c"
  by (rule bit_word_eqI, auto simp: bit_simps)+

lemma yields_numbers:
  "writable (TByte (scast (a :: 8 word)))" "writable (TShort (scast (b :: 16 word)))"
  "writable (TInt (scast (c :: i32)))" "writable (TFloat (float64_of_float32 d))"
  by (simp_all add: narrow_of_scast)

lemma yields_leaf:
  "(\<And>v. writable (C v) \<and> Type (C v) = T) \<Longrightarrow>
   yields (rd_bind m (\<lambda>v. rd_return (C v))) (\<lambda>x. writable x \<and> Type x = T)"
  by (rule yields_bind [OF yields_True], rule yields_return)

lemma yields_array:
  assumes "\<And>vs. length vs < 2 ^ 31 \<Longrightarrow> writable (C vs) \<and> Type (C vs) = T"
  shows "yields (rd_bind Reader_i32 (\<lambda>n. rd_require (sint n * k)
        (rd_bind (rd_repeat (nat (sint n)) m) (\<lambda>vs. rd_return (C vs)))))
      (\<lambda>x. writable x \<and> Type x = T)"
proof (rule yields_bind [OF yields_True])
  fix n :: i32
  have "yields (rd_bind (rd_repeat (nat (sint n)) m) (\<lambda>vs. rd_return (C vs))) (\<lambda>x. writable x \<and> Type x = T)"
    by (rule yields_bind [OF yields_repeat [OF yields_True]], rule yields_return)
      (use nat_sint_bound assms in auto)
  then show "yields (rd_require (sint n * k) (rd_bind (rd_repeat (nat (sint n)) m) (\<lambda>vs. rd_return (C vs))))
    (\<lambda>x. writable x \<and> Type x = T)"
    by (auto simp: yields_def rd_require_def)
qed

lemma yields_body:
  assumes "\<And>t. yields (child t) (\<lambda>x. writable x \<and> Type x = t)"
  shows "yields (readTag_body child tagID) (\<lambda>x. writable x \<and> Type x = tagID)"
proof -
  have lists: "yields (rd_bind Reader_u8 (\<lambda>e. rd_bind Reader_i32 (\<lambda>n.
        rd_bind (rd_repeat (nat (sint n)) (child e)) (\<lambda>ts. rd_return (TList e ts)))))
      (\<lambda>x. writable x \<and> Type x = TagList)"
    by (rule yields_bind [OF yields_True], rule yields_bind [OF yields_True],
        rule yields_bind [OF yields_repeat [OF assms]], rule yields_return)
      (use nat_sint_bound in \<open>auto simp: list_all_iff\<close>)
  have slices: "yields (rd_bind Reader_i32 (\<lambda>n. rd_bind (read_slice (sint n)) (\<lambda>b. rd_return (TByteArray b))))
      (\<lambda>x. writable x \<and> Type x = TagByteArray)"
    by (rule yields_bind [OF yields_True], rule yields_bind [OF yields_slice], rule yields_return)
      (metis Type.simps(8) nat_int nat_sint_bound writable.simps(5))
  have strings: "yields (rd_bind ReadString (\<lambda>s. rd_return (TString s))) (\<lambda>x. writable x \<and> Type x = TagString)"
    by (rule yields_bind [OF yields_ReadString], rule yields_return) simp
  have compounds: "yields (\<lambda>r. readEntries (Suc (Reader_Remaining r)) child NewCompound r)
      (\<lambda>x. writable x \<and> Type x = TagCompound)"
    using yields_entries [OF assms, of "[]"] unfolding yields_def NewCompound_def
    by (simp del: readEntries.simps)
  show ?thesis
    unfolding readTag_body_def
    using lists slices strings compounds yields_numbers
      yields_array [of TIntArray TagIntArray 4 Reader_i32] yields_array [of TLongArray TagLongArray 8 Reader_i64]
    by (intro yields_if)
      (simp_all add: yields_leaf yields_return yields_fail del: readEntries.simps)
qed

lemma yields_readTag: "yields (readTag tagID) (\<lambda>x. writable x \<and> Type x = tagID)"
proof -
  have "yields (readTag_fuel f tagID) (\<lambda>x. writable x \<and> Type x = tagID)" for f
  proof (induction f arbitrary: tagID)
    case (Suc f)
    then show ?case unfolding readTag_fuel.simps by (rule yields_body)
  qed (simp add: yields_fail)
  then show ?thesis by (simp add: yields_def readTag_def del: readTag_fuel.simps)
qed

lemma yields_ReadCompoundTag: "yields ReadCompoundTag (\<lambda>c. writable (TCompound c))"
  unfolding ReadCompoundTag_def
  by (rule yields_bind [OF yields_True], rule yields_bind [OF yields_True], rule yields_bind [OF yields_readTag])
    (auto split: Tag.splits intro: yields_return yields_fail)

section \<open>Inputs the reader does not defend against\<close>

text \<open>A root name of length \<open>-32768\<close>: the slice panics.\<close>

lemma ReadCompoundTag_panics: "fst (ReadCompoundTag (NewReader [10, 0x80, 0x00])) = Panic"
  by code_simp

text \<open>A list of \<^verbatim>\<open>TagEnd\<close> elements: any number of elements from five bytes.\<close>

lemma readTag_end_list:
  "reads (readTag TagList) ([0] @ be32 n) (TList 0 (replicate (nat (sint n)) TEnd))"
proof -
  have ends: "rd_repeat k (readTag TagEnd) = rd_return (replicate k TEnd)" for k
    by (induction k) (simp_all add: readTag_unfold [of TagEnd] readTag_body_def rd_bind_def rd_return_def)
  have "reads (rd_bind Reader_u8 (\<lambda>e. rd_bind Reader_i32 (\<lambda>n.
      rd_bind (rd_repeat (nat (sint n)) (readTag e)) (\<lambda>ts. rd_return (TList e ts)))))
    ([0] @ be32 n @ []) (TList 0 (replicate (nat (sint n)) TEnd))"
    by (intro reads_bind [OF reads_Reader_u8] reads_bind [OF reads_Reader_fixed(2)] reads_leaf)
      (simp_all add: ends [unfolded TagEnd_def] reads_return)
  then show ?thesis by (subst readTag_unfold) (simp add: readTag_cases)
qed

end
