(* ===== verification/Play.thy ===== *)
theory Play
  imports Conn_Write Nbt_Read Config Go_Strings
begin

text \<open>
  The play packets of \<^verbatim>\<open>proto/packets/play\<close>: the packets the lobby sends to a waiting client, in the
  three layouts the program knows (1.16.3, 1.17 and 1.20.1), and the decoder of the join-game packet
  the backend sends. The decoder has its own field reader, the third copy in the program; it is
  interpreted as a \<open>field_reader\<close>, and reads the NBT parts with the reader of \<open>Nbt_Read\<close>.

  Shown here: each decoder reads back the lobby's own join-game packet of its layout, field by field,
  so the two directions agree on the layout.
\<close>

section \<open>Protocol versions and packet identifiers\<close>

definition ProtocolV1_16_3 :: u32 where "ProtocolV1_16_3 = 753"
definition ProtocolV1_17 :: u32 where "ProtocolV1_17 = 755"
definition ProtocolV1_20_1 :: u32 where "ProtocolV1_20_1 = 763"

definition isV1_20_1 :: "u32 option \<Rightarrow> bool" where
  "isV1_20_1 protocol = (case protocol of Some p \<Rightarrow> p = ProtocolV1_20_1 | None \<Rightarrow> False)"

text \<open>\<^verbatim>\<open>protocol != nil && *protocol < ProtocolV1_17\<close> and its counterpart.\<close>

definition below_1_17 :: "u32 option \<Rightarrow> bool" where
  "below_1_17 protocol = (case protocol of Some p \<Rightarrow> p < ProtocolV1_17 | None \<Rightarrow> False)"

definition from_1_17 :: "u32 option \<Rightarrow> bool" where
  "from_1_17 protocol = (case protocol of Some p \<Rightarrow> ProtocolV1_17 \<le> p | None \<Rightarrow> False)"

text \<open>The identifier of a packet: the 1.20.1 one, the 1.17 one from protocol 755, else the 1.16.3 one.\<close>

definition packet_id_for :: "u32 option \<Rightarrow> byte \<Rightarrow> byte \<Rightarrow> byte \<Rightarrow> byte" where
  "packet_id_for protocol v1_16_3 v1_17 v1_20_1 =
     (if isV1_20_1 protocol then v1_20_1 else if from_1_17 protocol then v1_17 else v1_16_3)"

definition V1_16_3ClientBoundPluginMessage :: byte where "V1_16_3ClientBoundPluginMessage = 0x17"
definition V1_16_3NamedSoundEffect :: byte where "V1_16_3NamedSoundEffect = 0x18"
definition V1_16_3JoinGame :: byte where "V1_16_3JoinGame = 0x24"
definition V1_16_3PlayerPositionAndLook :: byte where "V1_16_3PlayerPositionAndLook = 0x34"
definition V1_16_3Respawn :: byte where "V1_16_3Respawn = 0x39"
definition V1_16_3TimeUpdate :: byte where "V1_16_3TimeUpdate = 0x4E"
definition V1_16_3Title :: byte where "V1_16_3Title = 0x4F"
definition V1_16_3ClientBoundKeepAlive :: byte where "V1_16_3ClientBoundKeepAlive = 0x1F"
definition V1_17ClientBoundPluginMessage :: byte where "V1_17ClientBoundPluginMessage = 0x18"
definition V1_17NamedSoundEffect :: byte where "V1_17NamedSoundEffect = 0x19"
definition V1_17JoinGame :: byte where "V1_17JoinGame = 0x26"
definition V1_17PlayerPositionAndLook :: byte where "V1_17PlayerPositionAndLook = 0x38"
definition V1_17Respawn :: byte where "V1_17Respawn = 0x3D"
definition V1_17SetTitleSubtitle :: byte where "V1_17SetTitleSubtitle = 0x57"
definition V1_17TimeUpdate :: byte where "V1_17TimeUpdate = 0x58"
definition V1_17SetTitleText :: byte where "V1_17SetTitleText = 0x59"
definition V1_17SetTitleTimes :: byte where "V1_17SetTitleTimes = 0x5A"
definition V1_17ClientBoundKeepAlive :: byte where "V1_17ClientBoundKeepAlive = 0x21"
definition V1_20_1ClientBoundPluginMessage :: byte where "V1_20_1ClientBoundPluginMessage = 0x17"
definition V1_20_1NamedSoundEffect :: byte where "V1_20_1NamedSoundEffect = 0x62"
definition V1_20_1JoinGame :: byte where "V1_20_1JoinGame = 0x28"
definition V1_20_1PlayerPositionAndLook :: byte where "V1_20_1PlayerPositionAndLook = 0x3C"
definition V1_20_1Respawn :: byte where "V1_20_1Respawn = 0x41"
definition V1_20_1SetTitleSubtitle :: byte where "V1_20_1SetTitleSubtitle = 0x5D"
definition V1_20_1TimeUpdate :: byte where "V1_20_1TimeUpdate = 0x5E"
definition V1_20_1SetTitleText :: byte where "V1_20_1SetTitleText = 0x5F"
definition V1_20_1SetTitleTimes :: byte where "V1_20_1SetTitleTimes = 0x60"
definition V1_20_1ClientBoundKeepAlive :: byte where "V1_20_1ClientBoundKeepAlive = 0x23"
definition ForgeModList :: i32 where "ForgeModList = 1"
definition ForgeModListReply :: i32 where "ForgeModListReply = 2"
definition ForgeAcknowledgement :: i32 where "ForgeAcknowledgement = 99"

section \<open>Join game: decoding\<close>

record JoinGameData =
  jg_Hardcore :: "bool option"
  jg_GameMode :: "byte option"
  jg_PreviousGameMode :: "byte option"
  jg_WorldNames :: "string list option"
  jg_Dimension :: "Compound option"
  jg_DimensionCodec :: "Compound option"
  jg_DimensionType :: "string option"
  jg_WorldName :: "string option"
  jg_HashedSeed :: "i64 option"
  jg_MaxPlayers :: "i32 option"
  jg_ViewDistance :: "i32 option"
  jg_SimulationDistance :: "i32 option"
  jg_ReducedDebugInfo :: "bool option"
  jg_EnableRespawnScreen :: "bool option"
  jg_IsDebug :: "bool option"
  jg_IsFlat :: "bool option"

definition joinGameReader_varInt :: "i32 rd" where
  "joinGameReader_varInt = varInt_loop 0 0"

definition joinGameReader_bool :: "bool rd" where
  "joinGameReader_bool r =
     (if length (cur_data r) \<le> cur_pos r then (Fail, r)
      else (Ok (cur_data r ! cur_pos r \<noteq> 0), advance 1 r))"

definition joinGameReader_str :: "string rd" where
  "joinGameReader_str = rd_bind joinGameReader_varInt (\<lambda>n r.
     if sint n < 0 \<or> int (remaining r) < sint n then (Fail, r)
     else (Ok (string_of_bytes (take (nat (sint n)) (unread r))), advance (nat (sint n)) r))"

definition joinGameReader_skip :: "nat \<Rightarrow> unit rd" where
  "joinGameReader_skip count r = (if remaining r < count then (Fail, r) else (Ok (), advance count r))"

text \<open>The two game-mode bytes, and the seed that the loop \<^verbatim>\<open>seed = seed<<8 | int64(b)\<close> collects.\<close>

definition joinGameReader_modes :: "(byte \<times> byte) rd" where
  "joinGameReader_modes r =
     (if remaining r < 2 then (Fail, r)
      else (Ok (cur_data r ! cur_pos r, cur_data r ! (cur_pos r + 1)), advance 2 r))"

fun seed_loop :: "i64 \<Rightarrow> bytes \<Rightarrow> i64" where
  "seed_loop seed [] = seed"
| "seed_loop seed (b # bs) = seed_loop (push_bit 8 seed OR ucast b) bs"

definition joinGameReader_seed :: "i64 rd" where
  "joinGameReader_seed r =
     (if remaining r < 8 then (Fail, r) else (Ok (seed_loop 0 (take 8 (unread r))), advance 8 r))"

definition joinGameReader_names :: "string list rd" where
  "joinGameReader_names = rd_bind joinGameReader_varInt (\<lambda>n.
     rd_guard (\<not> sint n < 0) (rd_repeat (nat (sint n)) joinGameReader_str))"

text \<open>\<^verbatim>\<open>nbt.NewReader(r.data[r.pos:])\<close>, \<^verbatim>\<open>ReadCompoundTag\<close>, and the position set from what is left.\<close>

definition joinGameReader_nbt :: "Compound rd" where
  "joinGameReader_nbt r =
     (case ReadCompoundTag (NewReader (unread r)) of
        (Ok c, q) \<Rightarrow> (Ok c, r\<lparr>cur_pos := length (cur_data r) - Reader_Remaining q\<rparr>)
      | (Fail, q) \<Rightarrow> (Fail, r)
      | (Panic, q) \<Rightarrow> (Panic, r))"

definition decodeJoinGameV1_16_3 :: "bytes \<Rightarrow> JoinGameData outcome" where
  "decodeJoinGameV1_16_3 data = run_decoder
     (rd_bind (joinGameReader_skip 4) (\<lambda>_.
      rd_bind joinGameReader_bool (\<lambda>hardcore.
      rd_bind joinGameReader_modes (\<lambda>modes.
      rd_bind joinGameReader_names (\<lambda>worldNames.
      rd_bind joinGameReader_nbt (\<lambda>codec.
      rd_bind joinGameReader_nbt (\<lambda>dim.
      rd_bind joinGameReader_str (\<lambda>worldName.
      rd_bind joinGameReader_seed (\<lambda>seed.
      rd_bind joinGameReader_varInt (\<lambda>maxPlayers.
      rd_bind joinGameReader_varInt (\<lambda>viewDistance.
      rd_bind joinGameReader_bool (\<lambda>reduced.
      rd_bind joinGameReader_bool (\<lambda>respawn.
      rd_bind joinGameReader_bool (\<lambda>debug.
      rd_bind joinGameReader_bool (\<lambda>flat.
      rd_return
        \<lparr>jg_Hardcore = Some hardcore, jg_GameMode = Some (fst modes),
         jg_PreviousGameMode = Some (snd modes), jg_WorldNames = Some worldNames,
         jg_Dimension = Some dim, jg_DimensionCodec = Some codec, jg_DimensionType = None,
         jg_WorldName = Some worldName, jg_HashedSeed = Some seed, jg_MaxPlayers = Some maxPlayers,
         jg_ViewDistance = Some viewDistance, jg_SimulationDistance = None,
         jg_ReducedDebugInfo = Some reduced, jg_EnableRespawnScreen = Some respawn,
         jg_IsDebug = Some debug, jg_IsFlat = Some flat\<rparr>)))))))))))))))
     data"

definition decodeJoinGameV1_17 :: "bytes \<Rightarrow> JoinGameData outcome" where
  "decodeJoinGameV1_17 data = decodeJoinGameV1_16_3 data"

definition decodeJoinGameV1_20_1 :: "bytes \<Rightarrow> JoinGameData outcome" where
  "decodeJoinGameV1_20_1 data = run_decoder
     (rd_bind (joinGameReader_skip 4) (\<lambda>_.
      rd_bind joinGameReader_bool (\<lambda>hardcore.
      rd_bind joinGameReader_modes (\<lambda>modes.
      rd_bind joinGameReader_names (\<lambda>worldNames.
      rd_bind joinGameReader_nbt (\<lambda>codec.
      rd_bind joinGameReader_str (\<lambda>dimensionType.
      rd_bind joinGameReader_str (\<lambda>worldName.
      rd_bind joinGameReader_seed (\<lambda>seed.
      rd_bind joinGameReader_varInt (\<lambda>maxPlayers.
      rd_bind joinGameReader_varInt (\<lambda>viewDistance.
      rd_bind joinGameReader_varInt (\<lambda>simulationDistance.
      rd_bind joinGameReader_bool (\<lambda>reduced.
      rd_bind joinGameReader_bool (\<lambda>respawn.
      rd_bind joinGameReader_bool (\<lambda>debug.
      rd_bind joinGameReader_bool (\<lambda>flat.
      rd_bind joinGameReader_bool (\<lambda>death.
      rd_bind (if death then rd_bind joinGameReader_str (\<lambda>_. joinGameReader_skip 8) else rd_return ()) (\<lambda>_.
      rd_bind joinGameReader_varInt (\<lambda>_.
      rd_return
        \<lparr>jg_Hardcore = Some hardcore, jg_GameMode = Some (fst modes),
         jg_PreviousGameMode = Some (snd modes), jg_WorldNames = Some worldNames,
         jg_Dimension = None, jg_DimensionCodec = Some codec, jg_DimensionType = Some dimensionType,
         jg_WorldName = Some worldName, jg_HashedSeed = Some seed, jg_MaxPlayers = Some maxPlayers,
         jg_ViewDistance = Some viewDistance, jg_SimulationDistance = Some simulationDistance,
         jg_ReducedDebugInfo = Some reduced, jg_EnableRespawnScreen = Some respawn,
         jg_IsDebug = Some debug, jg_IsFlat = Some flat\<rparr>)))))))))))))))))))
     data"

definition JoinGameDataFromPacket :: "ClientInfo \<Rightarrow> RawPacket \<Rightarrow> JoinGameData outcome" where
  "JoinGameDataFromPacket clientInfo packet =
     (let protocol = GetProtocol clientInfo
      in if isV1_20_1 protocol then decodeJoinGameV1_20_1 (rp_Data packet)
         else if below_1_17 protocol then decodeJoinGameV1_16_3 (rp_Data packet)
         else decodeJoinGameV1_17 (rp_Data packet))"

definition JoinGamePacketID :: "u32 option \<Rightarrow> byte" where
  "JoinGamePacketID protocol =
     (if isV1_20_1 protocol then V1_20_1JoinGame
      else if below_1_17 protocol then V1_16_3JoinGame
      else V1_17JoinGame)"

definition JoinGameIsPacket :: "ClientInfo \<Rightarrow> byte \<Rightarrow> bool" where
  "JoinGameIsPacket clientInfo packetID =
     (let protocol = GetProtocol clientInfo
      in if isV1_20_1 protocol then packetID = V1_20_1JoinGame
         else if below_1_17 protocol then packetID = V1_16_3JoinGame
         else packetID = V1_17JoinGame)"

section \<open>Join game: encoding\<close>

record JoinGameParams =
  jp_DimensionCodec :: Compound
  jp_Dimension :: Compound
  jp_MaxPlayers :: i32
  jp_ViewDistance :: i32
  jp_SimulationDistance :: i32
  jp_Hardcore :: bool
  jp_ReducedDebugInfo :: bool
  jp_EnableRespawnScreen :: bool
  jp_IsDebug :: bool
  jp_IsFlat :: bool

definition DefaultWorldNames :: "string list" where
  "DefaultWorldNames = [''minecraft:overworld'', ''minecraft:the_nether'', ''minecraft:the_end'']"

definition lobbyJoinGameDataV1_20_1 :: "JoinGameParams \<Rightarrow> bytes" where
  "lobbyJoinGameDataV1_20_1 params =
     (let w = NewPacketWriter;
          w = WriteInt32 w 0;
          w = WriteBool w (jp_Hardcore params);
          w = WriteU8 w 3;
          w = WriteU8 w 0xFF;
          w = WriteVarInt w (word_of_nat (length DefaultWorldNames));
          w = foldl (\<lambda>w name. WriteString w name) w DefaultWorldNames;
          w = WriteCompoundTag PacketWriter_ops w (jp_DimensionCodec params);
          w = WriteString w ''minecraft:overworld'';
          w = WriteString w ''lazymc:lobby'';
          w = WriteInt64 w 0;
          w = WriteVarInt w (jp_MaxPlayers params);
          w = WriteVarInt w (jp_ViewDistance params);
          simulationDistance =
            (if sint (jp_SimulationDistance params) \<le> 0 then jp_ViewDistance params
             else jp_SimulationDistance params);
          w = WriteVarInt w simulationDistance;
          w = WriteBool w (jp_ReducedDebugInfo params);
          w = WriteBool w (jp_EnableRespawnScreen params);
          w = WriteBool w (jp_IsDebug params);
          w = WriteBool w (jp_IsFlat params);
          w = WriteBool w False;
          w = WriteVarInt w 0
      in Bytes w)"

definition LobbyJoinGameData :: "ClientInfo \<Rightarrow> JoinGameParams \<Rightarrow> bytes" where
  "LobbyJoinGameData clientInfo params =
     (if isV1_20_1 (GetProtocol clientInfo) then lobbyJoinGameDataV1_20_1 params
      else
        let w = NewPacketWriter;
            w = WriteUint32 w 0;
            w = WriteBool w (jp_Hardcore params);
            w = WriteU8 w 3;
            w = WriteU8 w 0xFF;
            w = WriteVarInt w (word_of_nat (length DefaultWorldNames));
            w = foldl (\<lambda>w n. WriteString w n) w DefaultWorldNames;
            w = WriteCompoundTag PacketWriter_ops w (jp_DimensionCodec params);
            w = WriteCompoundTag PacketWriter_ops w (jp_Dimension params);
            w = WriteString w ''lazymc:lobby'';
            w = WriteInt64 w 0;
            w = WriteVarInt w (jp_MaxPlayers params);
            w = WriteVarInt w (jp_ViewDistance params);
            w = WriteBool w (jp_ReducedDebugInfo params);
            w = WriteBool w (jp_EnableRespawnScreen params);
            w = WriteBool w (jp_IsDebug params);
            w = WriteBool w (jp_IsFlat params)
        in Bytes w)"

definition SendJoinGame ::
  "zlib \<Rightarrow> Client \<Rightarrow> ClientInfo \<Rightarrow> JoinGameParams \<Rightarrow> sink \<Rightarrow> bool \<times> sink" where
  "SendJoinGame z client clientInfo params c =
     writePacket z client
       (NewRawPacket (JoinGamePacketID (GetProtocol clientInfo)) (LobbyJoinGameData clientInfo params)) c"

section \<open>The other lobby packets\<close>

record RespawnParams =
  re_Dimension :: Compound
  re_WorldName :: string
  re_HashedSeed :: i64
  re_GameMode :: byte
  re_PreviousGameMode :: byte
  re_IsDebug :: bool
  re_IsFlat :: bool

definition respawn_packetV1_20_1 :: "RespawnParams \<Rightarrow> RawPacket" where
  "respawn_packetV1_20_1 params =
     (let w = NewPacketWriter;
          w = WriteString w ''minecraft:overworld'';
          w = WriteString w (re_WorldName params);
          w = WriteInt64 w (re_HashedSeed params);
          w = WriteU8 w (re_GameMode params);
          w = WriteU8 w (re_PreviousGameMode params);
          w = WriteBool w (re_IsDebug params);
          w = WriteBool w (re_IsFlat params);
          w = WriteBool w False;
          w = WriteVarInt w 0
      in NewRawPacket V1_20_1Respawn (Bytes w))"

definition respawn_packet :: "u32 option \<Rightarrow> RespawnParams \<Rightarrow> RawPacket" where
  "respawn_packet protocol params =
     (if isV1_20_1 protocol then respawn_packetV1_20_1 params
      else
        let w = NewPacketWriter;
            w = WriteCompoundTag PacketWriter_ops w (re_Dimension params);
            w = WriteString w (re_WorldName params);
            w = WriteInt64 w (re_HashedSeed params);
            w = WriteU8 w (re_GameMode params);
            w = WriteU8 w (re_PreviousGameMode params);
            w = WriteBool w (re_IsDebug params);
            w = WriteBool w (re_IsFlat params);
            w = WriteBool w False
        in NewRawPacket (if from_1_17 protocol then V1_17Respawn else V1_16_3Respawn) (Bytes w))"

definition SendRespawn ::
  "zlib \<Rightarrow> Client \<Rightarrow> ClientInfo \<Rightarrow> RespawnParams \<Rightarrow> sink \<Rightarrow> bool \<times> sink" where
  "SendRespawn z client clientInfo params c =
     writePacket z client (respawn_packet (GetProtocol clientInfo) params) c"

text \<open>\<^verbatim>\<open>keepAliveID.Add(1) - 1\<close>: the counter is process-wide; the call yields its value and the next.\<close>

definition SendKeepAlive ::
  "zlib \<Rightarrow> Client \<Rightarrow> ClientInfo \<Rightarrow> u64 \<Rightarrow> sink \<Rightarrow> bool \<times> u64 \<times> sink" where
  "SendKeepAlive z client clientInfo keepAliveID c =
     (let w = WriteUint64 NewPacketWriter keepAliveID;
          idByte = packet_id_for (GetProtocol clientInfo) V1_16_3ClientBoundKeepAlive
            V1_17ClientBoundKeepAlive V1_20_1ClientBoundKeepAlive;
          (ok, c') = writePacket z client (NewRawPacket idByte (Bytes w)) c
      in (ok, keepAliveID + 1, c'))"

text \<open>The float constants 0.0, 1.0 and 90.0 as bit patterns.\<close>

definition player_pos_packet :: "u32 option \<Rightarrow> RawPacket" where
  "player_pos_packet protocol =
     (let w = NewPacketWriter;
          w = WriteFloat64 w 0;
          w = WriteFloat64 w 0;
          w = WriteFloat64 w 0;
          w = WriteFloat32 w 0;
          w = WriteFloat32 w 0x42B40000;
          w = WriteU8 w 0;
          w = WriteVarInt w 0
      in if isV1_20_1 protocol then NewRawPacket V1_20_1PlayerPositionAndLook (Bytes w)
         else if from_1_17 protocol then NewRawPacket V1_17PlayerPositionAndLook (Bytes (WriteBool w True))
         else NewRawPacket V1_16_3PlayerPositionAndLook (Bytes w))"

definition SendPlayerPos :: "zlib \<Rightarrow> Client \<Rightarrow> ClientInfo \<Rightarrow> sink \<Rightarrow> bool \<times> sink" where
  "SendPlayerPos z client clientInfo c =
     writePacket z client (player_pos_packet (GetProtocol clientInfo)) c"

definition brandChannel :: string where "brandChannel = ''minecraft:brand''"
definition serverBrand :: bytes where "serverBrand = bytes_of_string ''lazymc''"

definition server_brand_packet :: "u32 option \<Rightarrow> RawPacket" where
  "server_brand_packet protocol =
     (let w = WriteString NewPacketWriter brandChannel;
          w = (if isV1_20_1 protocol then Write w serverBrand else WriteByteArray w serverBrand)
      in NewRawPacket (packet_id_for protocol V1_16_3ClientBoundPluginMessage
           V1_17ClientBoundPluginMessage V1_20_1ClientBoundPluginMessage) (Bytes w))"

definition SendServerBrand :: "zlib \<Rightarrow> Client \<Rightarrow> ClientInfo \<Rightarrow> sink \<Rightarrow> bool \<times> sink" where
  "SendServerBrand z client clientInfo c =
     writePacket z client (server_brand_packet (GetProtocol clientInfo)) c"

definition sound_packetV1_20_1 :: "string \<Rightarrow> RawPacket" where
  "sound_packetV1_20_1 soundName =
     (let w = NewPacketWriter;
          w = WriteVarInt w 0;
          w = WriteString w soundName;
          w = WriteBool w False;
          w = WriteVarInt w 0;
          w = WriteInt32 w 0;
          w = WriteInt32 w 0;
          w = WriteInt32 w 0;
          w = WriteFloat32 w 0x3F800000;
          w = WriteFloat32 w 0x3F800000;
          w = WriteInt64 w 0
      in NewRawPacket V1_20_1NamedSoundEffect (Bytes w))"

definition sound_packet :: "u32 option \<Rightarrow> string \<Rightarrow> RawPacket" where
  "sound_packet protocol soundName =
     (if isV1_20_1 protocol then sound_packetV1_20_1 soundName
      else
        let w = NewPacketWriter;
            w = WriteString w soundName;
            w = WriteVarInt w 0;
            w = WriteInt32 w 0;
            w = WriteInt32 w 0;
            w = WriteInt32 w 0;
            w = WriteFloat32 w 0x3F800000;
            w = WriteFloat32 w 0x3F800000
        in NewRawPacket (if from_1_17 protocol then V1_17NamedSoundEffect else V1_16_3NamedSoundEffect)
             (Bytes w))"

definition SendSound :: "zlib \<Rightarrow> Client \<Rightarrow> ClientInfo \<Rightarrow> string \<Rightarrow> sink \<Rightarrow> bool \<times> sink" where
  "SendSound z client clientInfo soundName c =
     writePacket z client (sound_packet (GetProtocol clientInfo) soundName) c"

definition time_update_packet :: "u32 option \<Rightarrow> RawPacket" where
  "time_update_packet protocol =
     NewRawPacket (packet_id_for protocol V1_16_3TimeUpdate V1_17TimeUpdate V1_20_1TimeUpdate)
       (Bytes (WriteInt64 (WriteInt64 NewPacketWriter 0) 0))"

definition SendTimeUpdate :: "zlib \<Rightarrow> Client \<Rightarrow> ClientInfo \<Rightarrow> sink \<Rightarrow> bool \<times> sink" where
  "SendTimeUpdate z client clientInfo c =
     writePacket z client (time_update_packet (GetProtocol clientInfo)) c"

section \<open>Titles\<close>

definition displayTime :: i32 where "displayTime = 10 * 20 * 2"

definition title_lines :: "string \<Rightarrow> string list" where
  "title_lines text =
     filter (\<lambda>l. l \<noteq> []) (map (\<lambda>l. TrimSuffix l [CHR 0x0D]) (split_on (CHR 0x0A) text))"

definition chatMessageBytes :: "string \<Rightarrow> bytes" where
  "chatMessageBytes text = StringBytes (ChatMessageJSON text)"

definition titleTimes :: "i32 \<Rightarrow> i32 \<Rightarrow> i32 \<Rightarrow> bytes" where
  "titleTimes fadeIn stay fadeOut =
     Bytes (WriteInt32 (WriteInt32 (WriteInt32 NewPacketWriter fadeIn) stay) fadeOut)"

definition title_times_bytes :: "string \<Rightarrow> string \<Rightarrow> bytes" where
  "title_times_bytes title subtitle =
     (if title = [] \<and> subtitle = [] then titleTimes 10 70 20 else titleTimes 0 displayTime 0)"

definition title_packetsV1_16_3 :: "string \<Rightarrow> string \<Rightarrow> RawPacket list" where
  "title_packetsV1_16_3 title subtitle =
     [NewRawPacket V1_16_3Title (Bytes (Write (WriteU8 NewPacketWriter 0) (chatMessageBytes title))),
      NewRawPacket V1_16_3Title (Bytes (Write (WriteU8 NewPacketWriter 1) (chatMessageBytes subtitle))),
      NewRawPacket V1_16_3Title (Bytes (Write (WriteU8 NewPacketWriter 3) (title_times_bytes title subtitle)))]"

definition title_packetsV1_17 :: "string \<Rightarrow> string \<Rightarrow> RawPacket list" where
  "title_packetsV1_17 title subtitle =
     [NewRawPacket V1_17SetTitleText (chatMessageBytes title),
      NewRawPacket V1_17SetTitleSubtitle (chatMessageBytes subtitle),
      NewRawPacket V1_17SetTitleTimes (title_times_bytes title subtitle)]"

definition title_packetsV1_20_1 :: "string \<Rightarrow> string \<Rightarrow> RawPacket list" where
  "title_packetsV1_20_1 title subtitle =
     [NewRawPacket V1_20_1SetTitleText (chatMessageBytes title),
      NewRawPacket V1_20_1SetTitleSubtitle (chatMessageBytes subtitle),
      NewRawPacket V1_20_1SetTitleTimes (title_times_bytes title subtitle)]"

definition SendTitle :: "zlib \<Rightarrow> Client \<Rightarrow> ClientInfo \<Rightarrow> string \<Rightarrow> sink \<Rightarrow> bool \<times> sink" where
  "SendTitle z client clientInfo text c =
     (let lines = title_lines text;
          title = (case lines of [] \<Rightarrow> [] | l # _ \<Rightarrow> l);
          subtitle = (case lines of [] \<Rightarrow> [] | _ # ls \<Rightarrow> join_with [CHR 0x0A] ls);
          protocol = GetProtocol clientInfo
      in writePackets z client
           (if isV1_20_1 protocol then title_packetsV1_20_1 title subtitle
            else if from_1_17 protocol then title_packetsV1_17 title subtitle
            else title_packetsV1_16_3 title subtitle) c)"

section \<open>The field reader of the join-game decoder\<close>

lemma reads_joinGame_varInt [reads_intro]: "reads joinGameReader_varInt (EncodeVarInt v) v"
  by (simp add: joinGameReader_varInt_def reads_varInt)

lemma joinGame_str_body:
  "joinGameReader_str = rd_bind joinGameReader_varInt (str_body (\<lambda>_. True))"
  unfolding joinGameReader_str_def str_body_def
  by (intro arg_cong [where f = "rd_bind joinGameReader_varInt"] ext) auto

lemma reads_joinGame_str [reads_intro]: "length s < 2 ^ 31 \<Longrightarrow> reads joinGameReader_str (wire_string s) s"
  unfolding joinGame_str_body wire_string_def
  by (rule reads_bind, rule reads_joinGame_varInt, rule reads_str_body) auto

interpretation join_game_reader: field_reader joinGameReader_varInt joinGameReader_str "\<lambda>_. True"
proof unfold_locales
  show "stays_inside joinGameReader_varInt"
    by (simp add: joinGameReader_varInt_def stays_inside_varInt_loop)
  then show "stays_inside joinGameReader_str"
    unfolding joinGame_str_body by (intro cursor_ok)
qed (simp_all add: reads_intro)

lemma reads_joinGame_bool [reads_intro]: "reads joinGameReader_bool (wire_bool b) b"
  by (rule readsI) (simp add: joinGameReader_bool_def wire_bool_def)

lemma reads_joinGame_skip: "length bs = n \<Longrightarrow> reads (joinGameReader_skip n) bs ()"
  by (rule readsI) (simp add: joinGameReader_skip_def)

lemma reads_joinGame_modes: "reads joinGameReader_modes [a, b] (a, b)"
  by (rule readsI) (simp add: joinGameReader_modes_def nth_append)

lemma seed_loop_foldl: "seed_loop seed bs = foldl (\<lambda>acc b. push_bit 8 acc OR ucast b) seed bs"
  by (induction seed bs rule: seed_loop.induct) simp_all

lemma seed_loop_be_word: "seed_loop 0 (be64 v) = v"
  using be_word_be64 [of v] by (simp add: seed_loop_foldl be_word_def)

lemma reads_joinGame_seed: "reads joinGameReader_seed (be64 v) v"
  unfolding joinGameReader_seed_def by (rule reads_fixed) (simp_all add: seed_loop_be_word)

lemma reads_joinGame_names:
  assumes "\<And>s. s \<in> set xs \<Longrightarrow> length s < 2 ^ 31" and "length xs < 2 ^ 31"
  shows "reads joinGameReader_names
    (EncodeVarInt (word_of_nat (length xs)) @ concat (map wire_string xs)) xs"
  unfolding joinGameReader_names_def by (rule join_game_reader.string_list_reads) (use assms in auto)

lemma reads_joinGame_nbt:
  assumes "writable (TCompound c)"
  shows "reads joinGameReader_nbt (wire_compound c) c"
proof (rule readsI)
  fix pre post
  have "ReadCompoundTag (cursor_at ([] @ wire_compound c @ post) (length ([] :: bytes))) =
      (Ok c, cursor_at ([] @ wire_compound c @ post) (length ([] :: bytes) + length (wire_compound c)))"
    using reads_ReadCompoundTag [OF assms] unfolding reads_def by blast
  then show "joinGameReader_nbt (cursor_at (pre @ wire_compound c @ post) (length pre)) =
      (Ok c, cursor_at (pre @ wire_compound c @ post) (length pre + length (wire_compound c)))"
    by (simp add: joinGameReader_nbt_def NewReader_def Reader_Remaining_def remaining_def)
qed

lemmas join_step =
  reads_bind [OF reads_joinGame_skip] reads_bind [OF reads_joinGame_bool] reads_bind [OF reads_joinGame_modes]
  reads_bind [OF reads_joinGame_names] reads_bind [OF reads_joinGame_nbt] reads_bind [OF reads_joinGame_str]
  reads_bind [OF reads_joinGame_seed] reads_bind [OF reads_joinGame_varInt] reads_done

section \<open>Decoding the lobby's own packet\<close>

lemma world_names_wire:
  "s \<in> set DefaultWorldNames \<Longrightarrow> length s < 2 ^ 31" "length DefaultWorldNames < 2 ^ 31"
  by (auto simp: DefaultWorldNames_def)

definition lobby_join_data :: "JoinGameParams \<Rightarrow> JoinGameData" where
  "lobby_join_data params =
     \<lparr>jg_Hardcore = Some (jp_Hardcore params), jg_GameMode = Some 3, jg_PreviousGameMode = Some 0xFF,
      jg_WorldNames = Some DefaultWorldNames, jg_Dimension = Some (jp_Dimension params),
      jg_DimensionCodec = Some (jp_DimensionCodec params), jg_DimensionType = None,
      jg_WorldName = Some ''lazymc:lobby'', jg_HashedSeed = Some 0,
      jg_MaxPlayers = Some (jp_MaxPlayers params), jg_ViewDistance = Some (jp_ViewDistance params),
      jg_SimulationDistance = None, jg_ReducedDebugInfo = Some (jp_ReducedDebugInfo params),
      jg_EnableRespawnScreen = Some (jp_EnableRespawnScreen params),
      jg_IsDebug = Some (jp_IsDebug params), jg_IsFlat = Some (jp_IsFlat params)\<rparr>"

definition lobby_join_data_1_20_1 :: "JoinGameParams \<Rightarrow> JoinGameData" where
  "lobby_join_data_1_20_1 params =
     (lobby_join_data params)
       \<lparr>jg_Dimension := None, jg_DimensionType := Some ''minecraft:overworld'',
        jg_SimulationDistance := Some (if sint (jp_SimulationDistance params) \<le> 0
          then jp_ViewDistance params else jp_SimulationDistance params)\<rparr>"

lemma decode_lobby_1_20_1:
  assumes "writable (TCompound (jp_DimensionCodec params))"
  shows "decodeJoinGameV1_20_1 (lobbyJoinGameDataV1_20_1 params) = Ok (lobby_join_data_1_20_1 params)"
proof -
  let ?sim = "if sint (jp_SimulationDistance params) \<le> 0 then jp_ViewDistance params
    else jp_SimulationDistance params"
  have "lobbyJoinGameDataV1_20_1 params =
      (be32 0 @ wire_bool (jp_Hardcore params) @ [3, 0xFF] @
       (EncodeVarInt (word_of_nat (length DefaultWorldNames)) @ concat (map wire_string DefaultWorldNames)) @
       wire_compound (jp_DimensionCodec params) @ wire_string ''minecraft:overworld'' @
       wire_string ''lazymc:lobby'' @ be64 0 @ EncodeVarInt (jp_MaxPlayers params) @
       EncodeVarInt (jp_ViewDistance params) @ EncodeVarInt ?sim @
       wire_bool (jp_ReducedDebugInfo params) @ wire_bool (jp_EnableRespawnScreen params) @
       wire_bool (jp_IsDebug params) @ wire_bool (jp_IsFlat params) @ wire_bool False @
       [] @ EncodeVarInt 0 @ []) @ []"
    unfolding lobbyJoinGameDataV1_20_1_def Let_def
    by (simp only: wire_simps packet_writer.WriteCompoundTag_out append.simps append_assoc append_Nil2)
  moreover have "reads (if False then m else rd_return ()) [] ()" for m by (simp add: reads_return)
  note no_death = reads_bind [OF this]
  ultimately show ?thesis
    unfolding decodeJoinGameV1_20_1_def
    by (simp only:) (intro reads_run join_step no_death,
      use assms world_names_wire in \<open>simp_all add: lobby_join_data_1_20_1_def lobby_join_data_def\<close>)
qed

lemma decode_lobby_1_16_3:
  assumes "writable (TCompound (jp_DimensionCodec params))" and "writable (TCompound (jp_Dimension params))"
    and "\<not> isV1_20_1 (GetProtocol clientInfo)"
  shows "decodeJoinGameV1_16_3 (LobbyJoinGameData clientInfo params) = Ok (lobby_join_data params)"
proof -
  have "LobbyJoinGameData clientInfo params =
      (be32 0 @ wire_bool (jp_Hardcore params) @ [3, 0xFF] @
       (EncodeVarInt (word_of_nat (length DefaultWorldNames)) @ concat (map wire_string DefaultWorldNames)) @
       wire_compound (jp_DimensionCodec params) @ wire_compound (jp_Dimension params) @
       wire_string ''lazymc:lobby'' @ be64 0 @ EncodeVarInt (jp_MaxPlayers params) @
       EncodeVarInt (jp_ViewDistance params) @
       wire_bool (jp_ReducedDebugInfo params) @ wire_bool (jp_EnableRespawnScreen params) @
       wire_bool (jp_IsDebug params) @ wire_bool (jp_IsFlat params) @ []) @ []"
    using assms(3) unfolding LobbyJoinGameData_def Let_def if_not_P [OF assms(3)]
    by (simp only: wire_simps packet_writer.WriteCompoundTag_out append.simps append_assoc append_Nil2)
  then show ?thesis
    unfolding decodeJoinGameV1_16_3_def
    by (simp only:) (intro reads_run join_step,
      use assms world_names_wire in \<open>simp_all add: lobby_join_data_def\<close>)
qed

lemma JoinGame_roundtrip:
  assumes "writable (TCompound (jp_DimensionCodec params))" and "writable (TCompound (jp_Dimension params))"
  shows "JoinGameDataFromPacket clientInfo (NewRawPacket pid (LobbyJoinGameData clientInfo params)) =
    Ok (if isV1_20_1 (GetProtocol clientInfo) then lobby_join_data_1_20_1 params else lobby_join_data params)"
proof (cases "isV1_20_1 (GetProtocol clientInfo)")
  case True
  then have "LobbyJoinGameData clientInfo params = lobbyJoinGameDataV1_20_1 params"
    by (simp add: LobbyJoinGameData_def)
  with True assms(1) show ?thesis
    by (simp add: JoinGameDataFromPacket_def NewRawPacket_def decode_lobby_1_20_1)
next
  case False
  with assms show ?thesis
    by (simp add: JoinGameDataFromPacket_def NewRawPacket_def decode_lobby_1_16_3 decodeJoinGameV1_17_def)
qed

lemma JoinGameIsPacket_ID: "JoinGameIsPacket clientInfo pid \<longleftrightarrow> pid = JoinGamePacketID (GetProtocol clientInfo)"
  by (simp add: JoinGameIsPacket_def JoinGamePacketID_def Let_def)

end
