(* ===== verification/Server_State.thy ===== *)
theory Server_State
  imports Status_Json Config Access Play
begin

text \<open>
  \<^verbatim>\<open>server.go\<close>, the data the connections, the monitor and the helper goroutines share: the state of the
  backend with its subscribers, the process id, the single-flight slot of the controller helper, the
  last status, the timers, the access lists, and what the probe recorded. Every field has its own lock
  in the source; an operation here is the critical section (or the sequence of critical sections) of
  the method of the same name. Times are nanoseconds since an epoch, and \<open>now\<close> is what \<^verbatim>\<open>time.Now()\<close>
  returns during the operation.

  The operations that send signals or start processes are in the theory \<open>Lifecycle\<close>.
\<close>

section \<open>Data\<close>

datatype State = StateStopped | StateStarting | StateStarted | StateStopping

fun State_String :: "State \<Rightarrow> string" where
  "State_String StateStopped = ''Stopped''"
| "State_String StateStarting = ''Starting''"
| "State_String StateStarted = ''Started''"
| "State_String StateStopping = ''Stopping''"

record ForgeLoginExchange =
  fx_Request :: bytes
  fx_Success :: bool
  fx_Data :: bytes
  fx_NoResponse :: bool

text \<open>A subscriber is a channel with room for one value: \<open>None\<close> when it is empty.\<close>

record ServerState =
  ss_state :: State
  ss_subs :: "State option list"
  ss_pid :: int
  ss_pidGeneration :: u64
  ss_helperGeneration :: u64
  ss_helperActive :: bool
  ss_status :: "ServerStatus option"
  ss_lastActive :: "int option"
  ss_keepOnline :: "int option"
  ss_killAt :: "int option"
  ss_banned :: BannedIps
  ss_whitelist :: "Whitelist option"
  ss_rconLastStop :: "int option"
  ss_probed :: "JoinGameData option"
  ss_forge :: "bytes list"
  ss_forgeLoginCache :: "ForgeLoginExchange list"

definition NewServerState :: ServerState where
  "NewServerState =
     \<lparr>ss_state = StateStopped, ss_subs = [], ss_pid = 0, ss_pidGeneration = 0,
      ss_helperGeneration = 0, ss_helperActive = False, ss_status = None, ss_lastActive = None,
      ss_keepOnline = None, ss_killAt = None, ss_banned = NewBannedIps, ss_whitelist = None,
      ss_rconLastStop = None, ss_probed = None, ss_forge = [], ss_forgeLoginCache = []\<rparr>"

text \<open>\<^verbatim>\<open>time.Duration(n) * time.Second\<close> for a \<^verbatim>\<open>uint32\<close>.\<close>

definition seconds :: "u32 \<Rightarrow> int" where
  "seconds n = int (unat n) * 1000000000"

section \<open>The controller helper's slot\<close>

definition beginControllerHelper :: "ServerState \<Rightarrow> (u64 \<times> bool) \<times> ServerState" where
  "beginControllerHelper s =
     (if ss_helperActive s then ((ss_helperGeneration s, False), s)
      else
        let s = s\<lparr>ss_helperGeneration := ss_helperGeneration s + 1\<rparr>;
            s = s\<lparr>ss_helperActive := True\<rparr>
        in ((ss_helperGeneration s, True), s))"

definition finishControllerHelper :: "u64 \<Rightarrow> ServerState \<Rightarrow> ServerState" where
  "finishControllerHelper generation s =
     (if generation = 0 \<or> generation \<noteq> ss_helperGeneration s then s
      else
        let s = s\<lparr>ss_helperActive := False\<rparr>
        in if ss_pidGeneration s = generation then s\<lparr>ss_pid := 0, ss_pidGeneration := 0\<rparr> else s)"

section \<open>State and subscribers\<close>

definition Subscribe :: "ServerState \<Rightarrow> nat \<times> ServerState" where
  "Subscribe s = (length (ss_subs s), s\<lparr>ss_subs := ss_subs s @ [Some (ss_state s)]\<rparr>)"

text \<open>\<^verbatim>\<open>select { case ch <- state: default: }\<close> and the receive of the same shape.\<close>

definition chan_send :: "'a \<Rightarrow> 'a option \<Rightarrow> bool \<times> 'a option" where
  "chan_send v ch = (case ch of None \<Rightarrow> (True, Some v) | Some x \<Rightarrow> (False, Some x))"

definition chan_drain :: "'a option \<Rightarrow> 'a option" where
  "chan_drain ch = (case ch of Some x \<Rightarrow> None | None \<Rightarrow> None)"

definition broadcast_one :: "State \<Rightarrow> State option \<Rightarrow> State option" where
  "broadcast_one state ch =
     (case chan_send state ch of
        (True, ch) \<Rightarrow> ch
      | (False, ch) \<Rightarrow> snd (chan_send state (chan_drain ch)))"

definition broadcastState :: "State \<Rightarrow> ServerState \<Rightarrow> ServerState" where
  "broadcastState state s = s\<lparr>ss_subs := map (broadcast_one state) (ss_subs s)\<rparr>"

definition updateLastActive :: "int \<Rightarrow> ServerState \<Rightarrow> ServerState" where
  "updateLastActive now s = s\<lparr>ss_lastActive := Some now\<rparr>"

definition keepOnlineFor :: "int \<Rightarrow> u32 \<Rightarrow> ServerState \<Rightarrow> ServerState" where
  "keepOnlineFor now duration s =
     (if 0 < duration then s\<lparr>ss_keepOnline := Some (now + seconds duration)\<rparr>
      else s\<lparr>ss_keepOnline := None\<rparr>)"

text \<open>
  \<^verbatim>\<open>updateStateFrom\<close> runs in four stages, each under a lock of its own: the state itself, the
  broadcast, the kill timer, and the activity timers.
\<close>

definition commit_state :: "State option \<Rightarrow> State \<Rightarrow> ServerState \<Rightarrow> bool \<times> ServerState" where
  "commit_state from new s =
     (let old = ss_state s
      in if (case from of Some f \<Rightarrow> old \<noteq> f | None \<Rightarrow> False) then (False, s)
         else if old = new then (False, s)
         else (True, s\<lparr>ss_state := new\<rparr>))"

definition kill_time :: "Config \<Rightarrow> int \<Rightarrow> State \<Rightarrow> int option" where
  "kill_time config now new =
     (case new of
        StateStarting \<Rightarrow>
          if 0 < sv_StartTimeout (cfg_Server config)
          then Some (now + seconds (sv_StartTimeout (cfg_Server config))) else None
      | StateStopping \<Rightarrow>
          if 0 < sv_StopTimeout (cfg_Server config)
          then Some (now + seconds (sv_StopTimeout (cfg_Server config))) else None
      | _ \<Rightarrow> None)"

definition set_kill_time :: "Config \<Rightarrow> int \<Rightarrow> State \<Rightarrow> ServerState \<Rightarrow> ServerState" where
  "set_kill_time config now new s = s\<lparr>ss_killAt := kill_time config now new\<rparr>"

definition enter_started :: "Config \<Rightarrow> int \<Rightarrow> State \<Rightarrow> ServerState \<Rightarrow> ServerState" where
  "enter_started config now new s =
     (if new = StateStarted
      then keepOnlineFor now (tm_MinOnlineTime (cfg_Time config)) (updateLastActive now s)
      else s)"

definition updateStateFrom ::
  "Config \<Rightarrow> int \<Rightarrow> State option \<Rightarrow> State \<Rightarrow> ServerState \<Rightarrow> bool \<times> ServerState" where
  "updateStateFrom config now from new s =
     (case commit_state from new s of
        (False, s) \<Rightarrow> (False, s)
      | (True, s) \<Rightarrow>
          let s = broadcastState new s;
              s = set_kill_time config now new s;
              s = enter_started config now new s
          in (True, s))"

definition updateState :: "Config \<Rightarrow> int \<Rightarrow> State \<Rightarrow> ServerState \<Rightarrow> bool \<times> ServerState" where
  "updateState config now new s = updateStateFrom config now None new s"

definition UpdateStatus :: "Config \<Rightarrow> int \<Rightarrow> ServerStatus option \<Rightarrow> ServerState \<Rightarrow> ServerState" where
  "UpdateStatus config now status s =
     (let s =
        (if (ss_state s = StateStopped \<or> ss_state s = StateStarting) \<and> status \<noteq> None
         then snd (updateState config now StateStarted s)
         else if ss_state s = StateStarted \<and> status = None
         then snd (updateState config now StateStopped s)
         else s)
      in case status of
           None \<Rightarrow> s
         | Some st \<Rightarrow>
             let s = (if 0 < pl_Online (st_Players st) then updateLastActive now s else s)
             in s\<lparr>ss_status := Some st\<rparr>)"

section \<open>Decisions\<close>

definition ShouldSleep :: "Config \<Rightarrow> int \<Rightarrow> ServerState \<Rightarrow> bool" where
  "ShouldSleep config now s =
     (if ControllerManaged config then False
      else if ss_state s \<noteq> StateStarted then False
      else if (case ss_status s of Some st \<Rightarrow> 0 < pl_Online (st_Players st) | None \<Rightarrow> False) then False
      else if (case ss_keepOnline s of Some t \<Rightarrow> \<not> t < now | None \<Rightarrow> False) then False
      else (case ss_lastActive s of
              Some t \<Rightarrow> seconds (tm_SleepAfter (cfg_Time config)) \<le> now - t
            | None \<Rightarrow> False))"

definition ShouldKill :: "int \<Rightarrow> ServerState \<Rightarrow> bool" where
  "ShouldKill now s = (case ss_killAt s of Some t \<Rightarrow> \<not> now < t | None \<Rightarrow> False)"

definition ExpireControllerManagedTransition ::
  "Config \<Rightarrow> int \<Rightarrow> ServerState \<Rightarrow> bool \<times> ServerState" where
  "ExpireControllerManagedTransition config now s =
     (if \<not> ControllerManaged config \<or> \<not> ShouldKill now s then (False, s)
      else updateStateFrom config now (Some StateStarting) StateStopped s)"

section \<open>Status, access lists and recorded data\<close>

definition Status :: "ServerState \<Rightarrow> ServerStatus option" where
  "Status s = ss_status s"

definition SeedStatus :: "ServerStatus option \<Rightarrow> ServerState \<Rightarrow> ServerState" where
  "SeedStatus status s =
     (case status of
        None \<Rightarrow> s
      | Some st \<Rightarrow> if ss_status s = None then s\<lparr>ss_status := Some st\<rparr> else s)"

definition IsBannedIP ::
  "(string \<Rightarrow> string) \<Rightarrow> (string \<Rightarrow> int option) \<Rightarrow> int \<Rightarrow> string \<Rightarrow> ServerState \<Rightarrow> bool" where
  "IsBannedIP ip_string parse_time now ip s =
     BannedIps_IsBanned ip_string parse_time now (ss_banned s) ip"

definition BanEntry :: "(string \<Rightarrow> string) \<Rightarrow> string \<Rightarrow> ServerState \<Rightarrow> BannedIp option" where
  "BanEntry ip_string ip s = BannedIps_Get ip_string (ss_banned s) ip"

definition IsWhitelisted :: "string \<Rightarrow> ServerState \<Rightarrow> bool" where
  "IsWhitelisted username s =
     (case ss_whitelist s of None \<Rightarrow> True | Some w \<Rightarrow> Whitelist_IsWhitelisted w username)"

definition SetBannedIPs :: "BannedIps \<Rightarrow> ServerState \<Rightarrow> ServerState" where
  "SetBannedIPs ips s = s\<lparr>ss_banned := ips\<rparr>"

definition SetWhitelist :: "Whitelist option \<Rightarrow> ServerState \<Rightarrow> ServerState" where
  "SetWhitelist whitelist s = s\<lparr>ss_whitelist := whitelist\<rparr>"

definition ProbedJoinGame :: "ServerState \<Rightarrow> JoinGameData option" where
  "ProbedJoinGame s = ss_probed s"

definition SetProbedJoinGame :: "JoinGameData option \<Rightarrow> ServerState \<Rightarrow> ServerState" where
  "SetProbedJoinGame data s = s\<lparr>ss_probed := data\<rparr>"

definition ForgePayload :: "ServerState \<Rightarrow> bytes list" where
  "ForgePayload s = ss_forge s"

definition SetForgePayload :: "bytes list \<Rightarrow> ServerState \<Rightarrow> ServerState" where
  "SetForgePayload payload s = s\<lparr>ss_forge := payload\<rparr>"

definition copy_exchange :: "ForgeLoginExchange \<Rightarrow> ForgeLoginExchange" where
  "copy_exchange x =
     \<lparr>fx_Request = [] @ fx_Request x, fx_Success = fx_Success x, fx_Data = [] @ fx_Data x,
      fx_NoResponse = fx_NoResponse x\<rparr>"

definition ForgeLoginCache :: "ServerState \<Rightarrow> ForgeLoginExchange list" where
  "ForgeLoginCache s = map copy_exchange (ss_forgeLoginCache s)"

definition SetForgeLoginCache :: "ForgeLoginExchange list \<Rightarrow> ServerState \<Rightarrow> ServerState" where
  "SetForgeLoginCache cache s = s\<lparr>ss_forgeLoginCache := map copy_exchange cache\<rparr>"

section \<open>Transitions\<close>

lemma broadcast_one_latest [simp]: "broadcast_one state ch = Some state"
  by (cases ch) (simp_all add: broadcast_one_def chan_send_def chan_drain_def)

lemma broadcastState_simp: "broadcastState state s = s\<lparr>ss_subs := map (\<lambda>_. Some state) (ss_subs s)\<rparr>"
  by (simp add: broadcastState_def)

text \<open>What a transition that takes place does to the state.\<close>

definition after_transition :: "Config \<Rightarrow> int \<Rightarrow> State \<Rightarrow> ServerState \<Rightarrow> ServerState" where
  "after_transition config now new s =
     s\<lparr>ss_state := new, ss_subs := map (\<lambda>_. Some new) (ss_subs s), ss_killAt := kill_time config now new,
       ss_lastActive := (if new = StateStarted then Some now else ss_lastActive s),
       ss_keepOnline := (if new = StateStarted
          then (if 0 < tm_MinOnlineTime (cfg_Time config)
                then Some (now + seconds (tm_MinOnlineTime (cfg_Time config))) else None)
          else ss_keepOnline s)\<rparr>"

lemma updateStateFrom_eq:
  "updateStateFrom config now from new s =
     (if (from = None \<or> from = Some (ss_state s)) \<and> ss_state s \<noteq> new
      then (True, after_transition config now new s) else (False, s))"
  by (auto simp: updateStateFrom_def commit_state_def after_transition_def broadcastState_simp
      set_kill_time_def enter_started_def keepOnlineFor_def updateLastActive_def Let_def
      split: option.splits)

lemma updateState_eq:
  "updateState config now new s =
     (if ss_state s \<noteq> new then (True, after_transition config now new s) else (False, s))"
  by (simp add: updateState_def updateStateFrom_eq)

lemma after_transition_simps [simp]:
  "ss_state (after_transition config now new s) = new"
  "ss_killAt (after_transition config now new s) = kill_time config now new"
  "ss_pid (after_transition config now new s) = ss_pid s"
  "ss_pidGeneration (after_transition config now new s) = ss_pidGeneration s"
  "ss_helperGeneration (after_transition config now new s) = ss_helperGeneration s"
  "ss_helperActive (after_transition config now new s) = ss_helperActive s"
  "ss_subs (after_transition config now new s) = map (\<lambda>_. Some new) (ss_subs s)"
  "ss_status (after_transition config now new s) = ss_status s"
  "ss_banned (after_transition config now new s) = ss_banned s"
  "ss_whitelist (after_transition config now new s) = ss_whitelist s"
  by (simp_all add: after_transition_def)

lemma seconds_nonneg [simp]: "0 \<le> seconds n"
  by (simp add: seconds_def)

lemma seconds_pos: "0 < n \<Longrightarrow> 0 < seconds n"
  by (simp add: seconds_def word_less_def)

text \<open>A \<^verbatim>\<open>uint32\<close> of seconds fits the 64 bits of a \<^verbatim>\<open>time.Duration\<close>.\<close>

lemma seconds_fit: "seconds n < 2 ^ 63"
proof -
  have "uint n < 2 ^ 32" using unsigned_less [of n, where 'a = int] by simp
  then show ?thesis by (simp add: seconds_def)
qed

section \<open>The invariant of the shared state\<close>

text \<open>
  A kill timer runs only while the server is starting or stopping; a subscriber that has not yet
  looked holds the current state, never an older one; and the process id belongs to a helper only
  while its generation is the current one.
\<close>

definition server_inv :: "ServerState \<Rightarrow> bool" where
  "server_inv s \<longleftrightarrow>
     (ss_killAt s \<noteq> None \<longrightarrow> ss_state s = StateStarting \<or> ss_state s = StateStopping) \<and>
     (\<forall>ch \<in> set (ss_subs s). ch = None \<or> ch = Some (ss_state s))"

named_theorems keeps_inv \<open>operations that keep the invariant\<close>

lemma kill_time_state: "kill_time config now new \<noteq> None \<Longrightarrow> new = StateStarting \<or> new = StateStopping"
  by (cases new) (auto simp: kill_time_def)

lemma server_inv_new [keeps_inv]: "server_inv NewServerState"
  by (simp add: server_inv_def NewServerState_def)

lemma server_inv_after_transition: "server_inv (after_transition config now new s)"
  using kill_time_state [of config now new] by (auto simp: server_inv_def)

lemma server_inv_updateStateFrom [keeps_inv]:
  "server_inv s \<Longrightarrow> server_inv (snd (updateStateFrom config now from new s))"
  by (simp add: updateStateFrom_eq server_inv_after_transition)

lemma server_inv_updateState [keeps_inv]:
  "server_inv s \<Longrightarrow> server_inv (snd (updateState config now new s))"
  by (simp add: updateState_def server_inv_updateStateFrom)

text \<open>Operations that touch neither the state, nor the kill timer, nor the subscribers.\<close>

lemma server_inv_frame:
  assumes "server_inv s" and "ss_state t = ss_state s" "ss_killAt t = ss_killAt s" "ss_subs t = ss_subs s"
  shows "server_inv t"
  using assms by (simp add: server_inv_def)

lemma server_inv_others [keeps_inv]:
  assumes "server_inv s"
  shows "server_inv (snd (beginControllerHelper s))" "server_inv (finishControllerHelper g s)"
    "server_inv (updateLastActive now s)" "server_inv (keepOnlineFor now d s)"
    "server_inv (SeedStatus st s)" "server_inv (SetBannedIPs b s)" "server_inv (SetWhitelist w s)"
    "server_inv (SetProbedJoinGame j s)" "server_inv (SetForgePayload p s)"
    "server_inv (SetForgeLoginCache c s)" "server_inv (s\<lparr>ss_status := st\<rparr>)"
    "server_inv (s\<lparr>ss_rconLastStop := t\<rparr>)" "server_inv (s\<lparr>ss_pid := p1\<rparr>)"
    "server_inv (s\<lparr>ss_pid := p1, ss_pidGeneration := g\<rparr>)"
  using assms
  by (auto simp: beginControllerHelper_def finishControllerHelper_def updateLastActive_def
      keepOnlineFor_def SeedStatus_def SetBannedIPs_def SetWhitelist_def SetProbedJoinGame_def
      SetForgePayload_def SetForgeLoginCache_def Let_def elim!: server_inv_frame split: option.splits)

lemma server_inv_Subscribe [keeps_inv]: "server_inv s \<Longrightarrow> server_inv (snd (Subscribe s))"
  by (auto simp: server_inv_def Subscribe_def)

lemma server_inv_UpdateStatus [keeps_inv]:
  "server_inv s \<Longrightarrow> server_inv (UpdateStatus config now status s)"
  by (auto simp: UpdateStatus_def Let_def keeps_inv split: option.splits)

lemma server_inv_Expire [keeps_inv]:
  "server_inv s \<Longrightarrow> server_inv (snd (ExpireControllerManagedTransition config now s))"
  by (simp add: ExpireControllerManagedTransition_def keeps_inv)

section \<open>Facts about single operations\<close>

lemma UpdateStatus_state:
  "ss_state (UpdateStatus config now status s) =
     (case ss_state s of
        StateStopped \<Rightarrow> if status = None then StateStopped else StateStarted
      | StateStarting \<Rightarrow> if status = None then StateStarting else StateStarted
      | StateStarted \<Rightarrow> if status = None then StateStopped else StateStarted
      | StateStopping \<Rightarrow> StateStopping)"
  by (cases "ss_state s")
    (auto simp: UpdateStatus_def updateState_eq updateLastActive_def Let_def split: option.splits)

lemma UpdateStatus_killAt:
  "ss_killAt (UpdateStatus config now status s) =
     (if ss_state (UpdateStatus config now status s) = ss_state s then ss_killAt s else None)"
  by (cases "ss_state s"; cases status)
    (simp_all add: UpdateStatus_def Let_def updateState_eq updateStateFrom_eq kill_time_def updateLastActive_def)

lemma UpdateStatus_keeps [simp]:
  "ss_pid (UpdateStatus config now status s) = ss_pid s"
  "ss_pidGeneration (UpdateStatus config now status s) = ss_pidGeneration s"
  "ss_helperGeneration (UpdateStatus config now status s) = ss_helperGeneration s"
  "ss_helperActive (UpdateStatus config now status s) = ss_helperActive s"
  by (auto simp: UpdateStatus_def updateState_eq updateLastActive_def Let_def split: option.splits)

lemma finishControllerHelper_stale:
  "generation \<noteq> ss_helperGeneration s \<Longrightarrow> finishControllerHelper generation s = s"
  by (simp add: finishControllerHelper_def)

lemma ShouldSleep_iff:
  "ShouldSleep config now s \<longleftrightarrow>
     \<not> ControllerManaged config \<and> ss_state s = StateStarted \<and>
     (\<forall>st. ss_status s = Some st \<longrightarrow> pl_Online (st_Players st) = 0) \<and>
     (\<forall>t. ss_keepOnline s = Some t \<longrightarrow> t < now) \<and>
     (\<exists>t. ss_lastActive s = Some t \<and> seconds (tm_SleepAfter (cfg_Time config)) \<le> now - t)"
  by (auto simp: ShouldSleep_def word_gt_0 split: option.splits)

end
