(* ===== verification/Process.thy ===== *)
theory Process
  imports Go_Strings
begin

text \<open>
  \<^verbatim>\<open>process.go\<close> and \<^verbatim>\<open>os.go\<close>: splitting the configured command into words, and the signals the
  gateway can send. A signal's delivery is the kernel's business: the result of \<^verbatim>\<open>syscall.Kill\<close> is an
  input of the operations that send one.
\<close>

section \<open>Command lines\<close>

definition is_quote_char :: "char \<Rightarrow> bool" where
  "is_quote_char c \<longleftrightarrow> c = CHR 0x27 \<or> c = CHR 0x22"

definition is_blank :: "char \<Rightarrow> bool" where
  "is_blank c \<longleftrightarrow> c = CHR '' '' \<or> c = CHR 0x09 \<or> c = CHR 0x0A"

definition escapable :: "char \<Rightarrow> bool" where
  "escapable c \<longleftrightarrow> c = CHR 0x22 \<or> c = CHR 0x5C \<or> c = CHR ''$'' \<or> c = CHR 0x60"

text \<open>The quote is \<open>None\<close> outside quotes; \<^verbatim>\<open>quoted\<close> and \<^verbatim>\<open>quote\<close> of the source are one variable here.\<close>

fun shlex_loop :: "string list \<Rightarrow> string \<Rightarrow> char option \<Rightarrow> bool \<Rightarrow> string \<Rightarrow> string list" where
  "shlex_loop words cur quote inWord [] = (if inWord then words @ [cur] else words)"
| "shlex_loop words cur quote inWord (c # s) =
     (if quote = None \<and> is_quote_char c then shlex_loop words cur (Some c) True s
      else if quote = Some c then shlex_loop words cur None True s
      else if quote = None \<and> is_blank c then
        (if inWord then shlex_loop (words @ [cur]) [] None False s
         else shlex_loop words cur None False s)
      else if quote = None \<and> c = CHR 0x5C then
        (case s of
           d # s' \<Rightarrow> shlex_loop words (cur @ [d]) None True s'
         | [] \<Rightarrow> shlex_loop words (cur @ [CHR 0x5C]) None inWord [])
      else if quote = Some (CHR 0x22) \<and> c = CHR 0x5C then
        (case s of
           d # s' \<Rightarrow>
             if escapable d then shlex_loop words (cur @ [d]) quote inWord s'
             else shlex_loop words (cur @ [CHR 0x5C]) quote inWord s
         | [] \<Rightarrow> shlex_loop words (cur @ [CHR 0x5C]) quote inWord [])
      else shlex_loop words (cur @ [c]) quote True s)"

definition shlexSplit :: "string \<Rightarrow> string list" where
  "shlexSplit s = shlex_loop [] [] None False s"

section \<open>Signals\<close>

datatype signal = SIGKILL | SIGTERM | SIGSTOP | SIGCONT

definition ForceKill_signal :: signal where "ForceKill_signal = SIGKILL"
definition KillGracefully_signal :: signal where "KillGracefully_signal = SIGTERM"
definition Freeze_signal :: signal where "Freeze_signal = SIGSTOP"
definition Unfreeze_signal :: signal where "Unfreeze_signal = SIGCONT"

section \<open>Splitting inverts quoting\<close>

text \<open>A plain word has nothing the splitter treats specially; any word without a single quote survives in
  single quotes.\<close>

definition plain :: "string \<Rightarrow> bool" where
  "plain w \<longleftrightarrow> w \<noteq> [] \<and> list_all (\<lambda>c. \<not> is_quote_char c \<and> \<not> is_blank c \<and> c \<noteq> CHR 0x5C) w"

lemma shlex_plain:
  "list_all (\<lambda>c. \<not> is_quote_char c \<and> \<not> is_blank c \<and> c \<noteq> CHR 0x5C) w \<Longrightarrow>
   shlex_loop words cur None inWord (w @ s) = shlex_loop words (cur @ w) None (inWord \<or> w \<noteq> []) s"
  by (induction w arbitrary: cur inWord) auto

lemma shlex_single_quoted:
  "CHR 0x27 \<notin> set w \<Longrightarrow>
   shlex_loop words cur (Some (CHR 0x27)) True (w @ CHR 0x27 # s) = shlex_loop words (cur @ w) None True s"
  by (induction w arbitrary: cur) auto

definition single_quoted :: "string \<Rightarrow> string" where
  "single_quoted w = [CHR 0x27] @ w @ [CHR 0x27]"

lemma shlex_words:
  assumes "\<And>w inWord words s. w \<in> set ws \<Longrightarrow>
    shlex_loop words [] None False (enc w @ s) = shlex_loop words w None True s"
  shows "shlex_loop words [] None False (join_with '' '' (map enc ws)) = words @ ws"
  using assms
proof (induction ws arbitrary: words)
  case Nil
  then show ?case by simp
next
  case (Cons w ws)
  show ?case
  proof (cases ws)
    case Nil
    with Cons.prems [of w words "[]"] show ?thesis by simp
  next
    case (Cons v vs)
    have blank: "\<not> is_quote_char (CHR '' '')" "is_blank (CHR '' '')"
      by (simp_all add: is_quote_char_def is_blank_def)
    have "shlex_loop words [] None False (join_with '' '' (map enc (w # ws))) =
        shlex_loop (words @ [w]) [] None False (join_with '' '' (map enc ws))"
      using Cons.prems [of w words] Cons blank by simp
    then show ?thesis using Cons.IH [of "words @ [w]"] Cons.prems by simp
  qed
qed

lemma shlexSplit_plain: "\<forall>w \<in> set ws. plain w \<Longrightarrow> shlexSplit (join_with '' '' ws) = ws"
  using shlex_words [of ws "\<lambda>w. w" "[]"] shlex_plain by (simp add: shlexSplit_def plain_def)

lemma shlexSplit_quoted:
  "\<forall>w \<in> set ws. CHR 0x27 \<notin> set w \<Longrightarrow> shlexSplit (join_with '' '' (map single_quoted ws)) = ws"
  using shlex_words [of ws single_quoted "[]"] shlex_single_quoted [of _ _ "[]"]
  by (simp add: shlexSplit_def single_quoted_def is_quote_char_def)

text \<open>A lone backslash at the end starts no word, so a command that is only a backslash has none.\<close>

lemma shlexSplit_backslash: "shlexSplit [CHR 0x5C] = []"
  by (simp add: shlexSplit_def is_quote_char_def is_blank_def)

end
