(* ===== verification/Lifecycle.thy ===== *)
theory Lifecycle
  imports Server_State Process
begin

text \<open>
  The lifecycle of the backend: starting, stopping, freezing and killing it (\<^verbatim>\<open>server.go\<close>,
  \<^verbatim>\<open>process.go\<close>, \<^verbatim>\<open>os.go\<close>), the monitor's tick (\<^verbatim>\<open>monitor.go\<close>) and the signal handler
  (\<^verbatim>\<open>service_tasks.go\<close>). A \<open>world\<close> is the shared state, the signals sent so far, and the
  \<^verbatim>\<open>invokeServerCmd\<close> goroutines in flight with the stage each has reached. What the outside decides
  (the clock, whether a signal could be delivered, what RCON and the process did) is an input.

  \<open>lifecycle_step\<close> interleaves whole operations. Shown here by rule induction over it: with a
  controller-managed backend no signal is ever sent, at most one helper runs and the state is never
  stopping; the invariant of the shared state holds throughout; and where the lifecycle can get stuck
  or start a second process.
\<close>

section \<open>Worlds\<close>

datatype task = Spawning u64 | Waiting int u64 | CoolingDown bool

record world =
  w_srv :: ServerState
  w_sent :: "(signal \<times> int) list"
  w_tasks :: "task list"

datatype rcon_result = RconConnectError | RconCmdError | RconStopped

record env =
  env_now :: int
  env_kill_ok :: "signal \<Rightarrow> bool"
  env_rcon :: rcon_result

definition serverQuitCooldown :: int where "serverQuitCooldown = 2500000000"
definition rconCooldown :: int where "rconCooldown = 15000000000"

definition unixSignal :: "env \<Rightarrow> signal \<Rightarrow> int \<Rightarrow> world \<Rightarrow> bool \<times> world" where
  "unixSignal env sig pid w = (env_kill_ok env sig, w\<lparr>w_sent := w_sent w @ [(sig, pid)]\<rparr>)"

text \<open>A method of the shared state inside a world.\<close>

definition on_srv :: "(ServerState \<Rightarrow> 'a \<times> ServerState) \<Rightarrow> world \<Rightarrow> 'a \<times> world" where
  "on_srv f w = (case f (w_srv w) of (r, s) \<Rightarrow> (r, w\<lparr>w_srv := s\<rparr>))"

section \<open>Stopping\<close>

definition stopServerRcon :: "Config \<Rightarrow> env \<Rightarrow> world \<Rightarrow> bool \<times> world" where
  "stopServerRcon config env w =
     (if \<not> rc_Enabled (cfg_Rcon config) then (False, w)
      else if \<not> (case ss_rconLastStop (w_srv w) of
                   None \<Rightarrow> True | Some t \<Rightarrow> rconCooldown \<le> env_now env - t) then (False, w)
      else case env_rcon env of
        RconConnectError \<Rightarrow> (False, w)
      | RconCmdError \<Rightarrow> (False, w)
      | RconStopped \<Rightarrow>
          let w = w\<lparr>w_srv := (w_srv w)\<lparr>ss_rconLastStop := Some (env_now env)\<rparr>\<rparr>;
              (_, w) = on_srv (updateState config (env_now env) StateStopping) w
          in (True, w))"

definition stopServerSignal :: "Config \<Rightarrow> env \<Rightarrow> world \<Rightarrow> bool \<times> world" where
  "stopServerSignal config env w =
     (let pid = ss_pid (w_srv w)
      in if pid = 0 then (False, w)
         else case unixSignal env KillGracefully_signal pid w of
           (False, w) \<Rightarrow> (False, w)
         | (True, w) \<Rightarrow>
             let (_, w) = on_srv (updateStateFrom config (env_now env) (Some StateStarting) StateStopping) w;
                 (_, w) = on_srv (updateStateFrom config (env_now env) (Some StateStarted) StateStopping) w
             in (True, w))"

definition freezeServerSignal :: "Config \<Rightarrow> env \<Rightarrow> world \<Rightarrow> bool \<times> world" where
  "freezeServerSignal config env w =
     (let pid = ss_pid (w_srv w)
      in if pid = 0 then (False, w)
         else
           let (_, w) = unixSignal env Freeze_signal pid w;
               (_, w) = on_srv (updateStateFrom config (env_now env) (Some StateStarting) StateStopped) w;
               (_, w) = on_srv (updateStateFrom config (env_now env) (Some StateStarted) StateStopped) w
           in (True, w))"

definition unfreezeServerSignal :: "Config \<Rightarrow> env \<Rightarrow> world \<Rightarrow> bool \<times> world" where
  "unfreezeServerSignal config env w =
     (if ControllerManaged config then (False, w)
      else
        let pid = ss_pid (w_srv w)
        in if pid = 0 then (False, w)
           else
             let (_, w) = unixSignal env Unfreeze_signal pid w;
                 (_, w) = on_srv (updateStateFrom config (env_now env) (Some StateStopping) StateStarting) w;
                 (_, w) = on_srv (updateStateFrom config (env_now env) (Some StateStopped) StateStarting) w
             in (True, w))"

definition Stop :: "Config \<Rightarrow> env \<Rightarrow> world \<Rightarrow> bool \<times> world" where
  "Stop config env w =
     (if ControllerManaged config then (False, w)
      else case (if FreezeProcess config then freezeServerSignal config env w else (False, w)) of
        (True, w) \<Rightarrow> (True, w)
      | (False, w) \<Rightarrow>
          (case (if ss_state (w_srv w) = StateStarted then stopServerRcon config env w else (False, w)) of
             (True, w) \<Rightarrow> (True, w)
           | (False, w) \<Rightarrow> stopServerSignal config env w))"

definition ForceKill :: "Config \<Rightarrow> env \<Rightarrow> world \<Rightarrow> bool \<times> world" where
  "ForceKill config env w =
     (if ControllerManaged config then (False, w)
      else if ss_pid (w_srv w) \<noteq> 0 then unixSignal env ForceKill_signal (ss_pid (w_srv w)) w
      else (False, w))"

section \<open>Starting\<close>

definition Start :: "Config \<Rightarrow> env \<Rightarrow> world \<Rightarrow> bool \<times> world" where
  "Start config env w =
     (if ControllerManaged config \<and> FreezeProcess config then (False, w)
      else case on_srv (updateStateFrom config (env_now env) (Some StateStopped) StateStarting) w of
        (False, w) \<Rightarrow> (False, w)
      | (True, w) \<Rightarrow>
          (case (if FreezeProcess config then unfreezeServerSignal config env w else (False, w)) of
             (True, w) \<Rightarrow> (True, w)
           | (False, w) \<Rightarrow>
               if ControllerManaged config then
                 (case on_srv beginControllerHelper w of
                    ((generation, False), w) \<Rightarrow> (True, w)
                  | ((generation, True), w) \<Rightarrow> (True, w\<lparr>w_tasks := w_tasks w @ [Spawning generation]\<rparr>))
               else (True, w\<lparr>w_tasks := w_tasks w @ [Spawning 0]\<rparr>)))"

text \<open>
  \<^verbatim>\<open>invokeServerCmd\<close> in its three stages: start the child (\<open>started\<close> is its pid, or \<open>None\<close> when
  \<^verbatim>\<open>cmd.Start\<close> fails), handle its exit, and finish after the cool-down. A stage returns the next stage
  of the goroutine, or \<open>None\<close> when it returns.
\<close>

definition invoke_spawn ::
  "Config \<Rightarrow> int option \<Rightarrow> u64 \<Rightarrow> ServerState \<Rightarrow> task option \<times> ServerState" where
  "invoke_spawn config started helperGeneration s =
     (let parts = shlexSplit (sv_Command (cfg_Server config))
      in if parts = [] then
           (None, if ControllerManaged config then finishControllerHelper helperGeneration s else s)
         else case started of
           None \<Rightarrow>
             (None, if ControllerManaged config then finishControllerHelper helperGeneration s else s)
         | Some pid \<Rightarrow>
             (Some (Waiting pid helperGeneration),
              s\<lparr>ss_pid := pid, ss_pidGeneration := helperGeneration\<rparr>))"

text \<open>The exit of the child: no error, an exit code (\<open>-1\<close> after a signal), or no process state.\<close>

datatype exit_status = ExitOk | ExitCode int | ExitUnknown

definition allowedExitCodes :: "int \<Rightarrow> bool" where
  "allowedExitCodes c \<longleftrightarrow> c = 130 \<or> c = 143"

fun exitCodeAllowed :: "exit_status \<Rightarrow> bool" where
  "exitCodeAllowed (ExitCode c) = allowedExitCodes c"
| "exitCodeAllowed ExitOk = False"
| "exitCodeAllowed ExitUnknown = False"

definition invoke_exited ::
  "Config \<Rightarrow> exit_status \<Rightarrow> u64 \<Rightarrow> ServerState \<Rightarrow> task option \<times> ServerState" where
  "invoke_exited config status helperGeneration s =
     (if ControllerManaged config then (None, finishControllerHelper helperGeneration s)
      else
        let crashed =
          (case status of
             ExitOk \<Rightarrow> False
           | ExitCode c \<Rightarrow> if exitCodeAllowed status then False else ss_state s = StateStarted
           | ExitUnknown \<Rightarrow> False)
        in (Some (CoolingDown crashed), s\<lparr>ss_pid := 0\<rparr>))"

definition invoke_cooled :: "Config \<Rightarrow> env \<Rightarrow> bool \<Rightarrow> world \<Rightarrow> world" where
  "invoke_cooled config env crashed w =
     (let (_, w) = on_srv (updateState config (env_now env) StateStopped) w
      in if crashed \<and> sv_WakeOnCrash (cfg_Server config) then snd (Start config env w) else w)"

section \<open>The monitor and the signal handler\<close>

text \<open>\<^verbatim>\<open>pollServer\<close>, given what fetching the status and the ping fallback return.\<close>

definition pollServer ::
  "ServerStatus option \<Rightarrow> bool \<Rightarrow> State \<Rightarrow> ServerStatus option \<times> bool \<times> bool" where
  "pollServer fetched pinged state =
     (case fetched of
        Some status \<Rightarrow> (Some status, True, False)
      | None \<Rightarrow> if state = StateStarted \<and> pinged then (None, True, True) else (None, False, False))"

definition MonitorServer_tick :: "Config \<Rightarrow> env \<Rightarrow> ServerStatus option \<Rightarrow> bool \<Rightarrow> world \<Rightarrow> world" where
  "MonitorServer_tick config env fetched pinged w =
     (let (status, ok, pingFallback) = pollServer fetched pinged (ss_state (w_srv w));
          w = (if ok \<and> status \<noteq> None
               then w\<lparr>w_srv := UpdateStatus config (env_now env) status (w_srv w)\<rparr>
               else if \<not> ok
               then w\<lparr>w_srv := UpdateStatus config (env_now env) None (w_srv w)\<rparr>
               else w);
          w = (if ShouldSleep config (env_now env) (w_srv w) then snd (Stop config env w) else w)
      in if ShouldKill (env_now env) (w_srv w) then
           if ControllerManaged config
           then snd (on_srv (ExpireControllerManagedTransition config (env_now env)) w)
           else snd (ForceKill config env w)
         else w)"

datatype 'a verdict = Quit 'a | KeepRunning 'a

definition signalService :: "Config \<Rightarrow> env \<Rightarrow> world \<Rightarrow> world verdict" where
  "signalService config env w =
     (if ControllerManaged config then Quit w
      else if ss_state (w_srv w) = StateStopped then Quit w
      else case Stop config env w of
        (stopping, w) \<Rightarrow> if stopping then KeepRunning w else Quit w)"

section \<open>Interleavings of the operations\<close>

inductive lifecycle_step :: "Config \<Rightarrow> world \<Rightarrow> world \<Rightarrow> bool" for config where
  start: "lifecycle_step config w (snd (Start config env w))"
| tick: "lifecycle_step config w (MonitorServer_tick config env fetched pinged w)"
| interrupt: "signalService config env w = KeepRunning w' \<Longrightarrow> lifecycle_step config w w'"
| spawn: "w_tasks w = ts @ Spawning g # us \<Longrightarrow> invoke_spawn config started g (w_srv w) = (next, s) \<Longrightarrow>
    started \<noteq> Some 0 \<Longrightarrow>
    lifecycle_step config w (w\<lparr>w_srv := s, w_tasks := ts @ (case next of Some t \<Rightarrow> [t] | None \<Rightarrow> []) @ us\<rparr>)"
| exited: "w_tasks w = ts @ Waiting pid g # us \<Longrightarrow> invoke_exited config status g (w_srv w) = (next, s) \<Longrightarrow>
    lifecycle_step config w (w\<lparr>w_srv := s, w_tasks := ts @ (case next of Some t \<Rightarrow> [t] | None \<Rightarrow> []) @ us\<rparr>)"
| cooled: "w_tasks w = ts @ CoolingDown crashed # us \<Longrightarrow>
    lifecycle_step config w (invoke_cooled config env crashed (w\<lparr>w_tasks := ts @ us\<rparr>))"
| subscribe: "lifecycle_step config w (w\<lparr>w_srv := snd (Subscribe (w_srv w))\<rparr>)"
| receive: "i < length (ss_subs (w_srv w)) \<Longrightarrow>
    lifecycle_step config w (w\<lparr>w_srv := (w_srv w)\<lparr>ss_subs := (ss_subs (w_srv w))[i := None]\<rparr>\<rparr>)"

definition initial_world :: world where
  "initial_world = \<lparr>w_srv = NewServerState, w_sent = [], w_tasks = []\<rparr>"

definition lifecycle_reachable :: "Config \<Rightarrow> world \<Rightarrow> bool" where
  "lifecycle_reachable config w \<longleftrightarrow> (lifecycle_step config)\<^sup>*\<^sup>* initial_world w"

section \<open>Every operation keeps the shared invariant\<close>

lemma on_srv_simps [simp]:
  "w_srv (snd (on_srv f w)) = snd (f (w_srv w))" "fst (on_srv f w) = fst (f (w_srv w))"
  "w_sent (snd (on_srv f w)) = w_sent w" "w_tasks (snd (on_srv f w)) = w_tasks w"
  by (simp_all add: on_srv_def split: prod.splits)

lemma unixSignal_simps [simp]:
  "w_srv (snd (unixSignal env sig pid w)) = w_srv w" "w_tasks (snd (unixSignal env sig pid w)) = w_tasks w"
  "w_sent (snd (unixSignal env sig pid w)) = w_sent w @ [(sig, pid)]"
  by (simp_all add: unixSignal_def)

lemmas stop_defs = Stop_def stopServerRcon_def stopServerSignal_def freezeServerSignal_def Let_def

lemma case_prod_snd: "(case p of (_, w) \<Rightarrow> (b, w)) = (b, snd p)"
  by (cases p) simp

lemma world_case_bool: "(case p of (True, w) \<Rightarrow> f w | (False, w) \<Rightarrow> g w) = (if fst p then f (snd p) else g (snd p))"
  by (cases p) auto

lemma stopServerRcon_inv [keeps_inv]:
  "server_inv (w_srv w) \<Longrightarrow> server_inv (w_srv (snd (stopServerRcon config env w)))"
  by (simp add: stopServerRcon_def Let_def case_prod_snd keeps_inv split: rcon_result.splits)

lemma signals_inv [keeps_inv]:
  assumes "server_inv (w_srv w)"
  shows "server_inv (w_srv (snd (stopServerSignal config env w)))"
    "server_inv (w_srv (snd (freezeServerSignal config env w)))"
    "server_inv (w_srv (snd (unfreezeServerSignal config env w)))"
  using assms
  by (simp_all add: stopServerSignal_def freezeServerSignal_def unfreezeServerSignal_def Let_def
      case_prod_beta keeps_inv split: bool.splits)

lemma Stop_inv [keeps_inv]: "server_inv (w_srv w) \<Longrightarrow> server_inv (w_srv (snd (Stop config env w)))"
  by (auto simp: Stop_def keeps_inv case_prod_beta split: bool.splits)

lemma ForceKill_inv [keeps_inv]: "server_inv (w_srv w) \<Longrightarrow> server_inv (w_srv (snd (ForceKill config env w)))"
  by (simp add: ForceKill_def)

lemma Start_inv [keeps_inv]: "server_inv (w_srv w) \<Longrightarrow> server_inv (w_srv (snd (Start config env w)))"
  by (auto simp: Start_def keeps_inv case_prod_beta split: bool.splits prod.splits)

lemma invoke_inv [keeps_inv]:
  assumes "server_inv s"
  shows "server_inv (snd (invoke_spawn config started g s))"
    "server_inv (snd (invoke_exited config status g s))"
  using assms by (auto simp: invoke_spawn_def invoke_exited_def Let_def keeps_inv split: option.splits)

lemma invoke_cooled_inv [keeps_inv]:
  "server_inv (w_srv w) \<Longrightarrow> server_inv (w_srv (invoke_cooled config env crashed w))"
  by (simp add: invoke_cooled_def Let_def case_prod_beta keeps_inv)

lemma MonitorServer_tick_inv [keeps_inv]:
  "server_inv (w_srv w) \<Longrightarrow> server_inv (w_srv (MonitorServer_tick config env fetched pinged w))"
  by (simp add: MonitorServer_tick_def Let_def case_prod_beta keeps_inv)

lemma lifecycle_step_inv: "lifecycle_step config w w' \<Longrightarrow> server_inv (w_srv w) \<Longrightarrow> server_inv (w_srv w')"
proof (induction rule: lifecycle_step.induct)
  case (interrupt env w w')
  then have "w' = snd (Stop config env w)"
    by (auto simp: signalService_def split: if_splits prod.splits)
  with interrupt show ?case by (simp add: keeps_inv)
next
  case (spawn w ts g us started nxt s)
  then have "s = snd (invoke_spawn config started g (w_srv w))" by simp
  with spawn.prems show ?case by (simp add: keeps_inv)
next
  case (exited w ts pid g us status nxt s)
  then have "s = snd (invoke_exited config status g (w_srv w))" by simp
  with exited.prems show ?case by (simp add: keeps_inv)
next
  case (receive i w)
  then show ?case
    by (auto simp: server_inv_def dest: set_update_subset_insert [THEN subsetD])
qed (simp_all add: keeps_inv)

lemma lifecycle_reachable_inv: "lifecycle_reachable config w \<Longrightarrow> server_inv (w_srv w)"
  unfolding lifecycle_reachable_def
proof (induction rule: rtranclp_induct)
  case base
  then show ?case by (simp add: initial_world_def keeps_inv)
next
  case (step v w)
  then show ?case using lifecycle_step_inv by blast
qed

section \<open>A controller-managed backend\<close>

text \<open>
  No signal, no stopping state, no goroutine cooling down, and at most one helper, which owns the
  current generation of the slot.
\<close>

definition controller_inv :: "world \<Rightarrow> bool" where
  "controller_inv w \<longleftrightarrow>
     w_sent w = [] \<and> ss_state (w_srv w) \<noteq> StateStopping \<and>
     (w_tasks w = [] \<or>
      ss_helperActive (w_srv w) \<and>
      (w_tasks w = [Spawning (ss_helperGeneration (w_srv w))] \<or>
       (\<exists>pid. w_tasks w = [Waiting pid (ss_helperGeneration (w_srv w))])))"

lemma controller_Stop [simp]: "ControllerManaged config \<Longrightarrow> Stop config env w = (False, w)"
  by (simp add: Stop_def)

lemma beginControllerHelper_simps:
  "beginControllerHelper s =
     (if ss_helperActive s then ((ss_helperGeneration s, False), s)
      else ((ss_helperGeneration s + 1, True),
            s\<lparr>ss_helperGeneration := ss_helperGeneration s + 1, ss_helperActive := True\<rparr>))"
  by (simp add: beginControllerHelper_def Let_def)

lemma controller_Start:
  assumes "ControllerManaged config" and "controller_inv w"
  shows "controller_inv (snd (Start config env w))"
proof -
  have start: "snd (Start config env w) =
      (if FreezeProcess config \<or> ss_state (w_srv w) \<noteq> StateStopped then w
       else let w' = w\<lparr>w_srv := after_transition config (env_now env) StateStarting (w_srv w)\<rparr>
            in if ss_helperActive (w_srv w) then w'
               else w'\<lparr>w_srv := (w_srv w')\<lparr>ss_helperGeneration := ss_helperGeneration (w_srv w) + 1,
                        ss_helperActive := True\<rparr>,
                      w_tasks := w_tasks w @ [Spawning (ss_helperGeneration (w_srv w) + 1)]\<rparr>)"
    using assms(1)
    by (auto simp: Start_def on_srv_def updateStateFrom_eq beginControllerHelper_simps Let_def)
  show ?thesis using assms(2) unfolding start by (auto simp: controller_inv_def Let_def)
qed

lemma controller_tick:
  assumes "ControllerManaged config" and "controller_inv w"
  shows "controller_inv (MonitorServer_tick config env fetched pinged w)"
proof -
  have upd: "controller_inv (w\<lparr>w_srv := UpdateStatus config now st (w_srv w)\<rparr>)" for now st
    using assms(2) by (auto simp: controller_inv_def UpdateStatus_state split: State.splits)
  have expire: "controller_inv (snd (on_srv (ExpireControllerManagedTransition config now) v))"
    if "controller_inv v" for now v
    using that by (auto simp: controller_inv_def ExpireControllerManagedTransition_def updateStateFrom_eq)
  show ?thesis
    using assms upd expire by (auto simp: MonitorServer_tick_def Let_def case_prod_beta)
qed

lemma finishControllerHelper_keeps [simp]:
  "ss_state (finishControllerHelper g s) = ss_state s"
  "ss_helperGeneration (finishControllerHelper g s) = ss_helperGeneration s"
  by (simp_all add: finishControllerHelper_def Let_def)

lemma single_task:
  "[x] = ts @ y # us \<longleftrightarrow> ts = [] \<and> us = [] \<and> x = y" "ts @ y # us = [x] \<longleftrightarrow> ts = [] \<and> us = [] \<and> x = y"
  by (cases ts; auto)+

lemma controller_step:
  assumes "lifecycle_step config w w'" and "ControllerManaged config" and "controller_inv w"
  shows "controller_inv w'"
  using assms
proof (induction rule: lifecycle_step.induct)
  case (start w env)
  then show ?case by (rule controller_Start)
next
  case (tick w env fetched pinged)
  then show ?case by (rule controller_tick)
next
  case (interrupt env w w')
  then show ?case by (simp add: signalService_def)
next
  case (spawn w ts g us started nxt s)
  then have "w_tasks w = [Spawning (ss_helperGeneration (w_srv w))]" "ts = []" "us = []"
    "g = ss_helperGeneration (w_srv w)"
    by (auto simp: controller_inv_def single_task)
  with spawn show ?case
    by (auto simp: controller_inv_def invoke_spawn_def Let_def split: if_splits option.splits)
next
  case (exited w ts pid g us status nxt s)
  then have "ts = []" "us = []" "nxt = None" "s = finishControllerHelper g (w_srv w)"
    by (auto simp: controller_inv_def single_task invoke_exited_def)
  with exited show ?case by (auto simp: controller_inv_def)
next
  case (cooled w ts crashed us env)
  then show ?case by (auto simp: controller_inv_def single_task)
next
  case (subscribe w)
  then show ?case by (auto simp: controller_inv_def Subscribe_def)
next
  case (receive i w)
  then show ?case by (auto simp: controller_inv_def)
qed

lemma controller_reachable:
  "lifecycle_reachable config w \<Longrightarrow> ControllerManaged config \<Longrightarrow> controller_inv w"
  unfolding lifecycle_reachable_def
proof (induction rule: rtranclp_induct)
  case base
  then show ?case by (simp add: initial_world_def controller_inv_def NewServerState_def)
next
  case (step v w)
  then show ?case using controller_step by blast
qed

section \<open>Where the lifecycle gets stuck\<close>

text \<open>
  No goroutine, no process id, and the state is stopping: a server the gateway found running and
  stopped over RCON. Nothing ever leaves this state.
\<close>

definition orphan_stopping :: "world \<Rightarrow> bool" where
  "orphan_stopping w \<longleftrightarrow>
     w_tasks w = [] \<and> ss_pid (w_srv w) = 0 \<and> ss_state (w_srv w) = StateStopping"

lemma orphan_Start: "orphan_stopping w \<Longrightarrow> snd (Start config env w) = w"
  by (simp add: Start_def on_srv_def updateStateFrom_eq orphan_stopping_def)

lemma orphan_Stop: "orphan_stopping w \<Longrightarrow> Stop config env w = (False, w)"
  by (simp add: Stop_def freezeServerSignal_def stopServerSignal_def orphan_stopping_def)

lemma orphan_tick: "orphan_stopping w \<Longrightarrow> orphan_stopping (MonitorServer_tick config env fetched pinged w)"
  by (auto simp: MonitorServer_tick_def Let_def case_prod_beta orphan_stopping_def UpdateStatus_state
      ShouldSleep_def ForceKill_def ExpireControllerManagedTransition_def updateStateFrom_eq pollServer_def
      split: option.splits)

lemma orphan_step: "lifecycle_step config w w' \<Longrightarrow> orphan_stopping w \<Longrightarrow> orphan_stopping w'"
proof (induction rule: lifecycle_step.induct)
  case (interrupt env w w')
  then show ?case by (auto simp: signalService_def orphan_Stop split: if_splits)
qed (auto simp: orphan_Start orphan_tick, auto simp: orphan_stopping_def Subscribe_def)

lemma orphan_forever: "(lifecycle_step config)\<^sup>*\<^sup>* w w' \<Longrightarrow> orphan_stopping w \<Longrightarrow> orphan_stopping w'"
  by (induction rule: rtranclp_induct) (auto intro: orphan_step)

text \<open>The run that gets there: the monitor sees the server online, then puts it to sleep over RCON.\<close>

definition some_status :: ServerStatus where
  "some_status =
     \<lparr>st_Version = \<lparr>sv_Name = [], sv_Protocol = 0\<rparr>,
      st_Players = \<lparr>pl_Max = 0, pl_Online = 0, pl_Sample = []\<rparr>,
      st_Description = [], st_Favicon = None, st_ForgeData = []\<rparr>"

definition env_at :: "int \<Rightarrow> env" where
  "env_at now = \<lparr>env_now = now, env_kill_ok = (\<lambda>_. True), env_rcon = RconStopped\<rparr>"

definition rcon_config :: Config where
  "rcon_config =
     defaultConfig
       \<lparr>cfg_Server := (cfg_Server defaultConfig)\<lparr>sv_FreezeProcess := False, sv_Command := ''java''\<rparr>,
        cfg_Rcon := (cfg_Rcon defaultConfig)\<lparr>rc_Enabled := True\<rparr>\<rparr>"

text \<open>The settings of this configuration that the run depends on, and the definitions it unfolds.\<close>

lemma rcon_config_simps [simp]:
  "\<not> ControllerManaged rcon_config" "\<not> FreezeProcess rcon_config" "rc_Enabled (cfg_Rcon rcon_config)"
  "sv_Command (cfg_Server rcon_config) = ''java''" "tm_SleepAfter (cfg_Time rcon_config) = 60"
  "tm_MinOnlineTime (cfg_Time rcon_config) = 60" "sv_StartTimeout (cfg_Server rcon_config) = 300"
  "sv_StopTimeout (cfg_Server rcon_config) = 150"
  by (simp_all add: rcon_config_def defaultConfig_def)

lemmas run_defs = MonitorServer_tick_def pollServer_def UpdateStatus_def updateState_eq updateStateFrom_eq
  after_transition_def updateLastActive_def ShouldSleep_def ShouldKill_def kill_time_def seconds_def
  env_at_def some_status_def NewServerState_def initial_world_def Start_def Stop_def stopServerRcon_def
  on_srv_def Let_def rconCooldown_def

lemma orphan_reachable: "\<exists>w. lifecycle_reachable rcon_config w \<and> orphan_stopping w"
proof -
  define w1 where "w1 = MonitorServer_tick rcon_config (env_at 0) (Some some_status) True initial_world"
  define w2 where "w2 = MonitorServer_tick rcon_config (env_at 100000000000) (Some some_status) True w1"
  have "lifecycle_step rcon_config initial_world w1" "lifecycle_step rcon_config w1 w2"
    unfolding w1_def w2_def by (rule lifecycle_step.tick)+
  then have "lifecycle_reachable rcon_config w2"
    unfolding lifecycle_reachable_def by (meson rtranclp.rtrancl_refl rtranclp.rtrancl_into_rtrancl)
  moreover have "w_srv w1 = NewServerState\<lparr>ss_state := StateStarted, ss_lastActive := Some 0,
      ss_keepOnline := Some 60000000000, ss_status := Some some_status\<rparr>" "w_tasks w1 = []"
    by (simp_all add: w1_def run_defs)
  then have "orphan_stopping w2" by (simp add: w2_def orphan_stopping_def run_defs)
  ultimately show ?thesis by blast
qed

section \<open>A second process\<close>

text \<open>
  A started server that answers neither the status request nor the ping once is taken for stopped,
  although its process is still there; the next join starts another one.
\<close>

definition processes :: "world \<Rightarrow> int list" where
  "processes w = concat (map (\<lambda>t. case t of Waiting pid _ \<Rightarrow> [pid] | _ \<Rightarrow> []) (w_tasks w))"

lemma second_process_reachable:
  "\<exists>w. lifecycle_reachable rcon_config w \<and> processes w = [1, 2] \<and> ss_pid (w_srv w) = 2"
proof -
  define w1 where "w1 = snd (Start rcon_config (env_at 0) initial_world)"
  define w2 where "w2 = w1\<lparr>w_srv := snd (invoke_spawn rcon_config (Some 1) 0 (w_srv w1)), w_tasks := [Waiting 1 0]\<rparr>"
  define w3 where "w3 = MonitorServer_tick rcon_config (env_at 1) (Some some_status) True w2"
  define w4 where "w4 = MonitorServer_tick rcon_config (env_at 2) None False w3"
  define w5 where "w5 = snd (Start rcon_config (env_at 3) w4)"
  define w6 where "w6 = w5\<lparr>w_srv := snd (invoke_spawn rcon_config (Some 2) 0 (w_srv w5)),
    w_tasks := [Waiting 1 0, Waiting 2 0]\<rparr>"
  have t1: "w_tasks w1 = [] @ Spawning 0 # []" unfolding w1_def by (simp add: run_defs)
  have i: "invoke_spawn rcon_config (Some p) 0 s = (Some (Waiting p 0), snd (invoke_spawn rcon_config (Some p) 0 s))"
    for p s
  proof -
    have "shlexSplit ''java'' \<noteq> []" by code_simp
    then show ?thesis by (simp add: invoke_spawn_def Let_def)
  qed
  have s2: "w_srv w2 = NewServerState\<lparr>ss_state := StateStarting, ss_killAt := Some 300000000000, ss_pid := 1\<rparr>"
    unfolding w2_def w1_def by (simp add: run_defs invoke_spawn_def) code_simp
  have s3: "w_srv w3 = NewServerState\<lparr>ss_state := StateStarted, ss_pid := 1, ss_lastActive := Some 1,
      ss_keepOnline := Some 60000000001, ss_status := Some some_status\<rparr>" "w_tasks w3 = [Waiting 1 0]"
    unfolding w3_def by (simp_all add: s2 run_defs) (simp add: w2_def)
  have s4: "w_srv w4 = (w_srv w3)\<lparr>ss_state := StateStopped\<rparr>" "w_tasks w4 = [Waiting 1 0]"
    unfolding w4_def by (simp_all add: s3 run_defs)
  have t5: "w_tasks w5 = [Waiting 1 0] @ Spawning 0 # []"
    unfolding w5_def by (simp add: s4 s3 run_defs)
  have "lifecycle_step rcon_config initial_world w1" unfolding w1_def by (rule lifecycle_step.start)
  moreover have "lifecycle_step rcon_config w1 w2"
    using lifecycle_step.spawn [OF t1 i, of 1] unfolding w2_def by simp
  moreover have "lifecycle_step rcon_config w2 w3" "lifecycle_step rcon_config w3 w4"
    unfolding w3_def w4_def by (rule lifecycle_step.tick)+
  moreover have "lifecycle_step rcon_config w4 w5" unfolding w5_def by (rule lifecycle_step.start)
  moreover have "lifecycle_step rcon_config w5 w6"
    using lifecycle_step.spawn [OF t5 i, of 2] unfolding w6_def by simp
  ultimately have "lifecycle_reachable rcon_config w6"
    unfolding lifecycle_reachable_def by (meson rtranclp.rtrancl_refl rtranclp.rtrancl_into_rtrancl)
  moreover have "processes w6 = [1, 2]" by (simp add: w6_def processes_def)
  moreover have "shlexSplit ''java'' \<noteq> []" by code_simp
  then have "ss_pid (w_srv w6) = 2" unfolding w6_def by (simp add: invoke_spawn_def Let_def)
  ultimately show ?thesis by blast
qed

section \<open>Transitions are not atomic\<close>

text \<open>
  Two transitions interleaved between their stages: a join commits \<^verbatim>\<open>Starting\<close>, the monitor then runs
  its whole transition to \<^verbatim>\<open>Started\<close>, and the join's kill timer is set last. The started server keeps
  it, and is killed when it runs out.
\<close>

lemma interleaved_kill_timer:
  fixes now :: int and st :: ServerStatus
  assumes "0 < sv_StartTimeout (cfg_Server config)" and "ss_state s = StateStopped"
  defines "s1 \<equiv> snd (commit_state (Some StateStopped) StateStarting s)"
  defines "s2 \<equiv> UpdateStatus config now (Some st) s1"
  defines "s3 \<equiv> set_kill_time config now StateStarting (broadcastState StateStarting s2)"
  shows "ss_state s3 = StateStarted" and "ss_killAt s3 = Some (now + seconds (sv_StartTimeout (cfg_Server config)))"
    and "\<not> server_inv s3"
proof -
  have "ss_state s1 = StateStarting" using assms(2) by (simp add: s1_def commit_state_def Let_def)
  then have "ss_state s2 = StateStarted" by (simp add: s2_def UpdateStatus_state)
  then show st: "ss_state s3 = StateStarted" by (simp add: s3_def set_kill_time_def broadcastState_def)
  show k: "ss_killAt s3 = Some (now + seconds (sv_StartTimeout (cfg_Server config)))"
    using assms(1) by (simp add: s3_def set_kill_time_def kill_time_def)
  show "\<not> server_inv s3" using st k by (simp add: server_inv_def)
qed

end
