(* ===== verification/Stream_Read.thy ===== *)
theory Stream_Read
  imports Framing
begin

text \<open>
  \<^verbatim>\<open>proto/stream.go\<close>: reading one packet from a connection into a buffer that keeps what arrived
  beyond it. A connection is the script of what its future \<^verbatim>\<open>Read\<close> calls return: each entry is the
  bytes of one delivery and the error that comes with it; a delivery larger than the caller's buffer
  is handed out in pieces, and after the script the peer has closed. The deadline that
  \<^verbatim>\<open>armReadTimeout\<close> installs shows as an entry with the error \<open>ErrTimeout\<close>.

  Shown here: the buffer never exceeds its bound, no byte is lost or reordered, a frame is delivered
  however the network cuts it up when its length fits two var-int bytes, and what happens to longer
  frames and to malformed ones.
\<close>

section \<open>Definitions\<close>

datatype io_error =
    EOF | ECONNRESET | ErrNoProgress | ErrTimeout | ErrIO
  | ErrMalformedPacket | ErrPacketTooLarge | ErrBufferLimit

type_synonym script = "(bytes \<times> io_error option) list"

definition MaxPacketLength :: nat where "MaxPacketLength = 1048576"
definition MaxBufferedBytes :: nat where "MaxBufferedBytes = MaxPacketLength + 5"
definition BufSize :: nat where "BufSize = 8 * 1024"

fun conn_Read :: "nat \<Rightarrow> script \<Rightarrow> (bytes \<times> io_error option) \<times> script" where
  "conn_Read k [] = (([], Some EOF), [])"
| "conn_Read k ((bs, e) # conn) =
     (if length bs \<le> k then ((bs, e), conn) else ((take k bs, None), (drop k bs, e) # conn))"

definition readMore :: "bytes \<Rightarrow> script \<Rightarrow> io_error option \<times> bytes \<times> script" where
  "readMore buf conn =
     (if MaxBufferedBytes \<le> length buf then (Some ErrBufferLimit, buf, conn)
      else
        let left = MaxBufferedBytes - length buf;
            readSize = (if left < BufSize then left else BufSize)
        in case conn_Read readSize conn of ((tmp, err), conn') \<Rightarrow>
             (if tmp = [] \<and> err = None then (Some ErrNoProgress, buf @ tmp, conn')
              else (err, buf @ tmp, conn')))"

lemma readMore_grows: "readMore buf conn = (None, buf', conn') \<Longrightarrow> length buf < length buf'"
  by (auto simp: readMore_def Let_def split: if_splits prod.splits)

text \<open>The loops \<^verbatim>\<open>for len(*buf) < n\<close>: read until \<open>n\<close> bytes are buffered or a read fails.\<close>

function read_until :: "nat \<Rightarrow> bytes \<Rightarrow> script \<Rightarrow> io_error option \<times> bytes \<times> script" where
  "read_until n buf conn =
     (if length buf < n then
        case readMore buf conn of
          (Some e, buf', conn') \<Rightarrow> (Some e, buf', conn')
        | (None, buf', conn') \<Rightarrow> read_until n buf' conn'
      else (None, buf, conn))"
  by pat_completeness auto
termination
  by (relation "measure (\<lambda>(n, buf, conn). n - length buf)")
    (auto dest!: readMore_grows [OF sym])

declare read_until.simps [simp del]

datatype read_result = Packet RawPacket bytes | CleanEOF | ReadError io_error

definition read_failed :: "io_error \<Rightarrow> read_result" where
  "read_failed e = (if e = EOF \<or> e = ECONNRESET then CleanEOF else ReadError e)"

definition ReadPacketWithTimeout ::
  "zlib \<Rightarrow> Client \<Rightarrow> bytes \<Rightarrow> script \<Rightarrow> read_result \<times> bytes \<times> script" where
  "ReadPacketWithTimeout z client buf conn =
     (if MaxBufferedBytes < length buf then (ReadError ErrBufferLimit, buf, conn)
      else case read_until 2 buf conn of
        (Some e, buf, conn) \<Rightarrow> (read_failed e, buf, conn)
      | (None, buf, conn) \<Rightarrow>
         (case ReadVarInt buf of
            Ok (consumed, pktLen) \<Rightarrow>
              if sint pktLen < 0 then (ReadError ErrMalformedPacket, buf, conn)
              else if int MaxPacketLength < sint pktLen then (ReadError ErrPacketTooLarge, buf, conn)
              else
                let total = consumed + nat (sint pktLen)
                in if MaxBufferedBytes < total then (ReadError ErrPacketTooLarge, buf, conn)
                   else (case read_until total buf conn of
                      (Some e, buf, conn) \<Rightarrow> (read_failed e, buf, conn)
                    | (None, buf, conn) \<Rightarrow>
                       if IsCompressed client \<and>
                          (case ReadVarInt (take (total - consumed) (drop consumed buf)) of
                             Ok (_, dataLen) \<Rightarrow> sint dataLen < 0 \<or> int MaxPacketLength < sint dataLen
                           | _ \<Rightarrow> True)
                       then (ReadError ErrPacketTooLarge, buf, conn)
                       else
                         let raw = take total buf
                         in case DecodeWithLen z client raw of
                              Ok packet \<Rightarrow> (Packet packet raw, drop total buf, conn)
                            | _ \<Rightarrow> (ReadError ErrMalformedPacket, buf, conn))
          | _ \<Rightarrow> (ReadError ErrMalformedPacket, buf, conn)))"

text \<open>
  The state's default timeout only chooses the deadline; it does not change what is read, so
  \<^verbatim>\<open>ReadPacket\<close> is the same function of the script. Durations are in seconds.
\<close>

fun readTimeout :: "ClientState \<Rightarrow> nat" where
  "readTimeout ClientStateHandshake = 10"
| "readTimeout ClientStateStatus = 5"
| "readTimeout ClientStateLogin = 15"
| "readTimeout _ = 15"

definition ReadPacket ::
  "zlib \<Rightarrow> Client \<Rightarrow> bytes \<Rightarrow> script \<Rightarrow> read_result \<times> bytes \<times> script" where
  "ReadPacket z client buf conn = ReadPacketWithTimeout z client buf conn"

section \<open>Conservation and bounds\<close>

definition script_bytes :: "script \<Rightarrow> bytes" where
  "script_bytes conn = concat (map fst conn)"

lemma script_bytes_simps [simp]:
  "script_bytes [] = []" "script_bytes ((bs, e) # conn) = bs @ script_bytes conn"
  by (simp_all add: script_bytes_def)

lemma conn_Read_conserves:
  "conn_Read k conn = ((tmp, e), conn') \<Longrightarrow> tmp @ script_bytes conn' = script_bytes conn"
  by (cases "(k, conn)" rule: conn_Read.cases) (auto split: if_splits)

lemma conn_Read_size: "conn_Read k conn = ((tmp, e), conn') \<Longrightarrow> length tmp \<le> k"
  by (cases "(k, conn)" rule: conn_Read.cases) (auto split: if_splits)

lemma readMore_conserves:
  "readMore buf conn = (e, buf', conn') \<Longrightarrow> buf' @ script_bytes conn' = buf @ script_bytes conn"
  by (auto simp: readMore_def Let_def dest: conn_Read_conserves split: if_splits prod.splits)

lemma readMore_extends: "readMore buf conn = (e, buf', conn') \<Longrightarrow> \<exists>more. buf' = buf @ more"
  by (auto simp: readMore_def Let_def split: if_splits prod.splits)

lemma readMore_bound:
  "readMore buf conn = (e, buf', conn') \<Longrightarrow> length buf \<le> MaxBufferedBytes \<Longrightarrow>
   length buf' \<le> MaxBufferedBytes"
  by (auto simp: readMore_def Let_def dest!: conn_Read_size split: if_splits prod.splits)

lemma read_until_conserves:
  "read_until n buf conn = (e, buf', conn') \<Longrightarrow>
   buf' @ script_bytes conn' = buf @ script_bytes conn \<and> (\<exists>more. buf' = buf @ more)"
proof (induction n buf conn rule: read_until.induct)
  case (1 n buf conn)
  obtain e1 buf1 conn1 where r: "readMore buf conn = (e1, buf1, conn1)" by (metis prod_cases3)
  note facts = readMore_conserves [OF r] readMore_extends [OF r]
  show ?case
    using "1.prems" facts r "1.IH" [OF _ r [symmetric] _ refl]
    by (auto simp: read_until.simps [of n buf] split: if_splits option.splits)
qed

lemma read_until_bound:
  "read_until n buf conn = (e, buf', conn') \<Longrightarrow> length buf \<le> MaxBufferedBytes \<Longrightarrow>
   length buf' \<le> MaxBufferedBytes"
proof (induction n buf conn rule: read_until.induct)
  case (1 n buf conn)
  obtain e1 buf1 conn1 where r: "readMore buf conn = (e1, buf1, conn1)" by (metis prod_cases3)
  note facts = readMore_bound [OF r "1.prems"(2)]
  show ?case
    using "1.prems" facts r "1.IH" [OF _ r [symmetric] _ refl]
    by (auto simp: read_until.simps [of n buf] split: if_splits option.splits)
qed

lemma read_until_enough: "read_until n buf conn = (None, buf', conn') \<Longrightarrow> n \<le> length buf'"
proof (induction n buf conn rule: read_until.induct)
  case (1 n buf conn)
  obtain e1 buf1 conn1 where r: "readMore buf conn = (e1, buf1, conn1)" by (metis prod_cases3)
  show ?case
    using "1.prems" r "1.IH" [OF _ r [symmetric] _ refl]
    by (auto simp: read_until.simps [of n buf] split: if_splits option.splits)
qed

lemma read_until_done [simp]: "n \<le> length buf \<Longrightarrow> read_until n buf conn = (None, buf, conn)"
  by (simp add: read_until.simps)

text \<open>
  The outcomes of one call: the packet taken off the front of the buffered bytes, or the buffered
  bytes kept. \<open>read_outcome\<close> records what every branch of the function keeps.
\<close>

definition read_outcome :: "bytes \<Rightarrow> script \<Rightarrow> read_result \<times> bytes \<times> script \<Rightarrow> bool" where
  "read_outcome buf conn res =
     (case res of
        (Packet p raw, buf', conn') \<Rightarrow>
          raw @ buf' @ script_bytes conn' = buf @ script_bytes conn \<and>
          length raw + length buf' \<le> MaxBufferedBytes
      | (_, buf', conn') \<Rightarrow>
          buf' @ script_bytes conn' = buf @ script_bytes conn \<and> length buf' \<le> MaxBufferedBytes)"

lemma read_outcome_error:
  assumes "buf' @ script_bytes conn' = buf @ script_bytes conn" and "length buf' \<le> MaxBufferedBytes"
  shows "read_outcome buf conn (ReadError e, buf', conn')" "read_outcome buf conn (read_failed e, buf', conn')"
  using assms by (simp_all add: read_outcome_def read_failed_def)

lemma ReadPacketWithTimeout_outcome:
  assumes "length buf \<le> MaxBufferedBytes"
  shows "read_outcome buf conn (ReadPacketWithTimeout z client buf conn)"
proof -
  obtain e1 b1 c1 where r1: "read_until 2 buf conn = (e1, b1, c1)" by (metis prod_cases3)
  note k1 = read_until_conserves [OF r1, THEN conjunct1] read_until_bound [OF r1 assms]
  note err1 = read_outcome_error [OF k1]
  show ?thesis
  proof (cases "e1 = None \<and> (\<exists>consumed pktLen. ReadVarInt b1 = Ok (consumed, pktLen))")
    case False
    with assms r1 err1 show ?thesis
      by (auto simp: ReadPacketWithTimeout_def split: option.splits outcome.splits)
  next
    case True
    then obtain consumed pktLen where v: "ReadVarInt b1 = Ok (consumed, pktLen)" and "e1 = None" by blast
    let ?total = "consumed + nat (sint pktLen)"
    obtain e2 b2 c2 where r2: "read_until ?total b1 c1 = (e2, b2, c2)" by (metis prod_cases3)
    have k2: "b2 @ script_bytes c2 = buf @ script_bytes conn" "length b2 \<le> MaxBufferedBytes"
      using read_until_conserves [OF r2] k1 read_until_bound [OF r2 k1(2)] by auto
    note err2 = read_outcome_error [OF k2]
    have packet: "read_outcome buf conn (Packet p (take ?total b2), drop ?total b2, c2)" for p
      using k2 by (simp add: read_outcome_def append_assoc [symmetric] del: append_assoc)
    show ?thesis
      using assms r1 r2 v \<open>e1 = None\<close> err1 err2 packet
      by (auto simp: ReadPacketWithTimeout_def Let_def split: option.splits outcome.splits)
  qed
qed

text \<open>Every packet takes at least one byte off the stream: the loops over packets end.\<close>

lemma ReadPacket_consumes:
  assumes "ReadPacketWithTimeout z client buf conn = (Packet p raw, buf', conn')"
  shows "raw @ buf' @ script_bytes conn' = buf @ script_bytes conn" and "raw \<noteq> []"
proof -
  have bound: "length buf \<le> MaxBufferedBytes"
    using assms by (auto simp: ReadPacketWithTimeout_def split: if_splits)
  from ReadPacketWithTimeout_outcome [OF this, of conn z client]
  show "raw @ buf' @ script_bytes conn' = buf @ script_bytes conn"
    by (simp add: assms read_outcome_def)
  have failed: "read_failed e \<noteq> Packet p raw" for e by (simp add: read_failed_def)
  obtain e1 b1 c1 where r1: "read_until 2 buf conn = (e1, b1, c1)" by (metis prod_cases3)
  have e1: "e1 = None" using assms bound r1 failed
    by (auto simp: ReadPacketWithTimeout_def split: option.splits)
  then obtain consumed pktLen where v: "ReadVarInt b1 = Ok (consumed, pktLen)"
    using assms bound r1 by (auto simp: ReadPacketWithTimeout_def split: outcome.splits)
  let ?total = "consumed + nat (sint pktLen)"
  obtain e2 b2 c2 where r2: "read_until ?total b1 c1 = (e2, b2, c2)" by (metis prod_cases3)
  have "e2 = None \<and> raw = take ?total b2"
    using assms bound r1 r2 e1 v failed
    by (auto simp: ReadPacketWithTimeout_def Let_def split: option.splits outcome.splits if_splits)
  moreover have "1 \<le> consumed" using ReadVarInt_bounds [OF v] by simp
  ultimately show "raw \<noteq> []" using read_until_enough [of ?total b1 c1 b2 c2] r2 by auto
qed

lemma ReadPacket_shrinks:
  assumes "ReadPacketWithTimeout z client buf conn = (Packet p raw, buf', conn')"
  shows "length (buf' @ script_bytes conn') < length (buf @ script_bytes conn)"
  using ReadPacket_consumes [OF assms] by (metis length_append length_greater_0_conv less_add_same_cancel2)

section \<open>Delivery under any fragmentation\<close>

text \<open>\<open>delivers k conn\<close>: the next \<open>k\<close> bytes arrive in non-empty reads without an error.\<close>

fun delivers :: "nat \<Rightarrow> script \<Rightarrow> bool" where
  "delivers 0 conn = True"
| "delivers (Suc k) [] = False"
| "delivers (Suc k) ((bs, e) # conn) = (bs \<noteq> [] \<and> e = None \<and> delivers (Suc k - length bs) conn)"

lemma readMore_delivers:
  assumes "delivers (m - length buf) conn" and "length buf < m" and "m \<le> MaxBufferedBytes"
  shows "\<exists>buf' conn'. readMore buf conn = (None, buf', conn') \<and> delivers (m - length buf') conn'"
proof -
  from assms(2) obtain j where j: "m - length buf = Suc j" by (metis Suc_diff_Suc)
  with assms(1) obtain bs conn1 where c: "conn = (bs, None) # conn1" and bs: "bs \<noteq> []"
    and rest: "delivers (Suc j - length bs) conn1"
    by (cases "(Suc j, conn)" rule: delivers.cases) auto
  define readSize where
    "readSize = (if MaxBufferedBytes - length buf < BufSize then MaxBufferedBytes - length buf else BufSize)"
  have size: "0 < readSize" using assms by (simp add: readSize_def BufSize_def)
  show ?thesis
  proof (cases "length bs \<le> readSize")
    case True
    then have "readMore buf conn = (None, buf @ bs, conn1)"
      using assms(2,3) bs by (simp add: readMore_def Let_def readSize_def [symmetric] c)
    moreover have "m - length (buf @ bs) = Suc j - length bs" using j by simp
    ultimately show ?thesis using rest by simp
  next
    case False
    then have "readMore buf conn = (None, buf @ take readSize bs, (drop readSize bs, None) # conn1)"
      using assms(2,3) bs size by (simp add: readMore_def Let_def readSize_def [symmetric] c)
    moreover have "delivers (m - length (buf @ take readSize bs)) ((drop readSize bs, None) # conn1)"
    proof (cases "m - length (buf @ take readSize bs)")
      case (Suc l)
      then have "Suc l - length (drop readSize bs) = Suc j - length bs" using j False by simp
      with Suc rest False show ?thesis by simp
    qed simp
    ultimately show ?thesis by simp
  qed
qed

lemma read_until_delivers:
  assumes "delivers (m - length buf) conn" and "n \<le> m" and "m \<le> MaxBufferedBytes"
  shows "\<exists>buf' conn'. read_until n buf conn = (None, buf', conn') \<and> delivers (m - length buf') conn'"
  using assms
proof (induction n buf conn rule: read_until.induct)
  case (1 n buf conn)
  show ?case
  proof (cases "length buf < n")
    case False
    with "1.prems" show ?thesis by auto
  next
    case True
    with "1.prems" obtain b c where rm: "readMore buf conn = (None, b, c)"
      and d: "delivers (m - length b) c"
      using readMore_delivers [of m buf conn] by auto
    from "1.IH" [OF True rm [symmetric] refl refl d "1.prems"(2,3)] True rm show ?thesis
      by (simp add: read_until.simps [of n buf])
  qed
qed

lemma ReadVarInt_header:
  assumes "h = EncodeVarInt v" and "b @ extra = h @ tail" and "length h \<le> length b"
  shows "ReadVarInt b = Ok (length h, v)"
proof -
  from assms(2,3) have "b = h @ drop (length h) b"
    by (metis append_eq_append_conv_if append_take_drop_id)
  with assms(1) show ?thesis by (metis ReadVarInt_EncodeVarInt)
qed

text \<open>The uncompressed length that a frame announces is within the bound of the edge.\<close>

lemma compressed_header_small:
  assumes "EncodeWithoutLen z p client = Ok payload" and "IsCompressed client"
    and "length (rp_Data p) + 5 \<le> MaxPacketLength"
  shows "\<exists>n dataLen. ReadVarInt payload = Ok (n, dataLen) \<and> \<not> sint dataLen < 0 \<and>
    \<not> int MaxPacketLength < sint dataLen"
proof -
  let ?body = "EncodeVarInt (ucast (rp_ID p)) @ rp_Data p"
  have len: "length ?body \<le> MaxPacketLength"
    using assms(3) length_EncodeVarInt(2) [of "ucast (rp_ID p)"] by simp
  then have s: "sint (word_of_nat (length ?body) :: i32) = int (length ?body)"
    by (intro sint_of_length) (simp add: MaxPacketLength_def)
  from assms(1,2) obtain body' dataLen where "payload = EncodeVarInt dataLen @ body'"
    and d: "dataLen = 0 \<or> dataLen = word_of_nat (length ?body)"
    by (auto simp: EncodeWithoutLen_def Compressed_def IsCompressed_def encodeCompressed_def Let_def
        split: outcome.splits if_splits)
  then have "ReadVarInt payload = Ok (length (EncodeVarInt dataLen), dataLen)" by simp
  moreover from d have "sint dataLen = 0 \<or> sint dataLen = int (length ?body)"
    by (elim disjE) (simp, simp only: s simp_thms)
  ultimately show ?thesis using len by auto
qed

lemma payload_nonempty: "EncodeWithoutLen z p client = Ok payload \<Longrightarrow> payload \<noteq> []"
  by (auto simp: EncodeWithoutLen_def encodeUncompressed_def encodeCompressed_def Let_def
      split: if_splits outcome.splits)

lemma ReadPacket_delivers:
  assumes z: "IsCompressed client \<Longrightarrow> zlib_inverse z"
    and enc: "EncodeWithoutLen z p client = Ok payload"
    and frame: "frame = EncodeVarInt (word_of_nat (length payload)) @ payload"
    and small: "length payload < 2 ^ 14" and data: "length (rp_Data p) + 5 \<le> MaxPacketLength"
    and stream: "buf @ script_bytes conn = frame @ tail"
    and dlv: "delivers (length frame - length buf) conn" and bound: "length buf \<le> MaxBufferedBytes"
  shows "\<exists>buf' conn'. ReadPacketWithTimeout z client buf conn = (Packet p frame, buf', conn') \<and>
    buf' @ script_bytes conn' = tail"
proof -
  define h where "h = EncodeVarInt (word_of_nat (length payload))"
  have len: "sint (word_of_nat (length payload) :: i32) = int (length payload)"
    using small by (intro sint_of_length) simp
  have h2: "length h \<le> 2"
  proof -
    have "unat (word_of_nat (length payload) :: i32) < 2 ^ (7 * Suc 1)"
      using small by (simp add: unat_of_nat)
    then have "length h \<le> Suc 1" unfolding h_def by (simp only: length_EncodeVarInt_le)
    then show ?thesis by simp
  qed
  have fr: "frame = h @ payload" by (simp add: frame h_def)
  have total: "length h + length payload = length frame" by (simp add: fr)
  have fits: "length frame \<le> MaxBufferedBytes" "2 \<le> length frame"
  proof -
    have "1 \<le> length payload" using payload_nonempty [OF enc] by (cases payload) simp_all
    moreover have "1 \<le> length h" unfolding h_def by (rule length_EncodeVarInt(1))
    ultimately show "2 \<le> length frame" "length frame \<le> MaxBufferedBytes"
      using small h2 by (simp_all add: fr MaxBufferedBytes_def MaxPacketLength_def)
  qed
  obtain b1 c1 where r1: "read_until 2 buf conn = (None, b1, c1)" and d1: "delivers (length frame - length b1) c1"
    using read_until_delivers [OF dlv fits(2,1)] by blast
  have s1: "b1 @ script_bytes c1 = h @ payload @ tail"
    using read_until_conserves [OF r1] stream fr by simp
  have v: "ReadVarInt b1 = Ok (length h, word_of_nat (length payload))"
    by (rule ReadVarInt_header [OF h_def s1]) (use h2 read_until_enough [OF r1] in simp)
  obtain b2 c2 where r2: "read_until (length frame) b1 c1 = (None, b2, c2)"
    using read_until_delivers [OF d1 order_refl fits(1)] by blast
  have s2: "b2 @ script_bytes c2 = frame @ tail"
    using read_until_conserves [OF r2] s1 fr by simp
  then have b2: "take (length frame) b2 = frame" "drop (length frame) b2 @ script_bytes c2 = tail"
    using read_until_enough [OF r2]
    by (metis append_eq_append_conv_if, metis append_eq_append_conv_if append_eq_conv_conj drop_append
        diff_is_0_eq drop_0)
  have dec: "DecodeWithLen z client frame = Ok p"
    using DecodeWithLen_Encode [of client z p frame "[]"] z enc fits(1) data
    by (simp add: EncodeWithLen_def frame MaxBufferedBytes_def MaxPacketLength_def)
  have "take (length payload) (drop (length h) b2) = payload"
    using b2(1) by (metis append_eq_conv_conj fr length_append take_drop add.commute)
  then have chk: "\<not> (IsCompressed client \<and>
      (case ReadVarInt (take (length frame - length h) (drop (length h) b2)) of
         Ok (_, dataLen) \<Rightarrow> sint dataLen < 0 \<or> int MaxPacketLength < sint dataLen | _ \<Rightarrow> True))"
    using compressed_header_small [OF enc _ data] by (auto simp: fr)
  have "ReadPacketWithTimeout z client buf conn = (Packet p frame, drop (length frame) b2, c2)"
    using bound r1 v r2 chk dec b2(1) small fits(1)
    by (simp add: ReadPacketWithTimeout_def Let_def total len MaxPacketLength_def)
  with b2(2) show ?thesis by blast
qed

section \<open>Malformed input and long length headers\<close>

text \<open>
  A malformed packet is not taken off the buffer: the call that reports it leaves a state from which
  the next call reports it again, without reading anything.
\<close>

lemma varint_scan_append:
  "varint_scan i acc bs = Some r \<Longrightarrow> varint_scan i acc (bs @ rest) = Some r"
  by (induction i acc bs arbitrary: r rule: varint_scan.induct) (auto simp: Let_def split: if_splits)

lemma ReadVarInt_append: "ReadVarInt b = Ok r \<Longrightarrow> ReadVarInt (b @ rest) = Ok r"
  by (auto simp: ReadVarInt_scan varint_scan_append split: option.splits)

text \<open>\<open>exact_frame\<close>: the bytes are one frame, its length prefix and that many bytes, and carry the packet.\<close>

definition exact_frame :: "zlib \<Rightarrow> Client \<Rightarrow> bytes \<Rightarrow> RawPacket \<Rightarrow> bool" where
  "exact_frame z client raw p \<longleftrightarrow> DecodeWithLen z client raw = Ok p \<and>
     (\<exists>n len. ReadVarInt raw = Ok (n, len) \<and> 0 \<le> sint len \<and> length raw = n + nat (sint len))"

lemma ReadPacket_exact:
  assumes "ReadPacketWithTimeout z client buf conn = (Packet p raw, buf', conn')"
  shows "exact_frame z client raw p"
proof -
  have bound: "length buf \<le> MaxBufferedBytes"
    using assms by (auto simp: ReadPacketWithTimeout_def split: if_splits)
  have failed: "read_failed e \<noteq> Packet p raw" for e by (simp add: read_failed_def)
  obtain e1 b1 c1 where r1: "read_until 2 buf conn = (e1, b1, c1)" by (metis prod_cases3)
  have e1: "e1 = None" using assms bound r1 failed
    by (auto simp: ReadPacketWithTimeout_def split: option.splits)
  then obtain consumed pktLen where v: "ReadVarInt b1 = Ok (consumed, pktLen)"
    using assms bound r1 by (auto simp: ReadPacketWithTimeout_def split: outcome.splits)
  let ?total = "consumed + nat (sint pktLen)"
  obtain e2 b2 c2 where r2: "read_until ?total b1 c1 = (e2, b2, c2)" by (metis prod_cases3)
  have f: "e2 = None \<and> raw = take ?total b2 \<and> 0 \<le> sint pktLen \<and> DecodeWithLen z client raw = Ok p"
    using assms bound r1 r2 e1 v failed
    by (auto simp: ReadPacketWithTimeout_def Let_def split: option.splits outcome.splits if_splits)
  then obtain r where r: "ReadVarInt raw = Ok r" by (auto simp: DecodeWithLen_eq split: outcome.splits)
  obtain x where x: "b2 = b1 @ x" using read_until_conserves [OF r2] by blast
  have "ReadVarInt b2 = Ok r" using ReadVarInt_append [OF r, of "drop ?total b2"] f by simp
  then have "r = (consumed, pktLen)" using ReadVarInt_append [OF v, of x] x by simp
  moreover have "length raw = ?total" using f read_until_enough [of ?total b1 c1 b2 c2] r2 by simp
  ultimately show ?thesis using f r by (auto simp: exact_frame_def)
qed

lemma conn_Read_error:
  "conn_Read k conn = ((tmp, Some e), conn') \<Longrightarrow> e = EOF \<or> (\<exists>bs. (bs, Some e) \<in> set conn)"
  by (cases "(k, conn)" rule: conn_Read.cases) (auto split: if_splits)

lemma conn_Read_future:
  "conn_Read k conn = (r, conn') \<Longrightarrow> snd ` set conn' \<subseteq> snd ` set conn"
  by (cases "(k, conn)" rule: conn_Read.cases) (auto split: if_splits)

text \<open>The errors that come from the connection, as opposed to the verdicts of the reader itself.\<close>

definition net_errors_only :: "script \<Rightarrow> bool" where
  "net_errors_only conn = (Some ErrMalformedPacket \<notin> snd ` set conn)"

lemma readMore_net:
  assumes "readMore buf conn = (e, buf', conn')" and "net_errors_only conn"
  shows "e \<noteq> Some ErrMalformedPacket" "net_errors_only conn'"
proof -
  have err: "(bs, Some ErrMalformedPacket) \<notin> set conn" for bs
    using assms(2) unfolding net_errors_only_def by force
  show "e \<noteq> Some ErrMalformedPacket"
    using assms(1) err by (auto simp: readMore_def Let_def dest: conn_Read_error split: if_splits prod.splits)
  show "net_errors_only conn'"
    using assms by (auto simp: readMore_def Let_def net_errors_only_def
        dest!: conn_Read_future split: if_splits prod.splits)
qed

lemma read_until_net:
  "read_until n buf conn = (e, buf', conn') \<Longrightarrow> net_errors_only conn \<Longrightarrow>
   e \<noteq> Some ErrMalformedPacket \<and> net_errors_only conn'"
proof (induction n buf conn rule: read_until.induct)
  case (1 n buf conn)
  obtain e1 buf1 conn1 where r: "readMore buf conn = (e1, buf1, conn1)" by (metis prod_cases3)
  note facts = readMore_net [OF r "1.prems"(2)]
  show ?case
    using "1.prems" facts r "1.IH" [OF _ r [symmetric] _ refl]
    by (auto simp: read_until.simps [of n buf] split: if_splits option.splits)
qed

lemma malformed_state:
  assumes "ReadPacketWithTimeout z client buf conn = (ReadError ErrMalformedPacket, buf', conn')"
    and "length buf \<le> MaxBufferedBytes" and "net_errors_only conn"
  shows "length buf' \<le> MaxBufferedBytes" "2 \<le> length buf'"
    "ReadPacketWithTimeout z client buf' conn'' = (ReadError ErrMalformedPacket, buf', conn'')"
proof -
  have failed: "read_failed e \<noteq> ReadError ErrMalformedPacket" if "e \<noteq> ErrMalformedPacket" for e
    using that by (simp add: read_failed_def)
  obtain e1 b1 c1 where r1: "read_until 2 buf conn = (e1, b1, c1)" by (metis prod_cases3)
  have e1: "e1 = None"
    using assms(1,2) r1 read_until_net [OF r1 assms(3)] failed
    by (auto simp: ReadPacketWithTimeout_def split: option.splits)
  note b1 = read_until_bound [OF r1 assms(2)] read_until_enough [OF r1 [unfolded e1]]
  note n1 = read_until_net [OF r1 assms(3), THEN conjunct2]
  have "length buf' \<le> MaxBufferedBytes \<and> 2 \<le> length buf' \<and>
    ReadPacketWithTimeout z client buf' conn'' = (ReadError ErrMalformedPacket, buf', conn'')"
  proof (cases "ReadVarInt b1")
    case (Ok r)
    obtain consumed pktLen where r: "r = (consumed, pktLen)" by (cases r)
    let ?total = "consumed + nat (sint pktLen)"
    obtain e2 b2 c2 where r2: "read_until ?total b1 c1 = (e2, b2, c2)" by (metis prod_cases3)
    note net2 = read_until_net [OF r2 n1, THEN conjunct1]
    note b2 = read_until_bound [OF r2 b1(1)]
    obtain rest where ext: "b2 = b1 @ rest" using read_until_conserves [OF r2] by blast
    have v: "ReadVarInt b2 = Ok (consumed, pktLen)" using Ok r ext ReadVarInt_append by simp
    have neg: "buf' = b1 \<and> sint pktLen < 0 \<or>
        buf' = b2 \<and> e2 = None \<and> \<not> sint pktLen < 0"
      using assms(1,2) r1 r2 e1 Ok r net2 failed
      by (auto simp: ReadPacketWithTimeout_def Let_def split: option.splits outcome.splits if_splits)
    then show ?thesis
    proof (elim disjE conjE)
      assume "buf' = b1" "sint pktLen < 0"
      then show ?thesis using b1 Ok r by (simp add: ReadPacketWithTimeout_def)
    next
      assume *: "buf' = b2" "e2 = None" "\<not> sint pktLen < 0"
      have "2 \<le> length b2" "?total \<le> length b2"
        using b1 ext read_until_enough [OF r2 [unfolded *]] by simp_all
      then show ?thesis
        using * assms(1,2) b2 r1 r2 e1 Ok r v
        by (auto simp: ReadPacketWithTimeout_def Let_def split: option.splits outcome.splits if_splits)
    qed
  qed (use assms(1,2) r1 e1 b1 in \<open>auto simp: ReadPacketWithTimeout_def\<close>)
  then show "length buf' \<le> MaxBufferedBytes" "2 \<le> length buf'"
    "ReadPacketWithTimeout z client buf' conn'' = (ReadError ErrMalformedPacket, buf', conn'')" by blast+
qed

text \<open>
  A payload of \<open>2 ^ 14\<close> bytes or more has a length header of three bytes, but the reader looks at the
  header as soon as two bytes are there.
\<close>

lemma long_header_split:
  assumes "frame = EncodeVarInt (word_of_nat (length payload)) @ payload"
    and "2 ^ 14 \<le> length payload" and "length payload < 2 ^ 31"
  shows "ReadPacketWithTimeout z client [] ((take 2 frame, None) # (drop 2 frame, None) # conn) =
    (ReadError ErrMalformedPacket, take 2 frame, (drop 2 frame, None) # conn)"
proof -
  let ?v = "word_of_nat (length payload) :: i32"
  have big: "2 < length (EncodeVarInt ?v)"
  proof -
    have "\<not> unat ?v < 2 ^ (7 * Suc 1)" using assms(2,3) by (simp add: unat_of_nat)
    then have "\<not> length (EncodeVarInt ?v) \<le> Suc 1" by (simp only: length_EncodeVarInt_le not_False_eq_True)
    then show ?thesis by simp
  qed
  then have two: "take 2 frame = take 2 (EncodeVarInt ?v)" "length (take 2 frame) = 2"
    by (simp_all add: assms(1))
  have "ReadVarInt (take 2 frame) = Fail"
    using varint_scan_prefix [of 2 "?v" 0 0] big unfolding two(1) EncodeVarInt_def by (simp add: ReadVarInt_scan)
  moreover have "read_until 2 [] ((take 2 frame, None) # (drop 2 frame, None) # conn) =
    (None, take 2 frame, (drop 2 frame, None) # conn)"
    using two(2) by (subst read_until.simps)
      (auto simp: readMore_def MaxBufferedBytes_def MaxPacketLength_def BufSize_def Let_def)
  ultimately show ?thesis by (simp add: ReadPacketWithTimeout_def)
qed

section \<open>The packets of a connection\<close>

text \<open>
  \<open>packets_read z ps st st'\<close>: reading a connection, from the unread bytes and the stream \<open>st\<close>, gives exactly the packets
  \<open>ps\<close> one after the other and leaves \<open>st'\<close>; each packet comes with the client state it was read under.
\<close>

inductive packets_read :: "zlib \<Rightarrow> (Client \<times> RawPacket) list \<Rightarrow> bytes \<times> script \<Rightarrow> bytes \<times> script \<Rightarrow> bool" for z where
  none: "packets_read z [] st st"
| more: "ReadPacket z client buf conn = (Packet packet raw, st) \<Longrightarrow> packets_read z ps st st' \<Longrightarrow>
    packets_read z ((client, packet) # ps) (buf, conn) st'"

inductive_cases packets_read_ConsE: "packets_read z (cp # ps) st st'"

lemma packets_read_append:
  "packets_read z ps st st1 \<Longrightarrow> packets_read z qs st1 st2 \<Longrightarrow> packets_read z (ps @ qs) st st2"
  by (induction rule: packets_read.induct) (auto intro: packets_read.more)

lemma packets_read_snoc:
  "packets_read z ps st (buf, conn) \<Longrightarrow> ReadPacket z client buf conn = (Packet packet raw, st') \<Longrightarrow>
   packets_read z (ps @ [(client, packet)]) st st'"
  by (rule packets_read_append) (auto intro: packets_read.intros)

text \<open>They are the frames the stream consists of, from its first byte on.\<close>

lemma packets_read_frames:
  "packets_read z ps st st' \<Longrightarrow>
   \<exists>raws. fst st @ script_bytes (snd st) = concat raws @ fst st' @ script_bytes (snd st') \<and>
     list_all2 (\<lambda>(client, p) raw. exact_frame z client raw p) ps raws"
proof (induction rule: packets_read.induct)
  case (more client buf conn packet raw st ps st')
  obtain b c where st: "st = (b, c)" by fastforce
  then have r: "ReadPacketWithTimeout z client buf conn = (Packet packet raw, b, c)"
    using more.hyps(1) by (simp add: ReadPacket_def)
  from more.IH obtain raws where "b @ script_bytes c = concat raws @ fst st' @ script_bytes (snd st')"
      "list_all2 (\<lambda>(client, p) raw. exact_frame z client raw p) ps raws" using st by auto
  then show ?case
    using ReadPacket_consumes(1) [OF r] ReadPacket_exact [OF r] by (intro exI [of _ "raw # raws"]) simp
qed (rule exI [of _ "[]"], simp)

end
