(* ===== verification/Proxy_Stream.thy ===== *)
theory Proxy_Stream
  imports Config Conn_Write Stream_Read
begin

text \<open>
  \<^verbatim>\<open>proxy.go\<close> and \<^verbatim>\<open>proxyv2/proxyv2.go\<close>: the PROXY protocol header and the copying of bytes between a
  client and a server. A connection has a reading side, the \<open>script\<close> of its future reads, and a writing
  side, a \<open>sink\<close>. The two copying goroutines work on different sides of the two connections, so one runs
  after the other here.

  Shown here: the header says who connected, in a form the protocol's receiver can parse, and the server
  receives the header, the queue and then every byte of the client, unchanged and in order.
\<close>

section \<open>The PROXY protocol header\<close>

datatype net_addr = TCPAddr bytes int | OtherAddr

definition signature :: bytes where
  "signature = [0x0D, 0x0A, 0x0D, 0x0A, 0x00, 0x0D, 0x0A, 0x51, 0x55, 0x49, 0x54, 0x0A]"

definition LocalHeader :: "bytes outcome" where
  "LocalHeader = Ok (signature @ [0x20, 0x01, 0x00, 0x00])"

text \<open>Appending a nil slice appends nothing.\<close>

definition slice_of :: "bytes option \<Rightarrow> bytes" where
  "slice_of ip = (case ip of Some b \<Rightarrow> b | None \<Rightarrow> [])"

definition StreamHeader :: "net_addr \<Rightarrow> net_addr \<Rightarrow> bytes outcome" where
  "StreamHeader peer local =
     (case (peer, local) of
        (TCPAddr src srcPort, TCPAddr dst dstPort) \<Rightarrow>
          if IP_To4 src \<noteq> None \<and> IP_To4 dst \<noteq> None
          then Ok (signature @ [0x21, 0x11, 0x00, 0x0C] @ slice_of (IP_To4 src) @ slice_of (IP_To4 dst) @
                 be16 (word_of_int srcPort) @ be16 (word_of_int dstPort))
          else Ok (signature @ [0x21, 0x21, 0x00, 0x24] @ slice_of (IP_To16 src) @ slice_of (IP_To16 dst) @
                 be16 (word_of_int srcPort) @ be16 (word_of_int dstPort))
      | _ \<Rightarrow> Fail)"

datatype ProxyHeader = ProxyHeaderNone | ProxyHeaderLocal | ProxyHeaderProxy

definition NotNone :: "ProxyHeader \<Rightarrow> bool \<Rightarrow> ProxyHeader" where
  "NotNone h notNone = (if notNone then h else ProxyHeaderNone)"

section \<open>Copying\<close>

record duplex =
  dx_in :: script
  dx_out :: sink
  dx_remote :: net_addr
  dx_local :: net_addr

definition script_size :: "script \<Rightarrow> nat" where
  "script_size conn = length conn + length (script_bytes conn)"

lemma conn_Read_smaller: "conn_Read k conn = ((tmp, None), conn') \<Longrightarrow> 0 < k \<Longrightarrow> script_size conn' < script_size conn"
  by (cases "(k, conn)" rule: conn_Read.cases) (auto simp: script_size_def split: if_splits)

text \<open>\<^verbatim>\<open>io.Copy\<close>: the result says whether it ended without an error.\<close>

function io_Copy :: "script \<Rightarrow> sink \<Rightarrow> bool \<times> sink" where
  "io_Copy conn k =
     (case conn_Read 32768 conn of
        ((tmp, err), conn') \<Rightarrow>
          (case (if tmp \<noteq> [] then conn_Write tmp k else (True, k)) of
             (False, k') \<Rightarrow> (False, k')
           | (True, k') \<Rightarrow>
               (case err of
                  Some e \<Rightarrow> (e = EOF, k')
                | None \<Rightarrow> io_Copy conn' k')))"
  by pat_completeness auto
termination
  by (relation "measure (\<lambda>(conn, k). script_size conn)") (auto dest!: conn_Read_smaller [OF sym])

declare io_Copy.simps [simp del]

definition write_queue :: "bytes \<Rightarrow> sink \<Rightarrow> bool \<times> sink" where
  "write_queue queue k = (if 0 < length queue then conn_Write queue k else (True, k))"

definition ProxyInboundOutboundWithQueue ::
  "duplex \<Rightarrow> duplex \<Rightarrow> bytes \<Rightarrow> bytes \<Rightarrow> bool \<times> sink \<times> sink" where
  "ProxyInboundOutboundWithQueue inbound outbound inboundQueue outboundQueue =
     (case write_queue inboundQueue (dx_out inbound) of
        (False, ik) \<Rightarrow> (False, ik, dx_out outbound)
      | (True, ik) \<Rightarrow>
          (case write_queue outboundQueue (dx_out outbound) of
             (False, ok) \<Rightarrow> (False, ik, ok)
           | (True, ok) \<Rightarrow>
               (case io_Copy (dx_in inbound) ok of (copied, ok') \<Rightarrow>
                case io_Copy (dx_in outbound) ik of (copied', ik') \<Rightarrow> (copied \<and> copied', ik', ok'))))"

text \<open>\<open>dial\<close> is the connection \<^verbatim>\<open>net.Dial\<close> opens, \<open>None\<close> when it fails.\<close>

definition proxy_header_bytes :: "ProxyHeader \<Rightarrow> duplex \<Rightarrow> bytes outcome" where
  "proxy_header_bytes proxyHeader inbound =
     (case proxyHeader of
        ProxyHeaderNone \<Rightarrow> Ok []
      | ProxyHeaderLocal \<Rightarrow> LocalHeader
      | ProxyHeaderProxy \<Rightarrow> StreamHeader (dx_remote inbound) (dx_local inbound))"

definition ProxyWithQueue ::
  "duplex option \<Rightarrow> duplex \<Rightarrow> ProxyHeader \<Rightarrow> bytes \<Rightarrow> (bool \<times> sink \<times> sink) option" where
  "ProxyWithQueue dial inbound proxyHeader queue =
     (case dial of
        None \<Rightarrow> None
      | Some outbound \<Rightarrow>
          (case proxy_header_bytes proxyHeader inbound of
             Ok header \<Rightarrow>
               (case (if proxyHeader = ProxyHeaderNone then (True, dx_out outbound)
                      else conn_Write header (dx_out outbound)) of
                  (True, ok) \<Rightarrow>
                    Some (ProxyInboundOutboundWithQueue inbound (outbound\<lparr>dx_out := ok\<rparr>) [] queue)
                | (False, ok) \<Rightarrow> Some (False, dx_out inbound, ok))
           | _ \<Rightarrow> Some (False, dx_out inbound, dx_out outbound)))"

definition Proxy :: "duplex option \<Rightarrow> duplex \<Rightarrow> ProxyHeader \<Rightarrow> (bool \<times> sink \<times> sink) option" where
  "Proxy dial inbound proxyHeader = ProxyWithQueue dial inbound proxyHeader []"

section \<open>What the server receives\<close>

definition sent_bytes :: "sink \<Rightarrow> bytes" where
  "sent_bytes k = concat (sk_written k)"

text \<open>A stream that ends without an error, and a peer that takes as many writes as it can need.\<close>

definition clean_stream :: "script \<Rightarrow> bool" where
  "clean_stream conn = list_all (\<lambda>(bs, e). e = None) conn"

definition takes :: "nat \<Rightarrow> sink \<Rightarrow> bool" where
  "takes n k \<longleftrightarrow> n \<le> sk_budget k"

lemma conn_Write_sent:
  "takes (Suc n) k \<Longrightarrow> \<exists>k'. conn_Write b k = (True, k') \<and> sent_bytes k' = sent_bytes k @ b \<and> takes n k'"
  by (auto simp: conn_Write_def takes_def sent_bytes_def)

lemma write_queue_sent:
  "takes (Suc n) k \<Longrightarrow> \<exists>k'. write_queue b k = (True, k') \<and> sent_bytes k' = sent_bytes k @ b \<and> takes n k'"
  using conn_Write_sent [of n k b] by (auto simp: write_queue_def takes_def)

lemma io_Copy_sent:
  assumes "clean_stream conn" and "takes (length conn + length (script_bytes conn)) k"
  shows "\<exists>k'. io_Copy conn k = (True, k') \<and> sent_bytes k' = sent_bytes k @ script_bytes conn"
  using assms
proof (induction conn k rule: io_Copy.induct)
  case (1 conn k)
  show ?case
  proof (cases conn)
    case Nil
    then show ?thesis by (simp add: io_Copy.simps [of "[]"])
  next
    case (Cons e rest)
    obtain bs where e: "e = (bs, None)" using "1.prems"(1) Cons by (cases e) (auto simp: clean_stream_def)
    define tmp where "tmp = take 32768 bs"
    define conn' where "conn' = (if length bs \<le> 32768 then rest else (drop 32768 bs, None) # rest)"
    have rd: "conn_Read 32768 conn = ((tmp, None), conn')" by (simp add: Cons e tmp_def conn'_def)
    have bytes: "tmp @ script_bytes conn' = script_bytes conn"
      by (simp add: Cons e tmp_def conn'_def)
    have smaller: "Suc (length conn' + length (script_bytes conn')) \<le> length conn + length (script_bytes conn)"
      by (auto simp: Cons e conn'_def)
    have clean: "clean_stream conn'" using "1.prems"(1) by (auto simp: Cons e conn'_def clean_stream_def)
    let ?m = "length conn' + length (script_bytes conn')"
    have "takes (Suc ?m) k" using "1.prems"(2) smaller by (simp add: takes_def)
    then obtain k1 where k1: "(if tmp \<noteq> [] then conn_Write tmp k else (True, k)) = (True, k1)"
      "sent_bytes k1 = sent_bytes k @ tmp" "takes ?m k1"
      using conn_Write_sent [of ?m k tmp] by (cases "tmp = []") (auto simp: takes_def)
    from "1.IH" [OF rd [symmetric] refl k1(1) [symmetric] refl refl clean k1(3)]
    obtain k' where "io_Copy conn' k1 = (True, k')" "sent_bytes k' = sent_bytes k1 @ script_bytes conn'" by blast
    then show ?thesis using k1 rd bytes by (subst io_Copy.simps) auto
  qed
qed

lemma ProxyWithQueue_sent:
  assumes "clean_stream (dx_in inbound)" and "clean_stream (dx_in outbound)"
    and "takes (length (dx_in inbound) + length (script_bytes (dx_in inbound)) + 2) (dx_out outbound)"
    and "takes (length (dx_in outbound) + length (script_bytes (dx_in outbound)) + 1) (dx_out inbound)"
    and "proxy_header_bytes proxyHeader inbound = Ok header"
  shows "\<exists>ik ok. ProxyWithQueue (Some outbound) inbound proxyHeader queue = Some (True, ik, ok) \<and>
    sent_bytes ok = sent_bytes (dx_out outbound) @ header @ queue @ script_bytes (dx_in inbound) \<and>
    sent_bytes ik = sent_bytes (dx_out inbound) @ script_bytes (dx_in outbound)"
proof -
  let ?n = "length (dx_in inbound) + length (script_bytes (dx_in inbound))"
  let ?m = "length (dx_in outbound) + length (script_bytes (dx_in outbound))"
  have "takes (Suc (Suc ?n)) (dx_out outbound)" using assms(3) by (simp add: takes_def)
  then obtain k1 where k1: "(if proxyHeader = ProxyHeaderNone then (True, dx_out outbound)
      else conn_Write header (dx_out outbound)) = (True, k1)"
    "sent_bytes k1 = sent_bytes (dx_out outbound) @ header" "takes (Suc ?n) k1"
    using assms(5) conn_Write_sent [of "Suc ?n" "dx_out outbound" header]
    by (cases "proxyHeader = ProxyHeaderNone") (auto simp: proxy_header_bytes_def takes_def)
  obtain k2 where k2: "write_queue queue k1 = (True, k2)" "sent_bytes k2 = sent_bytes k1 @ queue" "takes ?n k2"
    using write_queue_sent [OF k1(3)] by blast
  obtain k3 where k3: "io_Copy (dx_in inbound) k2 = (True, k3)" "sent_bytes k3 = sent_bytes k2 @ script_bytes (dx_in inbound)"
    using io_Copy_sent [OF assms(1) k2(3)] by blast
  have "takes ?m (dx_out inbound)" using assms(4) by (simp add: takes_def)
  from io_Copy_sent [OF assms(2) this] obtain k4 where k4: "io_Copy (dx_in outbound) (dx_out inbound) = (True, k4)"
    "sent_bytes k4 = sent_bytes (dx_out inbound) @ script_bytes (dx_in outbound)" by blast
  show ?thesis using assms(5) k1 k2 k3 k4
    by (simp add: ProxyWithQueue_def ProxyInboundOutboundWithQueue_def write_queue_def [of "[]"])
qed

section \<open>Reading the header\<close>

text \<open>
  The receiver's side of the PROXY protocol, version 2: the signature, version and command, the family, the
  length of the rest, and the addresses; the result is what follows the header.
\<close>

definition parse_proxy_v2 :: "bytes \<Rightarrow> ((bytes \<times> bytes \<times> u16 \<times> u16) \<times> bytes) option" where
  "parse_proxy_v2 b =
     (if take 12 b \<noteq> signature \<or> length b < 16 \<or> b ! 12 \<noteq> 0x21 then None
      else
        let len = unat (be_word (take 2 (drop 14 b)) :: u16); body = take len (drop 16 b);
            alen = (if b ! 13 = 0x11 then 4 else 16)
        in if length body < len \<or> len \<noteq> 2 * alen + 4 then None
           else Some ((take alen body, take alen (drop alen body),
                       be_word (take 2 (drop (2 * alen) body)), be_word (take 2 (drop (2 * alen + 2) body))),
                      drop (16 + len) b))"

lemma IP_To4_length: "IP_To4 ip = Some b \<Longrightarrow> length b = 4"
  by (auto simp: IP_To4_def split: if_splits)

lemma IP_To16_length: "IP_To16 ip = Some b \<Longrightarrow> length b = 16"
  by (auto simp: IP_To16_def split: if_splits)

lemma parse_proxy_v2_fields:
  assumes "length a = alen" and "length b = alen"
    and "alen = (if fam = 0x11 then 4 else 16)" and "unat (be_word [0, len] :: u16) = 2 * alen + 4"
  shows "parse_proxy_v2 (signature @ [0x21, fam, 0x00, len] @ a @ b @ be16 p @ be16 q @ rest) =
    Some ((a, b, p, q), rest)"
proof -
  define body where "body = a @ b @ be16 p @ be16 q"
  define x where "x = signature @ [0x21, fam, 0x00, len] @ body @ rest"
  have sig: "length signature = 12" by (simp add: signature_def)
  have parts: "take 12 x = signature" "\<not> length x < 16" "x ! 12 = 0x21" "x ! 13 = fam" "take 2 (drop 14 x) = [0, len]"
    "drop 16 x = body @ rest"
    using sig by (simp_all add: x_def nth_append)
  have blen: "length body = 2 * alen + 4" using assms(1,2) by (simp add: body_def)
  have tail: "drop (16 + (2 * alen + 4)) x = rest"
    using parts(6) blen by (metis add.commute append_eq_conv_conj drop_drop)
  have fields: "take alen body = a" "take alen (drop alen body) = b" "take 2 (drop (2 * alen) body) = be16 p"
    "take 2 (drop (2 * alen + 2) body) = be16 q"
    using assms(1,2) by (simp_all add: body_def mult_2)
  have "parse_proxy_v2 x = Some ((a, b, p, q), rest)"
    unfolding parse_proxy_v2_def Let_def parts(1,3-6) assms(3) [symmetric] assms(4) tail
    using parts(2) blen fields by (simp only: append_eq_conv_conj take_append) simp
  then show ?thesis by (simp add: x_def body_def)
qed

lemma parse_StreamHeader:
  assumes "StreamHeader (TCPAddr src sp) (TCPAddr dst dp) = Ok header"
    and "length src \<in> {4, 16}" and "length dst \<in> {4, 16}"
  shows "parse_proxy_v2 (header @ rest) =
    Some (if IP_To4 src \<noteq> None \<and> IP_To4 dst \<noteq> None
      then (slice_of (IP_To4 src), slice_of (IP_To4 dst), word_of_int sp, word_of_int dp)
      else (slice_of (IP_To16 src), slice_of (IP_To16 dst), word_of_int sp, word_of_int dp), rest)"
proof (cases "IP_To4 src \<noteq> None \<and> IP_To4 dst \<noteq> None")
  case True
  then obtain a b where ab: "IP_To4 src = Some a" "IP_To4 dst = Some b" by auto
  then have "header = signature @ [0x21, 0x11, 0x00, 0x0C] @ a @ b @ be16 (word_of_int sp) @ be16 (word_of_int dp)"
    using assms(1) by (simp add: StreamHeader_def slice_of_def)
  moreover have "unat (be_word [0, 0x0C] :: u16) = 2 * 4 + 4" by code_simp
  ultimately show ?thesis
    using ab IP_To4_length [OF ab(1)] IP_To4_length [OF ab(2)]
      parse_proxy_v2_fields [where a = a and b = b and alen = 4 and fam = "0x11" and len = "0x0C" and
        p = "word_of_int sp" and q = "word_of_int dp" and rest = rest]
    by (simp add: slice_of_def)
next
  case False
  obtain a b where ab: "IP_To16 src = Some a" "IP_To16 dst = Some b"
    using assms(2,3) by (auto simp: IP_To16_def)
  then have "header = signature @ [0x21, 0x21, 0x00, 0x24] @ a @ b @ be16 (word_of_int sp) @ be16 (word_of_int dp)"
    using assms(1) False by (auto simp: StreamHeader_def slice_of_def)
  moreover have "unat (be_word [0, 0x24] :: u16) = 2 * 16 + 4" by code_simp
  ultimately show ?thesis
    using ab False IP_To16_length [OF ab(1)] IP_To16_length [OF ab(2)]
      parse_proxy_v2_fields [where a = a and b = b and alen = 16 and fam = "0x21" and len = "0x24" and
        p = "word_of_int sp" and q = "word_of_int dp" and rest = rest]
    by (auto simp: slice_of_def)
qed

end
