(* ===== verification/Packet_Flow.thy ===== *)
theory Packet_Flow
  imports Proxy_Stream
begin

text \<open>
  Conversations: what one side wrote, the other side reads. A connection \<open>flows\<close> when every delivery brings
  bytes and no error, in whatever pieces; the packets written to a sink are then read one by one from a
  flowing connection with those bytes. The frames are those whose length prefix takes at most two bytes
  (longer ones can be refused, as \<open>Stream_Read\<close> shows).
\<close>

definition flows :: "script \<Rightarrow> bool" where
  "flows conn \<longleftrightarrow> list_all (\<lambda>(bs, e). bs \<noteq> [] \<and> e = None) conn"

lemma flows_simps [simp]: "flows []" "flows ((bs, e) # conn) \<longleftrightarrow> bs \<noteq> [] \<and> e = None \<and> flows conn"
  by (simp_all add: flows_def)

lemma flows_delivers: "flows conn \<Longrightarrow> k \<le> length (script_bytes conn) \<Longrightarrow> delivers k conn"
  by (induction k conn rule: delivers.induct) auto

lemma conn_Read_flows: "0 < k \<Longrightarrow> flows conn \<Longrightarrow> conn_Read k conn = (r, conn') \<Longrightarrow> flows conn'"
  by (cases "(k, conn)" rule: conn_Read.cases) (auto split: if_splits)

lemma readMore_flows: "flows conn \<Longrightarrow> readMore buf conn = (e, buf', conn') \<Longrightarrow> flows conn'"
  by (auto simp: readMore_def BufSize_def Let_def split: if_splits prod.splits elim!: conn_Read_flows [rotated])

lemma read_until_flows: "flows conn \<Longrightarrow> read_until n buf conn = (e, buf', conn') \<Longrightarrow> flows conn'"
proof (induction n buf conn rule: read_until.induct)
  case (1 n buf conn)
  obtain e1 buf1 conn1 where r: "readMore buf conn = (e1, buf1, conn1)" by (metis prod_cases3)
  show ?case
    using "1.prems" r "1.IH" [OF _ r [symmetric] _ refl] readMore_flows [OF "1.prems"(1) r]
    by (auto simp: read_until.simps [of n buf] split: if_splits option.splits)
qed

lemma ReadPacket_flows:
  assumes "flows conn" and "ReadPacketWithTimeout z client buf conn = (r, buf', conn')"
  shows "flows conn'"
proof -
  obtain e1 b1 c1 where r1: "read_until 2 buf conn = (e1, b1, c1)" by (metis prod_cases3)
  have f1: "flows c1" using read_until_flows [OF assms(1) r1] .
  have "flows c2" if "read_until n b1 c1 = (e2, b2, c2)" for n e2 b2 c2 using read_until_flows [OF f1 that] .
  then show ?thesis using assms r1 f1
    by (auto simp: ReadPacketWithTimeout_def Let_def split: if_splits option.splits outcome.splits prod.splits)
qed

text \<open>A packet and the frame that carries it.\<close>

definition carries :: "zlib \<Rightarrow> Client \<Rightarrow> RawPacket \<Rightarrow> bytes \<Rightarrow> bool" where
  "carries z client p frame \<longleftrightarrow>
     EncodeWithLen z p client = Ok frame \<and> length frame < 2 ^ 14 \<and> length (rp_Data p) + 5 \<le> MaxPacketLength \<and>
     (IsCompressed client \<longrightarrow> zlib_inverse z)"

definition framed :: "zlib \<Rightarrow> Client \<Rightarrow> RawPacket \<Rightarrow> bytes" where
  "framed z client p = (case EncodeWithLen z p client of Ok frame \<Rightarrow> frame | _ \<Rightarrow> [])"

lemma carries_framed: "carries z client p frame \<Longrightarrow> frame = framed z client p"
  by (simp add: carries_def framed_def)

lemma ReadPacket_flow:
  assumes "carries z client p frame" and "flows conn" and "buf @ script_bytes conn = frame @ tail"
    and "length buf \<le> MaxBufferedBytes"
  shows "\<exists>buf' conn'. ReadPacket z client buf conn = (Packet p frame, buf', conn') \<and>
    buf' @ script_bytes conn' = tail \<and> flows conn' \<and> length buf' \<le> MaxBufferedBytes"
proof -
  obtain payload where p: "EncodeWithoutLen z p client = Ok payload" "frame = EncodeVarInt (word_of_nat (length payload)) @ payload"
    using assms(1) by (auto simp: carries_def EncodeWithLen_def split: outcome.splits)
  have "length payload < 2 ^ 14" using assms(1) p(2) by (auto simp: carries_def)
  moreover have "delivers (length frame - length buf) conn"
    using arg_cong [OF assms(3), of length] by (intro flows_delivers assms(2)) simp
  ultimately obtain buf' conn' where r: "ReadPacketWithTimeout z client buf conn = (Packet p frame, buf', conn')"
      "buf' @ script_bytes conn' = tail"
    using ReadPacket_delivers [OF _ p _ _ assms(3) _ assms(4)] assms(1) by (auto simp: carries_def)
  moreover have "flows conn'" using ReadPacket_flows [OF assms(2) r(1)] .
  moreover have "length buf' \<le> MaxBufferedBytes"
    using ReadPacketWithTimeout_outcome [OF assms(4), of conn z client] r(1) by (simp add: read_outcome_def)
  ultimately show ?thesis by (auto simp: ReadPacket_def)
qed

text \<open>A stream that has been read to its end.\<close>

lemma ReadPacket_end:
  assumes "buf @ script_bytes conn = []" and "flows conn"
  shows "ReadPacket z client buf conn = (CleanEOF, [], [])"
proof -
  have "buf = []" "conn = []" using assms by (cases conn, auto)+
  then show ?thesis
    by (simp add: ReadPacket_def ReadPacketWithTimeout_def read_until.simps readMore_def read_failed_def
        MaxBufferedBytes_def MaxPacketLength_def BufSize_def)
qed

text \<open>Writing packets to a peer that takes them.\<close>

lemma writePacket_carries:
  assumes "carries z client p frame" and "takes (Suc n) k"
  shows "\<exists>k'. writePacket z client p k = (True, k') \<and> sent_bytes k' = sent_bytes k @ frame \<and> takes n k'"
  using assms conn_Write_sent [OF assms(2), of frame] by (simp add: writePacket_def carries_def)

section \<open>Frames of short packets\<close>

text \<open>The frame depends on the client only through its threshold.\<close>

lemma EncodeWithLen_cong: "Compressed c = Compressed c' \<Longrightarrow> EncodeWithLen z p c = EncodeWithLen z p c'"
  by (simp add: EncodeWithLen_def EncodeWithoutLen_def)

lemma carries_cong: "Compressed c = Compressed c' \<Longrightarrow> carries z c p f = carries z c' p f"
  using EncodeWithLen_cong [of c c' z p] by (simp add: carries_def IsCompressed_def Compressed_def)

lemma new_client [simp]:
  "Compressed (SetState c s) = Compressed c" "Compressed (NewClient peer) = Compressed DummyClient"
  "cl_state (NewClient peer) = ClientStateHandshake" "cl_state (SetState c s) = s" "SetState (SetState c s) s' = SetState c s'"
  by (simp_all add: Compressed_def SetState_def NewClient_def DummyClient_def)

text \<open>An uncompressed frame: short packets have one.\<close>

lemma plain_framed:
  assumes "length (rp_Data p) < 2 ^ 14 - 8"
  shows "carries z DummyClient p (framed z DummyClient p)"
proof -
  have "length (EncodeVarInt v) \<le> 5" for v by (rule length_EncodeVarInt(2))
  note l = this [of "ucast (rp_ID p)"]
  have id_small: "length (EncodeVarInt (ucast (rp_ID p) :: i32)) \<le> 2"
  proof -
    have "unat (ucast (rp_ID p) :: i32) < 2 ^ (7 * Suc 1)"
      using le_less_trans [OF take_bit_nat_less_eq_self [of 32 "unat (rp_ID p)"] unsigned_less [of "rp_ID p", where ?'a = nat]]
      by (simp add: unsigned_ucast_eq)
    then show ?thesis using length_EncodeVarInt_le [of "ucast (rp_ID p)" 1] by simp
  qed
  let ?payload = "EncodeVarInt (ucast (rp_ID p)) @ rp_Data p"
  have enc: "EncodeWithLen z p DummyClient = Ok (EncodeVarInt (word_of_nat (length ?payload)) @ ?payload)"
    by (simp add: EncodeWithLen_def EncodeWithoutLen_def Compressed_def DummyClient_def NewClient_def encodeUncompressed_def)
  have "length (EncodeVarInt (word_of_nat (length ?payload))) \<le> 5" by (rule length_EncodeVarInt(2))
  then have "length (framed z DummyClient p) < 2 ^ 14" using enc assms id_small by (simp add: framed_def)
  then show ?thesis
    using enc assms by (simp add: carries_def framed_def IsCompressed_def DummyClient_def NewClient_def MaxPacketLength_def)
qed

end
