(* ===== verification/Go_Net.thy ===== *)
theory Go_Net
  imports Go_Strings Config
begin

text \<open>
  Addresses as text: what the program uses of Go's \<^verbatim>\<open>net\<close> package (\<^verbatim>\<open>IP.String\<close>, \<^verbatim>\<open>JoinHostPort\<close>,
  \<^verbatim>\<open>SplitHostPort\<close>) and the addresses of \<^verbatim>\<open>config.go\<close>. \<^verbatim>\<open>net.ParseIP\<close> and \<^verbatim>\<open>net.LookupIP\<close> are arguments.

  Shown here: the text of an address is resolved to the same address, and holds no character that could
  break a line of \<^verbatim>\<open>server.properties\<close>.
\<close>

section \<open>Text of an IP address\<close>

fun words16 :: "bytes \<Rightarrow> nat list" where
  "words16 (a # b # bs) = (unat a * 256 + unat b) # words16 bs"
| "words16 _ = []"

text \<open>The first of the longest runs of at least two zero groups: where it starts and its length.\<close>

definition zero_run :: "nat list \<Rightarrow> nat \<Rightarrow> nat" where
  "zero_run ws i = length (takeWhile (\<lambda>w. w = 0) (drop i ws))"

definition longest_zeros :: "nat list \<Rightarrow> nat \<times> nat" where
  "longest_zeros ws =
     foldl (\<lambda>(start, len) i. if 2 \<le> zero_run ws i \<and> len < zero_run ws i then (i, zero_run ws i) else (start, len))
       (0, 0) [0..<length ws]"

definition ipv6_text :: "bytes \<Rightarrow> string" where
  "ipv6_text ip =
     (let ws = words16 ip
      in case longest_zeros ws of (start, len) \<Rightarrow>
           if len = 0 then join_with '':'' (map hex_nat ws)
           else join_with '':'' (map hex_nat (take start ws)) @ ''::'' @
             join_with '':'' (map hex_nat (drop (start + len) ws)))"

definition hex_bytes :: "bytes \<Rightarrow> string" where
  "hex_bytes ip = concat (map (\<lambda>b. [hexDigits ! (unat b div 16), hexDigits ! (unat b mod 16)]) ip)"

definition IP_String :: "bytes \<Rightarrow> string" where
  "IP_String ip =
     (if length ip = 0 then ''<nil>''
      else if length ip \<noteq> 4 \<and> length ip \<noteq> 16 then ''?'' @ hex_bytes ip
      else case IP_To4 ip of
        Some p4 \<Rightarrow> join_with ''.'' (map (\<lambda>b. dec_nat (unat b)) p4)
      | None \<Rightarrow> ipv6_text ip)"

section \<open>Host and port\<close>

definition last_index :: "char \<Rightarrow> string \<Rightarrow> nat option" where
  "last_index c s = map_option (\<lambda>i. length s - 1 - i) (index_of c (rev s))"

definition JoinHostPort :: "string \<Rightarrow> string \<Rightarrow> string" where
  "JoinHostPort host port =
     (if CHR '':'' \<in> set host then ''['' @ host @ '']:'' @ port else host @ '':'' @ port)"

definition SplitHostPort :: "string \<Rightarrow> (string \<times> string) outcome" where
  "SplitHostPort hostport =
     (case last_index (CHR '':'') hostport of
        None \<Rightarrow> Fail
      | Some i \<Rightarrow>
          (let checked = (\<lambda>host j k.
                 if CHR ''['' \<in> set (drop j hostport) \<or> CHR '']'' \<in> set (drop k hostport) then Fail
                 else Ok (host, drop (i + 1) hostport))
           in if hd hostport = CHR ''['' then
                (case index_of (CHR '']'') hostport of
                   None \<Rightarrow> Fail
                 | Some end_ \<Rightarrow>
                     if end_ + 1 \<noteq> i then Fail
                     else checked (take (end_ - 1) (drop 1 hostport)) 1 (end_ + 1))
              else if CHR '':'' \<in> set (take i hostport) then Fail
              else checked (take i hostport) 0 0))"

definition SocketAddr_String :: "SocketAddr \<Rightarrow> string" where
  "SocketAddr_String s = JoinHostPort (IP_String (sa_IP s)) (dec_int (sa_Port s))"

text \<open>\<open>parse_ip\<close> is \<^verbatim>\<open>net.ParseIP\<close>, \<open>lookup_ip\<close> the addresses \<^verbatim>\<open>net.LookupIP\<close> finds (\<open>None\<close> for an error).\<close>

definition resolveSocketAddr ::
  "(string \<Rightarrow> bytes option) \<Rightarrow> (string \<Rightarrow> bytes list option) \<Rightarrow> string \<Rightarrow> SocketAddr outcome" where
  "resolveSocketAddr parse_ip lookup_ip addr =
     (case SplitHostPort addr of
        Ok (host, portStr) \<Rightarrow>
          (case ParseInt 64 portStr of
             (port, False) \<Rightarrow> Fail
           | (port, True) \<Rightarrow>
               (case parse_ip host of
                  Some ip \<Rightarrow> Ok \<lparr>sa_IP = ip, sa_Port = port\<rparr>
                | None \<Rightarrow>
                    (case lookup_ip host of
                       Some (ip # ips) \<Rightarrow> Ok \<lparr>sa_IP = ip, sa_Port = port\<rparr>
                     | _ \<Rightarrow> Fail)))
      | Fail \<Rightarrow> Fail | Panic \<Rightarrow> Panic)"

section \<open>Characters\<close>

definition ip_char :: "char \<Rightarrow> bool" where
  "ip_char c \<longleftrightarrow> c \<in> set ''0123456789abcdef.:<>?nil''"

lemma join_with_all:
  "list_all P sep \<Longrightarrow> list_all (list_all P) ws \<Longrightarrow> list_all P (join_with sep ws)"
  by (induction sep ws rule: join_with.induct) auto

lemma hexDigit_char: "n < 16 \<Longrightarrow> ip_char (hexDigits ! n)"
proof -
  assume "n < 16"
  then have "hexDigits ! n \<in> set hexDigits" by (intro nth_mem) (simp add: hexDigits_def)
  then show ?thesis by (auto simp: hexDigits_def ip_char_def)
qed

lemma hex_nat_chars: "list_all ip_char (hex_nat n)"
proof (induction n rule: hex_nat.induct)
  case (1 n)
  then show ?case using hexDigit_char by (subst hex_nat.simps) auto
qed

lemma digit_ip: "digit c \<Longrightarrow> ip_char c"
proof -
  assume d: "digit c"
  define n where "n = (of_char c :: nat) - 48"
  have "n < 10" "c = char_of (48 + n)" using d by (auto simp: digit_def n_def)
  then have "c \<in> set (map (\<lambda>n. char_of (48 + n)) [0..<10])" by auto
  also have "map (\<lambda>n. char_of (48 + n)) [0..<10] = ''0123456789''" by code_simp
  finally show ?thesis by (auto simp: ip_char_def)
qed

lemma dec_nat_chars: "list_all ip_char (dec_nat n)"
  using dec_nat_digits [of n] digit_ip by (auto simp: list_all_iff)

lemma IP_String_chars: "list_all ip_char (IP_String ip)"
proof -
  have sep: "list_all ip_char '':''" "list_all ip_char ''.''" "list_all ip_char ''::''" "list_all ip_char ''<nil>''"
    "list_all ip_char ''?''" by (simp_all add: ip_char_def)
  have "list_all (list_all ip_char) (map hex_nat xs)" "list_all (list_all ip_char) (map (\<lambda>b. dec_nat (unat b)) p)" for xs and p :: bytes
    by (induction xs, simp_all add: hex_nat_chars) (induction p, simp_all add: dec_nat_chars)
  note joined = join_with_all [OF sep(1) this(1)] join_with_all [OF sep(2) this(2)]
  have "list_all ip_char (ipv6_text ip)"
    using joined(1) sep by (simp add: ipv6_text_def Let_def del: join_with.simps split: prod.splits)
  moreover have "list_all ip_char (hex_bytes ip)"
  proof -
    have "unat y div 16 < 16" for y :: byte using unsigned_less [of y] by (intro less_mult_imp_div_less) simp
    then show ?thesis using hexDigit_char by (auto simp: hex_bytes_def list_all_iff)
  qed
  ultimately show ?thesis using sep joined(2) by (auto simp: IP_String_def split: option.splits)
qed


section \<open>An address and its text\<close>

lemma last_index_append:
  assumes "c \<notin> set t"
  shows "last_index c (s @ c # t) = Some (length s)"
proof -
  have "index_of c (rev t @ c # rev s) = Some (length t)" using assms by (induction t rule: rev_induct) auto
  then show ?thesis by (simp add: last_index_def)
qed

lemma SplitHostPort_Join:
  assumes "CHR ''['' \<notin> set host \<union> set port" and "CHR '']'' \<notin> set host \<union> set port" and "CHR '':'' \<notin> set port"
  shows "SplitHostPort (JoinHostPort host port) = Ok (host, port)"
proof (cases "CHR '':'' \<in> set host")
  case True
  have "index_of (CHR '']'') (''['' @ host @ '']:'' @ port) = Some (length host + 1)"
    using assms by (induction host) auto
  moreover have "last_index (CHR '':'') (''['' @ host @ '']:'' @ port) = Some (length host + 2)"
    using last_index_append [OF assms(3), of "''['' @ host @ '']''"] by simp
  ultimately show ?thesis using True assms by (simp add: SplitHostPort_def JoinHostPort_def)
next
  case False
  moreover have "hd (host @ '':'' @ port) \<noteq> CHR ''[''" using assms by (cases host) auto
  ultimately show ?thesis using assms last_index_append [OF assms(3), of host]
    by (simp add: SplitHostPort_def JoinHostPort_def)
qed

lemma port_chars: "list_all (\<lambda>c. digit c \<or> c = CHR ''-'') (dec_int i)"
  using dec_nat_digits by (auto simp: dec_int_def list_all_iff)

lemma resolve_String:
  assumes "parse_ip (IP_String (sa_IP a)) = Some ip" and "- (2 ^ 63) \<le> sa_Port a" and "sa_Port a < 2 ^ 63"
  shows "resolveSocketAddr parse_ip lookup_ip (SocketAddr_String a) = Ok \<lparr>sa_IP = ip, sa_Port = sa_Port a\<rparr>"
proof -
  have "\<not> ip_char (CHR ''['')" "\<not> ip_char (CHR '']'')" by (simp_all add: ip_char_def)
  then have h: "CHR ''['' \<notin> set (IP_String (sa_IP a))" "CHR '']'' \<notin> set (IP_String (sa_IP a))"
    using IP_String_chars [of "sa_IP a"] by (auto simp: list_all_iff)
  have "\<not> digit (CHR ''['')" "\<not> digit (CHR '']'')" "\<not> digit (CHR '':'')" by (simp_all add: digit_def)
  then have p: "CHR ''['' \<notin> set (dec_int i)" "CHR '']'' \<notin> set (dec_int i)" "CHR '':'' \<notin> set (dec_int i)" for i
    using port_chars [of i] by (auto simp: list_all_iff)
  have "ParseInt 64 (dec_int (sa_Port a)) = (sa_Port a, True)" using ParseInt_dec [of 64 "sa_Port a"] assms(2,3) by simp
  moreover have "SplitHostPort (SocketAddr_String a) = Ok (IP_String (sa_IP a), dec_int (sa_Port a))"
    unfolding SocketAddr_String_def using h p by (intro SplitHostPort_Join) auto
  ultimately show ?thesis using assms(1) by (simp add: resolveSocketAddr_def)
qed

section \<open>Lengths\<close>

lemma hex_nat_length: "n < 16 ^ Suc k \<Longrightarrow> length (hex_nat n) \<le> Suc k"
proof (induction k arbitrary: n)
  case (Suc k)
  show ?case
  proof (cases "n < 16")
    case False
    have "n div 16 < 16 ^ Suc k" using Suc.prems by (simp add: less_mult_imp_div_less)
    then show ?thesis using Suc.IH [of "n div 16"] False by (subst hex_nat.simps) simp
  qed (subst hex_nat.simps, simp)
qed (subst hex_nat.simps, simp)

lemma dec_nat_length: "n < 10 ^ Suc k \<Longrightarrow> length (dec_nat n) \<le> Suc k"
proof (induction k arbitrary: n)
  case (Suc k)
  show ?case
  proof (cases "n < 10")
    case False
    have "n div 10 < 10 ^ Suc k" using Suc.prems by (simp add: less_mult_imp_div_less)
    then show ?thesis using Suc.IH [of "n div 10"] False by (subst dec_nat.simps) simp
  qed (subst dec_nat.simps, simp)
qed (subst dec_nat.simps, simp)

lemma join_with_length:
  assumes "\<forall>w \<in> set ws. length w \<le> n"
  shows "length (join_with sep ws) \<le> length ws * (n + length sep)"
  using assms by (induction sep ws rule: join_with.induct) auto

lemma words16_bound: "w \<in> set (words16 bs) \<Longrightarrow> w < 16 ^ 4" "length (words16 bs) = length bs div 2"
proof (induction bs rule: words16.induct)
  case (1 a b bs)
  { case 1
    have "unat a < 256" "unat b < 256" using unsigned_less [of a] unsigned_less [of b] by simp_all
    then show ?case using "1.IH"(1) 1 by auto
  next
    case 2
    then show ?case using "1.IH"(2) by simp }
qed simp_all

lemma IP_String_length:
  assumes "length ip \<le> 16"
  shows "length (IP_String ip) \<le> 255"
proof -
  let ?ws = "words16 ip"
  have w: "\<forall>x \<in> set (map hex_nat xs). length x \<le> 4" if "set xs \<subseteq> set ?ws" for xs
    using that words16_bound(1) [of _ ip] hex_nat_length [of _ 3] by auto
  have eight: "length ?ws \<le> 8" using words16_bound(2) [of ip] assms by simp
  have part: "length (join_with '':'' (map hex_nat xs)) \<le> 40" if "set xs \<subseteq> set ?ws" "length xs \<le> 8" for xs
    using join_with_length [OF w [OF that(1)], of "'':''"] that(2) by simp
  obtain start len where z: "longest_zeros ?ws = (start, len)" by (metis prod.exhaust)
  have "length (join_with '':'' (map hex_nat (take start ?ws))) \<le> 40"
    using set_take_subset [of start ?ws] eight by (intro part) simp_all
  moreover have "length (join_with '':'' (map hex_nat (drop (start + len) ?ws))) \<le> 40"
    using set_drop_subset [of "start + len" ?ws] eight by (intro part) simp_all
  ultimately have "length (ipv6_text ip) \<le> 255"
    using part [of ?ws] eight z by (simp add: ipv6_text_def Let_def del: join_with.simps)
  moreover have "length (join_with ''.'' (map (\<lambda>b. dec_nat (unat b)) p)) \<le> 255" if "length p \<le> 16" for p :: bytes
  proof -
    have "\<forall>x \<in> set (map (\<lambda>b. dec_nat (unat b)) p). length x \<le> 3"
    proof -
      have "unat b < 10 ^ Suc 2" for b :: byte using unsigned_less [of b, where ?'a = nat] by simp
      from dec_nat_length [OF this] show ?thesis by simp
    qed
    from join_with_length [OF this, of "''.''"] show ?thesis using that by simp
  qed
  moreover have "length p \<le> 16" if "IP_To4 ip = Some p" for p using that assms by (auto simp: IP_To4_def split: if_splits)
  moreover have "length (hex_bytes ip) = 2 * length ip" by (induction ip) (simp_all add: hex_bytes_def)
  ultimately show ?thesis using assms by (auto simp: IP_String_def split: option.splits)
qed

end
