(* ===== verification/Monitor.thy ===== *)
theory Monitor
  imports Lifecycle Packet_Flow Go_Net
begin

text \<open>
  \<^verbatim>\<open>monitor.go\<close>, the conversation with the backend behind a poll: the handshake and request packets,
  the loops that wait for the status or the ping response, and the reading of the response. The
  monitor's tick itself is in \<open>Lifecycle\<close>. \<open>parse_status\<close> stands for \<^verbatim>\<open>json.Unmarshal\<close> into the status
  structure followed by \<^verbatim>\<open>decodeStatusDescription\<close>, on the JSON text; \<open>decoded_status\<close> is it, over the three
  ways in which the source decodes a piece of JSON.

  The waiting loops run until a packet they look for arrives or the connection fails, so they take
  fuel, and \<open>None\<close> is a loop that is still running. Shown here: a well-formed response is found, a
  malformed packet makes the loop run forever, and a nested description is flattened to its text.
\<close>

section \<open>Requests\<close>

definition sendHandshake_packet :: "Config \<Rightarrow> string \<Rightarrow> u16 \<Rightarrow> RawPacket" where
  "sendHandshake_packet config ip port =
     (let w = NewPacketWriter;
          w = WriteVarInt w (pub_Protocol (cfg_Public config));
          w = WriteString w ip;
          w = WriteUint16 w port;
          w = WriteVarInt w (ToID ClientStateStatus)
      in NewRawPacket PacketHandshake (Bytes w))"

definition sendHandshake ::
  "zlib \<Rightarrow> Client \<Rightarrow> Config \<Rightarrow> string \<Rightarrow> u16 \<Rightarrow> sink \<Rightarrow> bool \<times> sink" where
  "sendHandshake z client config ip port c = writePacket z client (sendHandshake_packet config ip port) c"

definition requestStatus :: "zlib \<Rightarrow> Client \<Rightarrow> sink \<Rightarrow> bool \<times> sink" where
  "requestStatus z client c = writePacket z client (NewRawPacket PacketServerStatusRequest []) c"

text \<open>The token is the random number of \<^verbatim>\<open>randomToken\<close>.\<close>

definition sendPing :: "zlib \<Rightarrow> Client \<Rightarrow> u64 \<Rightarrow> sink \<Rightarrow> u64 option \<times> sink" where
  "sendPing z client token c =
     (let w = WriteUint64 NewPacketWriter token
      in case writePacket z client (NewRawPacket PacketServerPing (Bytes w)) c of
           (True, c) \<Rightarrow> (Some token, c)
         | (False, c) \<Rightarrow> (None, c))"

text \<open>What a poll writes before it waits: the header of a proxied backend, the handshake and the request.\<close>

definition local_header :: "Config \<Rightarrow> sink \<Rightarrow> bool \<times> sink" where
  "local_header config c =
     (if sv_SendProxyV2 (cfg_Server config)
      then (case LocalHeader of Ok header \<Rightarrow> conn_Write header c | _ \<Rightarrow> (False, c)) else (True, c))"

definition poll_request ::
  "zlib \<Rightarrow> Config \<Rightarrow> SocketAddr \<Rightarrow> (sink \<Rightarrow> 'a option \<times> sink) \<Rightarrow> sink \<Rightarrow> 'a option \<times> sink" where
  "poll_request z config addr request c =
     (case local_header config c of
        (False, c) \<Rightarrow> (None, c)
      | (True, c) \<Rightarrow>
          (case sendHandshake z DummyClient config (IP_String (sa_IP addr)) (word_of_int (sa_Port addr)) c of
             (False, c) \<Rightarrow> (None, c)
           | (True, c) \<Rightarrow> request c))"

definition status_request :: "zlib \<Rightarrow> sink \<Rightarrow> unit option \<times> sink" where
  "status_request z c = (case requestStatus z DummyClient c of (ok, c) \<Rightarrow> (if ok then Some () else None, c))"

section \<open>Responses\<close>

definition decodeStatusResponse :: "(string \<Rightarrow> ServerStatus option) \<Rightarrow> bytes \<Rightarrow> ServerStatus option" where
  "decodeStatusResponse parse_status data =
     (case ReadVarInt data of
        Ok (consumed, strLen) \<Rightarrow>
          if sint strLen < 0 \<or> int (length data) < int consumed + sint strLen then None
          else parse_status (string_of_bytes (take (nat (sint strLen)) (drop consumed data)))
      | _ \<Rightarrow> None)"

fun waitForStatus ::
  "nat \<Rightarrow> zlib \<Rightarrow> (string \<Rightarrow> ServerStatus option) \<Rightarrow> Client \<Rightarrow> bytes \<Rightarrow> script \<Rightarrow> ServerStatus option option" where
  "waitForStatus 0 z parse_status client buf conn = None"
| "waitForStatus (Suc fuel) z parse_status client buf conn =
     (case ReadPacket z client buf conn of
        (ReadError e, buf, conn) \<Rightarrow>
          if e = ErrMalformedPacket then waitForStatus fuel z parse_status client buf conn else Some None
      | (CleanEOF, buf, conn) \<Rightarrow> Some None
      | (Packet packet raw, buf, conn) \<Rightarrow>
          if rp_ID packet = PacketClientStatusResponse then
            (case decodeStatusResponse parse_status (rp_Data packet) of
               None \<Rightarrow> waitForStatus fuel z parse_status client buf conn
             | Some status \<Rightarrow> Some (Some status))
          else waitForStatus fuel z parse_status client buf conn)"

fun waitForPing :: "nat \<Rightarrow> zlib \<Rightarrow> Client \<Rightarrow> u64 \<Rightarrow> bytes \<Rightarrow> script \<Rightarrow> bool option" where
  "waitForPing 0 z client token buf conn = None"
| "waitForPing (Suc fuel) z client token buf conn =
     (case ReadPacket z client buf conn of
        (ReadError e, buf, conn) \<Rightarrow>
          if e = ErrMalformedPacket then waitForPing fuel z client token buf conn else Some False
      | (CleanEOF, buf, conn) \<Rightarrow> Some False
      | (Packet packet raw, buf, conn) \<Rightarrow>
          if rp_ID packet = PacketClientPing \<and> 8 \<le> length (rp_Data packet) \<and>
             be_word (take 8 (rp_Data packet)) = token
          then Some True
          else waitForPing fuel z client token buf conn)"

text \<open>\<^verbatim>\<open>waitForStatusTimeout\<close>: the timer decides when the loop has not answered yet.\<close>

definition waitForStatusTimeout :: "ServerStatus option option \<Rightarrow> ServerStatus option" where
  "waitForStatusTimeout answered = (case answered of Some r \<Rightarrow> r | None \<Rightarrow> None)"

definition waitForPingTimeout :: "bool option \<Rightarrow> bool" where
  "waitForPingTimeout answered = (case answered of Some r \<Rightarrow> r | None \<Rightarrow> False)"

text \<open>\<open>dial\<close> is the connection that \<^verbatim>\<open>net.DialTimeout\<close> opens, \<open>None\<close> for an error.\<close>

definition fetchStatus ::
  "zlib \<Rightarrow> (string \<Rightarrow> ServerStatus option) \<Rightarrow> nat \<Rightarrow> Config \<Rightarrow> SocketAddr \<Rightarrow> (script \<times> sink) option \<Rightarrow> ServerStatus option" where
  "fetchStatus z parse_status fuel config addr dial =
     (case dial of
        None \<Rightarrow> None
      | Some (conn, c) \<Rightarrow>
          (case poll_request z config addr (status_request z) c of
             (None, c) \<Rightarrow> None
           | (Some _, c) \<Rightarrow> waitForStatusTimeout (waitForStatus fuel z parse_status DummyClient [] conn)))"

definition doPing :: "zlib \<Rightarrow> u64 \<Rightarrow> nat \<Rightarrow> Config \<Rightarrow> SocketAddr \<Rightarrow> (script \<times> sink) option \<Rightarrow> bool" where
  "doPing z token fuel config addr dial =
     (case dial of
        None \<Rightarrow> False
      | Some (conn, c) \<Rightarrow>
          (case poll_request z config addr (sendPing z DummyClient token) c of
             (None, c) \<Rightarrow> False
           | (Some token, c) \<Rightarrow> waitForPingTimeout (waitForPing fuel z DummyClient token [] conn)))"

section \<open>The description of a status\<close>

text \<open>
  \<^verbatim>\<open>json.Unmarshal\<close> into a string, a chat component (its text and, unless it is absent, its children) and an
  array; \<open>None\<close> is an error.
\<close>

record json_decoders =
  jd_text :: "string \<Rightarrow> string option"
  jd_component :: "string \<Rightarrow> (string \<times> string list option) option"
  jd_parts :: "string \<Rightarrow> string list option"

function decodeStatusDescription :: "json_decoders \<Rightarrow> nat \<Rightarrow> string \<Rightarrow> string option"
  and decode_children :: "json_decoders \<Rightarrow> nat \<Rightarrow> string list \<Rightarrow> string option" where
  "decodeStatusDescription j depth raw =
     (if 16 < depth \<or> length raw = 0 then None
      else case jd_text j raw of
        Some text \<Rightarrow> Some text
      | None \<Rightarrow>
          (case (case jd_component j raw of
                   Some (text, extra) \<Rightarrow> if text \<noteq> [] \<or> extra \<noteq> None \<or> raw = ''{}'' then Some (text, extra) else None
                 | None \<Rightarrow> None) of
             Some (text, extra) \<Rightarrow>
               map_option ((@) text) (decode_children j (depth + 1) (case extra of Some raws \<Rightarrow> raws | None \<Rightarrow> []))
           | None \<Rightarrow>
               (case jd_parts j raw of
                  Some raws \<Rightarrow> decode_children j (depth + 1) raws
                | None \<Rightarrow> None)))"
| "decode_children j depth [] = Some []"
| "decode_children j depth (child # children) =
     (case decodeStatusDescription j depth child of
        None \<Rightarrow> None
      | Some val \<Rightarrow> map_option ((@) val) (decode_children j depth children))"
  by pat_completeness auto
termination
  by (relation "measures [\<lambda>x. case x of Inl (j, depth, raw) \<Rightarrow> 36 - 2 * depth | Inr (j, depth, raws) \<Rightarrow> 37 - 2 * depth,
      \<lambda>x. case x of Inl _ \<Rightarrow> 0 | Inr (j, depth, raws) \<Rightarrow> length raws]") auto

declare decodeStatusDescription.simps [simp del]

record raw_status =
  rs_Name :: string
  rs_Protocol :: u32
  rs_Max :: u32
  rs_Online :: u32
  rs_Sample :: "OnlinePlayer list"
  rs_Description :: string
  rs_Favicon :: "string option"
  rs_ForgeData :: string

definition decoded_status :: "(string \<Rightarrow> raw_status option) \<Rightarrow> json_decoders \<Rightarrow> string \<Rightarrow> ServerStatus option" where
  "decoded_status unmarshal j jsonData =
     (case unmarshal jsonData of
        None \<Rightarrow> None
      | Some raw \<Rightarrow>
          (case decodeStatusDescription j 0 (rs_Description raw) of
             None \<Rightarrow> None
           | Some description \<Rightarrow>
               Some \<lparr>st_Version = \<lparr>sv_Name = rs_Name raw, sv_Protocol = rs_Protocol raw\<rparr>,
                     st_Players = \<lparr>pl_Max = rs_Max raw, pl_Online = rs_Online raw, pl_Sample = rs_Sample raw\<rparr>,
                     st_Description = description, st_Favicon = rs_Favicon raw, st_ForgeData = rs_ForgeData raw\<rparr>))"

section \<open>A well-formed response is found\<close>

lemma decodeStatusResponse_StringBytes:
  assumes "length s < 2 ^ 31"
  shows "decodeStatusResponse parse_status (StringBytes s @ rest) = parse_status s"
  by (simp add: decodeStatusResponse_def StringBytes_def sint_of_length [OF assms])

lemma DecodeHandshake_sendHandshake:
  assumes "length ip \<le> 255"
  shows "DecodeHandshake (rp_Data (sendHandshake_packet config ip port)) =
    Ok \<lparr>hs_ProtocolVersion = pub_Protocol (cfg_Public config), hs_ServerAddr = ip, hs_ServerPort = port,
      hs_NextState = ToID ClientStateStatus\<rparr>"
  using DecodeHandshake_Encode [of "\<lparr>hs_ProtocolVersion = pub_Protocol (cfg_Public config),
      hs_ServerAddr = ip, hs_ServerPort = port, hs_NextState = ToID ClientStateStatus\<rparr>" "[]"] assms
  by (simp add: sendHandshake_packet_def NewRawPacket_def encode_with_def Handshake_Encode_def Let_def)

lemma poll_finds_status:
  assumes "IsCompressed client \<Longrightarrow> zlib_inverse z"
    and "EncodeWithoutLen z (NewRawPacket PacketClientStatusResponse (StringBytes json)) client = Ok payload"
    and "frame = EncodeVarInt (word_of_nat (length payload)) @ payload"
    and "length payload < 2 ^ 14" and "length json + 10 \<le> MaxPacketLength"
    and "script_bytes conn = frame @ tail" and "delivers (length frame) conn"
    and "parse_status json = Some status"
  shows "waitForStatus (Suc fuel) z parse_status client [] conn = Some (Some status)"
proof -
  have len: "length (StringBytes json) + 5 \<le> MaxPacketLength"
    using assms(5) length_EncodeVarInt(2) [of "word_of_nat (length json)"] by (simp add: StringBytes_def)
  have "decodeStatusResponse parse_status (StringBytes json) = Some status"
    using decodeStatusResponse_StringBytes [of json parse_status "[]"] assms(5,8)
    by (simp add: MaxPacketLength_def)
  moreover obtain buf' conn' where
    "ReadPacketWithTimeout z client [] conn =
      (Packet (NewRawPacket PacketClientStatusResponse (StringBytes json)) frame, buf', conn')"
    using ReadPacket_delivers [of client z "NewRawPacket PacketClientStatusResponse (StringBytes json)"
        payload frame "[]" conn tail] assms len
    by (auto simp: NewRawPacket_def)
  ultimately show ?thesis by (simp add: ReadPacket_def NewRawPacket_def)
qed

section \<open>A malformed packet is never skipped\<close>

lemma waitForStatus_malformed_loop:
  assumes "\<And>c. ReadPacketWithTimeout z client buf c = (ReadError ErrMalformedPacket, buf, c)"
  shows "waitForStatus fuel z parse_status client buf conn = None"
  by (induction fuel arbitrary: conn) (simp_all add: ReadPacket_def assms)

lemma waitForPing_malformed_loop:
  assumes "\<And>c. ReadPacketWithTimeout z client buf c = (ReadError ErrMalformedPacket, buf, c)"
  shows "waitForPing fuel z client token buf conn = None"
  by (induction fuel arbitrary: conn) (simp_all add: ReadPacket_def assms)

lemma polls_never_return:
  assumes "ReadPacketWithTimeout z client buf conn = (ReadError ErrMalformedPacket, buf', conn')"
    and "length buf \<le> MaxBufferedBytes" and "net_errors_only conn"
  shows "waitForStatus fuel z parse_status client buf conn = None"
    and "waitForPing fuel z client token buf conn = None"
  using waitForStatus_malformed_loop [OF malformed_state(3) [OF assms]]
    waitForPing_malformed_loop [OF malformed_state(3) [OF assms]] assms(1)
  by (cases fuel; simp add: ReadPacket_def)+

section \<open>Flattening a description\<close>

text \<open>A chat component as a tree, its text, its depth, and the JSON that represents it.\<close>

datatype chat = ChatText string | ChatComponent string "chat list" | ChatParts "chat list"

fun chat_text :: "chat \<Rightarrow> string" where
  "chat_text (ChatText s) = s"
| "chat_text (ChatComponent s cs) = s @ concat (map chat_text cs)"
| "chat_text (ChatParts cs) = concat (map chat_text cs)"

fun chat_depth :: "chat \<Rightarrow> nat" where
  "chat_depth (ChatText s) = 0"
| "chat_depth (ChatComponent s cs) = fold max (map (\<lambda>c. chat_depth c + 1) cs) 0"
| "chat_depth (ChatParts cs) = fold max (map (\<lambda>c. chat_depth c + 1) cs) 0"

inductive represents :: "json_decoders \<Rightarrow> string \<Rightarrow> chat \<Rightarrow> bool" for j where
  str: "raw \<noteq> [] \<Longrightarrow> jd_text j raw = Some s \<Longrightarrow> represents j raw (ChatText s)"
| comp: "raw \<noteq> [] \<Longrightarrow> jd_text j raw = None \<Longrightarrow> jd_component j raw = Some (s, Some raws) \<Longrightarrow>
    list_all2 (represents j) raws cs \<Longrightarrow> represents j raw (ChatComponent s cs)"
| bare: "raw \<noteq> [] \<Longrightarrow> jd_text j raw = None \<Longrightarrow> jd_component j raw = Some (s, None) \<Longrightarrow>
    s \<noteq> [] \<or> raw = ''{}'' \<Longrightarrow> represents j raw (ChatComponent s [])"
| parts: "raw \<noteq> [] \<Longrightarrow> jd_text j raw = None \<Longrightarrow> jd_component j raw = None \<Longrightarrow> jd_parts j raw = Some raws \<Longrightarrow>
    list_all2 (represents j) raws cs \<Longrightarrow> represents j raw (ChatParts cs)"

lemma fold_max_bound: "(fold max (map (\<lambda>c. chat_depth c + 1) cs) m \<le> (n :: nat)) \<longleftrightarrow> m \<le> n \<and> (\<forall>c \<in> set cs. chat_depth c + 1 \<le> n)"
  by (induction cs arbitrary: m) auto

lemma children_render:
  assumes "list_all2 (\<lambda>raw c. represents j raw c \<and>
      (\<forall>d. d + chat_depth c \<le> 16 \<longrightarrow> decodeStatusDescription j d raw = Some (chat_text c))) raws cs"
    and "depth + fold max (map (\<lambda>c. chat_depth c + 1) cs) 0 \<le> 16"
  shows "decode_children j (depth + 1) raws = Some (concat (map chat_text cs))"
proof -
  have "fold max (map (\<lambda>c. chat_depth c + 1) cs) 0 \<le> 16 - depth" using assms(2) by linarith
  then have "\<forall>c \<in> set cs. chat_depth c + 1 \<le> 16 - depth" using fold_max_bound by blast
  then have "\<forall>c \<in> set cs. depth + 1 + chat_depth c \<le> 16" by fastforce
  with assms(1) show ?thesis by (induction rule: list_all2_induct) simp_all
qed

lemma decodeStatusDescription_renders:
  assumes "represents j raw c" and "depth + chat_depth c \<le> 16"
  shows "decodeStatusDescription j depth raw = Some (chat_text c)"
  using assms
proof (induction raw c arbitrary: depth rule: represents.induct)
  case (comp raw s raws cs)
  then show ?case using children_render [of j raws cs depth] by (simp add: decodeStatusDescription.simps [of j depth])
next
  case (parts raw raws cs)
  then show ?case using children_render [of j raws cs depth] by (simp add: decodeStatusDescription.simps [of j depth])
qed (auto simp: decodeStatusDescription.simps)

end
