(* ===== verification/Service.thy ===== *)
theory Service
  imports Lifecycle
begin

text \<open>
  \<^verbatim>\<open>service_server.go\<close>: the checks at start-up, the admission of connections and their routing. The two
  admission channels of the source are buffered channels of unit, so each is its number of tokens; the
  locale \<open>admission_slot\<close> is the contract of such a channel, interpreted for both.

  Shown here: what taking and giving back a slot does to the two counters, which connections may bypass the lobby, and
  what a successful start-up says of the configuration.
\<close>

section \<open>Admission\<close>

definition maxStatusClients :: nat where "maxStatusClients = 128"
definition maxProxyClients :: nat where "maxProxyClients = 256"

record connectionAdmission =
  ca_status :: nat
  ca_proxy :: nat

definition newConnectionAdmission :: connectionAdmission where
  "newConnectionAdmission = \<lparr>ca_status = 0, ca_proxy = 0\<rparr>"

definition acquireStatus :: "connectionAdmission \<Rightarrow> bool \<times> connectionAdmission" where
  "acquireStatus a =
     (if ca_status a < maxStatusClients then (True, a\<lparr>ca_status := ca_status a + 1\<rparr>) else (False, a))"

definition releaseStatus :: "connectionAdmission \<Rightarrow> connectionAdmission" where
  "releaseStatus a = (if 0 < ca_status a then a\<lparr>ca_status := ca_status a - 1\<rparr> else a)"

definition acquireProxy :: "connectionAdmission \<Rightarrow> bool \<times> connectionAdmission" where
  "acquireProxy a =
     (if ca_proxy a < maxProxyClients then (True, a\<lparr>ca_proxy := ca_proxy a + 1\<rparr>) else (False, a))"

definition releaseProxy :: "connectionAdmission \<Rightarrow> connectionAdmission" where
  "releaseProxy a = (if 0 < ca_proxy a then a\<lparr>ca_proxy := ca_proxy a - 1\<rparr> else a)"

section \<open>Start-up checks\<close>

definition validateControllerManagedConfig :: "Config \<Rightarrow> bool" where
  "validateControllerManagedConfig config =
     (if \<not> ControllerManaged config then True
      else if FreezeProcess config then False
      else if sv_WakeOnCrash (cfg_Server config) then False
      else if rc_Enabled (cfg_Rcon config) then False
      else if ad_RewriteServerProperties (cfg_Advanced config) then False
      else True)"

text \<open>\<open>secret_ok\<close>: whether \<^verbatim>\<open>forwardingSecret\<close> finds a secret.\<close>

definition validateOnlineModeConfig :: "bool \<Rightarrow> Config \<Rightarrow> bool" where
  "validateOnlineModeConfig secret_ok config =
     (if \<not> au_OnlineMode (cfg_Auth config) then True
      else if \<not> IP_IsLoopback (sa_IP (sv_Address (cfg_Server config))) then False
      else if jo_Methods (cfg_Join config) = [] \<or> hd (jo_Methods (cfg_Join config)) \<noteq> MethodLobby then False
      else secret_ok)"

text \<open>
  \<^verbatim>\<open>Service\<close> up to its accept loop: the validations, the seeded status, and the start of the server when
  it is configured. \<open>snapshot\<close> is the result of \<^verbatim>\<open>loadForgeStatusSnapshot\<close> (\<open>Fail\<close> on an error).
\<close>

definition Service_init ::
  "bool \<Rightarrow> ServerStatus option outcome \<Rightarrow> env \<Rightarrow> Config \<Rightarrow> (world \<times> connectionAdmission) outcome" where
  "Service_init secret_ok snapshot env config =
     (if \<not> validateControllerManagedConfig config then Fail
      else if \<not> validateOnlineModeConfig secret_ok config then Fail
      else case (if sv_ForgeStatusFile (cfg_Server config) \<noteq> [] then snapshot else Ok None) of
        Ok st \<Rightarrow>
          (let w = initial_world\<lparr>w_srv := SeedStatus st NewServerState\<rparr>;
               w = (if sv_WakeOnStart (cfg_Server config) then snd (Start config env w) else w)
           in Ok (w, newConnectionAdmission))
      | _ \<Rightarrow> Fail)"

section \<open>Routing\<close>

definition shouldRouteDirectProxy :: "Config \<Rightarrow> ServerState \<Rightarrow> bool \<Rightarrow> bool" where
  "shouldRouteDirectProxy config server banned \<longleftrightarrow>
     \<not> banned \<and> ss_state server = StateStarted \<and> \<not> lo_Enabled (cfg_Lockout config) \<and>
     \<not> au_OnlineMode (cfg_Auth config)"

datatype route_decision = DropConnection | CloseConnection | ServeStatus | ProxyDirect

definition routeStatus :: "connectionAdmission \<Rightarrow> route_decision \<times> connectionAdmission" where
  "routeStatus a = (case acquireStatus a of (True, a) \<Rightarrow> (ServeStatus, a) | (False, a) \<Rightarrow> (CloseConnection, a))"

text \<open>The deferred calls of the goroutine that \<^verbatim>\<open>routeStatus\<close> starts, run when \<^verbatim>\<open>Serve\<close> returns.\<close>

definition routeStatus_return :: "connectionAdmission \<Rightarrow> connectionAdmission" where
  "routeStatus_return a = releaseStatus a"

definition routeProxy :: "connectionAdmission \<Rightarrow> route_decision \<times> connectionAdmission" where
  "routeProxy a = (case acquireProxy a of (True, a) \<Rightarrow> (ProxyDirect, a) | (False, a) \<Rightarrow> (CloseConnection, a))"

definition routeProxy_return :: "connectionAdmission \<Rightarrow> connectionAdmission" where
  "routeProxy_return a = releaseProxy a"

text \<open>\<open>peer\<close> is the address of the peer, if the connection has one.\<close>

definition route ::
  "(string \<Rightarrow> string) \<Rightarrow> (string \<Rightarrow> int option) \<Rightarrow> int \<Rightarrow> Config \<Rightarrow> ServerState \<Rightarrow> string option \<Rightarrow>
   connectionAdmission \<Rightarrow> route_decision \<times> connectionAdmission" where
  "route ip_string parse_time now config server peer a =
     (case peer of
        None \<Rightarrow> (DropConnection, a)
      | Some peerIP \<Rightarrow>
          let banned = IsBannedIP ip_string parse_time now peerIP server
          in if banned \<and> sv_DropBannedIps (cfg_Server config) then (DropConnection, a)
             else if shouldRouteDirectProxy config server banned then routeProxy a
             else routeStatus a)"

section \<open>The contract of a bounded slot\<close>

text \<open>
  A slot has a number of tokens in use, at most \<open>cap\<close>; taking one succeeds while there is one left, and a token given
  back is free again. Two slots of one record must not disturb each other: \<open>separate_slots\<close>.
\<close>

locale admission_slot =
  fixes acquire :: "'a \<Rightarrow> bool \<times> 'a" and release :: "'a \<Rightarrow> 'a" and used :: "'a \<Rightarrow> nat" and cap :: nat
  assumes acquire_used:
      "used a < cap \<Longrightarrow> fst (acquire a) \<and> used (snd (acquire a)) = used a + 1"
    and acquire_full: "\<not> used a < cap \<Longrightarrow> acquire a = (False, a)"
    and release_used: "used (release a) = used a - 1"
begin

lemma acquired: "acquire a = (True, a') \<Longrightarrow> used a' = used a + 1 \<and> used a' \<le> cap"
  using acquire_used [of a] acquire_full [of a] by (cases "used a < cap") auto

lemma refused: "acquire a = (False, a') \<Longrightarrow> a' = a \<and> cap \<le> used a"
  using acquire_used [of a] acquire_full [of a] by (cases "used a < cap") auto

end

locale separate_slots = admission_slot +
  fixes other :: "'a \<Rightarrow> nat"
  assumes acquire_other: "other (snd (acquire a)) = other a" and release_other: "other (release a) = other a"
begin

lemma acquired_other: "acquire a = (ok, a') \<Longrightarrow> other a' = other a"
  using acquire_other [of a] by simp

end

interpretation status_slot: separate_slots acquireStatus releaseStatus ca_status maxStatusClients ca_proxy
  by unfold_locales (simp_all add: acquireStatus_def releaseStatus_def)

interpretation proxy_slot: separate_slots acquireProxy releaseProxy ca_proxy maxProxyClients ca_status
  by unfold_locales (simp_all add: acquireProxy_def releaseProxy_def)

section \<open>Routing facts\<close>

lemma route_bounds:
  assumes "route ip_string parse_time now config server peer a = (d, a')"
    and "ca_status a \<le> maxStatusClients" and "ca_proxy a \<le> maxProxyClients"
  shows "ca_status a' \<le> maxStatusClients \<and> ca_proxy a' \<le> maxProxyClients"
  using assms
  by (auto simp: route_def routeStatus_def routeProxy_def acquireStatus_def acquireProxy_def Let_def
      split: if_splits option.splits)

lemma route_ProxyDirect:
  "fst (route ip_string parse_time now config server peer a) = ProxyDirect \<Longrightarrow>
   \<exists>peerIP. peer = Some peerIP \<and> \<not> IsBannedIP ip_string parse_time now peerIP server \<and> ss_state server = StateStarted \<and>
   \<not> lo_Enabled (cfg_Lockout config) \<and> \<not> au_OnlineMode (cfg_Auth config)"
  by (auto simp: route_def routeStatus_def routeProxy_def acquireStatus_def shouldRouteDirectProxy_def
      Let_def split: if_splits option.splits)

text \<open>What a routed connection takes: a token of one slot, or nothing.\<close>

lemma route_takes:
  assumes "route ip_string parse_time now config server peer a = (d, a')"
  shows "(case d of ServeStatus \<Rightarrow> acquireStatus a = (True, a') | ProxyDirect \<Rightarrow> acquireProxy a = (True, a')
    | CloseConnection \<Rightarrow> acquireStatus a = (False, a') \<or> acquireProxy a = (False, a') | DropConnection \<Rightarrow> a' = a)"
  using assms
  by (auto simp: route_def routeStatus_def routeProxy_def Let_def split: if_splits option.splits prod.splits bool.splits)

lemma validateControllerManagedConfig_iff:
  "validateControllerManagedConfig config \<longleftrightarrow>
     (ControllerManaged config \<longrightarrow> \<not> FreezeProcess config \<and> \<not> sv_WakeOnCrash (cfg_Server config) \<and>
        \<not> rc_Enabled (cfg_Rcon config) \<and> \<not> ad_RewriteServerProperties (cfg_Advanced config))"
  by (simp add: validateControllerManagedConfig_def)

lemma validateOnlineModeConfig_iff:
  "validateOnlineModeConfig secret_ok config \<longleftrightarrow>
     (au_OnlineMode (cfg_Auth config) \<longrightarrow> IP_IsLoopback (sa_IP (sv_Address (cfg_Server config))) \<and>
        (\<exists>ms. jo_Methods (cfg_Join config) = MethodLobby # ms) \<and> secret_ok)"
  by (cases "jo_Methods (cfg_Join config)") (auto simp: validateOnlineModeConfig_def)

lemma Service_init_iff:
  "(\<exists>w a. Service_init secret_ok snapshot env config = Ok (w, a)) \<longleftrightarrow>
     validateControllerManagedConfig config \<and> validateOnlineModeConfig secret_ok config \<and>
     (sv_ForgeStatusFile (cfg_Server config) \<noteq> [] \<longrightarrow> (\<exists>st. snapshot = Ok st))"
  by (auto simp: Service_init_def Let_def split: outcome.split)

lemma Service_init_reachable:
  assumes "Service_init secret_ok snapshot env config = Ok (w, a)"
  shows "server_inv (w_srv w) \<and> a = newConnectionAdmission \<and> (ControllerManaged config \<longrightarrow> controller_inv w)"
proof -
  define w0 where "w0 st = initial_world\<lparr>w_srv := SeedStatus st NewServerState\<rparr>" for st
  have inv: "server_inv (w_srv (w0 st))" "controller_inv (w0 st)" for st
    by (simp_all add: w0_def initial_world_def controller_inv_def SeedStatus_def NewServerState_def
        server_inv_def split: option.splits)
  from assms show ?thesis
    using inv Start_inv [of "w0 _" config env] controller_Start [of config "w0 _" env]
    by (auto simp: Service_init_def Let_def w0_def [symmetric] split: if_splits outcome.splits)
qed

end
