(* ===== verification/Serve.thy ===== *)
theory Serve
  imports Service Stream_Read
begin

text \<open>
  \<^verbatim>\<open>status.go\<close>: serving a connection while it is in the handshake, status or login state, and the status
  the gateway answers with. The loop of \<^verbatim>\<open>Serve\<close> ends by closing the connection or by handing it to
  \<^verbatim>\<open>Occupy\<close> with the bytes the client has sent. What the handler needs from outside is a record: the
  codec, the canonical spelling of addresses, the ban expiry parser, JSON validation, the favicon of
  \<^verbatim>\<open>serverFavicon\<close>, the address of the peer and the clock.

  Shown here: the server is woken only by a login that passed the lockout, ban and whitelist checks, and
  never in online mode; the bytes handed on are exactly what the client sent; and the loop ends.
\<close>

section \<open>The status response\<close>

definition faviconProtocolVersion :: u32 where "faviconProtocolVersion = 4"

definition SupportsFavicon :: "u32 option \<Rightarrow> bool" where
  "SupportsFavicon protocol = (case protocol of None \<Rightarrow> True | Some p \<Rightarrow> faviconProtocolVersion \<le> p)"

definition statusForgeData :: "ServerStatus option \<Rightarrow> string" where
  "statusForgeData status = (case status of None \<Rightarrow> [] | Some st \<Rightarrow> st_ForgeData st)"

definition serverStatusResponse :: "string \<Rightarrow> ClientInfo \<Rightarrow> Config \<Rightarrow> ServerState \<Rightarrow> ServerStatus" where
  "serverStatusResponse serverFavicon clientInfo config server =
     (let status = Status server;
          serverState = ss_state server
      in case (serverState = StateStarted, status) of
           (True, Some st) \<Rightarrow> st
         | _ \<Rightarrow>
             let version = (case status of
                   Some st \<Rightarrow> st_Version st
                 | None \<Rightarrow> \<lparr>sv_Name = pub_Version (cfg_Public config),
                             sv_Protocol = pub_Protocol (cfg_Public config)\<rparr>);
                 mx = (case status of Some st \<Rightarrow> pl_Max (st_Players st) | None \<Rightarrow> 0);
                 description =
                   (case (mo_FromServer (cfg_Motd config), status) of
                      (True, Some st) \<Rightarrow> st_Description st
                    | _ \<Rightarrow>
                        (case serverState of
                           StateStopped \<Rightarrow> mo_Sleeping (cfg_Motd config)
                         | StateStarted \<Rightarrow> mo_Sleeping (cfg_Motd config)
                         | StateStarting \<Rightarrow> mo_Starting (cfg_Motd config)
                         | StateStopping \<Rightarrow> mo_Stopping (cfg_Motd config)));
                 favicon =
                   (if SupportsFavicon (GetProtocol clientInfo) then
                      (case (mo_FromServer (cfg_Motd config), status) of
                         (True, Some st) \<Rightarrow>
                           (case st_Favicon st of Some f \<Rightarrow> Some f | None \<Rightarrow> Some serverFavicon)
                       | _ \<Rightarrow> Some serverFavicon)
                    else None)
             in \<lparr>st_Version = version,
                 st_Players = \<lparr>pl_Max = mx, pl_Online = 0, pl_Sample = []\<rparr>,
                 st_Description = description, st_Favicon = favicon,
                 st_ForgeData = statusForgeData status\<rparr>)"

section \<open>One packet\<close>

record serve_env =
  se_zlib :: zlib
  se_ip_string :: "string \<Rightarrow> string"
  se_parse_time :: "string \<Rightarrow> int option"
  se_json_valid :: "string \<Rightarrow> bool"
  se_favicon :: string
  se_peerIP :: string
  se_env :: env

record serve_state =
  sc_client :: Client
  sc_info :: ClientInfo
  sc_history :: bytes
  sc_sink :: sink
  sc_world :: world

datatype serve_next =
    ServeContinue serve_state
  | ServeBreak serve_state
  | ServeOccupy serve_state bytes

definition banMessagePrefix :: string where
  "banMessagePrefix =
     ''Your IP address is banned from this server.'' @ [CHR 0x0A] @ ''Reason: ''"

definition whitelistMessage :: string where
  "whitelistMessage = ''You are not white-listed on this server!''"

definition kick_and_break :: "serve_env \<Rightarrow> string \<Rightarrow> serve_state \<Rightarrow> serve_next" where
  "kick_and_break e msg c =
     ServeBreak (c\<lparr>sc_sink := snd (Kick (se_zlib e) (sc_client c) msg (sc_sink c))\<rparr>)"

definition serve_handshake :: "RawPacket \<Rightarrow> bytes \<Rightarrow> serve_state \<Rightarrow> serve_next" where
  "serve_handshake packet raw c =
     (case DecodeHandshake (rp_Data packet) of
        Ok handshake \<Rightarrow>
          (case FromID (hs_NextState handshake) of
             Ok newState \<Rightarrow>
               let c = c\<lparr>sc_info := (sc_info c)\<lparr>ci_Protocol := Some (hs_ProtocolVersion handshake),
                         ci_Handshake := Some handshake\<rparr>\<rparr>;
                   c = c\<lparr>sc_client := SetState (sc_client c) newState\<rparr>
               in ServeContinue (if newState = ClientStateLogin
                                 then c\<lparr>sc_history := sc_history c @ raw\<rparr> else c)
           | _ \<Rightarrow> ServeBreak c)
      | _ \<Rightarrow> ServeBreak c)"

definition serve_status :: "serve_env \<Rightarrow> Config \<Rightarrow> serve_state \<Rightarrow> serve_next" where
  "serve_status e config c =
     (let serverStatus = serverStatusResponse (se_favicon e) (sc_info c) config (w_srv (sc_world c));
          data = StringBytes (StatusResponseJSON (se_json_valid e) serverStatus)
      in case writePacket (se_zlib e) (sc_client c) (NewRawPacket PacketClientStatusResponse data) (sc_sink c) of
           (True, k) \<Rightarrow> ServeContinue (c\<lparr>sc_sink := k\<rparr>)
         | (False, k) \<Rightarrow> ServeBreak (c\<lparr>sc_sink := k\<rparr>))"

definition serve_ping :: "bytes \<Rightarrow> serve_state \<Rightarrow> serve_next" where
  "serve_ping raw c =
     (case conn_Write raw (sc_sink c) of
        (True, k) \<Rightarrow> ServeContinue (c\<lparr>sc_sink := k\<rparr>)
      | (False, k) \<Rightarrow> ServeBreak (c\<lparr>sc_sink := k\<rparr>))"

text \<open>The end of the login branch, after the lockout and ban checks.\<close>

definition serve_login_allowed :: "serve_env \<Rightarrow> Config \<Rightarrow> bytes \<Rightarrow> bytes \<Rightarrow> serve_state \<Rightarrow> serve_next" where
  "serve_login_allowed e config raw buf c =
     (if (case ci_Username (sc_info c) of
            Some username \<Rightarrow> \<not> IsWhitelisted username (w_srv (sc_world c))
          | None \<Rightarrow> False)
      then kick_and_break e whitelistMessage c
      else
        let c = (if \<not> au_OnlineMode (cfg_Auth config)
                 then c\<lparr>sc_world := snd (Start config (se_env e) (sc_world c))\<rparr> else c);
            c = c\<lparr>sc_history := sc_history c @ raw @ buf\<rparr>;
            loginQueue = raw @ buf
        in ServeOccupy c loginQueue)"

definition serve_login :: "serve_env \<Rightarrow> Config \<Rightarrow> RawPacket \<Rightarrow> bytes \<Rightarrow> bytes \<Rightarrow> serve_state \<Rightarrow> serve_next" where
  "serve_login e config packet raw buf c =
     (let c = (case DecodeLoginStart (rp_Data packet) of
                 Ok loginStart \<Rightarrow> c\<lparr>sc_info := (sc_info c)\<lparr>ci_Username := Some (ls_Name loginStart)\<rparr>\<rparr>
               | _ \<Rightarrow> c)
      in if lo_Enabled (cfg_Lockout config) then kick_and_break e (lo_Message (cfg_Lockout config)) c
         else case BanEntry (se_ip_string e) (se_peerIP e) (w_srv (sc_world c)) of
           Some ban \<Rightarrow>
             if BannedIp_IsBanned (se_parse_time e) (env_now (se_env e)) ban then
               kick_and_break e
                 (banMessagePrefix @ (case bi_Reason ban of Some r \<Rightarrow> r | None \<Rightarrow> DefaultBanReason)) c
             else serve_login_allowed e config raw buf c
         | None \<Rightarrow> serve_login_allowed e config raw buf c)"

definition serve_packet ::
  "serve_env \<Rightarrow> Config \<Rightarrow> RawPacket \<Rightarrow> bytes \<Rightarrow> bytes \<Rightarrow> serve_state \<Rightarrow> serve_next" where
  "serve_packet e config packet raw buf c =
     (let clientState = cl_state (sc_client c)
      in if clientState = ClientStateHandshake \<and> rp_ID packet = PacketHandshake
         then serve_handshake packet raw c
         else if clientState = ClientStateStatus \<and> rp_ID packet = PacketServerStatusRequest
         then serve_status e config c
         else if clientState = ClientStateStatus \<and> rp_ID packet = PacketServerPing
         then serve_ping raw c
         else if clientState = ClientStateLogin \<and> rp_ID packet = PacketServerLoginStart
         then serve_login e config packet raw buf c
         else ServeContinue c)"

section \<open>The loop\<close>

function Serve_loop ::
  "serve_env \<Rightarrow> Config \<Rightarrow> bytes \<Rightarrow> script \<Rightarrow> serve_state \<Rightarrow> serve_next \<times> script" where
  "Serve_loop e config buf conn c =
     (case ReadPacket (se_zlib e) (sc_client c) buf conn of
        (ReadError err, buf, conn) \<Rightarrow> (ServeBreak c, conn)
      | (CleanEOF, buf, conn) \<Rightarrow> (ServeBreak c, conn)
      | (Packet packet raw, buf, conn) \<Rightarrow>
          (case serve_packet e config packet raw buf c of
             ServeContinue c \<Rightarrow> Serve_loop e config buf conn c
           | ServeBreak c \<Rightarrow> (ServeBreak c, conn)
           | ServeOccupy c loginQueue \<Rightarrow> (ServeOccupy c loginQueue, conn)))"
  by pat_completeness auto
termination
proof (relation "measure (\<lambda>(e, config, buf, conn, c). length (buf @ script_bytes conn))")
  fix e :: serve_env and config :: Config and buf buf' raw :: bytes and conn conn' :: script
    and c c' :: serve_state and packet r q
  assume "(r, q) = ReadPacket (se_zlib e) (sc_client c) buf conn"
    and "r = Packet packet raw" and "(buf', conn') = q"
  then have "ReadPacketWithTimeout (se_zlib e) (sc_client c) buf conn = (Packet packet raw, buf', conn')"
    by (simp add: ReadPacket_def)
  from ReadPacket_shrinks [OF this] show "((e, config, buf', conn', c'), (e, config, buf, conn, c)) \<in>
    measure (\<lambda>(e, config, buf, conn, c). length (buf @ script_bytes conn))" by simp
qed simp

declare Serve_loop.simps [simp del]

definition Serve :: "serve_env \<Rightarrow> Config \<Rightarrow> Client \<Rightarrow> script \<Rightarrow> sink \<Rightarrow> world \<Rightarrow> serve_next \<times> script" where
  "Serve e config client conn k w =
     Serve_loop e config [] conn
       \<lparr>sc_client = client, sc_info = EmptyClientInfo, sc_history = [], sc_sink = k, sc_world = w\<rparr>"

section \<open>Who can wake the server\<close>

text \<open>The checks a login has passed when the server may be started for it.\<close>

definition may_wake :: "serve_env \<Rightarrow> Config \<Rightarrow> ServerState \<Rightarrow> RawPacket \<Rightarrow> bool" where
  "may_wake e config s packet \<longleftrightarrow>
     \<not> lo_Enabled (cfg_Lockout config) \<and> \<not> au_OnlineMode (cfg_Auth config) \<and>
     (\<forall>ban. BanEntry (se_ip_string e) (se_peerIP e) s = Some ban \<longrightarrow>
        \<not> BannedIp_IsBanned (se_parse_time e) (env_now (se_env e)) ban) \<and>
     (\<forall>l. DecodeLoginStart (rp_Data packet) = Ok l \<longrightarrow> IsWhitelisted (ls_Name l) s)"

text \<open>The world a step leaves behind.\<close>

fun next_world :: "serve_next \<Rightarrow> world" where
  "next_world (ServeContinue c) = sc_world c"
| "next_world (ServeBreak c) = sc_world c"
| "next_world (ServeOccupy c q) = sc_world c"

lemma serve_packet_world:
  "next_world (serve_packet e config packet raw buf c) = sc_world c \<or>
   next_world (serve_packet e config packet raw buf c) = snd (Start config (se_env e) (sc_world c)) \<and>
   may_wake e config (w_srv (sc_world c)) packet \<and> cl_state (sc_client c) = ClientStateLogin \<and>
   rp_ID packet = PacketServerLoginStart"
proof -
  have login: "next_world (serve_login e config packet raw buf c) = sc_world c \<or>
      next_world (serve_login e config packet raw buf c) = snd (Start config (se_env e) (sc_world c)) \<and>
      may_wake e config (w_srv (sc_world c)) packet"
    by (auto simp: serve_login_def serve_login_allowed_def kick_and_break_def may_wake_def Let_def
        split: if_splits option.splits outcome.splits)
  show ?thesis
    using login
    by (auto simp: serve_packet_def serve_handshake_def serve_status_def serve_ping_def Let_def
        split: outcome.splits bool.splits prod.splits)
qed

text \<open>
  The world after serving: unchanged, or the server was started for the last packet that was read, a login start that
  passed the checks.
\<close>

definition woken_by :: "serve_env \<Rightarrow> Config \<Rightarrow> i32 \<Rightarrow> bytes \<times> script \<Rightarrow> script \<Rightarrow> world \<Rightarrow> world \<Rightarrow> bool" where
  "woken_by e config threshold st rest w w' \<longleftrightarrow>
     (\<exists>ps client packet buf. packets_read (se_zlib e) (ps @ [(client, packet)]) st (buf, rest) \<and>
        list_all (\<lambda>(c, p). cl_compression c = threshold) (ps @ [(client, packet)]) \<and>
        cl_state client = ClientStateLogin \<and> rp_ID packet = PacketServerLoginStart \<and>
        w' = snd (Start config (se_env e) w) \<and> may_wake e config (w_srv w) packet)"

lemma woken_by_more:
  assumes "ReadPacket (se_zlib e) client buf conn = (Packet packet raw, st)"
    and "woken_by e config (cl_compression client) st rest w w'"
  shows "woken_by e config (cl_compression client) (buf, conn) rest w w'"
proof -
  from assms(2) obtain ps c p b where "packets_read (se_zlib e) (ps @ [(c, p)]) st (b, rest)"
    and "list_all (\<lambda>(c, p). cl_compression c = cl_compression client) (ps @ [(c, p)])"
    and rest: "cl_state c = ClientStateLogin" "rp_ID p = PacketServerLoginStart"
      "w' = snd (Start config (se_env e) w)" "may_wake e config (w_srv w) p"
    unfolding woken_by_def by blast
  then have "packets_read (se_zlib e) (((client, packet) # ps) @ [(c, p)]) (buf, conn) (b, rest)"
    "list_all (\<lambda>(c, p). cl_compression c = cl_compression client) (((client, packet) # ps) @ [(c, p)])"
    using packets_read.more [OF assms(1)] by simp_all
  with rest show ?thesis unfolding woken_by_def by blast
qed

lemma serve_packet_continue: "serve_packet e config packet raw buf c = ServeContinue c' \<Longrightarrow>
    sc_world c' = sc_world c \<and> cl_compression (sc_client c') = cl_compression (sc_client c)"
  by (auto simp: SetState_def serve_packet_def serve_handshake_def serve_status_def serve_ping_def serve_login_def
      serve_login_allowed_def kick_and_break_def Let_def
      split: if_splits outcome.splits bool.splits prod.splits option.splits)

lemma Serve_loop_world:
  "Serve_loop e config buf conn c = (res, rest) \<Longrightarrow>
   next_world res = sc_world c \<or>
     woken_by e config (cl_compression (sc_client c)) (buf, conn) rest (sc_world c) (next_world res)"
proof (induction e config buf conn c arbitrary: res rest rule: Serve_loop.induct)
  case (1 e config buf conn c)
  obtain r b k where rd: "ReadPacket (se_zlib e) (sc_client c) buf conn = (r, b, k)" by (metis prod_cases3)
  show ?case
  proof (cases r)
    case (Packet packet raw)
    note rd = rd [unfolded Packet]
    let ?next = "serve_packet e config packet raw b c"
    have last: "next_world ?next = sc_world c \<or>
        woken_by e config (cl_compression (sc_client c)) (buf, conn) k (sc_world c) (next_world ?next)"
      using serve_packet_world [of e config packet raw b c] packets_read_snoc [OF packets_read.none rd]
      unfolding woken_by_def by fastforce
    show ?thesis
    proof (cases ?next)
      case (ServeContinue c')
      then have "Serve_loop e config b k c' = (res, rest)"
        using "1.prems" rd by (subst (asm) Serve_loop.simps) simp
      from "1.IH" [OF rd [symmetric] refl refl ServeContinue this] show ?thesis
        using woken_by_more [OF rd] serve_packet_continue [OF ServeContinue] by metis
    qed (use last "1.prems" rd in \<open>(subst (asm) Serve_loop.simps, auto)+\<close>)
  qed (use "1.prems" rd in \<open>(subst (asm) Serve_loop.simps, auto)+\<close>)
qed

section \<open>The bytes handed on\<close>

text \<open>A login handshake followed by a login start: the history is the stream from its first byte.\<close>

lemma Serve_history:
  assumes r1: "ReadPacket (se_zlib e) client [] conn = (Packet p1 raw1, b1, k1)"
    and r2: "ReadPacket (se_zlib e) (SetState client ClientStateLogin) b1 k1 = (Packet p2 raw2, b2, k2)"
    and st: "cl_state client = ClientStateHandshake" and "rp_ID p1 = PacketHandshake"
    and "DecodeHandshake (rp_Data p1) = Ok h" and "hs_NextState h = ToID ClientStateLogin"
    and "rp_ID p2 = PacketServerLoginStart"
    and occ: "Serve e config client conn k w = (ServeOccupy c q, rest)"
  shows "sc_history c @ script_bytes rest = script_bytes conn" and "sc_history c = raw1 @ q"
    and "q = raw2 @ b2"
proof -
  have f: "FromID (ToID ClientStateLogin) = Ok ClientStateLogin" by (simp add: FromID_def)
  have login: "sc_history c = sc_history c0 @ raw2 @ b2 \<and> q = raw2 @ b2"
    if "serve_login e config p2 raw2 b2 c0 = ServeOccupy c q" for c0
    using that by (auto simp: serve_login_def serve_login_allowed_def kick_and_break_def Let_def
        split: if_splits option.splits outcome.splits)
  define c1 where "c1 = \<lparr>sc_client = SetState client ClientStateLogin,
    sc_info = EmptyClientInfo\<lparr>ci_Protocol := Some (hs_ProtocolVersion h), ci_Handshake := Some h\<rparr>,
    sc_history = raw1, sc_sink = k, sc_world = w\<rparr>"
  have "Serve e config client conn k w = Serve_loop e config b1 k1 c1"
    unfolding Serve_def using r1 st assms(4-6) f
    by (subst Serve_loop.simps) (simp add: serve_packet_def serve_handshake_def Let_def c1_def)
  also have "\<dots> = (case serve_login e config p2 raw2 b2 c1 of
       ServeContinue c \<Rightarrow> Serve_loop e config b2 k2 c | ServeBreak c \<Rightarrow> (ServeBreak c, k2)
     | ServeOccupy c q \<Rightarrow> (ServeOccupy c q, k2))"
    using r2 assms(7) by (subst Serve_loop.simps) (simp add: serve_packet_def c1_def SetState_def)
  finally have "serve_login e config p2 raw2 b2 c1 = ServeOccupy c q \<and> rest = k2"
    using occ by (auto simp: serve_login_def serve_login_allowed_def kick_and_break_def Let_def
        split: if_splits option.splits outcome.splits)
  with login [of c1] have h: "sc_history c = raw1 @ raw2 @ b2" "q = raw2 @ b2" "rest = k2"
    by (auto simp: c1_def)
  then show "sc_history c = raw1 @ q" "q = raw2 @ b2" by auto
  show "sc_history c @ script_bytes rest = script_bytes conn"
    using ReadPacket_consumes(1) [OF r1 [unfolded ReadPacket_def]]
      ReadPacket_consumes(1) [OF r2 [unfolded ReadPacket_def]] h by simp
qed

end
