(* ===== verification/Forge.thy ===== *)
theory Forge
  imports Server_State Stream_Read
begin

text \<open>
  \<^verbatim>\<open>forge.go\<close>: the Forge login exchange. \<open>packetDecoder\<close> is the second copy of the field reader and is
  interpreted as a \<open>field_reader\<close>. \<open>relay\<close> passes one login-plugin request of the backend to the real
  client and its answer back, and records the exchange within bounds on their number and their total
  size; the recorded exchanges are replayed for later clients. \<open>respondLoginPluginRequest\<close> is the
  older path that answers for the client.

  Shown here: the recorded cache never exceeds its bounds and is exactly as large as the relay believes;
  a recorded request matches the request it came from under any message id; the mod-list reply names
  what the mod list named; draining responses ends; and what the backend reads in the answers of the
  older path.
\<close>

section \<open>Constants\<close>

definition forgeStatusMagicV2 :: string where
  "forgeStatusMagicV2 = [CHR 0x00] @ ''FML2'' @ [CHR 0x00]"

definition forgeStatusMagicV3 :: string where
  "forgeStatusMagicV3 = [CHR 0x00] @ ''FML3'' @ [CHR 0x00]"

definition forgeStatusMagic :: "u32 \<Rightarrow> string" where
  "forgeStatusMagic protocol = (if ProtocolV1_20_1 \<le> protocol then forgeStatusMagicV3 else forgeStatusMagicV2)"

definition forgeChannelLoginWrapper :: string where "forgeChannelLoginWrapper = ''fml:loginwrapper''"
definition forgeChannelHandshake :: string where "forgeChannelHandshake = ''fml:handshake''"
definition maxForgeLoginExchanges :: nat where "maxForgeLoginExchanges = 512"
definition maxForgeLoginCacheBytes :: nat where "maxForgeLoginCacheBytes = 8388608"

section \<open>packetDecoder\<close>

definition packetDecoder_varInt :: "i32 rd" where
  "packetDecoder_varInt = varInt_loop 0 0"

definition packetDecoder_str :: "nat \<Rightarrow> string rd" where
  "packetDecoder_str maxLen = rd_bind packetDecoder_varInt (\<lambda>n r.
     if sint n < 0 \<or> int (remaining r) < sint n \<or> int maxLen < sint n then (Fail, r)
     else (Ok (string_of_bytes (take (nat (sint n)) (unread r))), advance (nat (sint n)) r))"

definition packetDecoder_strVec :: "string list rd" where
  "packetDecoder_strVec = rd_bind packetDecoder_varInt (\<lambda>n.
     rd_guard (\<not> sint n < 0) (rd_repeat (nat (sint n)) (packetDecoder_str 32767)))"

definition packetDecoder_strPairVec :: "(string \<times> string) list rd" where
  "packetDecoder_strPairVec = rd_bind packetDecoder_varInt (\<lambda>n.
     rd_guard (\<not> sint n < 0) (rd_repeat (nat (sint n))
       (rd_bind (packetDecoder_str 32767) (\<lambda>a. rd_bind (packetDecoder_str 32767) (\<lambda>b. rd_return (a, b))))))"

section \<open>Requests, responses and wrappers\<close>

definition encodeLoginPluginRequest :: "LoginPluginRequest \<Rightarrow> bytes" where
  "encodeLoginPluginRequest request =
     (let w = WriteVarInt NewPacketWriter (lpq_MessageID request);
          w = WriteString w (lpq_Channel request);
          w = Write w (lpq_Data request)
      in Bytes w)"

definition login_response_packet :: "i32 \<Rightarrow> bool \<Rightarrow> bytes \<Rightarrow> RawPacket" where
  "login_response_packet messageID success data =
     NewRawPacket PacketServerLoginPluginResponse
       (Bytes (LoginPluginResponse_Encode
          \<lparr>lpr_MessageID = messageID, lpr_Successful = success, lpr_Data = data\<rparr> NewPacketWriter))"

definition writeForgeLoginResponse ::
  "zlib \<Rightarrow> Client \<Rightarrow> i32 \<Rightarrow> bool \<Rightarrow> bytes \<Rightarrow> sink \<Rightarrow> bool \<times> sink" where
  "writeForgeLoginResponse z client messageID success data c =
     writePacket z client (login_response_packet messageID success data) c"

definition respondForgeLoginPacket_packet ::
  "zlib \<Rightarrow> Client \<Rightarrow> i32 \<Rightarrow> string \<Rightarrow> byte \<Rightarrow> bytes \<Rightarrow> RawPacket outcome" where
  "respondForgeLoginPacket_packet z client messageID forgeChannel forgePacketID forgeData =
     (case EncodeWithoutLen z (NewRawPacket forgePacketID forgeData) client of
        Ok forgePayload \<Rightarrow>
          (let w = WriteString NewPacketWriter forgeChannel;
               w = Write w forgePayload
           in Ok (NewRawPacket PacketServerLoginPluginResponse (Bytes w)))
      | _ \<Rightarrow> Fail)"

definition respondForgeLoginPacket ::
  "zlib \<Rightarrow> Client \<Rightarrow> i32 \<Rightarrow> string \<Rightarrow> byte \<Rightarrow> bytes \<Rightarrow> sink \<Rightarrow> bool \<times> sink" where
  "respondForgeLoginPacket z client messageID forgeChannel forgePacketID forgeData c =
     (case respondForgeLoginPacket_packet z client messageID forgeChannel forgePacketID forgeData of
        Ok response \<Rightarrow> writePacket z client response c
      | _ \<Rightarrow> (False, c))"

record forgeLoginWrapper =
  fw_messageID :: i32
  fw_channel :: string
  fw_packetID :: byte
  fw_data :: bytes

definition decodeForgeLoginPacket :: "zlib \<Rightarrow> Client \<Rightarrow> LoginPluginRequest \<Rightarrow> forgeLoginWrapper outcome" where
  "decodeForgeLoginPacket z client request =
     (if lpq_Channel request \<noteq> forgeChannelLoginWrapper then Fail
      else case packetDecoder_str 32767 (cursor_at (lpq_Data request) 0) of
        (Ok channel, r) \<Rightarrow>
          (case DecodeWithoutLen z client (unread r) of
             Ok inner \<Rightarrow>
               Ok \<lparr>fw_messageID = lpq_MessageID request, fw_channel = channel,
                   fw_packetID = rp_ID inner, fw_data = rp_Data inner\<rparr>
           | _ \<Rightarrow> Fail)
      | _ \<Rightarrow> Fail)"

definition forgeModListReply :: "bytes \<Rightarrow> bytes outcome" where
  "forgeModListReply data = run_decoder
     (rd_bind packetDecoder_strVec (\<lambda>modNames.
      rd_bind packetDecoder_strPairVec (\<lambda>channels.
      rd_bind packetDecoder_strVec (\<lambda>registries.
      rd_return
        (let w = NewPacketWriter;
             w = WriteVarInt w (word_of_nat (length modNames));
             w = foldl (\<lambda>w s. WriteString w s) w modNames;
             w = WriteVarInt w (word_of_nat (length channels));
             w = foldl (\<lambda>w p. WriteString (WriteString w (fst p)) (snd p)) w channels;
             w = WriteVarInt w (word_of_nat (length registries));
             w = foldl (\<lambda>w s. WriteString (WriteString w s) []) w registries
         in Bytes w))))) data"

definition respondLoginPluginRequest :: "zlib \<Rightarrow> Client \<Rightarrow> LoginPluginRequest \<Rightarrow> sink \<Rightarrow> bool \<times> sink" where
  "respondLoginPluginRequest z client request c =
     (case decodeForgeLoginPacket z client request of
        Ok wrapper \<Rightarrow>
          (let isUnknownHeader = fw_channel wrapper \<noteq> forgeChannelHandshake;
               isModList = \<not> isUnknownHeader \<and> fw_packetID wrapper = ucast ForgeModList
           in if \<not> isModList then
                respondForgeLoginPacket z client (fw_messageID wrapper) (fw_channel wrapper)
                  (ucast ForgeAcknowledgement) [] c
              else case forgeModListReply (fw_data wrapper) of
                Ok reply \<Rightarrow>
                  respondForgeLoginPacket z client (fw_messageID wrapper) (fw_channel wrapper)
                    (ucast ForgeModListReply) reply c
              | _ \<Rightarrow> (False, c))
      | _ \<Rightarrow> (False, c))"

text \<open>The inner channel and packet id of a wrapper whose inner channel is the handshake's.\<close>

definition inspectForgeLoginWrapper :: "LoginPluginRequest \<Rightarrow> (string \<times> i32) option" where
  "inspectForgeLoginWrapper request =
     (if lpq_Channel request \<noteq> forgeChannelLoginWrapper then None
      else case packetDecoder_str 32767 (cursor_at (lpq_Data request) 0) of
        (Ok innerChannel, r) \<Rightarrow>
          if innerChannel \<noteq> forgeChannelHandshake then None
          else (case packetDecoder_varInt r of
             (Ok innerLength, r) \<Rightarrow>
               if sint innerLength \<le> 0 \<or> int (remaining r) < sint innerLength then None
               else (case packetDecoder_varInt r of
                  (Ok innerPacketID, r) \<Rightarrow> Some (innerChannel, innerPacketID)
                | _ \<Rightarrow> None)
           | _ \<Rightarrow> None)
      | _ \<Rightarrow> None)"

section \<open>The relay\<close>

record forgeLoginRelay =
  fr_client :: Client
  fr_conn :: script
  fr_buf :: bytes
  fr_sink :: sink
  fr_exchanges :: "ForgeLoginExchange list"
  fr_clientID :: i32
  fr_cacheBytes :: nat

definition newForgeLoginRelay :: "Client \<Rightarrow> script \<Rightarrow> bytes \<Rightarrow> sink \<Rightarrow> forgeLoginRelay" where
  "newForgeLoginRelay client conn buf k =
     \<lparr>fr_client = client, fr_conn = conn, fr_buf = buf, fr_sink = k, fr_exchanges = [],
      fr_clientID = 0, fr_cacheBytes = 0\<rparr>"

text \<open>The second half of \<^verbatim>\<open>relay\<close>: read the client's answer, check and record it, and pass it on.\<close>

definition relay_answer ::
  "zlib \<Rightarrow> Client \<Rightarrow> LoginPluginRequest \<Rightarrow> i32 \<Rightarrow> bytes \<Rightarrow> forgeLoginRelay \<Rightarrow> sink \<Rightarrow>
   bool \<times> forgeLoginRelay \<times> sink" where
  "relay_answer z tmpClient request clientMessageID encodedRequest r outbound =
     (case ReadPacketWithTimeout z (fr_client r) (fr_buf r) (fr_conn r) of
        (Packet responsePacket raw, buf, conn) \<Rightarrow>
          (let r = r\<lparr>fr_buf := buf, fr_conn := conn\<rparr>
           in if rp_ID responsePacket \<noteq> PacketServerLoginPluginResponse then (False, r, outbound)
              else (case DecodeLoginPluginResponse (rp_Data responsePacket) of
                Ok response \<Rightarrow>
                  if lpr_MessageID response \<noteq> clientMessageID then (False, r, outbound)
                  else if MaxPacketLength < length (lpr_Data response) \<or>
                          maxForgeLoginCacheBytes <
                            fr_cacheBytes r + length encodedRequest + length (lpr_Data response)
                  then (False, r, outbound)
                  else
                    let r = r\<lparr>fr_exchanges := fr_exchanges r @
                                [\<lparr>fx_Request = encodedRequest, fx_Success = lpr_Successful response,
                                  fx_Data = lpr_Data response, fx_NoResponse = False\<rparr>],
                              fr_cacheBytes := fr_cacheBytes r +
                                (length encodedRequest + length (lpr_Data response))\<rparr>;
                        (ok, outbound) = writeForgeLoginResponse z tmpClient (lpq_MessageID request)
                          (lpr_Successful response) (lpr_Data response) outbound
                    in (ok, r, outbound)
              | _ \<Rightarrow> (False, r, outbound)))
      | (CleanEOF, buf, conn) \<Rightarrow> (False, r\<lparr>fr_buf := buf, fr_conn := conn\<rparr>, outbound)
      | (ReadError e, buf, conn) \<Rightarrow> (False, r\<lparr>fr_buf := buf, fr_conn := conn\<rparr>, outbound))"

definition relay ::
  "zlib \<Rightarrow> Client \<Rightarrow> LoginPluginRequest \<Rightarrow> forgeLoginRelay \<Rightarrow> sink \<Rightarrow> bool \<times> forgeLoginRelay \<times> sink" where
  "relay z tmpClient request r outbound =
     (if maxForgeLoginExchanges \<le> length (fr_exchanges r) then (False, r, outbound)
      else
        let r = (if lpq_Channel request = forgeChannelLoginWrapper
                 then r\<lparr>fr_clientID := fr_clientID r + 1\<rparr> else r);
            clientMessageID = (if lpq_Channel request = forgeChannelLoginWrapper
                               then fr_clientID r else lpq_MessageID request);
            clientRequest = request\<lparr>lpq_MessageID := clientMessageID\<rparr>;
            encodedRequest = encodeLoginPluginRequest clientRequest
        in if MaxPacketLength < length encodedRequest \<or>
              maxForgeLoginCacheBytes < fr_cacheBytes r + length encodedRequest
           then (False, r, outbound)
           else case writePacket z (fr_client r)
                       (NewRawPacket PacketClientLoginPluginRequest encodedRequest) (fr_sink r) of
             (False, k) \<Rightarrow> (False, r\<lparr>fr_sink := k\<rparr>, outbound)
           | (True, k) \<Rightarrow>
               let r = r\<lparr>fr_sink := k\<rparr>;
                   noResponse = (case inspectForgeLoginWrapper request of
                     Some (innerChannel, innerPacketID) \<Rightarrow>
                       innerChannel = forgeChannelHandshake \<and> innerPacketID = 5
                   | None \<Rightarrow> False)
               in if noResponse then
                    (True,
                     r\<lparr>fr_exchanges := fr_exchanges r @
                         [\<lparr>fx_Request = encodedRequest, fx_Success = False, fx_Data = [], fx_NoResponse = True\<rparr>],
                       fr_cacheBytes := fr_cacheBytes r + length encodedRequest\<rparr>,
                     outbound)
                  else relay_answer z tmpClient request clientMessageID encodedRequest r outbound)"

definition relayForgeLoginRequest ::
  "zlib \<Rightarrow> Client \<Rightarrow> LoginPluginRequest \<Rightarrow> forgeLoginRelay \<Rightarrow> sink \<Rightarrow> bool \<times> forgeLoginRelay \<times> sink" where
  "relayForgeLoginRequest z tmpClient request r outbound =
     (if lpq_Channel request \<noteq> forgeChannelLoginWrapper then
        (case writeForgeLoginResponse z tmpClient (lpq_MessageID request) False [] outbound of
           (ok, outbound) \<Rightarrow> (ok, r, outbound))
      else relay z tmpClient request r outbound)"

definition commit :: "forgeLoginRelay \<Rightarrow> ServerState \<Rightarrow> ServerState" where
  "commit r s = (if fr_exchanges r \<noteq> [] then SetForgeLoginCache (fr_exchanges r) s else s)"

definition cachedForgeRequestMatches :: "ForgeLoginExchange \<Rightarrow> LoginPluginRequest \<Rightarrow> bool" where
  "cachedForgeRequestMatches exchange request =
     (case DecodeLoginPluginRequest (fx_Request exchange) of
        Ok cached \<Rightarrow> lpq_Channel cached = lpq_Channel request \<and> lpq_Data cached = lpq_Data request
      | _ \<Rightarrow> False)"

definition isForgeFML3 :: "ClientInfo \<Rightarrow> bool" where
  "isForgeFML3 clientInfo =
     (case GetProtocol clientInfo of Some p \<Rightarrow> ProtocolV1_20_1 \<le> p | None \<Rightarrow> False)"

section \<open>Replaying\<close>

text \<open>The end of the exchange with a cold client: \<open>True\<close> is a nil error. A read that times out ends it
  without an error.\<close>

function drainForgeResponses ::
  "zlib \<Rightarrow> Client \<Rightarrow> nat \<Rightarrow> bytes \<Rightarrow> script \<Rightarrow> bool \<times> bytes \<times> script" where
  "drainForgeResponses z client count buf conn =
     (if count = 0 then (True, buf, conn)
      else case ReadPacket z client buf conn of
        (ReadError e, buf, conn) \<Rightarrow> (e = ErrTimeout, buf, conn)
      | (CleanEOF, buf, conn) \<Rightarrow> (True, buf, conn)
      | (Packet packet raw, buf, conn) \<Rightarrow>
          if cl_state client = ClientStateLogin \<and> rp_ID packet = PacketServerLoginPluginResponse
          then drainForgeResponses z client (count - 1) buf conn
          else drainForgeResponses z client count buf conn)"
  by pat_completeness auto
termination
  by (relation "measure (\<lambda>(z, client, count, buf, conn). length (buf @ script_bytes conn))")
    (auto simp: ReadPacket_def dest!: ReadPacket_shrinks [OF sym])

declare drainForgeResponses.simps [simp del]

definition replayForgeLoginPayload ::
  "zlib \<Rightarrow> Client \<Rightarrow> ServerState \<Rightarrow> bytes \<Rightarrow> script \<Rightarrow> sink \<Rightarrow> bool \<times> bytes \<times> script \<times> sink" where
  "replayForgeLoginPayload z client server buf conn k =
     (let cache = ForgeLoginCache server
      in case writePackets z client
                (map (\<lambda>x. NewRawPacket PacketClientLoginPluginRequest (fx_Request x)) cache) k of
           (False, k) \<Rightarrow> (False, buf, conn, k)
         | (True, k) \<Rightarrow>
             (case drainForgeResponses z client (length (filter (\<lambda>x. \<not> fx_NoResponse x) cache)) buf conn of
                (ok, buf, conn) \<Rightarrow> (ok, buf, conn, k)))"

definition replayForgeLoginResponse ::
  "zlib \<Rightarrow> Client \<Rightarrow> ForgeLoginExchange \<Rightarrow> i32 \<Rightarrow> sink \<Rightarrow> bool \<times> sink" where
  "replayForgeLoginResponse z client exchange messageID c =
     writeForgeLoginResponse z client messageID (fx_Success exchange) (fx_Data exchange) c"

text \<open>The older probe payload: write errors are logged and ignored.\<close>

definition replayLoginPayload ::
  "zlib \<Rightarrow> Client \<Rightarrow> ServerState \<Rightarrow> bytes \<Rightarrow> script \<Rightarrow> sink \<Rightarrow> bool \<times> bytes \<times> script \<times> sink" where
  "replayLoginPayload z client server buf conn k =
     (let k = foldl (\<lambda>k packet. snd (conn_Write packet k)) k (ForgePayload server)
      in case drainForgeResponses z client (length (ForgePayload server)) buf conn of
           (ok, buf, conn) \<Rightarrow> (ok, buf, conn, k))"

definition contains :: "string \<Rightarrow> string \<Rightarrow> bool" where
  "contains s sub \<longleftrightarrow> (\<exists>n \<in> {0..<Suc (length s)}. HasPrefix (drop n s) sub)"

definition forgeHandshakeMarker :: "ClientInfo option \<Rightarrow> string" where
  "forgeHandshakeMarker clientInfo =
     (case clientInfo of
        None \<Rightarrow> ''absent''
      | Some info \<Rightarrow>
          (case ci_Handshake info of
             None \<Rightarrow> ''absent''
           | Some h \<Rightarrow>
               if contains (hs_ServerAddr h) forgeStatusMagicV3 then ''FML3''
               else if contains (hs_ServerAddr h) forgeStatusMagicV2 then ''FML2''
               else ''absent''))"

section \<open>The decoder's fields\<close>

lemma packetDecoder_str_body:
  "packetDecoder_str maxLen = rd_bind packetDecoder_varInt (str_body (\<lambda>n. n \<le> maxLen))"
  unfolding packetDecoder_str_def str_body_def
  by (intro arg_cong [where f = "rd_bind packetDecoder_varInt"] ext) (auto simp: nat_le_iff)

lemma reads_packetDecoder_varInt: "reads packetDecoder_varInt (EncodeVarInt v) v"
  by (simp add: packetDecoder_varInt_def reads_varInt)

interpretation packet_decoder: field_reader packetDecoder_varInt "packetDecoder_str maxLen" "\<lambda>n. n \<le> maxLen"
  for maxLen
proof unfold_locales
  show inside: "stays_inside packetDecoder_varInt"
    by (simp add: packetDecoder_varInt_def stays_inside_varInt_loop)
  then show "stays_inside (packetDecoder_str maxLen)"
    unfolding packetDecoder_str_body by (intro cursor_ok)
  show "reads packetDecoder_varInt (EncodeVarInt v) v" for v by (rule reads_packetDecoder_varInt)
  show "reads (packetDecoder_str maxLen) (wire_string s) s"
    if "length s \<le> maxLen" "length s < 2 ^ 31" for s
    unfolding packetDecoder_str_body wire_string_def
    by (rule reads_bind, rule reads_packetDecoder_varInt, rule reads_str_body) (use that in auto)
qed

section \<open>The mod-list reply\<close>

definition wire_strings :: "string list \<Rightarrow> bytes" where
  "wire_strings xs = EncodeVarInt (word_of_nat (length xs)) @ concat (map wire_string xs)"

definition wire_pairs :: "(string \<times> string) list \<Rightarrow> bytes" where
  "wire_pairs ps = EncodeVarInt (word_of_nat (length ps)) @
     concat (map (\<lambda>p. wire_string (fst p) @ wire_string (snd p)) ps)"

definition short_strings :: "string list \<Rightarrow> bool" where
  "short_strings xs \<longleftrightarrow> length xs < 2 ^ 31 \<and> (\<forall>s \<in> set xs. length s \<le> 32767)"

lemma reads_strVec: "short_strings xs \<Longrightarrow> reads packetDecoder_strVec (wire_strings xs) xs"
  unfolding packetDecoder_strVec_def wire_strings_def
  by (rule packet_decoder.string_list_reads) (fastforce simp: short_strings_def)+

lemma reads_strPairVec:
  assumes "short_strings (map fst ps)" and "short_strings (map snd ps)"
  shows "reads packetDecoder_strPairVec (wire_pairs ps) ps"
  unfolding packetDecoder_strPairVec_def wire_pairs_def
proof (rule packet_decoder.counted_reads)
  fix p assume p: "p \<in> set ps"
  obtain a b where ab: "p = (a, b)" by (cases p)
  have "length a \<le> 32767" "length b \<le> 32767" using assms p ab by (force simp: short_strings_def)+
  then show "reads (rd_bind (packetDecoder_str 32767) (\<lambda>a. rd_bind (packetDecoder_str 32767) (\<lambda>b. rd_return (a, b))))
      (wire_string (fst p) @ wire_string (snd p)) p"
    unfolding ab using packet_decoder.string_pair_reads [of a 32767 b] by simp
qed (use assms in \<open>simp add: short_strings_def\<close>)

lemma fold_WritePairs:
  "pw_buf (foldl (\<lambda>w p. WriteString (WriteString w (fst p)) (snd p)) w ps) =
     pw_buf w @ concat (map (\<lambda>p. wire_string (fst p) @ wire_string (snd p)) ps)"
  "pw_buf (foldl (\<lambda>w s. WriteString (WriteString w s) []) w xs) =
     pw_buf w @ concat (map (\<lambda>s. wire_string s @ wire_string []) xs)"
  by (induction ps arbitrary: w, simp_all add: wire_simps, induction xs arbitrary: w, simp_all add: wire_simps)

lemma forgeModListReply_reply:
  assumes "short_strings mods" "short_strings (map fst chans)" "short_strings (map snd chans)"
    "short_strings regs"
  shows "forgeModListReply (wire_strings mods @ wire_pairs chans @ wire_strings regs @ rest) =
    Ok (wire_strings mods @ wire_pairs chans @ wire_pairs (map (\<lambda>s. (s, [])) regs))"
proof -
  have "reads (rd_bind packetDecoder_strVec (\<lambda>modNames.
      rd_bind packetDecoder_strPairVec (\<lambda>channels.
      rd_bind packetDecoder_strVec (\<lambda>registries. rd_return (f modNames channels registries)))))
    (wire_strings mods @ wire_pairs chans @ wire_strings regs) (f mods chans regs)" for f :: "_ \<Rightarrow> _ \<Rightarrow> _ \<Rightarrow> bytes"
    by (rule reads_bind [OF reads_strVec [OF assms(1)]], rule reads_bind [OF reads_strPairVec [OF assms(2,3)]],
        rule reads_map [OF reads_strVec [OF assms(4)]])
  note run = reads_run [OF this, where post = rest]
  show ?thesis
    unfolding forgeModListReply_def using run
    by (simp add: wire_simps fold_WritePairs wire_strings_def wire_pairs_def comp_def Let_def)
qed

section \<open>Recorded requests\<close>

lemma encodeLoginPluginRequest_wire:
  "encodeLoginPluginRequest q = EncodeVarInt (lpq_MessageID q) @ wire_string (lpq_Channel q) @ lpq_Data q"
  by (simp add: encodeLoginPluginRequest_def wire_simps Let_def)

lemma DecodeLoginPluginRequest_encode:
  "length (lpq_Channel q) \<le> 32767 \<Longrightarrow> DecodeLoginPluginRequest (encodeLoginPluginRequest q) = Ok q"
  unfolding encodeLoginPluginRequest_wire by (rule reads_end_LoginPluginRequest)

lemma cached_matches:
  assumes "length (lpq_Channel q) \<le> 32767" and "fx_Request x = encodeLoginPluginRequest (q\<lparr>lpq_MessageID := m\<rparr>)"
  shows "cachedForgeRequestMatches x q' \<longleftrightarrow> lpq_Channel q' = lpq_Channel q \<and> lpq_Data q' = lpq_Data q"
  using assms DecodeLoginPluginRequest_encode [of "q\<lparr>lpq_MessageID := m\<rparr>"]
  by (auto simp: cachedForgeRequestMatches_def)

section \<open>Bounds of the relay\<close>

definition exchange_size :: "ForgeLoginExchange \<Rightarrow> nat" where
  "exchange_size x = length (fx_Request x) + length (fx_Data x)"

definition relay_inv :: "forgeLoginRelay \<Rightarrow> bool" where
  "relay_inv r \<longleftrightarrow>
     length (fr_exchanges r) \<le> maxForgeLoginExchanges \<and>
     fr_cacheBytes r = sum_list (map exchange_size (fr_exchanges r)) \<and>
     fr_cacheBytes r \<le> maxForgeLoginCacheBytes"

lemma relay_inv_new: "relay_inv (newForgeLoginRelay client conn buf k)"
  by (simp add: relay_inv_def newForgeLoginRelay_def)

text \<open>A step of the relay keeps the record or adds one exchange that is within the bounds.\<close>

definition adds_exchange :: "forgeLoginRelay \<Rightarrow> forgeLoginRelay \<Rightarrow> bool" where
  "adds_exchange r r' \<longleftrightarrow>
     fr_exchanges r' = fr_exchanges r \<and> fr_cacheBytes r' = fr_cacheBytes r \<or>
     (\<exists>x. fr_exchanges r' = fr_exchanges r @ [x] \<and>
        fr_cacheBytes r' = fr_cacheBytes r + exchange_size x \<and>
        length (fr_exchanges r) < maxForgeLoginExchanges \<and>
        fr_cacheBytes r' \<le> maxForgeLoginCacheBytes)"

lemma relay_answer_adds:
  assumes "length (fr_exchanges r) < maxForgeLoginExchanges"
  shows "adds_exchange r (fst (snd (relay_answer z tmpClient request m encoded r outbound)))"
  using assms
  by (auto simp: relay_answer_def Let_def adds_exchange_def exchange_size_def not_less
      split: prod.splits read_result.splits outcome.splits)

lemma adds_exchange_frame:
  "adds_exchange r r' \<Longrightarrow> fr_exchanges r = fr_exchanges q \<Longrightarrow> fr_cacheBytes r = fr_cacheBytes q \<Longrightarrow>
   adds_exchange q r'"
  by (simp add: adds_exchange_def)

lemma relay_adds: "adds_exchange r (fst (snd (relay z tmpClient request r outbound)))"
proof (cases "length (fr_exchanges r) < maxForgeLoginExchanges")
  case True
  define r1 where "r1 = (if lpq_Channel request = forgeChannelLoginWrapper
    then r\<lparr>fr_clientID := fr_clientID r + 1\<rparr> else r)"
  have r1: "fr_exchanges r1 = fr_exchanges r" "fr_cacheBytes r1 = fr_cacheBytes r" by (simp_all add: r1_def)
  have answer: "adds_exchange r (fst (snd (relay_answer z tmpClient request m encoded (r1\<lparr>fr_sink := k\<rparr>) outbound)))"
    for m encoded k
    by (rule adds_exchange_frame [OF relay_answer_adds]) (use True r1 in simp_all)
  have keep: "adds_exchange r r1" "adds_exchange r (r1\<lparr>fr_sink := k\<rparr>)" for k
    by (simp_all add: adds_exchange_def r1)
  have silent: "adds_exchange r (r1\<lparr>fr_sink := k, fr_exchanges := fr_exchanges r1 @
      [\<lparr>fx_Request = b, fx_Success = False, fx_Data = [], fx_NoResponse = True\<rparr>],
      fr_cacheBytes := fr_cacheBytes r1 + length b\<rparr>)"
    if "\<not> maxForgeLoginCacheBytes < fr_cacheBytes r1 + length b" for k b
    using True that by (simp add: adds_exchange_def r1 exchange_size_def)
  show ?thesis
    unfolding relay_def r1_def [symmetric] Let_def
    using True answer keep silent by (simp add: case_prod_beta split: bool.splits)
next
  case False
  then show ?thesis by (simp add: relay_def adds_exchange_def)
qed

lemma adds_exchange_inv: "adds_exchange r r' \<Longrightarrow> relay_inv r \<Longrightarrow> relay_inv r'"
  by (auto simp: adds_exchange_def relay_inv_def)

lemma relay_keeps_inv:
  "relay_inv r \<Longrightarrow> relay_inv (fst (snd (relayForgeLoginRequest z tmpClient request r outbound)))"
  using adds_exchange_inv [OF relay_adds]
  by (auto simp: relayForgeLoginRequest_def split: prod.splits)

lemma commit_bounded:
  assumes "relay_inv r"
  shows "fr_exchanges r \<noteq> [] \<longrightarrow>
    length (ForgeLoginCache (commit r s)) \<le> maxForgeLoginExchanges \<and>
    sum_list (map exchange_size (ForgeLoginCache (commit r s))) \<le> maxForgeLoginCacheBytes \<and>
    ForgeLoginCache (commit r s) = fr_exchanges r"
proof -
  have copy: "copy_exchange x = x" for x by (cases x) (simp add: copy_exchange_def)
  show ?thesis using assms by (auto simp: commit_def ForgeLoginCache_def SetForgeLoginCache_def relay_inv_def copy comp_def)
qed

section \<open>The answers of the older path\<close>

text \<open>The answer is written without a message id and without a success flag: the backend reads the
  length of the channel name as the id.\<close>

lemma respondForge_decoded:
  assumes "respondForgeLoginPacket_packet z client messageID channel pid data = Ok p"
    and "channel \<noteq> []" and "CHR 0x00 \<notin> set channel"
  shows "\<exists>rest. DecodeLoginPluginResponse (rp_Data p) =
    Ok \<lparr>lpr_MessageID = word_of_nat (length channel), lpr_Successful = True, lpr_Data = rest\<rparr>"
proof -
  from assms(1) obtain payload where p: "rp_Data p = wire_string channel @ payload"
    by (auto simp: respondForgeLoginPacket_packet_def wire_simps NewRawPacket_def Let_def split: outcome.splits)
  obtain ch s where ch: "channel = ch # s" using assms(2) by (cases channel) auto
  have "byte_of_char ch \<noteq> 0"
  proof
    assume "byte_of_char ch = 0"
    then have "char_of_byte (byte_of_char ch) = char_of_byte 0" by simp
    also have "char_of_byte 0 = CHR 0x00" by code_simp
    finally show False using assms(3) ch by simp
  qed
  then have "reads_end (rd_bind packetReader_bool (\<lambda>successful. rd_bind packetReader_rest (\<lambda>rest.
        rd_return \<lparr>lpr_MessageID = word_of_nat (length channel), lpr_Successful = successful, lpr_Data = rest\<rparr>)))
      ([byte_of_char ch] @ bytes_of_string s @ payload)
      \<lparr>lpr_MessageID = word_of_nat (length channel), lpr_Successful = True, lpr_Data = bytes_of_string s @ payload\<rparr>"
    by (intro reads_end_bind [where a = True] rest_step)
      (simp_all add: reads_def packetReader_bool_eq packetReader_remaining_def)
  then have "reads_end (rd_bind packetReader_varInt (\<lambda>msgID. rd_bind packetReader_bool (\<lambda>successful.
        rd_bind packetReader_rest (\<lambda>rest.
        rd_return \<lparr>lpr_MessageID = msgID, lpr_Successful = successful, lpr_Data = rest\<rparr>))))
      (EncodeVarInt (word_of_nat (length channel)) @ [byte_of_char ch] @ bytes_of_string s @ payload)
      \<lparr>lpr_MessageID = word_of_nat (length channel), lpr_Successful = True, lpr_Data = bytes_of_string s @ payload\<rparr>"
    by (rule reads_end_bind [OF reads_packetReader_varInt])
  from reads_end_run [OF this] show ?thesis
    unfolding DecodeLoginPluginResponse_def p wire_string_def by (auto simp: ch simp del: of_nat_Suc)
qed

end
