(* ===== verification/Join.thy ===== *)
theory Join
  imports Service Serve Proxy_Stream Forge
begin

text \<open>
  The join methods: \<^verbatim>\<open>join.go\<close> and \<^verbatim>\<open>join_kick.go\<close>, \<^verbatim>\<open>join_hold.go\<close>, \<^verbatim>\<open>join_forward.go\<close>,
  \<^verbatim>\<open>join_lobby.go\<close>. While a method runs, other goroutines change the server; what the \<open>i\<close>-th method sees is
  the \<open>i\<close>-th moment: the server state and the admission counters when it runs, and the states its
  subscription receives before its timeout. The lobby itself is a component of its own: here a client that
  enters it is handed over with its login queue.

  Shown here: where a client can end up and with which bytes, that a validated online-mode gateway sends
  its clients to the lobby, and the exception to that.
\<close>

section \<open>The methods\<close>

record join_moment =
  jm_server :: ServerState
  jm_states :: "State list"
  jm_admission :: connectionAdmission

datatype occupied =
    OccKicked
  | OccProxied ProxyHeader SocketAddr bytes
  | OccNoSlot
  | OccLobby bytes
  | OccDisconnected

definition routeProxyAddressQueue ::
  "ProxyHeader \<Rightarrow> SocketAddr \<Rightarrow> bytes \<Rightarrow> connectionAdmission \<Rightarrow> occupied \<times> connectionAdmission" where
  "routeProxyAddressQueue proxyHeader addr queue a =
     (case acquireProxy a of
        (True, a) \<Rightarrow> (OccProxied proxyHeader addr queue, a)
      | (False, a) \<Rightarrow> (OccNoSlot, a))"

text \<open>The deferred calls of the goroutine it starts.\<close>

definition routeProxyAddressQueue_return :: "connectionAdmission \<Rightarrow> connectionAdmission" where
  "routeProxyAddressQueue_return a = releaseProxy a"

definition routeProxyQueue :: "Config \<Rightarrow> bytes \<Rightarrow> connectionAdmission \<Rightarrow> occupied \<times> connectionAdmission" where
  "routeProxyQueue config queue a =
     routeProxyAddressQueue (NotNone ProxyHeaderProxy (sv_SendProxyV2 (cfg_Server config)))
       (sv_Address (cfg_Server config)) queue a"

text \<open>A method either consumes the client or leaves it to the next method (\<open>None\<close>).\<close>

definition kickOccupy ::
  "zlib \<Rightarrow> Client \<Rightarrow> Config \<Rightarrow> ServerState \<Rightarrow> sink \<Rightarrow> occupied option \<times> sink" where
  "kickOccupy z client config server k =
     (let msg = (case ss_state server of
                   StateStopping \<Rightarrow> jk_Stopping (jo_Kick (cfg_Join config))
                 | _ \<Rightarrow> jk_Starting (jo_Kick (cfg_Join config)))
      in (Some OccKicked, snd (Kick z client msg k)))"

text \<open>The states received before the timeout decide; running out of them is the timeout.\<close>

fun holdClient :: "State list \<Rightarrow> bool" where
  "holdClient [] = False"
| "holdClient (StateStarting # states) = holdClient states"
| "holdClient (StateStarted # states) = True"
| "holdClient (StateStopping # states) = False"
| "holdClient (StateStopped # states) = False"

definition holdOccupy ::
  "Config \<Rightarrow> join_moment \<Rightarrow> bytes \<Rightarrow> occupied option \<times> connectionAdmission" where
  "holdOccupy config m inboundHistory =
     (if ss_state (jm_server m) \<noteq> StateStarting then (None, jm_admission m)
      else if holdClient (jm_states m)
      then (case routeProxyQueue config inboundHistory (jm_admission m) of (r, a) \<Rightarrow> (Some r, a))
      else (None, jm_admission m))"

definition forwardOccupy ::
  "Config \<Rightarrow> join_moment \<Rightarrow> bytes \<Rightarrow> occupied option \<times> connectionAdmission" where
  "forwardOccupy config m inboundHistory =
     (case routeProxyAddressQueue (NotNone ProxyHeaderProxy (jf_SendProxyV2 (jo_Forward (cfg_Join config))))
             (jf_Address (jo_Forward (cfg_Join config))) inboundHistory (jm_admission m) of
        (r, a) \<Rightarrow> (Some r, a))"

definition mustProbe :: "Config \<Rightarrow> bool" where
  "mustProbe config = sv_Forge (cfg_Server config)"

definition mustStillProbe :: "Config \<Rightarrow> ServerState \<Rightarrow> ClientInfo \<Rightarrow> bool" where
  "mustStillProbe config server clientInfo =
     (if sv_Forge (cfg_Server config) \<and> isForgeFML3 clientInfo then False
      else mustProbe config \<and> ProbedJoinGame server = None)"

definition lobbyOccupy :: "ClientInfo \<Rightarrow> Config \<Rightarrow> ServerState \<Rightarrow> bytes \<Rightarrow> occupied option" where
  "lobbyOccupy clientInfo config server inboundQueue =
     (if mustStillProbe config server clientInfo then None else Some (OccLobby inboundQueue))"

section \<open>The loop over the configured methods\<close>

definition run_method ::
  "zlib \<Rightarrow> Client \<Rightarrow> ClientInfo \<Rightarrow> Config \<Rightarrow> Method \<Rightarrow> join_moment \<Rightarrow> bytes \<Rightarrow> bytes \<Rightarrow> sink \<Rightarrow>
   occupied option \<times> sink \<times> connectionAdmission" where
  "run_method z client clientInfo config method m inboundHistory loginQueue k =
     (case method of
        MethodKick \<Rightarrow>
          (case kickOccupy z client config (jm_server m) k of (r, k) \<Rightarrow> (r, k, jm_admission m))
      | MethodHold \<Rightarrow> (case holdOccupy config m inboundHistory of (r, a) \<Rightarrow> (r, k, a))
      | MethodForward \<Rightarrow> (case forwardOccupy config m inboundHistory of (r, a) \<Rightarrow> (r, k, a))
      | MethodLobby \<Rightarrow> (lobbyOccupy clientInfo config (jm_server m) loginQueue, k, jm_admission m))"

fun Occupy_loop ::
  "zlib \<Rightarrow> Client \<Rightarrow> ClientInfo \<Rightarrow> Config \<Rightarrow> Method list \<Rightarrow> (nat \<Rightarrow> join_moment) \<Rightarrow> bytes \<Rightarrow> bytes \<Rightarrow> sink \<Rightarrow>
   occupied \<times> sink" where
  "Occupy_loop z client clientInfo config [] moments inboundHistory loginQueue k = (OccDisconnected, k)"
| "Occupy_loop z client clientInfo config (method # methods) moments inboundHistory loginQueue k =
     (case run_method z client clientInfo config method (moments 0) inboundHistory loginQueue k of
        (Some r, k', _) \<Rightarrow> (r, k')
      | (None, k', _) \<Rightarrow>
          Occupy_loop z client clientInfo config methods (\<lambda>i. moments (Suc i)) inboundHistory loginQueue k')"

definition Occupy ::
  "zlib \<Rightarrow> Client \<Rightarrow> ClientInfo \<Rightarrow> Config \<Rightarrow> (nat \<Rightarrow> join_moment) \<Rightarrow> bytes \<Rightarrow> bytes \<Rightarrow> sink \<Rightarrow>
   occupied \<times> sink" where
  "Occupy z client clientInfo config moments inboundHistory loginQueue k =
     Occupy_loop z client clientInfo config (jo_Methods (cfg_Join config)) moments inboundHistory loginQueue k"

section \<open>Where a client ends up\<close>

lemma holdClient_iff:
  "holdClient states \<longleftrightarrow> (\<exists>n ys. states = replicate n StateStarting @ StateStarted # ys)"
proof (induction states rule: holdClient.induct)
  case (2 states)
  show ?case
  proof
    assume "holdClient (StateStarting # states)"
    then obtain n ys where "states = replicate n StateStarting @ StateStarted # ys" using 2 by auto
    then show "\<exists>n ys. StateStarting # states = replicate n StateStarting @ StateStarted # ys"
      by (metis append_Cons replicate_Suc)
  next
    assume "\<exists>n ys. StateStarting # states = replicate n StateStarting @ StateStarted # ys"
    then obtain n ys where "StateStarting # states = replicate n StateStarting @ StateStarted # ys" by blast
    then show "holdClient (StateStarting # states)" using 2 by (cases n) auto
  qed
qed (auto simp: Cons_eq_append_conv Cons_replicate_eq intro: exI [of _ 0])

text \<open>What can be said of a client that is proxied: to which address, with which header and bytes, and why.\<close>

definition proxied_properly ::
  "Config \<Rightarrow> Method list \<Rightarrow> (nat \<Rightarrow> join_moment) \<Rightarrow> bytes \<Rightarrow> ProxyHeader \<Rightarrow> SocketAddr \<Rightarrow> bytes \<Rightarrow> bool" where
  "proxied_properly config methods moments history h addr queue \<longleftrightarrow>
     queue = history \<and>
     (\<exists>i < length methods.
        methods ! i = MethodHold \<and> addr = sv_Address (cfg_Server config) \<and>
          h = NotNone ProxyHeaderProxy (sv_SendProxyV2 (cfg_Server config)) \<and>
          ss_state (jm_server (moments i)) = StateStarting \<and> holdClient (jm_states (moments i)) \<or>
        methods ! i = MethodForward \<and> addr = jf_Address (jo_Forward (cfg_Join config)) \<and>
          h = NotNone ProxyHeaderProxy (jf_SendProxyV2 (jo_Forward (cfg_Join config))))"

lemma Occupy_loop_proxied:
  "Occupy_loop z client clientInfo config methods moments history loginQueue k = (OccProxied h addr queue, k') \<Longrightarrow>
   proxied_properly config methods moments history h addr queue"
proof (induction methods arbitrary: moments k)
  case (Cons m ms)
  show ?case
  proof (cases "fst (run_method z client clientInfo config m (moments 0) history loginQueue k)")
    case None
    then obtain k1 a where "run_method z client clientInfo config m (moments 0) history loginQueue k = (None, k1, a)"
      by (metis prod.collapse)
    with Cons have "proxied_properly config ms (\<lambda>i. moments (Suc i)) history h addr queue" by simp
    then show ?thesis unfolding proxied_properly_def by (metis Suc_less_eq length_Cons nth_Cons_Suc)
  next
    case (Some r)
    then obtain k1 a where run: "run_method z client clientInfo config m (moments 0) history loginQueue k =
        (Some r, k1, a)" by (metis prod.collapse)
    with Cons.prems have "r = OccProxied h addr queue" by simp
    with run have "queue = history \<and>
        (m = MethodHold \<and> addr = sv_Address (cfg_Server config) \<and>
          h = NotNone ProxyHeaderProxy (sv_SendProxyV2 (cfg_Server config)) \<and>
          ss_state (jm_server (moments 0)) = StateStarting \<and> holdClient (jm_states (moments 0)) \<or>
        m = MethodForward \<and> addr = jf_Address (jo_Forward (cfg_Join config)) \<and>
          h = NotNone ProxyHeaderProxy (jf_SendProxyV2 (jo_Forward (cfg_Join config))))"
      by (auto simp: run_method_def kickOccupy_def holdOccupy_def forwardOccupy_def lobbyOccupy_def
          routeProxyQueue_def routeProxyAddressQueue_def Let_def
          split: Method.splits if_splits prod.splits bool.splits)
    then show ?thesis unfolding proxied_properly_def by (auto intro: exI [of _ 0])
  qed
qed simp

lemma Occupy_online_lobby:
  assumes "validateOnlineModeConfig secret_ok config" and "au_OnlineMode (cfg_Auth config)"
    and "\<not> mustStillProbe config (jm_server (moments 0)) clientInfo"
  shows "Occupy z client clientInfo config moments history loginQueue k = (OccLobby loginQueue, k)"
proof -
  obtain ms where "jo_Methods (cfg_Join config) = MethodLobby # ms"
    using assms(1,2) by (cases "jo_Methods (cfg_Join config)")
      (auto simp: validateOnlineModeConfig_def split: if_splits)
  then show ?thesis
    using assms(3) by (simp add: Occupy_def run_method_def lobbyOccupy_def)
qed

text \<open>The exception: a Forge gateway that has not probed, and a client that does not speak FML3.\<close>

lemma Occupy_online_bypass:
  assumes "jo_Methods (cfg_Join config) = [MethodLobby, MethodHold]" and "sv_Forge (cfg_Server config)"
    and "\<not> isForgeFML3 clientInfo" and "ProbedJoinGame (jm_server (moments 0)) = None"
    and "ss_state (jm_server (moments 1)) = StateStarting" and "holdClient (jm_states (moments 1))"
    and "ca_proxy (jm_admission (moments 1)) < maxProxyClients"
  shows "Occupy z client clientInfo config moments history loginQueue k =
    (OccProxied (NotNone ProxyHeaderProxy (sv_SendProxyV2 (cfg_Server config)))
      (sv_Address (cfg_Server config)) history, k)"
  using assms
  by (simp add: Occupy_def run_method_def lobbyOccupy_def mustStillProbe_def mustProbe_def holdOccupy_def
      routeProxyQueue_def routeProxyAddressQueue_def acquireProxy_def)

end
