(* ===== verification/Edge.thy ===== *)
theory Edge
  imports Join
begin

text \<open>
  The admission of \<^verbatim>\<open>service_server.go\<close> under concurrency. A connection that is admitted runs in a goroutine of its own,
  started by \<^verbatim>\<open>routeStatus\<close>, \<^verbatim>\<open>routeProxy\<close> or, for a client that was held or forwarded, by \<^verbatim>\<open>routeProxyAddressQueue\<close> out of a
  goroutine of \<^verbatim>\<open>routeStatus\<close>; its deferred calls run when it returns. All of them use the one pair of channels. \<open>edge\<close>
  has the channels and how many goroutines of each kind run; \<open>edge_step\<close> interleaves them in every order.

  Shown here: the tokens in the two channels are always those of the goroutines that run, so none is lost and none is
  taken twice, and a connection is closed for want of a slot only when all slots are in use.
\<close>

record edge =
  eg_admission :: connectionAdmission
  eg_status :: nat
  eg_proxy :: nat
  eg_queued :: nat

definition quiet_edge :: edge where
  "quiet_edge = \<lparr>eg_admission = newConnectionAdmission, eg_status = 0, eg_proxy = 0, eg_queued = 0\<rparr>"

inductive edge_step :: "edge \<Rightarrow> edge \<Rightarrow> bool" where
  serve: "route ip_string parse_time now config server peer (eg_admission g) = (ServeStatus, a) \<Longrightarrow>
    edge_step g (g\<lparr>eg_admission := a, eg_status := eg_status g + 1\<rparr>)"
| direct: "route ip_string parse_time now config server peer (eg_admission g) = (ProxyDirect, a) \<Longrightarrow>
    edge_step g (g\<lparr>eg_admission := a, eg_proxy := eg_proxy g + 1\<rparr>)"
| turned_away: "route ip_string parse_time now config server peer (eg_admission g) = (d, a) \<Longrightarrow>
    d \<in> {DropConnection, CloseConnection} \<Longrightarrow> edge_step g (g\<lparr>eg_admission := a\<rparr>)"
| queued: "0 < eg_status g \<Longrightarrow> routeProxyAddressQueue h addr queue (eg_admission g) = (OccProxied h' addr' queue', a) \<Longrightarrow>
    edge_step g (g\<lparr>eg_admission := a, eg_queued := eg_queued g + 1\<rparr>)"
| no_slot: "0 < eg_status g \<Longrightarrow> routeProxyAddressQueue h addr queue (eg_admission g) = (OccNoSlot, a) \<Longrightarrow>
    edge_step g (g\<lparr>eg_admission := a\<rparr>)"
| status_returns: "0 < eg_status g \<Longrightarrow>
    edge_step g (g\<lparr>eg_admission := routeStatus_return (eg_admission g), eg_status := eg_status g - 1\<rparr>)"
| proxy_returns: "0 < eg_proxy g \<Longrightarrow>
    edge_step g (g\<lparr>eg_admission := routeProxy_return (eg_admission g), eg_proxy := eg_proxy g - 1\<rparr>)"
| queued_returns: "0 < eg_queued g \<Longrightarrow>
    edge_step g (g\<lparr>eg_admission := routeProxyAddressQueue_return (eg_admission g), eg_queued := eg_queued g - 1\<rparr>)"

definition edge_inv :: "edge \<Rightarrow> bool" where
  "edge_inv g \<longleftrightarrow>
     ca_status (eg_admission g) = eg_status g \<and> eg_status g \<le> maxStatusClients \<and>
     ca_proxy (eg_admission g) = eg_proxy g + eg_queued g \<and> eg_proxy g + eg_queued g \<le> maxProxyClients"

lemmas slot_facts =
  status_slot.acquired status_slot.refused status_slot.acquired_other
  proxy_slot.acquired proxy_slot.refused proxy_slot.acquired_other

lemmas slot_returns =
  routeStatus_return_def routeProxy_return_def routeProxyAddressQueue_return_def
  status_slot.release_used status_slot.release_other proxy_slot.release_used proxy_slot.release_other

lemma queue_takes:
  "routeProxyAddressQueue h addr queue a = (OccProxied h' addr' queue', a') \<Longrightarrow> acquireProxy a = (True, a')"
  "routeProxyAddressQueue h addr queue a = (OccNoSlot, a') \<Longrightarrow> acquireProxy a = (False, a')"
  by (auto simp: routeProxyAddressQueue_def split: prod.splits bool.splits)

lemma edge_step_inv: "edge_step g g' \<Longrightarrow> edge_inv g \<Longrightarrow> edge_inv g'"
proof (induction rule: edge_step.induct)
  case (serve ip_string parse_time now config server peer g a)
  from route_takes [OF serve.hyps] have "acquireStatus (eg_admission g) = (True, a)" by simp
  then show ?case using serve.prems slot_facts(1,3) by (fastforce simp: edge_inv_def)
next
  case (direct ip_string parse_time now config server peer g a)
  from route_takes [OF direct.hyps] have "acquireProxy (eg_admission g) = (True, a)" by simp
  then show ?case using direct.prems slot_facts(4,6) by (fastforce simp: edge_inv_def)
next
  case (turned_away ip_string parse_time now config server peer g d a)
  from route_takes [OF turned_away.hyps(1)] have "a = eg_admission g"
    using turned_away.hyps(2) slot_facts(2,5) by auto
  then show ?case using turned_away.prems by (simp add: edge_inv_def)
next
  case (queued g h addr queue h' addr' queue' a)
  then show ?case using slot_facts(4,6) [OF queue_takes(1)] by (fastforce simp: edge_inv_def)
next
  case (no_slot g h addr queue a)
  then show ?case using slot_facts(5) [OF queue_takes(2)] by (fastforce simp: edge_inv_def)
qed (auto simp: edge_inv_def slot_returns)

lemma edge_reachable_inv: "edge_step\<^sup>*\<^sup>* quiet_edge g \<Longrightarrow> edge_inv g"
proof (induction rule: rtranclp_induct)
  case base
  show ?case by (simp add: edge_inv_def quiet_edge_def newConnectionAdmission_def)
next
  case (step g g')
  then show ?case by (blast intro: edge_step_inv)
qed

lemma route_closes:
  assumes "edge_inv g" and "route ip_string parse_time now config server peer (eg_admission g) = (CloseConnection, a)"
  shows "eg_status g = maxStatusClients \<or> eg_proxy g + eg_queued g = maxProxyClients"
  using route_takes [OF assms(2)] assms(1) status_slot.refused proxy_slot.refused by (fastforce simp: edge_inv_def)

end
