(* ===== verification/Server_Properties.thy ===== *)
theory Server_Properties
  imports Go_Strings
begin

text \<open>
  \<^verbatim>\<open>mc/server_properties.go\<close>: rewriting and reading \<^verbatim>\<open>server.properties\<close>, on the contents of the file. The map
  of changes is the list of its entries in the order in which the source's last loop visits them, which Go
  leaves open: the theorems hold for every order.

  Shown here: after a rewrite every changed property reads as its new value and every other property reads
  as before.
\<close>

section \<open>Definitions\<close>

type_synonym changes = "(string \<times> string) list"

definition serverPropertiesEOL :: string where "serverPropertiesEOL = [CHR 0x0D, CHR 0x0A]"

text \<open>
  One round of the loop over the lines: the line to write, the changes that are left and whether a line has
  changed so far.
\<close>

definition rewrite_line :: "changes \<Rightarrow> bool \<Rightarrow> string \<Rightarrow> string \<times> changes \<times> bool" where
  "rewrite_line remaining changed line =
     (let trim = TrimSpace line
      in if HasPrefix trim ''#'' \<or> trim = [] then (line, remaining, changed)
         else case index_of (CHR ''='') line of
           None \<Rightarrow> (line, remaining, changed)
         | Some idx \<Rightarrow>
             let key = TrimSpace (take idx line); value = drop (idx + 1) line
             in case map_of remaining (ToLower key) of
                  None \<Rightarrow> (line, remaining, changed)
                | Some new \<Rightarrow>
                    let remaining' = filter (\<lambda>p. fst p \<noteq> ToLower key) remaining
                    in if value \<noteq> new then (key @ ''='' @ new, remaining', True)
                       else (line, remaining', changed))"

fun rewrite_lines :: "changes \<Rightarrow> bool \<Rightarrow> string list \<Rightarrow> string list \<times> changes \<times> bool" where
  "rewrite_lines remaining changed [] = ([], remaining, changed)"
| "rewrite_lines remaining changed (line # lines) =
     (case rewrite_line remaining changed line of
        (line', remaining', changed') \<Rightarrow>
          (case rewrite_lines remaining' changed' lines of (ls, r, c) \<Rightarrow> (line' # ls, r, c)))"

definition property_lines :: "string \<Rightarrow> string list" where
  "property_lines contents =
     filter (\<lambda>l. l \<noteq> []) (map (\<lambda>l. TrimSuffix l [CHR 0x0D]) (split_on (CHR 0x0A) contents))"

definition rewriteContents :: "string \<Rightarrow> changes \<Rightarrow> string \<times> bool" where
  "rewriteContents contents changes =
     (if length changes = 0 then (contents, False)
      else case rewrite_lines changes False (property_lines contents) of
        (newLines, remaining, changed) \<Rightarrow>
          (foldl (\<lambda>out p. out @ serverPropertiesEOL @ fst p @ ''='' @ snd p)
             (join_with serverPropertiesEOL newLines) remaining,
           changed \<or> remaining \<noteq> []))"

fun read_property :: "string \<Rightarrow> string list \<Rightarrow> string option" where
  "read_property property [] = None"
| "read_property property (line # lines) =
     (case index_of (CHR ''='') line of
        None \<Rightarrow> read_property property lines
      | Some idx \<Rightarrow>
          let key = TrimSpace (take idx line)
          in if ToLower key = ToLower property then Some (TrimSpace (drop (idx + 1) line))
             else read_property property lines)"

text \<open>\<open>contents\<close> is \<open>None\<close> when the file is missing or cannot be read.\<close>

definition ReadServerProperties :: "string option \<Rightarrow> string \<Rightarrow> string option" where
  "ReadServerProperties contents property =
     (case contents of None \<Rightarrow> None | Some c \<Rightarrow> read_property property (split_on (CHR 0x0A) c))"

section \<open>A line as a property\<close>

definition prop_of :: "string \<Rightarrow> (string \<times> string) option" where
  "prop_of line =
     map_option (\<lambda>idx. (ToLower (TrimSpace (take idx line)), TrimSpace (drop (idx + 1) line)))
       (index_of (CHR ''='') line)"

abbreviation props :: "string list \<Rightarrow> (string \<times> string) list" where
  "props lines \<equiv> List.map_filter prop_of lines"

lemma props_simps [simp]:
  "props [] = []"
  "props (l # ls) = (case prop_of l of None \<Rightarrow> props ls | Some p \<Rightarrow> p # props ls)"
  by (simp_all add: map_filter_def split: option.splits)

lemma props_append [simp]: "props (ls @ ls') = props ls @ props ls'"
  by (simp add: map_filter_def)

lemma read_property_props: "read_property p lines = map_of (props lines) (ToLower p)"
  by (induction lines) (auto simp: prop_of_def Let_def split: option.splits)

lemma prop_of_CR [simp]: "prop_of (l @ [CHR 0x0D]) = prop_of l"
proof (cases "index_of (CHR ''='') l")
  case None
  then show ?thesis by (simp add: prop_of_def index_of_append)
next
  case (Some i)
  with index_of_Some [OF Some] show ?thesis by (simp add: prop_of_def index_of_append)
qed

lemma prop_of_assign:
  "CHR ''='' \<notin> set k \<Longrightarrow> prop_of (k @ ''='' @ v) = Some (ToLower (TrimSpace k), TrimSpace v)"
  by (simp add: prop_of_def index_of_append)

lemma prop_of_TrimSuffix [simp]: "prop_of (TrimSuffix l [CHR 0x0D]) = prop_of l"
proof (cases "HasSuffix l [CHR 0x0D]")
  case True
  then obtain l' where "l = l' @ [CHR 0x0D]"
    by (metis HasPrefix_prefix HasSuffix_def rev_singleton_conv suffix_def suffix_to_prefix)
  then show ?thesis using True by (simp add: TrimSuffix_def)
qed (simp add: TrimSuffix_def)

lemma props_property_lines: "props (property_lines contents) = props (split_on (CHR 0x0A) contents)"
proof -
  have "props (filter (\<lambda>l. l \<noteq> []) (map (\<lambda>l. TrimSuffix l [CHR 0x0D]) ls)) = props ls" for ls
  proof (induction ls)
    case (Cons l ls)
    have "prop_of [] = None" by (simp add: prop_of_def)
    then show ?case
      using Cons prop_of_TrimSuffix [of l]
      by (cases "TrimSuffix l [CHR 0x0D] = []") (auto split: option.splits)
  qed simp
  then show ?thesis by (simp add: property_lines_def)
qed

section \<open>The lines of the new file\<close>

lemma props_joined:
  assumes "ls \<noteq> []" and "\<forall>l \<in> set ls. CHR 0x0A \<notin> set l"
  shows "props (split_on (CHR 0x0A) (join_with serverPropertiesEOL ls)) = props ls"
  using assms
proof (induction serverPropertiesEOL ls rule: join_with.induct)
  case (3 w v ws)
  have "split_on (CHR 0x0A) (join_with serverPropertiesEOL (w # v # ws)) =
      (w @ [CHR 0x0D]) # split_on (CHR 0x0A) (join_with serverPropertiesEOL (v # ws))"
    using 3(3) split_on_append [of "CHR 0x0A" "w @ [CHR 0x0D]"] by (simp add: serverPropertiesEOL_def)
  with 3 show ?case by (simp split: option.splits)
qed (simp_all add: split_on_self)

lemma join_appended:
  "ls \<noteq> [] \<Longrightarrow> foldl (\<lambda>out p. out @ serverPropertiesEOL @ fst p @ ''='' @ snd p) (join_with serverPropertiesEOL ls) r =
   join_with serverPropertiesEOL (ls @ map (\<lambda>p. fst p @ ''='' @ snd p) r)"
proof (induction r rule: rev_induct)
  case (snoc p r)
  have "join_with sep (xs @ [x]) = join_with sep xs @ sep @ x" if "xs \<noteq> []" for sep xs and x :: string
    using that by (induction xs rule: induct_list012) auto
  from this [of "ls @ map (\<lambda>p. fst p @ ''='' @ snd p) r"] show ?case using snoc by simp
qed simp

text \<open>A change: a lower-case key without white space at its ends, which no comment and no line can be mistaken for.\<close>

definition good_change :: "string \<times> string \<Rightarrow> bool" where
  "good_change p \<longleftrightarrow>
     ToLower (fst p) = fst p \<and> TrimSpace (fst p) = fst p \<and> \<not> HasPrefix (fst p) ''#'' \<and>
     CHR ''='' \<notin> set (fst p) \<and> CHR 0x0A \<notin> set (fst p) \<and> CHR 0x0A \<notin> set (snd p)"

lemma good_change_prop: "good_change p \<Longrightarrow> prop_of (fst p @ ''='' @ snd p) = Some (fst p, TrimSpace (snd p))"
  by (simp add: good_change_def prop_of_assign del: append.simps)

lemma good_changes_props:
  "list_all good_change r \<Longrightarrow> props (map (\<lambda>p. fst p @ ''='' @ snd p) r) = map (\<lambda>p. (fst p, TrimSpace (snd p))) r"
  by (induction r) (auto dest!: good_change_prop)

text \<open>White space before a comment sign holds no equals sign, so the key of a comment is a comment too.\<close>

lemma HasPrefix_hd: "HasPrefix s [c] \<longleftrightarrow> (\<exists>t. s = c # t)"
  by (cases s) (auto simp: HasPrefix_def)

lemma ToLower_comment: "HasPrefix s ''#'' \<Longrightarrow> HasPrefix (ToLower s) ''#''"
proof -
  assume "HasPrefix s ''#''"
  then obtain t where "s = CHR ''#'' # t" using HasPrefix_hd by blast
  then show ?thesis by (simp add: ToLower.simps [of "CHR ''#'' # t"] HasPrefix_def lower_char_def)
qed

lemma find_shorter:
  "find (HasPrefix s) ps = Some p \<Longrightarrow> prefix u s \<Longrightarrow> prefix p u \<Longrightarrow> find (HasPrefix u) ps = Some p"
  by (induction ps) (auto simp: HasPrefix_prefix split: if_splits dest: prefix_order.trans)

lemma encodings_chars: "p \<in> set space_encodings \<Longrightarrow> CHR ''#'' \<notin> set p \<and> CHR ''='' \<notin> set p"
  by (auto simp: space_encodings_def)

lemma trim_before_comment:
  assumes "trim_prefixes k space_encodings s = CHR ''#'' # t" and "index_of (CHR ''='') s = Some i"
  shows "\<exists>t'. trim_prefixes k space_encodings (take i s) = CHR ''#'' # t'"
  using assms
proof (induction k arbitrary: s i)
  case 0
  then show ?case by (cases i) (auto split: if_splits)
next
  case (Suc k)
  show ?case
  proof (cases "find (HasPrefix s) space_encodings")
    case None
    then have "find (HasPrefix (take i s)) space_encodings = None"
      by (auto simp: find_None_iff HasPrefix_prefix dest: prefix_order.trans [OF _ take_is_prefix])
    moreover have "\<exists>t'. take i s = CHR ''#'' # t'" using Suc.prems None by (cases i) (auto split: if_splits)
    ultimately show ?thesis by simp
  next
    case (Some p)
    let ?u = "drop (length p) s"
    have p: "p \<in> set space_encodings" "s = p @ ?u" using trim_prefixes_step [OF Some] .
    have "index_of (CHR ''='') p = None" using encodings_chars [OF p(1)] by simp
    then obtain j where j: "index_of (CHR ''='') ?u = Some j" "i = length p + j"
      using Suc.prems(2) p(2) index_of_append [of "CHR ''=''" p ?u]
      by (cases "index_of (CHR ''='') ?u") auto
    have "take i s = p @ take j ?u" by (subst p(2)) (simp add: j(2))
    then have "find (HasPrefix (take i s)) space_encodings = Some p"
      using find_shorter [OF Some take_is_prefix [of i s]] by simp
    moreover have "drop (length p) (take i s) = take j ?u" by (simp add: j(2) drop_take)
    moreover have "trim_prefixes k space_encodings ?u = CHR ''#'' # t" using Suc.prems(1) Some by simp
    ultimately show ?thesis using Suc.IH [OF _ j(1)] by simp
  qed
qed

lemma trim_keeps_last:
  assumes "\<forall>p \<in> set ps. c \<notin> set p"
  shows "\<exists>x. trim_prefixes k ps (s @ [c]) = x @ [c]"
proof (induction k arbitrary: s)
  case (Suc k)
  show ?case
  proof (cases "find (HasPrefix (s @ [c])) ps")
    case (Some p)
    have p: "p \<in> set ps" "s @ [c] = p @ drop (length p) (s @ [c])" using trim_prefixes_step [OF Some] .
    then have "length p \<le> length s" using assms
      by (metis in_set_conv_decomp append_Nil2 drop_all length_append_singleton not_less_eq_eq)
    then show ?thesis using Suc [of "drop (length p) s"] Some by simp
  qed simp
qed simp

lemma comment_key:
  assumes "HasPrefix (TrimSpace line) ''#''" and "index_of (CHR ''='') line = Some i"
  shows "HasPrefix (TrimSpace (take i line)) ''#''"
proof -
  obtain t where "TrimSpace line = CHR ''#'' # t" using assms(1) HasPrefix_hd by blast
  then obtain t where "TrimLeft_space line = CHR ''#'' # t"
    using TrimRight_prefix [of "TrimLeft_space line"] by (auto simp: TrimSpace_sides prefix_def)
  then obtain t' where "trim_prefixes (length line) space_encodings (take i line) = CHR ''#'' # t'"
    using trim_before_comment [OF _ assms(2)] by (auto simp: TrimLeft_space_def)
  then have left: "TrimLeft_space (take i line) = CHR ''#'' # t'"
    unfolding TrimLeft_space_def
    using trim_prefixes_fuel [of space_encodings "take i line" "length (take i line)" "length line"] by simp
  have "\<forall>p \<in> set (map rev space_encodings). CHR ''#'' \<notin> set p" using encodings_chars by auto
  then obtain x where "trim_prefixes (Suc (length t')) (map rev space_encodings) (rev t' @ ''#'') = x @ ''#''"
    using trim_keeps_last by blast
  then show ?thesis by (simp add: TrimSpace_sides left TrimRight_space_def HasPrefix_def)
qed

section \<open>What the new file says\<close>

text \<open>A round leaves the line, whose key is then not to be changed, or writes the new value of its key.\<close>

lemma rewrite_line_cases:
  assumes good: "list_all good_change remaining" and "rewrite_line remaining changed line = (line', remaining', changed')"
  obtains (keep) "line' = line" and "remaining' = remaining"
      and "\<And>p. prop_of line = Some p \<Longrightarrow> map_of remaining (fst p) = None"
  | (renew) k v w where "map_of remaining k = Some v" and "prop_of line = Some (k, w)"
      and "prop_of line' = Some (k, TrimSpace v)" and "remaining' = filter (\<lambda>p. fst p \<noteq> k) remaining"
      and "set line' \<subseteq> set line \<union> {CHR ''=''} \<union> set v"
proof -
  have comment: "map_of remaining (fst p) = None" if c: "HasPrefix (TrimSpace line) ''#''" and p: "prop_of line = Some p" for p
  proof -
    obtain i where i: "index_of (CHR ''='') line = Some i" "fst p = ToLower (TrimSpace (take i line))"
      using p by (auto simp: prop_of_def)
    then have "HasPrefix (fst p) ''#''" using ToLower_comment [OF comment_key [OF c i(1)]] by simp
    then show ?thesis using good by (auto simp: map_of_eq_None_iff list_all_iff good_change_def)
  qed
  have blank: "prop_of line = None" if "TrimSpace line = []"
    using TrimSpace_keeps [of "CHR ''=''" line] encodings_chars that by (auto simp: prop_of_def)
  show thesis
  proof (cases "prop_of line")
    case None
    then show thesis using assms(2) keep by (auto simp: rewrite_line_def prop_of_def Let_def split: if_splits)
  next
    case (Some kv)
    then obtain i where i: "index_of (CHR ''='') line = Some i"
      and kv: "kv = (ToLower (TrimSpace (take i line)), TrimSpace (drop (i + 1) line))"
      by (auto simp: prop_of_def)
    show thesis
    proof (cases "HasPrefix (TrimSpace line) ''#'' \<or> map_of remaining (fst kv) = None")
      case True
      then have none: "map_of remaining (fst kv) = None" using comment Some by blast
      then have "line' = line" "remaining' = remaining"
        using assms(2) i kv by (auto simp: rewrite_line_def Let_def split: if_splits)
      then show thesis using none Some keep by auto
    next
      case False
      then obtain v where v: "map_of remaining (fst kv) = Some v" and nc: "\<not> HasPrefix (TrimSpace line) ''#''" by auto
      have "TrimSpace line \<noteq> []" using blank Some by auto
      then have res: "line' = (if drop (i + 1) line \<noteq> v then TrimSpace (take i line) @ ''='' @ v else line)"
        "remaining' = filter (\<lambda>p. fst p \<noteq> fst kv) remaining"
        using assms(2) i kv v nc by (auto simp: rewrite_line_def Let_def split: if_splits)
      have noeq: "CHR ''='' \<notin> set (TrimSpace (take i line))"
        using index_of_Some [OF i] TrimSpace_chars [of "take i line"] by blast
      have "prop_of line' = Some (fst kv, TrimSpace v)"
        using res(1) Some kv prop_of_assign [OF noeq, of v] by (auto split: if_splits)
      moreover have "set line' \<subseteq> set line \<union> {CHR ''=''} \<union> set v"
        using res(1) TrimSpace_chars [of "take i line"] set_take_subset [of i line] by (auto split: if_splits)
      ultimately show thesis using renew [of "fst kv" v "snd kv"] v Some res(2) by simp
    qed
  qed
qed

lemma map_of_other: "q \<noteq> k \<Longrightarrow> map_of (filter (\<lambda>p. fst p \<noteq> k) r) q = map_of r q"
  by (induction r) auto

lemma rewrite_lines_props:
  assumes "list_all good_change remaining" and "rewrite_lines remaining changed lines = (ls, r, c)"
    and "\<forall>l \<in> set lines. CHR 0x0A \<notin> set l"
  shows "map_of (props ls @ map (\<lambda>p. (fst p, TrimSpace (snd p))) r) q =
      (case map_of remaining q of Some v \<Rightarrow> Some (TrimSpace v) | None \<Rightarrow> map_of (props lines) q) \<and>
    list_all good_change r \<and> (\<forall>l \<in> set ls. CHR 0x0A \<notin> set l)"
  using assms
proof (induction lines arbitrary: remaining changed ls r c)
  case Nil
  have "map_of (map (\<lambda>p. (fst p, TrimSpace (snd p))) r) q = map_option TrimSpace (map_of r q)"
    by (induction r) auto
  then show ?case using Nil by (auto simp: map_option_case split: option.splits)
next
  case (Cons line lines)
  obtain line' remaining' changed' where step: "rewrite_line remaining changed line = (line', remaining', changed')"
    by (metis prod_cases3)
  then obtain ls' where ls': "rewrite_lines remaining' changed' lines = (ls', r, c)" "ls = line' # ls'"
    using Cons.prems(2) by (auto split: prod.splits)
  show ?case
  proof (rule rewrite_line_cases [OF Cons.prems(1) step])
    assume k: "line' = line" "remaining' = remaining"
      "\<And>p. prop_of line = Some p \<Longrightarrow> map_of remaining (fst p) = None"
    have "list_all good_change remaining'" using k Cons.prems(1) by simp
    from Cons.IH [OF this ls'(1)] show ?thesis
      using k(1,2) k(3) [of "(q, _)"] ls'(2) Cons.prems(3) by (auto split: option.splits)
  next
    fix k v w assume w: "map_of remaining k = Some v" "prop_of line = Some (k, w)"
      "prop_of line' = Some (k, TrimSpace v)" "remaining' = filter (\<lambda>p. fst p \<noteq> k) remaining"
      "set line' \<subseteq> set line \<union> {CHR ''=''} \<union> set v"
    have good: "list_all good_change remaining'" using w Cons.prems(1) by (auto simp: list_all_iff)
    have "CHR 0x0A \<notin> set v"
      using map_of_SomeD [OF w(1)] Cons.prems(1) by (auto simp: list_all_iff good_change_def)
    then have nl: "CHR 0x0A \<notin> set line'" using w(5) Cons.prems(3) by auto
    show ?thesis
      using Cons.IH [OF good ls'(1)] ls'(2) Cons.prems(3) nl w(1-3) map_of_other [of q k remaining] w(4)
      by (cases "q = k") (auto split: option.splits)
  qed
qed

lemma rewriteContents_read:
  assumes "changes \<noteq> []" and "list_all good_change changes"
  shows "ReadServerProperties (Some (fst (rewriteContents contents changes))) p =
    (case map_of changes (ToLower p) of
       Some v \<Rightarrow> Some (TrimSpace v)
     | None \<Rightarrow> ReadServerProperties (Some contents) p)"
proof -
  obtain ls r c where rw: "rewrite_lines changes False (property_lines contents) = (ls, r, c)"
    by (metis prod_cases3)
  let ?new = "fst (rewriteContents contents changes)" let ?kv = "\<lambda>p. fst p @ ''='' @ snd p"
  have nl: "\<forall>l \<in> set (property_lines contents). CHR 0x0A \<notin> set l"
    using split_on_no_sep [of _ "CHR 0x0A" contents]
    by (auto simp: property_lines_def TrimSuffix_def dest!: in_set_takeD split: if_splits)
  from rewrite_lines_props [OF assms(2) rw nl]
  have sem: "map_of (props ls @ map (\<lambda>p. (fst p, TrimSpace (snd p))) r) (ToLower p) =
      (case map_of changes (ToLower p) of Some v \<Rightarrow> Some (TrimSpace v)
       | None \<Rightarrow> map_of (props (property_lines contents)) (ToLower p))"
    and good: "list_all good_change r" and clean: "\<forall>l \<in> set ls. CHR 0x0A \<notin> set l" by auto
  let ?ls = "(if ls = [] then [[]] else ls) @ map ?kv r"
  have "?new = join_with serverPropertiesEOL ?ls"
    using assms(1) rw join_appended [of "if ls = [] then [[]] else ls" r]
    by (cases "ls = []") (simp_all add: rewriteContents_def)
  moreover have "\<forall>l \<in> set ?ls. CHR 0x0A \<notin> set l" using clean good by (auto simp: list_all_iff good_change_def)
  ultimately have "props (split_on (CHR 0x0A) ?new) = props ?ls" using props_joined [of ?ls] by auto
  also have "\<dots> = props ls @ map (\<lambda>p. (fst p, TrimSpace (snd p))) r"
    using good_changes_props [OF good] by (simp add: prop_of_def [of "[]"])
  finally show ?thesis
    using sem by (simp add: ReadServerProperties_def read_property_props props_property_lines split: option.splits)
qed

end
