(* ===== verification/Files.thy ===== *)
theory Files
  imports Server_Properties Server_State
begin

text \<open>
  The file watcher of \<^verbatim>\<open>service_tasks.go\<close> and the loader of \<^verbatim>\<open>mc/whitelist.go\<close>. A server directory is what
  its files hold: \<open>None\<close> for a file that is missing or not regular, \<open>Fail\<close> for one that cannot be read or
  parsed; the JSON entries are given decoded.

  Shown here: after a reload the whitelist in force is the one on disk, a broken file keeps the lists that
  were in force, and a round of the watcher reloads exactly what changed.
\<close>

section \<open>Definitions\<close>

record server_dir =
  sd_props :: "string option"
  sd_bans :: "BannedIp list outcome option"
  sd_whitelist :: "string list outcome option"
  sd_ops :: "string list outcome option"

definition loaded :: "string list outcome option \<Rightarrow> string list outcome" where
  "loaded f = (case f of None \<Rightarrow> Ok [] | Some r \<Rightarrow> r)"

definition LoadWhitelistDir :: "server_dir \<Rightarrow> Whitelist outcome" where
  "LoadWhitelistDir dir =
     (case loaded (sd_whitelist dir) of
        Ok whitelist \<Rightarrow>
          (case loaded (sd_ops dir) of
             Ok ops \<Rightarrow> Ok \<lparr>wl_whitelist = whitelist, wl_ops = ops\<rparr>
           | _ \<Rightarrow> Fail)
      | _ \<Rightarrow> Fail)"

definition reloadBans :: "Config \<Rightarrow> server_dir \<Rightarrow> ServerState \<Rightarrow> ServerState" where
  "reloadBans config dir server =
     (if \<not> sv_BlockBannedIps (cfg_Server config) \<and> \<not> sv_DropBannedIps (cfg_Server config) then server
      else case sd_bans dir of
        None \<Rightarrow> SetBannedIPs NewBannedIps server
      | Some (Ok ips) \<Rightarrow> SetBannedIPs (LoadBannedIps ips) server
      | Some _ \<Rightarrow> server)"

definition reloadWhitelist :: "Config \<Rightarrow> server_dir \<Rightarrow> ServerState \<Rightarrow> ServerState" where
  "reloadWhitelist config dir server =
     (if \<not> sv_WakeWhitelist (cfg_Server config) then server
      else if \<not> (case ReadServerProperties (sd_props dir) ''white-list'' of
                   Some v \<Rightarrow> v = ''true'' | None \<Rightarrow> False)
      then SetWhitelist None server
      else case LoadWhitelistDir dir of
        Ok whitelist \<Rightarrow> SetWhitelist (Some whitelist) server
      | _ \<Rightarrow> server)"

datatype watched = BanFile | WhitelistFile | OpsFile | ServerPropertiesFile

definition updateFiles :: "Config \<Rightarrow> server_dir \<Rightarrow> watched \<Rightarrow> ServerState \<Rightarrow> ServerState" where
  "updateFiles config dir path server =
     (let server = (if path = BanFile then reloadBans config dir server else server)
      in if path = WhitelistFile \<or> path = OpsFile \<or> path = ServerPropertiesFile
         then reloadWhitelist config dir server else server)"

record fileState =
  fs_exists :: bool
  fs_mtime :: int
  fs_size :: int

text \<open>One round of \<^verbatim>\<open>watchServer\<close>: the four checks in order, with the file states seen and remembered.\<close>

definition watch_check ::
  "Config \<Rightarrow> server_dir \<Rightarrow> (watched \<Rightarrow> fileState) \<Rightarrow> watched \<Rightarrow> (watched \<Rightarrow> fileState) \<times> ServerState \<Rightarrow>
   (watched \<Rightarrow> fileState) \<times> ServerState" where
  "watch_check config dir cur path st =
     (case st of (states, server) \<Rightarrow>
        if cur path \<noteq> states path
        then (states(path := cur path), updateFiles config dir path server)
        else (states, server))"

definition watch_round ::
  "Config \<Rightarrow> server_dir \<Rightarrow> (watched \<Rightarrow> fileState) \<Rightarrow> (watched \<Rightarrow> fileState) \<times> ServerState \<Rightarrow>
   (watched \<Rightarrow> fileState) \<times> ServerState" where
  "watch_round config dir cur st =
     watch_check config dir cur ServerPropertiesFile (watch_check config dir cur OpsFile
       (watch_check config dir cur WhitelistFile (watch_check config dir cur BanFile st)))"

section \<open>The lists in force\<close>

text \<open>The whitelist a directory asks for: \<open>None\<close> when it is broken.\<close>

definition whitelist_enabled :: "server_dir \<Rightarrow> bool" where
  "whitelist_enabled dir \<longleftrightarrow> ReadServerProperties (sd_props dir) ''white-list'' = Some ''true''"

definition whitelist_on_disk :: "server_dir \<Rightarrow> Whitelist option option" where
  "whitelist_on_disk dir =
     (if \<not> whitelist_enabled dir then Some None
      else case LoadWhitelistDir dir of Ok w \<Rightarrow> Some (Some w) | _ \<Rightarrow> None)"

lemma reloadWhitelist_in_force:
  "ss_whitelist (reloadWhitelist config dir server) =
     (if sv_WakeWhitelist (cfg_Server config)
      then (case whitelist_on_disk dir of Some w \<Rightarrow> w | None \<Rightarrow> ss_whitelist server)
      else ss_whitelist server)"
  by (auto simp: reloadWhitelist_def whitelist_on_disk_def whitelist_enabled_def SetWhitelist_def
      split: option.splits outcome.splits if_splits)

lemma reload_frames:
  "ss_banned (reloadWhitelist config dir server) = ss_banned server"
  "ss_whitelist (reloadBans config dir server) = ss_whitelist server"
  by (simp_all add: reloadWhitelist_def reloadBans_def SetWhitelist_def SetBannedIPs_def
      split: option.splits outcome.splits)

lemma reloadWhitelist_idem:
  "reloadWhitelist config dir (reloadWhitelist config dir server) = reloadWhitelist config dir server"
  by (simp add: reloadWhitelist_def SetWhitelist_def split: option.splits outcome.splits)

text \<open>Reloading when one of the files behind the whitelist changed, once or up to three times.\<close>

lemma watch_round_whitelist:
  assumes "watch_round config dir cur (states, server) = (states', server')"
    and "\<exists>path \<in> {WhitelistFile, OpsFile, ServerPropertiesFile}. cur path \<noteq> states path"
  shows "ss_whitelist server' = ss_whitelist (reloadWhitelist config dir server) \<and>
    (\<forall>path. states' path = cur path)"
proof -
  have "fst (watch_check config dir cur p st) p = cur p" "q \<noteq> p \<Longrightarrow> fst (watch_check config dir cur p st) q = fst st q"
    for p q st by (auto simp: watch_check_def split: prod.splits)
  then have "states' path = cur path" for path
    using assms(1) by (cases path) (simp_all add: watch_round_def, (metis fst_conv watched.distinct)+)
  moreover have "ss_whitelist server' = ss_whitelist (reloadWhitelist config dir server)"
    using assms by (auto simp: watch_round_def watch_check_def updateFiles_def reloadWhitelist_in_force reload_frames
        split: if_splits option.splits)
  ultimately show ?thesis by simp
qed

lemma watch_round_quiet:
  assumes "\<forall>path. cur path = states path"
  shows "watch_round config dir cur (states, server) = (states, server)"
  using assms by (simp add: watch_round_def watch_check_def)

end
