(* ===== verification/Velocity.thy ===== *)
theory Velocity
  imports Conn_Write Config Go_Strings
begin

text \<open>
  \<^verbatim>\<open>velocity_forwarding.go\<close>: the forwarding secret and the answer to a backend's \<^verbatim>\<open>velocity:player_info\<close>
  request. \<open>hmac\<close> is HMAC-SHA256 of the standard library (key and message to a digest), an argument; the file
  system is given as what the file at a path is.

  Shown here: a secret that is accepted comes from a private regular file and has 16 to 4096 bytes without a
  line end, and the answer is the login plugin response a backend expects: the digest of the rest under the
  secret, then a version between 1 and 4, the address and the verified profile.
\<close>

section \<open>The secret\<close>

definition velocityPlayerInfoChannel :: string where "velocityPlayerInfoChannel = ''velocity:player_info''"
definition velocityModernDefault :: i32 where "velocityModernDefault = 1"
definition velocityModernLazySession :: i32 where "velocityModernLazySession = 4"
definition minimumForwardingSecret :: nat where "minimumForwardingSecret = 16"
definition maximumForwardingSecret :: nat where "maximumForwardingSecret = 4096"

record secret_file =
  sf_regular :: bool
  sf_perm :: "9 word"
  sf_data :: "bytes option"

definition trim_line_end :: "bytes \<Rightarrow> bytes" where
  "trim_line_end data = rev (dropWhile (\<lambda>b. b = 0x0D \<or> b = 0x0A) (rev data))"

text \<open>
  \<open>stat\<close> gives the file at a path, \<open>credentialsDir\<close> is the environment variable and \<open>join\<close> is
  \<^verbatim>\<open>filepath.Join\<close>; a file that cannot be opened or read has no data.
\<close>

definition forwardingSecret ::
  "(string \<Rightarrow> secret_file option) \<Rightarrow> string \<Rightarrow> (string \<Rightarrow> string \<Rightarrow> string) \<Rightarrow> Config \<Rightarrow> bytes outcome" where
  "forwardingSecret stat credentialsDir join config =
     (let path = au_ForwardingSecretFile (cfg_Auth config)
      in if path = [] \<and> credentialsDir = [] then Fail
         else
           let path = (if path = [] then join credentialsDir ''forwarding-secret'' else path)
           in case stat path of
                None \<Rightarrow> Fail
              | Some info \<Rightarrow>
                  if \<not> sf_regular info \<or> sf_perm info AND 0x3F \<noteq> 0 then Fail
                  else case sf_data info of
                    None \<Rightarrow> Fail
                  | Some file \<Rightarrow>
                      let data = take (maximumForwardingSecret + 1) file
                      in if maximumForwardingSecret < length data then Fail
                         else
                           let data = trim_line_end data
                           in if length data < minimumForwardingSecret then Fail else Ok data)"

section \<open>The answer\<close>

definition write_property :: "PacketWriter \<Rightarrow> ProfileProperty \<Rightarrow> PacketWriter" where
  "write_property w property =
     (let w = WriteString w (pp_Name property);
          w = WriteString w (pp_Value property);
          w = WriteBool w (pp_Signature property \<noteq> None)
      in case pp_Signature property of Some s \<Rightarrow> WriteString w s | None \<Rightarrow> w)"

definition forwarding_version :: "bytes \<Rightarrow> i32" where
  "forwarding_version data =
     (if length data = 1 \<and> ucast velocityModernDefault \<le> data ! 0
      then (let v = ucast (data ! 0) in if velocityModernLazySession <s v then velocityModernLazySession else v)
      else velocityModernDefault)"

definition forwarding_payload :: "i32 \<Rightarrow> string \<Rightarrow> GameProfile \<Rightarrow> bytes" where
  "forwarding_payload version address profile =
     (let w = WriteVarInt NewPacketWriter version;
          w = WriteString w address;
          w = Write w (gp_UUID profile);
          w = WriteString w (gp_Name profile);
          w = WriteVarInt w (word_of_nat (length (gp_Properties profile)))
      in Bytes (foldl write_property w (gp_Properties profile)))"

text \<open>\<open>address\<close> is the host of the peer's address, or all of it when it has no port.\<close>

definition velocity_response_packet ::
  "(bytes \<Rightarrow> bytes \<Rightarrow> bytes) \<Rightarrow> bytes outcome \<Rightarrow> LoginPluginRequest \<Rightarrow> GameProfile option \<Rightarrow> string \<Rightarrow>
   RawPacket outcome" where
  "velocity_response_packet hmac secret request profile address =
     (if lpq_Channel request \<noteq> velocityPlayerInfoChannel then Fail
      else case profile of
        None \<Rightarrow> Fail
      | Some profile \<Rightarrow>
          (case secret of
             Ok secret \<Rightarrow>
               if TrimSpace address = [] then Fail
               else
                 let payload = forwarding_payload (forwarding_version (lpq_Data request)) address profile;
                     responseData = hmac secret payload @ payload;
                     w = WriteVarInt NewPacketWriter (lpq_MessageID request);
                     w = WriteBool w True;
                     w = Write w responseData
                 in Ok (NewRawPacket PacketServerLoginPluginResponse (Bytes w))
           | _ \<Rightarrow> Fail))"

definition respondVelocityForwarding ::
  "zlib \<Rightarrow> (bytes \<Rightarrow> bytes \<Rightarrow> bytes) \<Rightarrow> bytes outcome \<Rightarrow> Client \<Rightarrow> LoginPluginRequest \<Rightarrow> GameProfile option \<Rightarrow>
   string \<Rightarrow> sink \<Rightarrow> bool \<times> sink" where
  "respondVelocityForwarding z hmac secret client request profile address k =
     (case velocity_response_packet hmac secret request profile address of
        Ok p \<Rightarrow> writePacket z client p k
      | _ \<Rightarrow> (False, k))"

section \<open>What the backend reads\<close>

definition read16 :: "bytes rd" where
  "read16 r = (if remaining r < 16 then (Fail, r) else (Ok (take 16 (unread r)), advance 16 r))"

definition read_profile_property :: "ProfileProperty rd" where
  "read_profile_property =
     rd_bind (packetReader_str 32767) (\<lambda>name. rd_bind (packetReader_str 32767) (\<lambda>value.
       rd_bind packetReader_bool (\<lambda>signed.
         if signed then rd_bind (packetReader_str 32767) (\<lambda>s.
           rd_return \<lparr>pp_Name = name, pp_Value = value, pp_Signature = Some s\<rparr>)
         else rd_return \<lparr>pp_Name = name, pp_Value = value, pp_Signature = None\<rparr>)))"

definition read_forwarding :: "(i32 \<times> string \<times> GameProfile) rd" where
  "read_forwarding =
     rd_bind packetReader_varInt (\<lambda>version. rd_bind (packetReader_str 32767) (\<lambda>address.
       rd_bind read16 (\<lambda>uuid. rd_bind (packetReader_str 16) (\<lambda>name.
         rd_bind (rd_bind packetReader_varInt (\<lambda>n. rd_guard (\<not> sint n < 0) (rd_repeat (nat (sint n)) read_profile_property)))
           (\<lambda>ps. rd_return (version, address, \<lparr>gp_UUID = uuid, gp_Name = name, gp_Properties = ps\<rparr>))))))"

definition wire_property :: "ProfileProperty \<Rightarrow> bytes" where
  "wire_property p =
     wire_string (pp_Name p) @ wire_string (pp_Value p) @ wire_bool (pp_Signature p \<noteq> None) @
     (case pp_Signature p of Some s \<Rightarrow> wire_string s | None \<Rightarrow> [])"

definition property_fits :: "ProfileProperty \<Rightarrow> bool" where
  "property_fits p \<longleftrightarrow>
     length (pp_Name p) \<le> 32767 \<and> length (pp_Value p) \<le> 32767 \<and>
     (case pp_Signature p of Some s \<Rightarrow> length s \<le> 32767 | None \<Rightarrow> True)"

definition profile_fits :: "GameProfile \<Rightarrow> bool" where
  "profile_fits p \<longleftrightarrow>
     length (gp_UUID p) = 16 \<and> length (gp_Name p) \<le> 16 \<and> length (gp_Properties p) < 2 ^ 31 \<and>
     list_all property_fits (gp_Properties p)"

lemma write_property_wire: "pw_buf (write_property w p) = pw_buf w @ wire_property p"
  by (simp add: write_property_def wire_property_def wire_simps Let_def split: option.splits)

lemma fold_write_property:
  "pw_buf (foldl write_property w ps) = pw_buf w @ concat (map wire_property ps)"
  by (induction ps arbitrary: w) (simp_all add: write_property_wire)

lemma forwarding_payload_wire:
  "forwarding_payload version address profile =
     EncodeVarInt version @ wire_string address @ gp_UUID profile @ wire_string (gp_Name profile) @
     EncodeVarInt (word_of_nat (length (gp_Properties profile))) @
     concat (map wire_property (gp_Properties profile))"
  by (simp add: forwarding_payload_def fold_write_property Let_def wire_simps)

lemma reads_read16: "length bs = 16 \<Longrightarrow> reads read16 bs bs"
  unfolding read16_def by (rule reads_fixed [where conv = "\<lambda>b. b"]) simp_all

lemma reads_profile_property:
  assumes "property_fits p"
  shows "reads read_profile_property (wire_property p) p"
proof -
  have n: "length (pp_Name p) \<le> 32767" "length (pp_Name p) < 2 ^ 31"
    and v: "length (pp_Value p) \<le> 32767" "length (pp_Value p) < 2 ^ 31"
    using assms by (auto simp: property_fits_def)
  have "reads (if pp_Signature p \<noteq> None then rd_bind (packetReader_str 32767) (\<lambda>s.
           rd_return \<lparr>pp_Name = pp_Name p, pp_Value = pp_Value p, pp_Signature = Some s\<rparr>)
         else rd_return \<lparr>pp_Name = pp_Name p, pp_Value = pp_Value p, pp_Signature = None\<rparr>)
      (case pp_Signature p of Some s \<Rightarrow> wire_string s | None \<Rightarrow> []) p"
  proof (cases "pp_Signature p")
    case (Some s)
    then have s: "length s \<le> 32767" "length s < 2 ^ 31" using assms by (auto simp: property_fits_def)
    have eq: "\<lparr>pp_Name = pp_Name p, pp_Value = pp_Value p, pp_Signature = Some s\<rparr> = p" using Some by (cases p) simp
    show ?thesis
      using reads_map [OF reads_packetReader_str [OF s],
          of "\<lambda>s. \<lparr>pp_Name = pp_Name p, pp_Value = pp_Value p, pp_Signature = Some s\<rparr>", unfolded eq] Some
      by simp
  qed (simp add: reads_done)
  then show ?thesis
    unfolding read_profile_property_def wire_property_def
    by (intro reads_bind [OF reads_packetReader_str [OF n]] reads_bind [OF reads_packetReader_str [OF v]]
        reads_bind [OF reads_packetReader_bool])
qed

lemma reads_forwarding:
  assumes "profile_fits profile" and "length address \<le> 32767"
  shows "reads read_forwarding (forwarding_payload version address profile) (version, address, profile)"
proof -
  have a: "length address \<le> 32767" "length address < 2 ^ 31"
    and n: "length (gp_Name profile) \<le> 16" "length (gp_Name profile) < 2 ^ 31"
    and u: "length (gp_UUID profile) = 16" and ps: "length (gp_Properties profile) < 2 ^ 31"
    using assms by (auto simp: profile_fits_def)
  have each: "reads read_profile_property (wire_property p) p" if "p \<in> set (gp_Properties profile)" for p
    using assms(1) that by (auto simp: profile_fits_def list_all_iff intro: reads_profile_property)
  have eq: "\<lparr>gp_UUID = gp_UUID profile, gp_Name = gp_Name profile, gp_Properties = gp_Properties profile\<rparr> = profile"
    by (cases profile) simp
  show ?thesis
    unfolding read_forwarding_def forwarding_payload_wire
    by (intro reads_bind [OF reads_packetReader_varInt] reads_bind [OF reads_packetReader_str [OF a]]
        reads_bind [OF reads_read16 [OF u]] reads_bind [OF reads_packetReader_str [OF n]])
      (use reads_map [OF packet_reader.counted_reads [OF each ps],
          where f = "\<lambda>ps. (version, address, \<lparr>gp_UUID = gp_UUID profile, gp_Name = gp_Name profile, gp_Properties = ps\<rparr>)",
          unfolded eq] in simp)
qed

lemma forwarding_version_range: "1 \<le> sint (forwarding_version data) \<and> sint (forwarding_version data) \<le> 4"
proof -
  have "sint (ucast b :: i32) = int (unat b)" for b :: byte
    using sint_of_length [of "unat b"] unsigned_less [of b, where 'a = nat] by simp
  then show ?thesis
    by (auto simp: forwarding_version_def velocityModernDefault_def velocityModernLazySession_def Let_def word_sless_alt
        word_le_def)
qed

lemma velocity_response_read:
  assumes "velocity_response_packet hmac (Ok secret) request (Some profile) address = Ok p"
    and "profile_fits profile" and "length address \<le> 32767"
  shows "\<exists>payload version. DecodeLoginPluginResponse (rp_Data p) =
      Ok \<lparr>lpr_MessageID = lpq_MessageID request, lpr_Successful = True, lpr_Data = hmac secret payload @ payload\<rparr> \<and>
    run_decoder read_forwarding payload = Ok (version, address, profile) \<and> 1 \<le> sint version \<and> sint version \<le> 4"
proof (intro exI conjI)
  let ?v = "forwarding_version (lpq_Data request)" let ?payload = "forwarding_payload ?v address profile"
  have "rp_Data p = EncodeVarInt (lpq_MessageID request) @ wire_bool True @ hmac secret ?payload @ ?payload"
    using assms(1) by (auto simp: velocity_response_packet_def NewRawPacket_def Let_def wire_simps split: if_splits)
  then show "DecodeLoginPluginResponse (rp_Data p) =
      Ok \<lparr>lpr_MessageID = lpq_MessageID request, lpr_Successful = True, lpr_Data = hmac secret ?payload @ ?payload\<rparr>"
    unfolding DecodeLoginPluginResponse_def by (simp only:) (intro reads_end_run packet_end_step, simp)
  show "run_decoder read_forwarding ?payload = Ok (?v, address, profile)"
    using reads_run [OF reads_forwarding [OF assms(2,3)], of _ "[]"] by simp
qed (use forwarding_version_range in auto)

lemma forwardingSecret_safe:
  assumes "forwardingSecret stat credentialsDir join config = Ok secret"
  shows "\<exists>path info. stat path = Some info \<and> sf_regular info \<and> sf_perm info AND 0x3F = 0 \<and>
    16 \<le> length secret \<and> length secret \<le> 4096 \<and> last secret \<notin> {0x0A, 0x0D}"
proof -
  have last: "last (trim_line_end d) \<notin> {0x0A, 0x0D}" if "trim_line_end d \<noteq> []" for d
    using that hd_dropWhile [of "\<lambda>b. b = 0x0D \<or> b = 0x0A" "rev d"]
    by (auto simp: trim_line_end_def last_rev)
  have len: "length (trim_line_end d) \<le> length d" for d
    using length_dropWhile_le [of _ "rev d"] by (simp add: trim_line_end_def)
  obtain path info content where f: "stat path = Some info" "sf_regular info" "sf_perm info AND 0x3F = 0"
    "secret = trim_line_end (take 4097 content)" "length (take 4097 content) \<le> 4096" "16 \<le> length secret"
    using assms
    by (auto simp: forwardingSecret_def Let_def minimumForwardingSecret_def maximumForwardingSecret_def
        split: if_splits option.splits)
  then have "length secret \<le> 4096" using len [of "take 4097 content"] by simp
  moreover have "secret \<noteq> []" using f(6) by auto
  then have "last secret \<notin> {0x0A, 0x0D}" using f(4) last [of "take 4097 content"] by simp
  ultimately show ?thesis using f by blast
qed

end
