(* ===== verification/Uuid.thy ===== *)
theory Uuid
  imports Lazygate_Prelude
begin

text \<open>
  \<^verbatim>\<open>mc/uuid.go\<close>: the UUID of a player in offline mode. \<open>md5\<close> is the hash function of the standard library,
  an argument: all that is used of it is that a digest has sixteen bytes.
\<close>

definition offlinePlayerNamespace :: string where "offlinePlayerNamespace = ''OfflinePlayer:''"

definition javaNameUUIDFromBytes :: "(bytes \<Rightarrow> bytes) \<Rightarrow> bytes \<Rightarrow> bytes" where
  "javaNameUUIDFromBytes md5 data =
     (let sum = md5 data;
          sum = sum[6 := sum ! 6 AND 0x0F];
          sum = sum[6 := sum ! 6 OR 0x30];
          sum = sum[8 := sum ! 8 AND 0x3F];
          sum = sum[8 := sum ! 8 OR 0x80]
      in sum)"

definition OfflinePlayerUUID :: "(bytes \<Rightarrow> bytes) \<Rightarrow> string \<Rightarrow> bytes" where
  "OfflinePlayerUUID md5 username =
     javaNameUUIDFromBytes md5 (bytes_of_string (offlinePlayerNamespace @ username))"

definition UuidVersion :: "bytes \<Rightarrow> byte" where
  "UuidVersion u = drop_bit 4 (u ! 6)"

text \<open>A version 3 UUID of the IETF variant; the other 122 bits are the digest's.\<close>

lemma offline_uuid_bits:
  assumes "\<And>d. length (md5 d) = 16"
  shows "length (OfflinePlayerUUID md5 name) = 16 \<and> UuidVersion (OfflinePlayerUUID md5 name) = 3 \<and>
    drop_bit 6 (OfflinePlayerUUID md5 name ! 8) = 2"
proof -
  have "drop_bit 4 ((b AND 0x0F) OR 0x30) = 3" "drop_bit 6 ((b AND 0x3F) OR 0x80) = 2" for b :: byte
    by (rule bit_word_eqI, auto simp: bit_simps)+
  then show ?thesis
    using assms by (simp add: OfflinePlayerUUID_def javaNameUUIDFromBytes_def Let_def UuidVersion_def)
qed

end
