(* ===== verification/Rcon.thy ===== *)
theory Rcon
  imports Proxy_Stream
begin

text \<open>
  \<^verbatim>\<open>mc/rcon.go\<close>: the RCON client. The connection has a reading side, the script of its future reads, and a
  writing side; the identifier of the next packet is a 32-bit integer that restarts at 1 when it wraps.

  Shown here: packets survive the wire however the network cuts them up, a command returns the
  concatenation of the answers that precede its end marker and nothing else, and identifiers stay positive,
  so that the authentication answer \<open>-1\<close> is never taken for one of them.
\<close>

section \<open>Definitions\<close>

definition rconInitialPacketID :: i32 where "rconInitialPacketID = 1"
definition rconMaxPayloadSize :: nat where "rconMaxPayloadSize = 1413"
definition rconTypeAuth :: i32 where "rconTypeAuth = 3"
definition rconTypeAuthResponse :: i32 where "rconTypeAuthResponse = 2"
definition rconTypeExecCommand :: i32 where "rconTypeExecCommand = 2"
definition rconTypeResponseValue :: i32 where "rconTypeResponseValue = 0"

record Rcon =
  rcon_in :: script
  rcon_out :: sink
  rcon_nextPacketID :: i32

record rconPacket =
  rpk_id :: i32
  rpk_ptype :: i32
  rpk_body :: bytes

text \<open>\<^verbatim>\<open>io.ReadFull\<close>: an error that comes with the last bytes is dropped.\<close>

function io_ReadFull :: "nat \<Rightarrow> script \<Rightarrow> bytes outcome \<times> script" where
  "io_ReadFull n conn =
     (if n = 0 then (Ok [], conn)
      else case conn_Read n conn of
        ((tmp, err), conn') \<Rightarrow>
          if n \<le> length tmp then (Ok tmp, conn')
          else (case err of
                  Some e \<Rightarrow> (Fail, conn')
                | None \<Rightarrow>
                    (case io_ReadFull (n - length tmp) conn' of
                       (Ok rest, conn'') \<Rightarrow> (Ok (tmp @ rest), conn'')
                     | (Fail, conn'') \<Rightarrow> (Fail, conn'')
                     | (Panic, conn'') \<Rightarrow> (Panic, conn''))))"
  by pat_completeness auto
termination
  by (relation "measure (\<lambda>(n, conn). script_size conn)") (auto dest!: conn_Read_smaller [OF sym])

declare io_ReadFull.simps [simp del]

definition rcon_frame :: "i32 \<Rightarrow> i32 \<Rightarrow> bytes \<Rightarrow> bytes" where
  "rcon_frame pid ptype body =
     le32 (word_of_nat (10 + length body)) @ le32 pid @ le32 ptype @ body @ [0x00, 0x00]"

definition next_packet_id :: "i32 \<Rightarrow> i32" where
  "next_packet_id pid =
     (let pid = pid + 1 in if sint pid < sint rconInitialPacketID then rconInitialPacketID else pid)"

definition send :: "i32 \<Rightarrow> bytes \<Rightarrow> Rcon \<Rightarrow> i32 option \<times> Rcon" where
  "send ptype body r =
     (let pid = rcon_nextPacketID r;
          r = r\<lparr>rcon_nextPacketID := next_packet_id (rcon_nextPacketID r)\<rparr>;
          buf = rcon_frame pid ptype body
      in case conn_Write buf (rcon_out r) of
           (True, k) \<Rightarrow> (Some pid, r\<lparr>rcon_out := k\<rparr>)
         | (False, k) \<Rightarrow> (None, r\<lparr>rcon_out := k\<rparr>))"

definition receivePacket :: "script \<Rightarrow> rconPacket option \<times> script" where
  "receivePacket conn =
     (case io_ReadFull 12 conn of
        (Ok hdr, conn) \<Rightarrow>
          let len = (le_word (take 4 hdr) :: i32);
              pid = le_word (take 4 (drop 4 hdr));
              ptype = le_word (take 4 (drop 8 hdr));
              bodyLen = len - 10
          in if sint bodyLen < 0 then (None, conn)
             else (case io_ReadFull (nat (sint bodyLen)) conn of
                     (Ok body, conn) \<Rightarrow>
                       (case io_ReadFull 2 conn of
                          (Ok term, conn) \<Rightarrow> (Some \<lparr>rpk_id = pid, rpk_ptype = ptype, rpk_body = body\<rparr>, conn)
                        | (_, conn) \<Rightarrow> (None, conn))
                   | (_, conn) \<Rightarrow> (None, conn))
      | (_, conn) \<Rightarrow> (None, conn))"

lemma io_ReadFull_conserves:
  "io_ReadFull n conn = (Ok bs, conn') \<Longrightarrow> bs @ script_bytes conn' = script_bytes conn \<and> length bs = n"
proof (induction n conn arbitrary: bs conn' rule: io_ReadFull.induct)
  case (1 n conn)
  obtain tmp err c where r: "conn_Read n conn = ((tmp, err), c)" by (metis prod.exhaust)
  note facts = conn_Read_conserves [OF r] conn_Read_size [OF r]
  show ?case
  proof (cases "n = 0 \<or> n \<le> length tmp \<or> err \<noteq> None")
    case True
    then show ?thesis using "1.prems" facts r by (subst (asm) io_ReadFull.simps) (auto split: if_splits)
  next
    case False
    obtain x c' where x: "io_ReadFull (n - length tmp) c = (x, c')" by fastforce
    obtain rest where rest: "x = Ok rest" "bs = tmp @ rest" "conn' = c'"
      using "1.prems" r x False by (subst (asm) io_ReadFull.simps) (auto split: outcome.splits)
    have "rest @ script_bytes c' = script_bytes c \<and> length rest = n - length tmp"
      using "1.IH" [OF _ r [symmetric] refl, of rest c'] False x rest(1) by simp
    then show ?thesis using facts rest False by auto
  qed
qed

lemma receivePacket_conserves:
  assumes "receivePacket conn = (Some pkt, conn')"
  shows "\<exists>used. used @ script_bytes conn' = script_bytes conn \<and> length used = 14 + length (rpk_body pkt)"
proof -
  obtain hdr c1 where h: "io_ReadFull 12 conn = (Ok hdr, c1)"
    using assms by (auto simp: receivePacket_def split: prod.splits outcome.splits)
  define n where "n = nat (sint (le_word (take 4 hdr) - 10 :: i32))"
  obtain body c2 where b: "io_ReadFull n c1 = (Ok body, c2)"
    using assms h by (auto simp: receivePacket_def n_def Let_def split: prod.splits outcome.splits if_splits)
  obtain tm where t: "io_ReadFull 2 c2 = (Ok tm, conn')" and "rpk_body pkt = body"
    using assms h b by (auto simp: receivePacket_def n_def [symmetric] Let_def split: prod.splits outcome.splits if_splits)
  then show ?thesis
    using io_ReadFull_conserves [OF h] io_ReadFull_conserves [OF b] io_ReadFull_conserves [OF t]
    by (intro exI [of _ "hdr @ body @ tm"]) auto
qed

lemma receivePacket_smaller:
  "receivePacket conn = (Some pkt, conn') \<Longrightarrow> length (script_bytes conn') < length (script_bytes conn)"
  by (drule receivePacket_conserves) (auto dest!: arg_cong [where f = length])

function auth_loop :: "script \<Rightarrow> bool \<times> script" where
  "auth_loop conn =
     (case receivePacket conn of
        (None, conn') \<Rightarrow> (False, conn')
      | (Some pkt, conn') \<Rightarrow>
          if rpk_ptype pkt = rconTypeAuthResponse
          then (\<not> sint (rpk_id pkt) < 0, conn')
          else auth_loop conn')"
  by pat_completeness auto
termination
  by (relation "measure (\<lambda>conn. length (script_bytes conn))") (auto dest!: receivePacket_smaller [OF sym])

declare auth_loop.simps [simp del]

definition auth :: "bytes \<Rightarrow> Rcon \<Rightarrow> bool \<times> Rcon" where
  "auth password r =
     (case send rconTypeAuth password r of
        (None, r) \<Rightarrow> (False, r)
      | (Some _, r) \<Rightarrow> (case auth_loop (rcon_in r) of (ok, conn) \<Rightarrow> (ok, r\<lparr>rcon_in := conn\<rparr>)))"

function response_loop :: "i32 \<Rightarrow> bytes \<Rightarrow> script \<Rightarrow> bytes option \<times> script" where
  "response_loop endID result conn =
     (case receivePacket conn of
        (None, conn') \<Rightarrow> (None, conn')
      | (Some pkt, conn') \<Rightarrow>
          if rpk_id pkt = endID then (Some result, conn')
          else response_loop endID (result @ rpk_body pkt) conn')"
  by pat_completeness auto
termination
  by (relation "measure (\<lambda>(endID, result, conn). length (script_bytes conn))")
    (auto dest!: receivePacket_smaller [OF sym])

declare response_loop.simps [simp del]

definition receiveMultiPacketResponse :: "Rcon \<Rightarrow> bytes option \<times> Rcon" where
  "receiveMultiPacketResponse r =
     (case send rconTypeExecCommand [] r of
        (None, r) \<Rightarrow> (None, r)
      | (Some endID, r) \<Rightarrow>
          (case response_loop endID [] (rcon_in r) of (res, conn) \<Rightarrow> (res, r\<lparr>rcon_in := conn\<rparr>)))"

definition Cmd :: "bytes \<Rightarrow> Rcon \<Rightarrow> bytes option \<times> Rcon" where
  "Cmd cmd r =
     (if rconMaxPayloadSize < length cmd then (None, r)
      else case send rconTypeExecCommand cmd r of
        (None, r) \<Rightarrow> (None, r)
      | (Some _, r) \<Rightarrow> receiveMultiPacketResponse r)"

text \<open>\<open>dial\<close>: the connection \<^verbatim>\<open>net.Dial\<close> opens; a connection that is given up is closed.\<close>

definition ConnectRcon :: "(script \<times> sink) option \<Rightarrow> bool \<Rightarrow> bytes \<Rightarrow> Rcon option" where
  "ConnectRcon dial sendProxyV2 pass =
     (case dial of
        None \<Rightarrow> None
      | Some (conn, k) \<Rightarrow>
          (case (if sendProxyV2
                 then (case LocalHeader of Ok header \<Rightarrow> conn_Write header k | _ \<Rightarrow> (False, k))
                 else (True, k)) of
             (False, k) \<Rightarrow> None
           | (True, k) \<Rightarrow>
               (case auth pass \<lparr>rcon_in = conn, rcon_out = k, rcon_nextPacketID = rconInitialPacketID\<rparr> of
                  (False, r) \<Rightarrow> None
                | (True, r) \<Rightarrow> Some r)))"

section \<open>Packets on the wire\<close>

lemma conn_Read_clean: "conn_Read k conn = (r, conn') \<Longrightarrow> clean_stream conn \<Longrightarrow> clean_stream conn'"
  by (cases "(k, conn)" rule: conn_Read.cases) (auto simp: clean_stream_def split: if_splits)

lemma conn_Read_no_error:
  "conn_Read k conn = ((tmp, e), conn') \<Longrightarrow> clean_stream conn \<Longrightarrow> conn \<noteq> [] \<Longrightarrow> e = None"
  by (cases "(k, conn)" rule: conn_Read.cases) (auto simp: clean_stream_def split: if_splits)

lemma io_ReadFull_clean:
  assumes "clean_stream conn" and "script_bytes conn = bs @ rest" and "length bs = n"
  shows "\<exists>conn'. io_ReadFull n conn = (Ok bs, conn') \<and> script_bytes conn' = rest \<and> clean_stream conn'"
  using assms
proof (induction n conn arbitrary: bs rule: io_ReadFull.induct)
  case (1 n conn)
  show ?case
  proof (cases "n = 0")
    case True
    then show ?thesis using "1.prems" by (subst io_ReadFull.simps) simp
  next
    case False
    obtain tmp err c where r: "conn_Read n conn = ((tmp, err), c)" by (metis prod.exhaust)
    have "conn \<noteq> []" using False "1.prems" by auto
    then have err: "err = None" and c: "clean_stream c"
      using conn_Read_no_error [OF r] conn_Read_clean [OF r] "1.prems"(1) by simp_all
    have "tmp @ script_bytes c = bs @ rest" "length tmp \<le> length bs"
      using conn_Read_conserves [OF r] conn_Read_size [OF r] "1.prems" by simp_all
    then obtain more where more: "bs = tmp @ more" "script_bytes c = more @ rest"
      by (auto simp: append_eq_append_conv2)
    show ?thesis
    proof (cases "n \<le> length tmp")
      case True
      then have "length more = 0" using arg_cong [OF more(1), of length, unfolded length_append] "1.prems"(3) by linarith
      then show ?thesis using r c more False True by (subst io_ReadFull.simps) simp
    next
      case short: False
      obtain c' where "io_ReadFull (n - length tmp) c = (Ok more, c')" "script_bytes c' = rest" "clean_stream c'"
        using "1.IH" [OF False r [symmetric] refl short err c more(2)] more(1) "1.prems"(3) by auto
      then show ?thesis using r more err False short by (subst io_ReadFull.simps) simp
    qed
  qed
qed

lemma receivePacket_bytes:
  assumes "clean_stream conn" and "script_bytes conn = le32 len @ le32 pid @ le32 ptype @ body @ tm @ rest"
    and "sint (len - 10) = int (length body)" and "length tm = 2"
  shows "\<exists>conn'. receivePacket conn = (Some \<lparr>rpk_id = pid, rpk_ptype = ptype, rpk_body = body\<rparr>, conn') \<and>
    script_bytes conn' = rest \<and> clean_stream conn'"
proof -
  let ?hdr = "le32 len @ le32 pid @ le32 ptype"
  obtain c1 where c1: "io_ReadFull 12 conn = (Ok ?hdr, c1)" "script_bytes c1 = body @ tm @ rest" "clean_stream c1"
    using io_ReadFull_clean [OF assms(1), of ?hdr "body @ tm @ rest" 12] assms(2) by auto
  obtain c2 where c2: "io_ReadFull (length body) c1 = (Ok body, c2)" "script_bytes c2 = tm @ rest" "clean_stream c2"
    using io_ReadFull_clean [OF c1(3,2) refl] by blast
  obtain c3 where c3: "io_ReadFull 2 c2 = (Ok tm, c3)" "script_bytes c3 = rest" "clean_stream c3"
    using io_ReadFull_clean [OF c2(3,2) assms(4)] by auto
  have hdr: "take 4 ?hdr = le32 len" "take 4 (drop 4 ?hdr) = le32 pid" "take 4 (drop 8 ?hdr) = le32 ptype"
    by simp_all
  show ?thesis
    using c3
    by (simp only: receivePacket_def c1(1) prod.case outcome.case hdr le_word_le32 assms(3) Let_def) (simp add: c2(1))
qed

text \<open>A body whose frame length fits the 32-bit field.\<close>

lemma receivePacket_frame:
  assumes "clean_stream conn" and "script_bytes conn = rcon_frame pid ptype body @ rest"
    and "length body + 10 < 2 ^ 31"
  shows "\<exists>conn'. receivePacket conn = (Some \<lparr>rpk_id = pid, rpk_ptype = ptype, rpk_body = body\<rparr>, conn') \<and>
    script_bytes conn' = rest \<and> clean_stream conn'"
proof -
  have "(word_of_nat (10 + length body) - 10 :: i32) = word_of_nat (length body)" by simp
  then have "sint (word_of_nat (10 + length body) - 10 :: i32) = int (length body)"
    using assms(3) sint_of_length [of "length body"] by simp
  then show ?thesis
    using receivePacket_bytes [OF assms(1), of _ pid ptype body "[0, 0]" rest] assms(2) by (simp add: rcon_frame_def)
qed

text \<open>
  The check of the length is made after the subtraction, which wraps: the ten smallest 32-bit integers, all
  negative, announce a body of about two gigabytes.
\<close>

lemma receivePacket_length_wraps:
  assumes "clean_stream conn" and "script_bytes conn = le32 0x80000000 @ le32 pid @ le32 ptype @ body @ [0, 0] @ rest"
    and "length body = 2 ^ 31 - 10"
  shows "\<exists>conn'. receivePacket conn = (Some \<lparr>rpk_id = pid, rpk_ptype = ptype, rpk_body = body\<rparr>, conn')"
  using receivePacket_bytes [OF assms(1,2)] assms(3) by auto

lemma receivePacket_negative_length:
  assumes "clean_stream conn" and "script_bytes conn = le32 len @ le32 pid @ le32 ptype @ rest"
    and "- (2 ^ 31) + 10 \<le> sint len" and "sint len < 10"
  shows "fst (receivePacket conn) = None"
proof -
  let ?hdr = "le32 len @ le32 pid @ le32 ptype"
  obtain c1 where c1: "io_ReadFull 12 conn = (Ok ?hdr, c1)"
    using io_ReadFull_clean [OF assms(1), of ?hdr rest 12] assms(2) by auto
  have "sint (len - 10) = sint len - 10"
    using assms(3,4) by (simp add: sint_word_ariths signed_take_bit_int_eq_self)
  then have "sint (le_word (take 4 ?hdr) - 10 :: i32) < 0" using assms(4) by simp
  then show ?thesis by (simp only: receivePacket_def c1 prod.case outcome.case Let_def if_True fst_conv)
qed

section \<open>Identifiers\<close>

definition rcon_ok :: "Rcon \<Rightarrow> bool" where
  "rcon_ok r \<longleftrightarrow> 1 \<le> sint (rcon_nextPacketID r)"

lemma next_packet_id_positive: "1 \<le> sint (next_packet_id pid)"
  by (simp add: next_packet_id_def rconInitialPacketID_def Let_def)

lemma next_packet_id_differs: "next_packet_id pid \<noteq> pid"
  by (auto simp: next_packet_id_def rconInitialPacketID_def Let_def)

lemma send_ok: "snd (send ptype body r) = r' \<Longrightarrow> rcon_ok r'"
  by (auto simp: send_def rcon_ok_def Let_def next_packet_id_positive split: prod.splits bool.splits)

section \<open>Commands and answers\<close>

text \<open>The frames of answers to the command \<open>pid\<close>, one per part of the answer.\<close>

definition answer_frames :: "i32 \<Rightarrow> bytes list \<Rightarrow> bytes" where
  "answer_frames pid parts = concat (map (rcon_frame pid rconTypeResponseValue) parts)"

lemma response_loop_collects:
  assumes "clean_stream conn" and "pid \<noteq> endID"
    and "script_bytes conn = answer_frames pid parts @ rcon_frame endID ptype marker @ rest"
    and "\<forall>part \<in> set (marker # parts). length part + 10 < 2 ^ 31"
  shows "\<exists>conn'. response_loop endID result conn = (Some (result @ concat parts), conn') \<and>
    script_bytes conn' = rest \<and> clean_stream conn'"
  using assms
proof (induction parts arbitrary: result conn)
  case Nil
  then obtain c where "receivePacket conn = (Some \<lparr>rpk_id = endID, rpk_ptype = ptype, rpk_body = marker\<rparr>, c)"
      "script_bytes c = rest" "clean_stream c"
    using receivePacket_frame [of conn endID ptype marker rest] by (auto simp: answer_frames_def)
  then show ?case by (subst response_loop.simps) simp
next
  case (Cons part parts)
  then obtain c where c: "receivePacket conn = (Some \<lparr>rpk_id = pid, rpk_ptype = rconTypeResponseValue, rpk_body = part\<rparr>, c)"
      "script_bytes c = answer_frames pid parts @ rcon_frame endID ptype marker @ rest" "clean_stream c"
    using receivePacket_frame [of conn pid rconTypeResponseValue part "answer_frames pid parts @ rcon_frame endID ptype marker @ rest"]
    by (auto simp: answer_frames_def)
  then show ?case using Cons.IH [OF c(3) Cons.prems(2) c(2), of "result @ part"] Cons.prems(2,4)
    by (subst response_loop.simps) simp
qed

lemma Cmd_answered:
  assumes "length cmd \<le> rconMaxPayloadSize" and "2 \<le> sk_budget (rcon_out r)" and "clean_stream (rcon_in r)"
    and "pid = rcon_nextPacketID r" and "endID = next_packet_id pid"
    and "script_bytes (rcon_in r) = answer_frames pid parts @ rcon_frame endID ptype marker @ rest"
    and "\<forall>part \<in> set (marker # parts). length part + 10 < 2 ^ 31"
  shows "\<exists>r'. Cmd cmd r = (Some (concat parts), r') \<and> script_bytes (rcon_in r') = rest \<and>
    clean_stream (rcon_in r') \<and> rcon_nextPacketID r' = next_packet_id endID \<and>
    sk_written (rcon_out r') = sk_written (rcon_out r) @
      [rcon_frame pid rconTypeExecCommand cmd, rcon_frame endID rconTypeExecCommand []]"
proof -
  have "pid \<noteq> endID" using assms(5) next_packet_id_differs [of pid] by simp
  from response_loop_collects [OF assms(3) this assms(6,7), of "[]"] show ?thesis
    using assms(1,2,4,5) by (auto simp: Cmd_def send_def receiveMultiPacketResponse_def conn_Write_def Let_def)
qed

lemma auth_rejected:
  assumes "clean_stream conn" and "script_bytes conn = rcon_frame pid rconTypeAuthResponse body @ rest"
    and "length body + 10 < 2 ^ 31"
  shows "fst (auth_loop conn) = (0 \<le> sint pid)"
  using receivePacket_frame [OF assms] by (subst auth_loop.simps) (auto simp: not_less)

end
