(* ===== verification/Online_Auth.thy ===== *)
theory Online_Auth
  imports Velocity Stream_Read
begin

text \<open>
  \<^verbatim>\<open>online_auth.go\<close>: the encryption exchange of a login in online mode, the question to the session service
  and the encrypted connection. The cryptography of the standard library is an argument: the RSA key pair
  as the public key's encoding and the decryption function, SHA-1, and AES as the block function of a
  secret. Of HTTP and JSON only the answer is an argument: status, decoded body, and whether anything
  follows it.

  Shown here: the encrypted connection is transparent in both directions however the bytes are cut up, a
  profile is accepted only when the client proved to own the login and the session service vouched for the
  name, an accepted profile can always be forwarded, and the session hash is the signed hexadecimal form of
  the digest.
\<close>

section \<open>CFB8\<close>

text \<open>\<^verbatim>\<open>copy\<close> of the standard library.\<close>

definition go_copy :: "'a list \<Rightarrow> 'a list \<Rightarrow> 'a list" where
  "go_copy dst src = take (length dst) src @ drop (length src) dst"

record cfb8 =
  cf_block :: "bytes \<Rightarrow> bytes"
  cf_iv :: bytes
  cf_decrypt :: bool

definition newCFB8 :: "(bytes \<Rightarrow> bytes) \<Rightarrow> bytes \<Rightarrow> bool \<Rightarrow> cfb8" where
  "newCFB8 block iv decrypt = \<lparr>cf_block = block, cf_iv = iv, cf_decrypt = decrypt\<rparr>"

definition cfb8_byte :: "cfb8 \<Rightarrow> byte \<Rightarrow> byte \<times> cfb8" where
  "cfb8_byte c b =
     (let scratch = cf_iv c;
          iv = cf_block c (cf_iv c);
          out = b XOR iv ! 0;
          iv = go_copy iv (drop 1 scratch);
          iv = iv[length iv - 1 := (if cf_decrypt c then b else out)]
      in (out, c\<lparr>cf_iv := iv\<rparr>))"

fun XORKeyStream :: "cfb8 \<Rightarrow> bytes \<Rightarrow> bytes \<times> cfb8" where
  "XORKeyStream c [] = ([], c)"
| "XORKeyStream c (b # src) =
     (let (out, c) = cfb8_byte c b; (dst, c) = XORKeyStream c src in (out # dst, c))"

section \<open>The encrypted connection\<close>

record minecraftEncryptedConn =
  ec_in :: script
  ec_out :: sink
  ec_reader :: cfb8
  ec_writer :: cfb8

text \<open>\<open>aes\<close> is \<^verbatim>\<open>aes.NewCipher\<close>: the block function of a secret of an admissible size.\<close>

definition newMinecraftEncryptedConn ::
  "(bytes \<Rightarrow> (bytes \<Rightarrow> bytes) outcome) \<Rightarrow> script \<Rightarrow> sink \<Rightarrow> bytes \<Rightarrow> minecraftEncryptedConn outcome" where
  "newMinecraftEncryptedConn aes conn k secret =
     (case aes secret of
        Ok block \<Rightarrow>
          Ok \<lparr>ec_in = conn, ec_out = k, ec_reader = newCFB8 block secret True,
              ec_writer = newCFB8 block secret False\<rparr>
      | _ \<Rightarrow> Fail)"

definition EncryptedConn_Read ::
  "nat \<Rightarrow> minecraftEncryptedConn \<Rightarrow> (bytes \<times> io_error option) \<times> minecraftEncryptedConn" where
  "EncryptedConn_Read n c =
     (case conn_Read n (ec_in c) of
        ((p, err), conn) \<Rightarrow>
          (case (if 0 < length p then XORKeyStream (ec_reader c) p else (p, ec_reader c)) of
             (p, reader) \<Rightarrow> ((p, err), c\<lparr>ec_in := conn, ec_reader := reader\<rparr>)))"

text \<open>The loop over partial writes ends after one write of everything, or with its error.\<close>

definition EncryptedConn_Write :: "bytes \<Rightarrow> minecraftEncryptedConn \<Rightarrow> bool \<times> minecraftEncryptedConn" where
  "EncryptedConn_Write p c =
     (case XORKeyStream (ec_writer c) p of
        (encrypted, writer) \<Rightarrow>
          (case (if 0 < length encrypted then conn_Write encrypted (ec_out c) else (True, ec_out c)) of
             (ok, k) \<Rightarrow> (ok, c\<lparr>ec_out := k, ec_writer := writer\<rparr>)))"

section \<open>The exchange\<close>

definition readLoginByteArray :: "bytes \<Rightarrow> nat \<Rightarrow> (bytes \<times> bytes) outcome" where
  "readLoginByteArray data maxLen =
     (case ReadVarInt data of
        Ok (n, len) \<Rightarrow>
          if sint len < 0 \<or> int maxLen < sint len \<or> length data < n + nat (sint len) then Fail
          else Ok (take (nat (sint len)) (drop n data), drop (n + nat (sint len)) data)
      | _ \<Rightarrow> Fail)"

text \<open>\<^verbatim>\<open>big.Int\<close>: the value of a byte string and the lower-case hexadecimal text.\<close>

definition SetBytes :: "bytes \<Rightarrow> int" where
  "SetBytes b = foldl (\<lambda>n x. 256 * n + uint x) 0 b"

definition Text16 :: "int \<Rightarrow> string" where
  "Text16 n = (if n < 0 then ''-'' @ hex_nat (nat (- n)) else hex_nat (nat n))"

definition minecraftServerHash :: "(bytes \<Rightarrow> bytes) \<Rightarrow> string \<Rightarrow> bytes \<Rightarrow> bytes \<Rightarrow> string" where
  "minecraftServerHash sha1 serverID secret publicKey =
     (let digest = sha1 (bytes_of_string serverID @ secret @ publicKey);
          n = SetBytes digest;
          n = (if digest ! 0 AND 0x80 \<noteq> 0 then n - 2 ^ (length digest * 8) else n)
      in Text16 n)"

definition ReplaceAll_char :: "char \<Rightarrow> string \<Rightarrow> string" where
  "ReplaceAll_char c s = filter (\<lambda>x. x \<noteq> c) s"

definition fromHexChar :: "char \<Rightarrow> nat option" where
  "fromHexChar c =
     (let n = (of_char c :: nat)
      in if 48 \<le> n \<and> n \<le> 57 then Some (n - 48)
         else if 97 \<le> n \<and> n \<le> 102 then Some (n - 97 + 10)
         else if 65 \<le> n \<and> n \<le> 70 then Some (n - 65 + 10)
         else None)"

fun hex_DecodeString :: "string \<Rightarrow> bytes option" where
  "hex_DecodeString [] = Some []"
| "hex_DecodeString [c] = None"
| "hex_DecodeString (c # d # s) =
     (case (fromHexChar c, fromHexChar d, hex_DecodeString s) of
        (Some a, Some b, Some bs) \<Rightarrow> Some (word_of_nat (16 * a + b) # bs)
      | _ \<Rightarrow> None)"

definition parseProfileUUID :: "string \<Rightarrow> bytes outcome" where
  "parseProfileUUID raw =
     (let raw = ReplaceAll_char (CHR ''-'') raw
      in if length raw \<noteq> 32 then Fail
         else case hex_DecodeString raw of Some b \<Rightarrow> Ok b | None \<Rightarrow> Fail)"

record joinedProfileResponse =
  jp_ID :: string
  jp_Name :: string
  jp_Properties :: "ProfileProperty list"

record session_answer =
  sa_StatusCode :: nat
  sa_decoded :: "joinedProfileResponse option"
  sa_trailing :: bool

text \<open>
  \<^verbatim>\<open>strings.EqualFold\<close>; from the first byte outside ASCII on, \<open>uni\<close> compares the Unicode text.
\<close>

fun EqualFold :: "(string \<Rightarrow> string \<Rightarrow> bool) \<Rightarrow> string \<Rightarrow> string \<Rightarrow> bool" where
  "EqualFold uni [] [] = True"
| "EqualFold uni [] (d # t) = False"
| "EqualFold uni (c # s) [] = False"
| "EqualFold uni (c # s) (d # t) =
     (if 128 \<le> (of_char c :: nat) \<or> 128 \<le> (of_char d :: nat) then uni (c # s) (d # t)
      else lower_char c = lower_char d \<and> EqualFold uni s t)"

definition profile_property_ok :: "ProfileProperty \<Rightarrow> bool" where
  "profile_property_ok p \<longleftrightarrow>
     \<not> (pp_Name p = [] \<or> 64 < length (pp_Name p) \<or> pp_Value p = [] \<or> 32767 < length (pp_Value p) \<or>
        (case pp_Signature p of Some s \<Rightarrow> 8192 < length s | None \<Rightarrow> False))"

text \<open>
  What the session service is reached through: \<open>url_Parse\<close> gives the scheme and the host name of an address,
  \<open>ParseIP\<close> an address in numbers, and \<open>ask\<close> is the request with its two query parameters.
\<close>

record session_service =
  sx_url_Parse :: "string \<Rightarrow> (string \<times> string) option"
  sx_ParseIP :: "string \<Rightarrow> bytes option"
  sx_fold :: "string \<Rightarrow> string \<Rightarrow> bool"
  sx_ask :: "string \<Rightarrow> string \<Rightarrow> string \<Rightarrow> session_answer option"

definition TrimRight_slash :: "string \<Rightarrow> string" where
  "TrimRight_slash s = rev (dropWhile (\<lambda>c. c = CHR ''/'') (rev s))"

definition session_endpoint :: "string \<Rightarrow> string" where
  "session_endpoint base = TrimRight_slash base @ ''/session/minecraft/hasJoined''"

definition session_address_safe :: "session_service \<Rightarrow> string \<times> string \<Rightarrow> bool" where
  "session_address_safe sx endpoint =
     (case endpoint of (scheme, host) \<Rightarrow>
        scheme = ''https'' \<or> host = ''localhost'' \<or>
        (case sx_ParseIP sx host of Some ip \<Rightarrow> IP_IsLoopback ip | None \<Rightarrow> False))"

definition joined_profile :: "session_service \<Rightarrow> string \<Rightarrow> joinedProfileResponse \<Rightarrow> GameProfile outcome" where
  "joined_profile sx username wire =
     (if \<not> EqualFold (sx_fold sx) (jp_Name wire) username then Fail
      else case parseProfileUUID (jp_ID wire) of
        Ok uuid \<Rightarrow>
          if length (jp_Name wire) = 0 \<or> 16 < length (jp_Name wire) \<or> 64 < length (jp_Properties wire) then Fail
          else if \<not> list_all profile_property_ok (jp_Properties wire) then Fail
          else Ok \<lparr>gp_UUID = uuid, gp_Name = jp_Name wire, gp_Properties = jp_Properties wire\<rparr>
      | _ \<Rightarrow> Fail)"

definition lookupJoinedProfile ::
  "session_service \<Rightarrow> string \<Rightarrow> string \<Rightarrow> string \<Rightarrow> GameProfile outcome" where
  "lookupJoinedProfile sx base username serverHash =
     (case sx_url_Parse sx (session_endpoint base) of
        None \<Rightarrow> Fail
      | Some endpoint \<Rightarrow>
          if \<not> session_address_safe sx endpoint then Fail
          else case sx_ask sx (session_endpoint base) username serverHash of
            None \<Rightarrow> Fail
          | Some resp \<Rightarrow>
              if sa_StatusCode resp \<noteq> 200 then Fail
              else case sa_decoded resp of
                None \<Rightarrow> Fail
              | Some wire \<Rightarrow> if sa_trailing resp then Fail else joined_profile sx username wire)"

record auth_env =
  ax_key :: "(bytes \<times> (bytes \<Rightarrow> bytes outcome)) outcome"
  ax_token :: "bytes outcome"
  ax_aes :: "bytes \<Rightarrow> (bytes \<Rightarrow> bytes) outcome"
  ax_sha1 :: "bytes \<Rightarrow> bytes"
  ax_session :: session_service

definition encryption_request :: "bytes \<Rightarrow> bytes \<Rightarrow> RawPacket" where
  "encryption_request publicKey verifyToken =
     (let w = WriteString NewPacketWriter [];
          w = WriteByteArray w publicKey;
          w = WriteByteArray w verifyToken
      in NewRawPacket PacketClientEncryptionRequest (Bytes w))"

text \<open>The two values of an encryption response, decrypted: the shared secret, if the token is the one sent.\<close>

definition response_secret :: "(bytes \<Rightarrow> bytes outcome) \<Rightarrow> bytes \<Rightarrow> bytes \<Rightarrow> bytes outcome" where
  "response_secret decrypt verifyToken data =
     (case readLoginByteArray data 512 of
        Ok (encryptedSecret, rest) \<Rightarrow>
          (case readLoginByteArray rest 512 of
             Ok (encryptedToken, rest) \<Rightarrow>
               if rest \<noteq> [] then Fail
               else (case decrypt encryptedSecret of
                  Ok secret \<Rightarrow>
                    if length secret \<noteq> 16 then Fail
                    else (case decrypt encryptedToken of
                       Ok tok \<Rightarrow> if tok \<noteq> verifyToken then Fail else Ok secret
                     | _ \<Rightarrow> Fail)
                | _ \<Rightarrow> Fail)
           | _ \<Rightarrow> Fail)
      | _ \<Rightarrow> Fail)"

definition session_base :: "Config \<Rightarrow> string" where
  "session_base config =
     (if au_SessionServer (cfg_Auth config) = [] then ''https://sessionserver.mojang.com''
      else au_SessionServer (cfg_Auth config))"

definition authenticate_secret ::
  "auth_env \<Rightarrow> script \<Rightarrow> sink \<Rightarrow> bytes \<Rightarrow> bytes \<Rightarrow> string \<Rightarrow> Config \<Rightarrow>
   (minecraftEncryptedConn \<times> GameProfile) outcome" where
  "authenticate_secret ax conn k publicKey secret username config =
     (case newMinecraftEncryptedConn (ax_aes ax) conn k secret of
        Ok encryptedConn \<Rightarrow>
          (case lookupJoinedProfile (ax_session ax) (session_base config) username
                  (minecraftServerHash (ax_sha1 ax) [] secret publicKey) of
             Ok profile \<Rightarrow> Ok (encryptedConn, profile)
           | _ \<Rightarrow> Fail)
      | _ \<Rightarrow> Fail)"

text \<open>
  The result, and what is left of the buffer, the incoming stream and the outgoing one; the read deadline
  shows as a timeout in the stream.
\<close>

definition authenticateLobbyClient ::
  "zlib \<Rightarrow> auth_env \<Rightarrow> Client \<Rightarrow> script \<Rightarrow> sink \<Rightarrow> bytes \<Rightarrow> string \<Rightarrow> Config \<Rightarrow>
   (minecraftEncryptedConn \<times> GameProfile) outcome \<times> bytes \<times> script \<times> sink" where
  "authenticateLobbyClient z ax client conn k buf username config =
     (case (ax_key ax, ax_token ax) of
        (Ok (publicKey, decrypt), Ok verifyToken) \<Rightarrow>
          (case writePacket z client (encryption_request publicKey verifyToken) k of
             (False, k) \<Rightarrow> (Fail, buf, conn, k)
           | (True, k) \<Rightarrow>
               (case ReadPacketWithTimeout z client buf conn of
                  (Packet packet raw, buf, conn) \<Rightarrow>
                    if rp_ID packet \<noteq> PacketServerEncryptionResponse \<or> length buf \<noteq> 0
                    then (Fail, buf, conn, k)
                    else (case response_secret decrypt verifyToken (rp_Data packet) of
                       Ok secret \<Rightarrow> (authenticate_secret ax conn k publicKey secret username config, buf, conn, k)
                     | _ \<Rightarrow> (Fail, buf, conn, k))
                | (_, buf, conn) \<Rightarrow> (Fail, buf, conn, k)))
      | _ \<Rightarrow> (Fail, buf, conn, k))"

section \<open>Transparency of the encrypted connection\<close>

text \<open>The two directions share the shift register: it holds the last bytes of the encrypted text.\<close>

lemma cfb8_byte_inverse:
  assumes "cfb8_byte (newCFB8 block iv False) b = (out, c)"
  shows "cfb8_byte (newCFB8 block iv True) out = (b, c\<lparr>cf_decrypt := True\<rparr>)"
  using assms by (auto simp: cfb8_byte_def newCFB8_def Let_def xor.assoc)

lemma cfb8_byte_state:
  "cfb8_byte c b = (out, c') \<Longrightarrow> c' = newCFB8 (cf_block c) (cf_iv c') (cf_decrypt c)"
  by (auto simp: cfb8_byte_def newCFB8_def Let_def)

lemma XORKeyStream_append:
  "XORKeyStream c (a @ b) =
     (let (x, c) = XORKeyStream c a; (y, c) = XORKeyStream c b in (x @ y, c))"
  by (induction a arbitrary: c) (simp_all add: Let_def split: prod.split)

lemma XORKeyStream_length [simp]: "length (fst (XORKeyStream c src)) = length src"
  by (induction src arbitrary: c) (simp_all add: Let_def split: prod.split, metis fst_conv)

lemma XORKeyStream_inverse:
  "XORKeyStream (newCFB8 block iv False) src = (out, c) \<Longrightarrow>
   XORKeyStream (newCFB8 block iv True) out = (src, c\<lparr>cf_decrypt := True\<rparr>)"
proof (induction src arbitrary: iv out)
  case Nil
  then show ?case by (auto simp: newCFB8_def)
next
  case (Cons b src)
  obtain o1 c1 where s: "cfb8_byte (newCFB8 block iv False) b = (o1, c1)" by fastforce
  have c1: "c1 = newCFB8 block (cf_iv c1) False" using cfb8_byte_state [OF s] by (simp add: newCFB8_def)
  obtain out' where o: "out = o1 # out'" "XORKeyStream c1 src = (out', c)"
    using Cons.prems s by (auto simp: Let_def split: prod.splits)
  have "c1\<lparr>cf_decrypt := True\<rparr> = newCFB8 block (cf_iv c1) True" by (subst c1) (simp add: newCFB8_def)
  then show ?case
    using Cons.IH [of "cf_iv c1" out'] o c1 cfb8_byte_inverse [OF s] by (simp add: Let_def)
qed

text \<open>The plain text of a stream of encrypted deliveries, and the reads that see it.\<close>

fun decrypt_script :: "cfb8 \<Rightarrow> script \<Rightarrow> script" where
  "decrypt_script c [] = []"
| "decrypt_script c ((bs, e) # conn) =
     (let (plain, c) = XORKeyStream c bs in (plain, e) # decrypt_script c conn)"

lemma script_bytes_decrypt: "script_bytes (decrypt_script c conn) = fst (XORKeyStream c (script_bytes conn))"
  by (induction c conn rule: decrypt_script.induct) (auto simp: XORKeyStream_append Let_def split: prod.splits)

lemma XORKeyStream_split:
  assumes "XORKeyStream c bs = (x, c2)"
  obtains c1 where "XORKeyStream c (take k bs) = (take k x, c1)" "XORKeyStream c1 (drop k bs) = (drop k x, c2)"
proof -
  obtain x1 c1 where a: "XORKeyStream c (take k bs) = (x1, c1)" by fastforce
  obtain x2 c2' where b: "XORKeyStream c1 (drop k bs) = (x2, c2')" by fastforce
  have "x = x1 @ x2" "c2 = c2'" using assms XORKeyStream_append [of c "take k bs" "drop k bs"] a b by simp_all
  moreover have "length x1 = min (length bs) k" "length x2 = length bs - k"
    using XORKeyStream_length [of c "take k bs"] XORKeyStream_length [of c1 "drop k bs"] a b by simp_all
  ultimately show ?thesis using that [of c1] a b by (cases "k \<le> length bs") simp_all
qed

definition plain_view :: "minecraftEncryptedConn \<Rightarrow> script" where
  "plain_view c = decrypt_script (ec_reader c) (ec_in c)"

text \<open>
  A read of the encrypted connection is a read of the plain text: the encrypted connection can stand wherever
  the plain one did.
\<close>

lemma EncryptedConn_Read_refines:
  "conn_Read n (plain_view c) = (case EncryptedConn_Read n c of (r, c') \<Rightarrow> (r, plain_view c'))"
proof (cases "ec_in c")
  case Nil
  then show ?thesis by (simp add: plain_view_def EncryptedConn_Read_def)
next
  case (Cons d conn)
  obtain bs e where d: "d = (bs, e)" by fastforce
  obtain x c2 where x: "XORKeyStream (ec_reader c) bs = (x, c2)" by fastforce
  then have len: "length x = length bs" using XORKeyStream_length [of "ec_reader c" bs] by simp
  show ?thesis
  proof (cases "length bs \<le> n")
    case True
    then show ?thesis using x len
      by (cases "bs = []") (simp_all add: plain_view_def EncryptedConn_Read_def Cons d)
  next
    case False
    obtain c1 where "XORKeyStream (ec_reader c) (take n bs) = (take n x, c1)" "XORKeyStream c1 (drop n bs) = (drop n x, c2)"
      using XORKeyStream_split [OF x, of n] by blast
    then show ?thesis using x len False
      by (cases "n = 0") (auto simp: plain_view_def EncryptedConn_Read_def Cons d)
  qed
qed

text \<open>
  Whatever is written in a sequence of writes, the peer that decrypts the bytes it receives with the same
  secret gets it back.
\<close>

fun EncryptedConn_writes :: "bytes list \<Rightarrow> minecraftEncryptedConn \<Rightarrow> bool \<times> minecraftEncryptedConn" where
  "EncryptedConn_writes [] c = (True, c)"
| "EncryptedConn_writes (p # ps) c =
     (case EncryptedConn_Write p c of
        (True, c) \<Rightarrow> EncryptedConn_writes ps c
      | (False, c) \<Rightarrow> (False, c))"

lemma EncryptedConn_writes_ok:
  "length ps \<le> sk_budget (ec_out c) \<Longrightarrow> \<exists>c'. EncryptedConn_writes ps c = (True, c')"
proof (induction ps arbitrary: c)
  case (Cons p ps)
  obtain x w where "XORKeyStream (ec_writer c) p = (x, w)" by fastforce
  then obtain c1 where "EncryptedConn_Write p c = (True, c1)" "length ps \<le> sk_budget (ec_out c1)"
    using Cons.prems by (cases "x = []") (auto simp: EncryptedConn_Write_def conn_Write_def)
  then show ?case using Cons.IH [of c1] by simp
qed simp

lemma EncryptedConn_writes_bytes:
  assumes "EncryptedConn_writes ps c = (True, c')"
  shows "concat (sk_written (ec_out c')) =
    concat (sk_written (ec_out c)) @ fst (XORKeyStream (ec_writer c) (concat ps))"
  using assms
proof (induction ps arbitrary: c)
  case Nil
  then show ?case by simp
next
  case (Cons p ps)
  obtain x w where x: "XORKeyStream (ec_writer c) p = (x, w)" by fastforce
  obtain c1 where c1: "EncryptedConn_Write p c = (True, c1)" "EncryptedConn_writes ps c1 = (True, c')"
    using Cons.prems by (auto split: prod.splits bool.splits)
  have "ec_writer c1 = w" "concat (sk_written (ec_out c1)) = concat (sk_written (ec_out c)) @ x"
    using c1(1) x by (auto simp: EncryptedConn_Write_def conn_Write_def split: if_splits)
  then show ?case using Cons.IH [OF c1(2)] x
    by (simp add: XORKeyStream_append split: prod.split)
qed

lemma encrypted_writes_decrypted:
  assumes "newMinecraftEncryptedConn aes conn k secret = Ok c" and "EncryptedConn_writes ps c = (True, c')"
    and "sk_written k = []" and "aes secret = Ok block"
  shows "fst (XORKeyStream (newCFB8 block secret True) (concat (sk_written (ec_out c')))) = concat ps"
proof -
  have c: "ec_writer c = newCFB8 block secret False" "ec_out c = k"
    using assms(1,4) by (auto simp: newMinecraftEncryptedConn_def)
  obtain out w where o: "XORKeyStream (newCFB8 block secret False) (concat ps) = (out, w)" by fastforce
  then show ?thesis
    using EncryptedConn_writes_bytes [OF assms(2)] c assms(3) XORKeyStream_inverse [OF o] by simp
qed

text \<open>What the client encrypts and the network delivers in any pieces is what the gateway reads.\<close>

lemma encrypted_reads_plain:
  assumes "newMinecraftEncryptedConn aes conn k secret = Ok c" and "aes secret = Ok block"
    and "script_bytes conn = fst (XORKeyStream (newCFB8 block secret False) plain)"
  shows "script_bytes (plain_view c) = plain"
proof -
  have c: "ec_reader c = newCFB8 block secret True" "ec_in c = conn"
    using assms(1,2) by (auto simp: newMinecraftEncryptedConn_def)
  obtain out w where o: "XORKeyStream (newCFB8 block secret False) plain = (out, w)" by fastforce
  then show ?thesis using assms(3) XORKeyStream_inverse [OF o] by (simp add: plain_view_def script_bytes_decrypt c)
qed

section \<open>The session hash\<close>

definition hex_value :: "string \<Rightarrow> nat" where
  "hex_value s = foldl (\<lambda>n c. 16 * n + the (fromHexChar c)) 0 s"

definition signed_hex_value :: "string \<Rightarrow> int" where
  "signed_hex_value s = (if s \<noteq> [] \<and> hd s = CHR ''-'' then - int (hex_value (tl s)) else int (hex_value s))"

lemma fromHexChar_digit: "n < 16 \<Longrightarrow> fromHexChar (hexDigits ! n) = Some n"
  by (cases n rule: nat.exhaust) (auto simp: less_Suc_eq numeral_eq_Suc fromHexChar_def hexDigits_def)

lemma hexDigits_digit: "n < 16 \<Longrightarrow> hexDigits ! n \<noteq> CHR ''-''"
  by (cases n rule: nat.exhaust) (auto simp: less_Suc_eq numeral_eq_Suc hexDigits_def)

lemma hex_value_snoc: "hex_value (s @ [c]) = 16 * hex_value s + the (fromHexChar c)"
  by (simp add: hex_value_def)

lemma hex_value_nat: "hex_value (hex_nat n) = n"
proof (induction n rule: hex_nat.induct)
  case (1 n)
  show ?case
  proof (cases "n < 16")
    case True
    then show ?thesis by (subst hex_nat.simps) (simp add: hex_value_def fromHexChar_digit)
  next
    case False
    then show ?thesis using 1 by (subst hex_nat.simps) (simp add: hex_value_snoc fromHexChar_digit)
  qed
qed

lemma hex_nat_hd: "hex_nat n \<noteq> [] \<and> hd (hex_nat n) \<noteq> CHR ''-''"
proof (induction n rule: hex_nat.induct)
  case (1 n)
  then show ?case by (subst hex_nat.simps, subst (2) hex_nat.simps) (auto simp: hexDigits_digit)
qed

lemma signed_hex_value_Text16: "signed_hex_value (Text16 n) = n"
  using hex_nat_hd [of "nat n"] by (simp add: signed_hex_value_def Text16_def hex_value_nat)

text \<open>
  The text of a number is the only one in canonical form: lower-case digits, no leading zero, a minus sign only before a number
  other than zero.
\<close>

definition canonical_digits :: "string \<Rightarrow> bool" where
  "canonical_digits s \<longleftrightarrow> s \<noteq> [] \<and> list_all (\<lambda>c. c \<in> set ''0123456789abcdef'') s \<and> (hd s = CHR ''0'' \<longrightarrow> s = ''0'')"

definition canonical_hex :: "string \<Rightarrow> bool" where
  "canonical_hex t \<longleftrightarrow>
     (if t \<noteq> [] \<and> hd t = CHR ''-'' then canonical_digits (tl t) \<and> tl t \<noteq> ''0'' else canonical_digits t)"

lemma lower_digit: "c \<in> set ''0123456789abcdef'' \<Longrightarrow> \<exists>n < 16. fromHexChar c = Some n \<and> hexDigits ! n = c"
  by (auto simp: fromHexChar_def hexDigits_def)

lemma hexDigits_lower: "n < 16 \<Longrightarrow> hexDigits ! n \<in> set ''0123456789abcdef''"
  by (cases n rule: nat.exhaust) (auto simp: less_Suc_eq numeral_eq_Suc hexDigits_def)

lemma hexDigits_zero: "n < 16 \<Longrightarrow> hexDigits ! n = CHR ''0'' \<longleftrightarrow> n = 0"
  by (cases n rule: nat.exhaust) (auto simp: less_Suc_eq numeral_eq_Suc hexDigits_def)

lemma hex_nat_canonical: "canonical_digits (hex_nat n) \<and> (hex_nat n = ''0'' \<longleftrightarrow> n = 0)"
proof (induction n rule: hex_nat.induct)
  case (1 n)
  show ?case
  proof (cases "n < 16")
    case True
    then show ?thesis
      using hexDigits_lower [of n] hexDigits_zero [of n]
      by (subst (1 2) hex_nat.simps) (auto simp: canonical_digits_def)
  next
    case False
    then have "canonical_digits (hex_nat (n div 16))" "hex_nat (n div 16) \<noteq> ''0''" using 1 by simp_all
    then have "canonical_digits (hex_nat (n div 16) @ [hexDigits ! (n mod 16)])"
      "hex_nat (n div 16) @ [hexDigits ! (n mod 16)] \<noteq> ''0''"
      using hexDigits_lower [of "n mod 16"] by (auto simp: canonical_digits_def)
    with False show ?thesis by (subst (1 2) hex_nat.simps) simp
  qed
qed

lemma canonical_digits_unique: "canonical_digits s \<Longrightarrow> hex_nat (hex_value s) = s"
proof (induction s rule: rev_induct)
  case (snoc c xs)
  then obtain d where d: "d < 16" "fromHexChar c = Some d" "hexDigits ! d = c"
    using lower_digit [of c] by (auto simp: canonical_digits_def)
  show ?case
  proof (cases "xs = []")
    case True
    then show ?thesis using d by (subst hex_nat.simps) (simp add: hex_value_def)
  next
    case False
    then have "canonical_digits xs" "xs \<noteq> ''0''" using snoc.prems by (auto simp: canonical_digits_def)
    with snoc.IH have xs: "hex_nat (hex_value xs) = xs" "hex_value xs \<noteq> 0"
      using hex_nat_canonical [of "hex_value xs"] by auto
    then have "hex_value (xs @ [c]) = 16 * hex_value xs + d" "\<not> 16 * hex_value xs + d < 16"
      using d by (simp_all add: hex_value_snoc)
    then show ?thesis using xs d by (subst hex_nat.simps) simp
  qed
qed (simp add: canonical_digits_def)

lemma canonical_hex_Text16: "canonical_hex (Text16 n)"
  using hex_nat_hd [of "nat n"] hex_nat_canonical [of "nat n"] hex_nat_canonical [of "nat (- n)"]
  by (auto simp: canonical_hex_def Text16_def)

lemma canonical_hex_unique:
  assumes "canonical_hex t"
  shows "Text16 (signed_hex_value t) = t"
proof (cases "t \<noteq> [] \<and> hd t = CHR ''-''")
  case True
  then obtain s where t: "t = CHR ''-'' # s" by (cases t) auto
  then have s: "hex_nat (hex_value s) = s" "s \<noteq> ''0''"
    using assms canonical_digits_unique by (auto simp: canonical_hex_def)
  then have "hex_value s \<noteq> 0" using hex_nat_canonical [of "hex_value s"] by auto
  with s t show ?thesis by (simp add: Text16_def signed_hex_value_def)
next
  case False
  then have "hex_nat (hex_value t) = t" using assms canonical_digits_unique by (auto simp: canonical_hex_def split: if_splits)
  with False show ?thesis by (auto simp: Text16_def signed_hex_value_def)
qed

lemma SetBytes_snoc: "SetBytes (bs @ [b]) = 256 * SetBytes bs + uint b"
  by (simp add: SetBytes_def)

lemma SetBytes_Cons: "SetBytes (b # bs) = uint b * 256 ^ length bs + SetBytes bs"
proof (induction bs rule: rev_induct)
  case (snoc x bs)
  then show ?case using SetBytes_snoc [of "b # bs" x] by (simp add: SetBytes_snoc)
qed (simp add: SetBytes_def)

lemma SetBytes_range: "0 \<le> SetBytes bs \<and> SetBytes bs < 256 ^ length bs"
proof (induction bs rule: rev_induct)
  case (snoc b bs)
  then show ?case using uint_lt2p [of b] uint_ge_0 [of b] by (simp add: SetBytes_snoc)
qed (simp add: SetBytes_def)

lemma sign_bit: "b AND 0x80 \<noteq> 0 \<longleftrightarrow> 128 \<le> uint b" for b :: byte
proof -
  have "b AND 2 ^ 7 = 0 \<longleftrightarrow> \<not> bit b 7" by (rule and_exp_eq_0_iff_not_bit)
  moreover have "bit b 7 \<longleftrightarrow> odd (uint b div 128)" using bit_uint_iff [of b 7] by (simp add: bit_iff_odd)
  moreover have "odd (u div 128) \<longleftrightarrow> 128 \<le> u" if "0 \<le> u" "u < 256" for u :: int
    using that by (cases "128 \<le> u") (simp_all add: div_pos_geq)
  then have "odd (uint b div 128) \<longleftrightarrow> 128 \<le> uint b" using uint_lt2p [of b] by simp
  ultimately show ?thesis by simp
qed

text \<open>
  The text of the hash denotes the digest read as a signed number in two's complement, as the protocol asks.
\<close>

lemma minecraftServerHash_signed:
  assumes "length (sha1 (bytes_of_string serverID @ secret @ publicKey)) = 20"
  defines "v \<equiv> signed_hex_value (minecraftServerHash sha1 serverID secret publicKey)"
  shows "v mod 2 ^ 160 = SetBytes (sha1 (bytes_of_string serverID @ secret @ publicKey))"
    and "- (2 ^ 159) \<le> v" and "v < 2 ^ 159"
proof -
  define digest where "digest = sha1 (bytes_of_string serverID @ secret @ publicKey)"
  obtain b bs where d: "digest = b # bs" "length bs = 19"
    using assms(1) by (cases digest) (auto simp: digest_def)
  define u where "u = uint b"
  have v: "v = (if 128 \<le> u then SetBytes digest - 2 ^ 160 else SetBytes digest)"
    using assms(1) d(1)
    by (simp add: v_def u_def minecraftServerHash_def signed_hex_value_Text16 digest_def [symmetric] sign_bit [symmetric])
  have r: "0 \<le> SetBytes digest" "SetBytes digest < 2 ^ 160" using SetBytes_range [of digest] d by simp_all
  have s: "SetBytes digest = u * 2 ^ 152 + SetBytes bs" "0 \<le> SetBytes bs" "SetBytes bs < 2 ^ 152" "u < 256" "0 \<le> u"
    using SetBytes_range [of bs] d uint_lt2p [of b] by (simp_all add: SetBytes_Cons u_def)
  show "v mod 2 ^ 160 = SetBytes (sha1 (bytes_of_string serverID @ secret @ publicKey))"
    using v r by (simp add: digest_def [symmetric])
  show "- (2 ^ 159) \<le> v" using v r s by (cases "128 \<le> u") simp_all
  show "v < 2 ^ 159" using v r s by (cases "128 \<le> u") simp_all
qed

lemma signed_residue_unique:
  fixes a b :: int
  assumes "a mod 2 ^ 160 = b mod 2 ^ 160"
  shows "- (2 ^ 159) \<le> a \<Longrightarrow> a < 2 ^ 159 \<Longrightarrow> - (2 ^ 159) \<le> b \<Longrightarrow> b < 2 ^ 159 \<Longrightarrow> a = b"
proof -
  obtain k where "a = b + 2 ^ 160 * k" using assms by (metis mod_eqE)
  then show "- (2 ^ 159) \<le> a \<Longrightarrow> a < 2 ^ 159 \<Longrightarrow> - (2 ^ 159) \<le> b \<Longrightarrow> b < 2 ^ 159 \<Longrightarrow> a = b" by simp
qed

lemma minecraftServerHash_iff:
  assumes "length (sha1 (bytes_of_string serverID @ secret @ publicKey)) = 20"
  shows "t = minecraftServerHash sha1 serverID secret publicKey \<longleftrightarrow>
    canonical_hex t \<and> - (2 ^ 159) \<le> signed_hex_value t \<and> signed_hex_value t < 2 ^ 159 \<and>
    signed_hex_value t mod 2 ^ 160 = SetBytes (sha1 (bytes_of_string serverID @ secret @ publicKey))"
proof -
  define h where "h = minecraftServerHash sha1 serverID secret publicKey"
  note val = minecraftServerHash_signed [of sha1 serverID secret publicKey, OF assms, folded h_def]
  obtain n where n: "h = Text16 n" by (simp add: h_def minecraftServerHash_def Let_def)
  have "t = h" if "canonical_hex t" "- (2 ^ 159) \<le> signed_hex_value t" "signed_hex_value t < 2 ^ 159"
    "signed_hex_value t mod 2 ^ 160 = signed_hex_value h mod 2 ^ 160"
  proof -
    have "signed_hex_value t = signed_hex_value h"
      using signed_residue_unique [OF that(4)] that(2,3) val(2,3) by simp
    then have "signed_hex_value t = n" by (simp add: n signed_hex_value_Text16)
    with canonical_hex_unique [OF that(1)] n show ?thesis by simp
  qed
  then show ?thesis using val canonical_hex_Text16 [of n] n unfolding h_def [symmetric] by auto
qed

section \<open>The exchange\<close>

lemma readLoginByteArray_wire:
  assumes "length b \<le> maxLen" and "length b < 2 ^ 31"
  shows "readLoginByteArray (wire_byte_array b @ rest) maxLen = Ok (b, rest)"
  using assms by (simp add: readLoginByteArray_def wire_byte_array_def ReadVarInt_EncodeVarInt sint_of_length)

lemma readLoginByteArray_conserves:
  assumes "readLoginByteArray data maxLen = Ok (b, rest)"
  shows "length b \<le> maxLen \<and> (\<exists>hdr. data = hdr @ b @ rest)"
proof -
  obtain n len where r: "ReadVarInt data = Ok (n, len)" and l: "\<not> int maxLen < sint len"
      and b: "b = take (nat (sint len)) (drop n data)" "rest = drop (n + nat (sint len)) data"
    using assms by (auto simp: readLoginByteArray_def split: outcome.splits if_splits)
  have "length b \<le> maxLen" using l by (simp add: b(1))
  moreover have "data = take n data @ b @ rest"
    by (metis append_take_drop_id b(1) b(2) drop_drop add.commute)
  ultimately show ?thesis by blast
qed

lemma hex_DecodeString_length: "hex_DecodeString s = Some b \<Longrightarrow> length s = 2 * length b"
  by (induction s arbitrary: b rule: hex_DecodeString.induct) (auto split: option.splits)

lemma parseProfileUUID_length: "parseProfileUUID raw = Ok b \<Longrightarrow> length b = 16"
  by (auto simp: parseProfileUUID_def Let_def dest!: hex_DecodeString_length split: option.splits if_splits)

text \<open>
  What vouches for a player: the session service at \<open>base\<close>, asked for the name and the hash, answered with a profile for that
  name up to case; \<open>profile\<close> is what it answered, within the bounds of the protocol.
\<close>

definition session_vouches :: "session_service \<Rightarrow> string \<Rightarrow> string \<Rightarrow> string \<Rightarrow> GameProfile \<Rightarrow> bool" where
  "session_vouches sx base username serverHash profile \<longleftrightarrow>
     (\<exists>endpoint wire.
        sx_url_Parse sx (session_endpoint base) = Some endpoint \<and> session_address_safe sx endpoint \<and>
        sx_ask sx (session_endpoint base) username serverHash =
          Some \<lparr>sa_StatusCode = 200, sa_decoded = Some wire, sa_trailing = False\<rparr> \<and>
        EqualFold (sx_fold sx) (jp_Name wire) username \<and> parseProfileUUID (jp_ID wire) = Ok (gp_UUID profile) \<and>
        gp_Name profile = jp_Name wire \<and> gp_Properties profile = jp_Properties wire \<and>
        0 < length (jp_Name wire) \<and> length (jp_Name wire) \<le> 16 \<and> length (jp_Properties wire) \<le> 64 \<and>
        list_all profile_property_ok (jp_Properties wire))"

lemma joined_profile_iff:
  "joined_profile sx username wire = Ok profile \<longleftrightarrow>
     EqualFold (sx_fold sx) (jp_Name wire) username \<and> parseProfileUUID (jp_ID wire) = Ok (gp_UUID profile) \<and>
     gp_Name profile = jp_Name wire \<and> gp_Properties profile = jp_Properties wire \<and>
     0 < length (jp_Name wire) \<and> length (jp_Name wire) \<le> 16 \<and> length (jp_Properties wire) \<le> 64 \<and>
     list_all profile_property_ok (jp_Properties wire)"
  by (cases profile) (auto simp: joined_profile_def split: outcome.splits if_splits)

lemma lookupJoinedProfile_iff:
  "lookupJoinedProfile sx base username serverHash = Ok profile \<longleftrightarrow> session_vouches sx base username serverHash profile"
proof
  assume l: "lookupJoinedProfile sx base username serverHash = Ok profile"
  obtain endpoint resp wire where "sx_url_Parse sx (session_endpoint base) = Some endpoint" "session_address_safe sx endpoint"
      "sx_ask sx (session_endpoint base) username serverHash = Some resp" "sa_StatusCode resp = 200"
      "sa_decoded resp = Some wire" "\<not> sa_trailing resp" "joined_profile sx username wire = Ok profile"
    using l by (auto simp: lookupJoinedProfile_def split: option.splits if_splits)
  moreover have "resp = \<lparr>sa_StatusCode = 200, sa_decoded = Some wire, sa_trailing = False\<rparr>"
    using calculation by (cases resp) simp
  ultimately show "session_vouches sx base username serverHash profile"
    unfolding session_vouches_def joined_profile_iff by blast
qed (auto simp: session_vouches_def lookupJoinedProfile_def joined_profile_iff)

lemma session_vouches_fits:
  assumes "session_vouches sx base username serverHash profile"
  shows "profile_fits profile \<and> EqualFold (sx_fold sx) (gp_Name profile) username"
proof -
  obtain wire :: joinedProfileResponse where "parseProfileUUID (jp_ID wire) = Ok (gp_UUID profile)" "gp_Name profile = jp_Name wire"
      "gp_Properties profile = jp_Properties wire" "EqualFold (sx_fold sx) (jp_Name wire) username" "length (jp_Name wire) \<le> 16"
      "length (jp_Properties wire) \<le> 64" "list_all profile_property_ok (jp_Properties wire)"
    using assms unfolding session_vouches_def by blast
  moreover have "list_all property_fits (jp_Properties wire)"
    using calculation(7) by (auto simp: list_all_iff profile_property_ok_def property_fits_def split: option.splits)
  ultimately show ?thesis using parseProfileUUID_length by (fastforce simp: profile_fits_def)
qed

text \<open>
  The proof a login has to give. The client was sent the gateway's public key and a token; its next packet, with which the plain
  part of the connection ends, is an encryption response of two ciphertexts that decrypt to a secret of sixteen bytes and
  to that token; and the session service vouches for the name under the hash of that secret and that key.
\<close>

definition login_verified ::
  "zlib \<Rightarrow> auth_env \<Rightarrow> Client \<Rightarrow> script \<Rightarrow> sink \<Rightarrow> bytes \<Rightarrow> string \<Rightarrow> Config \<Rightarrow> GameProfile \<Rightarrow> bool" where
  "login_verified z ax client conn k buf username config profile \<longleftrightarrow>
     (\<exists>publicKey decrypt verifyToken k' packet raw conn' encryptedSecret encryptedToken rest secret.
        ax_key ax = Ok (publicKey, decrypt) \<and> ax_token ax = Ok verifyToken \<and>
        writePacket z client (encryption_request publicKey verifyToken) k = (True, k') \<and>
        ReadPacketWithTimeout z client buf conn = (Packet packet raw, [], conn') \<and>
        rp_ID packet = PacketServerEncryptionResponse \<and>
        readLoginByteArray (rp_Data packet) 512 = Ok (encryptedSecret, rest) \<and>
        readLoginByteArray rest 512 = Ok (encryptedToken, []) \<and>
        decrypt encryptedSecret = Ok secret \<and> length secret = 16 \<and> decrypt encryptedToken = Ok verifyToken \<and>
        session_vouches (ax_session ax) (session_base config) username
          (minecraftServerHash (ax_sha1 ax) [] secret publicKey) profile)"

lemma response_secret_iff:
  "response_secret decrypt verifyToken data = Ok secret \<longleftrightarrow>
     (\<exists>encryptedSecret encryptedToken rest.
        readLoginByteArray data 512 = Ok (encryptedSecret, rest) \<and> readLoginByteArray rest 512 = Ok (encryptedToken, []) \<and>
        decrypt encryptedSecret = Ok secret \<and> length secret = 16 \<and> decrypt encryptedToken = Ok verifyToken)"
  by (auto simp: response_secret_def split: outcome.splits prod.splits if_splits)

lemma authenticateLobbyClient_sound:
  assumes "authenticateLobbyClient z ax client conn k buf username config = (Ok (ec, profile), buf', conn', k')"
  shows "\<exists>packet raw secret. ReadPacketWithTimeout z client buf conn = (Packet packet raw, [], conn') \<and>
    buf' = [] \<and> login_verified z ax client conn k buf username config profile \<and>
    newMinecraftEncryptedConn (ax_aes ax) conn' k' secret = Ok ec"
proof -
  obtain publicKey decrypt verifyToken where key: "ax_key ax = Ok (publicKey, decrypt)" "ax_token ax = Ok verifyToken"
    using assms by (auto simp: authenticateLobbyClient_def split: outcome.splits)
  obtain k1 where w: "writePacket z client (encryption_request publicKey verifyToken) k = (True, k1)"
    using assms key by (auto simp: authenticateLobbyClient_def split: prod.splits bool.splits)
  obtain packet raw b c where r: "ReadPacketWithTimeout z client buf conn = (Packet packet raw, b, c)"
    using assms key w by (auto simp: authenticateLobbyClient_def split: prod.splits read_result.splits)
  note a = assms [unfolded authenticateLobbyClient_def key w r prod.case outcome.case read_result.case bool.case]
  have id: "rp_ID packet = PacketServerEncryptionResponse" and b: "b = []"
    using a by (metis Pair_inject length_0_conv outcome.distinct(1))+
  then have a: "(case response_secret decrypt verifyToken (rp_Data packet) of
      Ok secret \<Rightarrow> (authenticate_secret ax c k1 publicKey secret username config, b, c, k1)
    | _ \<Rightarrow> (Fail, b, c, k1)) = (Ok (ec, profile), buf', conn', k')"
    using a by (simp only: list.size not_True_eq_False de_Morgan_disj simp_thms if_False)
  obtain secret where s1: "response_secret decrypt verifyToken (rp_Data packet) = Ok secret"
  proof (cases "response_secret decrypt verifyToken (rp_Data packet)")
    case (Ok secret)
    then show ?thesis by (rule that)
  qed (use a in simp_all)
  have s: "authenticate_secret ax c k1 publicKey secret username config = Ok (ec, profile)"
      "buf' = b" "conn' = c" "k' = k1"
    using a [unfolded s1 outcome.case prod.inject] by blast+
  have ec: "newMinecraftEncryptedConn (ax_aes ax) c k1 secret = Ok ec"
      and v: "session_vouches (ax_session ax) (session_base config) username
        (minecraftServerHash (ax_sha1 ax) [] secret publicKey) profile"
    using s(1) by (auto simp: authenticate_secret_def lookupJoinedProfile_iff [symmetric] split: outcome.splits)
  have "login_verified z ax client conn k buf username config profile"
    unfolding login_verified_def using key w r [unfolded b] id v s1 [unfolded response_secret_iff] by blast
  then show ?thesis using ec r s b by blast
qed

text \<open>A client that follows the protocol: the answer to the request with the secret and the token, encrypted.\<close>

definition encryption_response :: "bytes \<Rightarrow> bytes \<Rightarrow> bytes" where
  "encryption_response encryptedSecret encryptedToken = wire_byte_array encryptedSecret @ wire_byte_array encryptedToken"

lemma response_secret_honest:
  assumes "decrypt encryptedSecret = Ok secret" and "decrypt encryptedToken = Ok verifyToken" and "length secret = 16"
    and "length encryptedSecret \<le> 512" and "length encryptedToken \<le> 512"
  shows "response_secret decrypt verifyToken (encryption_response encryptedSecret encryptedToken) = Ok secret"
  using assms readLoginByteArray_wire [of encryptedToken 512 "[]"]
  by (simp add: response_secret_def encryption_response_def readLoginByteArray_wire)

lemma authenticateLobbyClient_honest:
  assumes "ax_key ax = Ok (publicKey, decrypt)" and "ax_token ax = Ok verifyToken" and "ax_aes ax secret = Ok block"
    and "decrypt encryptedSecret = Ok secret" and "decrypt encryptedToken = Ok verifyToken" and "length secret = 16"
    and "length encryptedSecret \<le> 512" and "length encryptedToken \<le> 512"
    and "writePacket z client (encryption_request publicKey verifyToken) k = (True, k')"
    and "ReadPacketWithTimeout z client buf conn =
      (Packet (NewRawPacket PacketServerEncryptionResponse (encryption_response encryptedSecret encryptedToken)) raw, [], conn')"
    and "session_vouches (ax_session ax) (session_base config) username
      (minecraftServerHash (ax_sha1 ax) [] secret publicKey) profile"
  shows "\<exists>ec. authenticateLobbyClient z ax client conn k buf username config = (Ok (ec, profile), [], conn', k') \<and>
    newMinecraftEncryptedConn (ax_aes ax) conn' k' secret = Ok ec \<and> ec_out ec = k'"
proof -
  obtain ec where ec: "newMinecraftEncryptedConn (ax_aes ax) conn' k' secret = Ok ec"
    using assms(3) by (simp add: newMinecraftEncryptedConn_def)
  then have "ec_out ec = k'" using assms(3) by (auto simp: newMinecraftEncryptedConn_def)
  moreover have "response_secret decrypt verifyToken (encryption_response encryptedSecret encryptedToken) = Ok secret"
    using assms(4-8) by (rule response_secret_honest)
  then have "authenticateLobbyClient z ax client conn k buf username config = (Ok (ec, profile), [], conn', k')"
    using assms ec assms(11) [folded lookupJoinedProfile_iff]
    by (simp add: authenticateLobbyClient_def authenticate_secret_def NewRawPacket_def)
  ultimately show ?thesis using ec by blast
qed

end
