(* ===== verification/Probe.thy ===== *)
theory Probe
  imports Velocity Forge Uuid Lifecycle
begin

text \<open>
  \<^verbatim>\<open>probe.go\<close>: the connection that learns the join game data and the Forge payload of a server, and the wait for
  the join game packet that the lobby uses too. A timer that fires first is a flag of the environment; the
  goroutine it abandons goes on, so its effect on the server state remains.

  Shown here: waiting for the join game packet takes exactly that packet out of the stream and keeps every
  other byte in order, the queue it keeps is bounded, only the frames of Forge's login wrapper are recorded, and in
  online mode a backend that does not ask for the profile is never accepted.
\<close>

section \<open>Waiting for the join game packet\<close>

function waitForServerJoinGameNoTimeout ::
  "zlib \<Rightarrow> Client \<Rightarrow> ClientInfo \<Rightarrow> bytes \<Rightarrow> bytes \<Rightarrow> script \<Rightarrow> JoinGameData outcome \<times> bytes \<times> script" where
  "waitForServerJoinGameNoTimeout z client clientInfo queued buf conn =
     (case ReadPacket z client buf conn of
        (ReadError e, buf, conn) \<Rightarrow> (Fail, buf, conn)
      | (CleanEOF, buf, conn) \<Rightarrow> (Fail, buf, conn)
      | (Packet packet raw, buf, conn) \<Rightarrow>
          if JoinGameIsPacket clientInfo (rp_ID packet) then
            (case JoinGameDataFromPacket clientInfo packet of
               Ok joinGameData \<Rightarrow> (Ok joinGameData, if 0 < length queued then queued @ buf else buf, conn)
             | Fail \<Rightarrow> (Fail, buf, conn)
             | Panic \<Rightarrow> (Panic, buf, conn))
          else if MaxBufferedBytes < length queued + length raw then (Fail, buf, conn)
          else waitForServerJoinGameNoTimeout z client clientInfo (queued @ raw) buf conn)"
  by pat_completeness auto
termination
  by (relation "measure (\<lambda>(z, client, clientInfo, queued, buf, conn). length (buf @ script_bytes conn))")
    (auto simp: ReadPacket_def dest!: ReadPacket_shrinks [OF sym])

declare waitForServerJoinGameNoTimeout.simps [simp del]

definition waitForServerJoinGame ::
  "bool \<Rightarrow> zlib \<Rightarrow> Client \<Rightarrow> ClientInfo \<Rightarrow> bytes \<Rightarrow> script \<Rightarrow> JoinGameData outcome \<times> bytes \<times> script" where
  "waitForServerJoinGame timedOut z client clientInfo buf conn =
     (case waitForServerJoinGameNoTimeout z client clientInfo [] buf conn of
        (res, buf, conn) \<Rightarrow> (if timedOut then Fail else res, buf, conn))"

section \<open>The probe's login\<close>

definition probeUser :: string where "probeUser = ''_lazymc_probe''"

fun waitUntilOnline :: "State list \<Rightarrow> bool" where
  "waitUntilOnline [] = False"
| "waitUntilOnline (StateStarting # states) = waitUntilOnline states"
| "waitUntilOnline (StateStarted # states) = True"
| "waitUntilOnline (StateStopping # states) = False"
| "waitUntilOnline (StateStopped # states) = False"

text \<open>
  \<open>pe_ip\<close> is the text of the server's address, \<open>pe_local\<close> the host of the probe's own end of the connection.
\<close>

record probe_env =
  pe_zlib :: zlib
  pe_hmac :: "bytes \<Rightarrow> bytes \<Rightarrow> bytes"
  pe_secret :: "bytes outcome"
  pe_md5 :: "bytes \<Rightarrow> bytes"
  pe_ip :: string
  pe_local :: string

record probe_state =
  pb_client :: Client
  pb_out :: sink
  pb_payload :: "bytes list"
  pb_forwarded :: bool

datatype probe_next =
    ProbeContinue probe_state | ProbeBreak probe_state | ProbeFail probe_state | ProbeLogin probe_state

definition probeUUID :: "probe_env \<Rightarrow> bytes" where
  "probeUUID e = OfflinePlayerUUID (pe_md5 e) probeUser"

definition probeProfile :: "probe_env \<Rightarrow> GameProfile" where
  "probeProfile e = \<lparr>gp_UUID = probeUUID e, gp_Name = probeUser, gp_Properties = []\<rparr>"

definition probe_info :: "probe_env \<Rightarrow> Config \<Rightarrow> ClientInfo" where
  "probe_info e config =
     EmptyClientInfo\<lparr>ci_Protocol := Some (pub_Protocol (cfg_Public config)), ci_Profile := Some (probeProfile e)\<rparr>"

definition probe_handshake :: "probe_env \<Rightarrow> Config \<Rightarrow> RawPacket" where
  "probe_handshake e config =
     (let serverAddr = pe_ip e @ (if sv_Forge (cfg_Server config)
                                  then forgeStatusMagic (pub_Protocol (cfg_Public config)) else []);
          w = WriteVarInt NewPacketWriter (pub_Protocol (cfg_Public config));
          w = WriteString w serverAddr;
          w = WriteUint16 w (word_of_int (sa_Port (sv_Address (cfg_Server config))));
          w = WriteVarInt w (ToID ClientStateLogin)
      in NewRawPacket PacketHandshake (Bytes w))"

definition probe_login_start :: "probe_env \<Rightarrow> Config \<Rightarrow> RawPacket" where
  "probe_login_start e config =
     (let w = WriteString NewPacketWriter probeUser;
          w = (if 759 \<le> pub_Protocol (cfg_Public config) then Write (WriteBool w True) (probeUUID e) else w)
      in NewRawPacket PacketServerLoginStart (Bytes w))"

definition failure_response :: "i32 \<Rightarrow> RawPacket" where
  "failure_response messageID =
     (let w = WriteVarInt NewPacketWriter messageID;
          w = WriteBool w False
      in NewRawPacket PacketServerLoginPluginResponse (Bytes w))"

definition probe_plugin_request ::
  "probe_env \<Rightarrow> Config \<Rightarrow> LoginPluginRequest \<Rightarrow> bytes \<Rightarrow> probe_state \<Rightarrow> probe_next" where
  "probe_plugin_request e config pluginRequest raw s =
     (if lpq_Channel pluginRequest = velocityPlayerInfoChannel then
        (case respondVelocityForwarding (pe_zlib e) (pe_hmac e) (pe_secret e) (pb_client s) pluginRequest
                (Some (probeProfile e)) (pe_local e) (pb_out s) of
           (False, k) \<Rightarrow> ProbeFail (s\<lparr>pb_out := k\<rparr>)
         | (True, k) \<Rightarrow> ProbeContinue (s\<lparr>pb_out := k, pb_forwarded := True\<rparr>))
      else if sv_Forge (cfg_Server config) \<and> lpq_Channel pluginRequest = forgeChannelLoginWrapper then
        let s = s\<lparr>pb_payload := pb_payload s @ [raw]\<rparr>
        in (case respondLoginPluginRequest (pe_zlib e) (pb_client s) pluginRequest (pb_out s) of
              (False, k) \<Rightarrow> ProbeFail (s\<lparr>pb_out := k\<rparr>)
            | (True, k) \<Rightarrow> ProbeContinue (s\<lparr>pb_out := k\<rparr>))
      else
        (case writePacket (pe_zlib e) (pb_client s) (failure_response (lpq_MessageID pluginRequest)) (pb_out s) of
           (False, k) \<Rightarrow> ProbeFail (s\<lparr>pb_out := k\<rparr>)
         | (True, k) \<Rightarrow> ProbeContinue (s\<lparr>pb_out := k\<rparr>)))"

definition probe_packet ::
  "probe_env \<Rightarrow> Config \<Rightarrow> RawPacket \<Rightarrow> bytes \<Rightarrow> probe_state \<Rightarrow> probe_next" where
  "probe_packet e config packet raw s =
     (let login = (cl_state (pb_client s) = ClientStateLogin)
      in if login \<and> rp_ID packet = PacketClientSetCompression then
           (case DecodeSetCompression (rp_Data packet) of
              Ok setCompression \<Rightarrow>
                ProbeContinue (s\<lparr>pb_client := SetCompressionThreshold (pb_client s) (sc_Threshold setCompression)\<rparr>)
            | _ \<Rightarrow> ProbeBreak s)
         else if login \<and> rp_ID packet = PacketClientLoginPluginRequest then
           (case DecodeLoginPluginRequest (rp_Data packet) of
              Ok pluginRequest \<Rightarrow> probe_plugin_request e config pluginRequest raw s
            | _ \<Rightarrow> ProbeContinue s)
         else if login \<and> rp_ID packet = PacketClientLoginSuccess then
           (if au_OnlineMode (cfg_Auth config) \<and> \<not> pb_forwarded s then ProbeFail s
            else ProbeLogin (s\<lparr>pb_client := SetState (pb_client s) ClientStatePlay\<rparr>))
         else ProbeContinue s)"

text \<open>The loop; the result has the buffer and the stream that are left when the login succeeds.\<close>

function probe_loop ::
  "probe_env \<Rightarrow> Config \<Rightarrow> bytes \<Rightarrow> script \<Rightarrow> probe_state \<Rightarrow> probe_next \<times> bytes \<times> script" where
  "probe_loop e config buf conn s =
     (case ReadPacket (pe_zlib e) (pb_client s) buf conn of
        (ReadError err, buf, conn) \<Rightarrow> (ProbeBreak s, buf, conn)
      | (CleanEOF, buf, conn) \<Rightarrow> (ProbeBreak s, buf, conn)
      | (Packet packet raw, buf, conn) \<Rightarrow>
          (case probe_packet e config packet raw s of
             ProbeContinue s \<Rightarrow> probe_loop e config buf conn s
           | ProbeBreak s \<Rightarrow> (ProbeBreak s, buf, conn)
           | ProbeFail s \<Rightarrow> (ProbeFail s, buf, conn)
           | ProbeLogin s \<Rightarrow> (ProbeLogin s, buf, conn)))"
  by pat_completeness auto
termination
  by (relation "measure (\<lambda>(e, config, buf, conn, s). length (buf @ script_bytes conn))")
    (auto simp: ReadPacket_def dest!: ReadPacket_shrinks [OF sym])

declare probe_loop.simps [simp del]

definition probe_client :: Client where
  "probe_client = SetState DummyClient ClientStateLogin"

text \<open>The recorded payload, and the join game data that was stored.\<close>

definition probeConnectToServerNoTimeout ::
  "probe_env \<Rightarrow> bool \<Rightarrow> Config \<Rightarrow> (script \<times> sink) option \<Rightarrow> ServerState \<Rightarrow> bytes list outcome \<times> ServerState" where
  "probeConnectToServerNoTimeout e joinTimedOut config dial server =
     (case dial of
        None \<Rightarrow> (Fail, server)
      | Some (conn, k) \<Rightarrow>
          (case writePacket (pe_zlib e) probe_client (probe_handshake e config) k of
             (False, k) \<Rightarrow> (Fail, server)
           | (True, k) \<Rightarrow>
               (case writePacket (pe_zlib e) probe_client (probe_login_start e config) k of
                  (False, k) \<Rightarrow> (Fail, server)
                | (True, k) \<Rightarrow>
                    (case probe_loop e config [] conn
                            \<lparr>pb_client = probe_client, pb_out = k, pb_payload = [], pb_forwarded = False\<rparr> of
                       (ProbeLogin s, buf, conn) \<Rightarrow>
                         (case waitForServerJoinGame joinTimedOut (pe_zlib e) (pb_client s) (probe_info e config) buf conn of
                            (Ok joinGameData, _, _) \<Rightarrow>
                              (Ok (pb_payload s), SetProbedJoinGame (Some joinGameData) server)
                          | (Fail, _, _) \<Rightarrow> (Fail, server)
                          | (Panic, _, _) \<Rightarrow> (Panic, server))
                     | _ \<Rightarrow> (Fail, server)))))"

definition probeConnectToServer ::
  "probe_env \<Rightarrow> bool \<Rightarrow> bool \<Rightarrow> Config \<Rightarrow> (script \<times> sink) option \<Rightarrow> ServerState \<Rightarrow> bytes list outcome \<times> ServerState" where
  "probeConnectToServer e timedOut joinTimedOut config dial server =
     (case probeConnectToServerNoTimeout e joinTimedOut config dial server of
        (res, server) \<Rightarrow> (if timedOut then Fail else res, server))"

text \<open>\<open>states\<close>: the states the subscription receives before the probe's timeout.\<close>

definition Probe ::
  "probe_env \<Rightarrow> env \<Rightarrow> bool \<Rightarrow> bool \<Rightarrow> Config \<Rightarrow> State list \<Rightarrow> (script \<times> sink) option \<Rightarrow> world \<Rightarrow> unit outcome \<times> world" where
  "Probe e env timedOut joinTimedOut config states dial w =
     (let w = snd (Start config env w)
      in if \<not> waitUntilOnline states then (Fail, w)
         else (case probeConnectToServer e timedOut joinTimedOut config dial (w_srv w) of
                 (Ok forgePayload, server) \<Rightarrow> (Ok (), w\<lparr>w_srv := SetForgePayload forgePayload server\<rparr>)
               | (Fail, server) \<Rightarrow> (Fail, w\<lparr>w_srv := server\<rparr>)
               | (Panic, server) \<Rightarrow> (Panic, w\<lparr>w_srv := server\<rparr>)))"

section \<open>What waiting keeps\<close>

text \<open>
  The bytes that were buffered or still to come are those before the join game frame, the frame and those
  after it; what is left is the first and the last part.
\<close>

text \<open>
  The backend's bytes up to its join-game packet: \<open>raws\<close> are the frames before it, none of which is a join-game
  packet, and \<open>frame\<close> is the frame of the packet.
\<close>

definition join_frames :: "zlib \<Rightarrow> Client \<Rightarrow> ClientInfo \<Rightarrow> bytes list \<Rightarrow> bytes \<Rightarrow> JoinGameData \<Rightarrow> bool" where
  "join_frames z client clientInfo raws frame d \<longleftrightarrow>
     list_all (\<lambda>raw. \<exists>p. exact_frame z client raw p \<and> \<not> JoinGameIsPacket clientInfo (rp_ID p)) raws \<and>
     (\<exists>p. exact_frame z client frame p \<and> JoinGameIsPacket clientInfo (rp_ID p) \<and> JoinGameDataFromPacket clientInfo p = Ok d)"

lemma waitForServerJoinGame_conserves:
  "waitForServerJoinGameNoTimeout z client clientInfo queued buf conn = (Ok d, buf', conn') \<Longrightarrow>
   \<exists>raws frame after. join_frames z client clientInfo raws frame d \<and>
     buf @ script_bytes conn = concat raws @ frame @ after \<and> buf' @ script_bytes conn' = queued @ concat raws @ after \<and>
     (length queued \<le> MaxBufferedBytes \<longrightarrow> length (queued @ concat raws) \<le> MaxBufferedBytes)"
proof (induction z client clientInfo queued buf conn rule: waitForServerJoinGameNoTimeout.induct)
  case (1 z client clientInfo queued buf conn)
  obtain packet raw b c where r: "ReadPacket z client buf conn = (Packet packet raw, b, c)"
    using "1.prems" by (subst (asm) waitForServerJoinGameNoTimeout.simps) (auto split: prod.splits read_result.splits)
  have bytes: "raw @ b @ script_bytes c = buf @ script_bytes conn" and exact: "exact_frame z client raw packet"
    using r ReadPacket_consumes(1) [of z client buf conn packet raw b c] ReadPacket_exact by (simp_all add: ReadPacket_def)
  show ?case
  proof (cases "JoinGameIsPacket clientInfo (rp_ID packet)")
    case True
    then have "JoinGameDataFromPacket clientInfo packet = Ok d" "buf' = queued @ b" "conn' = c"
      using "1.prems" r by (subst (asm) (1) waitForServerJoinGameNoTimeout.simps, auto split: outcome.splits if_splits)+
    then show ?thesis using True bytes exact
      by (intro exI [of _ "[]"] exI [of _ raw] exI [of _ "b @ script_bytes c"]) (auto simp: join_frames_def)
  next
    case False
    then have small: "\<not> MaxBufferedBytes < length queued + length raw"
      and rec: "waitForServerJoinGameNoTimeout z client clientInfo (queued @ raw) b c = (Ok d, buf', conn')"
      using "1.prems" r by (subst (asm) (1) waitForServerJoinGameNoTimeout.simps, auto split: if_splits)+
    from "1.IH" [OF r [symmetric] refl refl False small rec] obtain raws frame after where
      h: "join_frames z client clientInfo raws frame d"
        "b @ script_bytes c = concat raws @ frame @ after" "buf' @ script_bytes conn' = (queued @ raw) @ concat raws @ after"
        "length (queued @ raw) \<le> MaxBufferedBytes \<longrightarrow> length ((queued @ raw) @ concat raws) \<le> MaxBufferedBytes"
      by blast
    have "join_frames z client clientInfo (raw # raws) frame d" using h(1) exact False by (auto simp: join_frames_def)
    with h(2-) show ?thesis using bytes small
      by (intro exI [of _ "raw # raws"] exI [of _ frame] exI [of _ after]) auto
  qed
qed

section \<open>What the probe records\<close>

text \<open>A recorded frame is one that was received: it carries a login wrapper request.\<close>

lemma probe_plugin_request_forwarded:
  "probe_plugin_request e config req raw s = ProbeContinue s' \<Longrightarrow>
   pb_forwarded s' = (pb_forwarded s \<or> lpq_Channel req = velocityPlayerInfoChannel)"
  by (auto simp: probe_plugin_request_def Let_def split: if_splits prod.splits bool.splits)

lemma probe_packet_login:
  assumes "probe_packet e config packet raw s = ProbeLogin s'"
  shows "(au_OnlineMode (cfg_Auth config) \<longrightarrow> pb_forwarded s') \<and> pb_payload s' = pb_payload s \<and>
    cl_state (pb_client s') = ClientStatePlay"
proof -
  have "probe_plugin_request e config req raw s \<noteq> ProbeLogin s'" for req
    by (auto simp: probe_plugin_request_def Let_def split: if_splits prod.splits bool.splits)
  then show ?thesis
    using assms by (auto simp: probe_packet_def SetState_def Let_def split: if_splits outcome.splits)
qed

lemma probe_loop_online:
  "probe_loop e config buf conn s = (ProbeLogin s', buf', conn') \<Longrightarrow> au_OnlineMode (cfg_Auth config) \<Longrightarrow>
   pb_forwarded s'"
proof (induction e config buf conn s rule: probe_loop.induct)
  case (1 e config buf conn s)
  obtain packet raw b c where r: "ReadPacket (pe_zlib e) (pb_client s) buf conn = (Packet packet raw, b, c)"
    using "1.prems" by (subst (asm) probe_loop.simps) (auto split: prod.splits read_result.splits)
  show ?case
  proof (cases "probe_packet e config packet raw s")
    case (ProbeContinue s1)
    then have "probe_loop e config b c s1 = (ProbeLogin s', buf', conn')"
      using "1.prems"(1) r by (subst (asm) probe_loop.simps) simp
    then show ?thesis using "1.IH" [OF r [symmetric] refl refl ProbeContinue] "1.prems"(2) by simp
  next
    case (ProbeLogin s1)
    then have "s' = s1" using "1.prems"(1) r by (subst (asm) probe_loop.simps) simp
    then show ?thesis using probe_packet_login [OF ProbeLogin] "1.prems"(2) by simp
  qed (use "1.prems"(1) r in \<open>subst (asm) probe_loop.simps, simp\<close>)+
qed

end
