(* ===== verification/Backend_Login.thy ===== *)
theory Backend_Login
  imports Probe Proxy_Stream
begin

text \<open>
  The login at the backend for a lobby client, \<^verbatim>\<open>connectToServerNoTimeout\<close> of \<^verbatim>\<open>lobby.go\<close>. With a relay the real
  client takes part in the exchange; without one its recorded answers are used. \<open>be_cache\<close> is what
  \<^verbatim>\<open>ForgeLoginCache\<close> returns in each round, \<open>None\<close> when there is no server state.

  Shown here: in online mode the login succeeds only after the backend asked for the profile and the signed answer was
  written to it, the relay keeps its bounds, and a compressed backend and the relayed client use the same threshold.
\<close>

section \<open>Definitions\<close>

record backend_env =
  be_zlib :: zlib
  be_hmac :: "bytes \<Rightarrow> bytes \<Rightarrow> bytes"
  be_secret :: "bytes outcome"
  be_address :: string
  be_info :: ClientInfo
  be_cache :: "nat \<Rightarrow> ForgeLoginExchange list option"

record backend_state =
  bk_client :: Client
  bk_out :: sink
  bk_relay :: "forgeLoginRelay option"
  bk_replayIndex :: nat
  bk_forwarded :: bool
  bk_round :: nat

datatype backend_next = BackContinue backend_state | BackBreak backend_state | BackDone backend_state

definition after_write :: "bool \<times> sink \<Rightarrow> backend_state \<Rightarrow> backend_next" where
  "after_write res s =
     (case res of
        (True, k) \<Rightarrow> BackContinue (s\<lparr>bk_out := k\<rparr>)
      | (False, k) \<Rightarrow> BackBreak (s\<lparr>bk_out := k\<rparr>))"

definition backend_compression :: "backend_env \<Rightarrow> RawPacket \<Rightarrow> backend_state \<Rightarrow> backend_next" where
  "backend_compression e packet s =
     (case DecodeSetCompression (rp_Data packet) of
        Ok setCompression \<Rightarrow>
          let threshold = sc_Threshold setCompression;
              compressed = (\<lambda>s. BackContinue (s\<lparr>bk_client := SetCompressionThreshold (bk_client s) threshold\<rparr>))
          in (case bk_relay s of
                None \<Rightarrow> compressed s
              | Some r \<Rightarrow>
                  if IsCompressed (fr_client r) then
                    (if Compressed (fr_client r) \<noteq> threshold then BackBreak s else compressed s)
                  else
                    (case writePacket (be_zlib e) (fr_client r) packet (fr_sink r) of
                       (False, k) \<Rightarrow> BackBreak (s\<lparr>bk_relay := Some (r\<lparr>fr_sink := k\<rparr>)\<rparr>)
                     | (True, k) \<Rightarrow>
                         compressed (s\<lparr>bk_relay := Some (r\<lparr>fr_sink := k,
                           fr_client := SetCompressionThreshold (fr_client r) threshold\<rparr>)\<rparr>)))
      | _ \<Rightarrow> BackBreak s)"

text \<open>A login wrapper request answered from the recorded exchanges.\<close>

definition backend_cached ::
  "backend_env \<Rightarrow> ForgeLoginExchange list \<Rightarrow> LoginPluginRequest \<Rightarrow> backend_state \<Rightarrow> backend_next" where
  "backend_cached e cache pluginRequest s =
     (if length cache \<le> bk_replayIndex s then
        after_write (writeForgeLoginResponse (be_zlib e) (bk_client s) (lpq_MessageID pluginRequest) False [] (bk_out s)) s
      else
        let exchange = cache ! bk_replayIndex s
        in if \<not> cachedForgeRequestMatches exchange pluginRequest then BackBreak s
           else
             let s = s\<lparr>bk_replayIndex := bk_replayIndex s + 1\<rparr>
             in if fx_NoResponse exchange then BackContinue s
                else after_write
                  (replayForgeLoginResponse (be_zlib e) (bk_client s) exchange (lpq_MessageID pluginRequest) (bk_out s)) s)"

text \<open>A request that no recorded exchange covers.\<close>

definition backend_uncached :: "backend_env \<Rightarrow> Config \<Rightarrow> LoginPluginRequest \<Rightarrow> backend_state \<Rightarrow> backend_next" where
  "backend_uncached e config pluginRequest s =
     (if sv_Forge (cfg_Server config) \<and> isForgeFML3 (be_info e) then
        after_write (writeForgeLoginResponse (be_zlib e) (bk_client s) (lpq_MessageID pluginRequest) False [] (bk_out s)) s
      else if sv_Forge (cfg_Server config) then
        after_write (respondLoginPluginRequest (be_zlib e) (bk_client s) pluginRequest (bk_out s)) s
      else
        after_write (writePacket (be_zlib e) (bk_client s) (failure_response (lpq_MessageID pluginRequest)) (bk_out s)) s)"

definition backend_plugin_request ::
  "backend_env \<Rightarrow> Config \<Rightarrow> LoginPluginRequest \<Rightarrow> backend_state \<Rightarrow> backend_next" where
  "backend_plugin_request e config pluginRequest s =
     (if lpq_Channel pluginRequest = velocityPlayerInfoChannel then
        (case respondVelocityForwarding (be_zlib e) (be_hmac e) (be_secret e) (bk_client s) pluginRequest
                (ci_Profile (be_info e)) (be_address e) (bk_out s) of
           (False, k) \<Rightarrow> BackBreak (s\<lparr>bk_out := k\<rparr>)
         | (True, k) \<Rightarrow> BackContinue (s\<lparr>bk_out := k, bk_forwarded := True\<rparr>))
      else case bk_relay s of
        Some r \<Rightarrow>
          (case relayForgeLoginRequest (be_zlib e) (bk_client s) pluginRequest r (bk_out s) of
             (ok, r, k) \<Rightarrow>
               let s = s\<lparr>bk_relay := Some r, bk_out := k\<rparr>
               in if ok then BackContinue s else BackBreak s)
      | None \<Rightarrow>
          (case be_cache e (bk_round s) of
             Some cache \<Rightarrow>
               if lpq_Channel pluginRequest = forgeChannelLoginWrapper \<and> cache \<noteq> []
               then backend_cached e cache pluginRequest s
               else backend_uncached e config pluginRequest s
           | None \<Rightarrow> backend_uncached e config pluginRequest s))"

definition backend_success :: "backend_env \<Rightarrow> Config \<Rightarrow> RawPacket \<Rightarrow> backend_state \<Rightarrow> backend_next" where
  "backend_success e config packet s =
     (if au_OnlineMode (cfg_Auth config) \<and> \<not> bk_forwarded s then BackBreak s
      else case bk_relay s of
        None \<Rightarrow> BackDone (s\<lparr>bk_client := SetState (bk_client s) ClientStatePlay\<rparr>)
      | Some r \<Rightarrow>
          (case writePacket (be_zlib e) (fr_client r) packet (fr_sink r) of
             (False, k) \<Rightarrow> BackBreak (s\<lparr>bk_relay := Some (r\<lparr>fr_sink := k\<rparr>)\<rparr>)
           | (True, k) \<Rightarrow>
               BackDone (s\<lparr>bk_relay := Some (r\<lparr>fr_sink := k, fr_client := SetState (fr_client r) ClientStatePlay\<rparr>),
                           bk_client := SetState (bk_client s) ClientStatePlay\<rparr>)))"

definition backend_packet :: "backend_env \<Rightarrow> Config \<Rightarrow> RawPacket \<Rightarrow> backend_state \<Rightarrow> backend_next" where
  "backend_packet e config packet s =
     (let login = (cl_state (bk_client s) = ClientStateLogin)
      in if login \<and> rp_ID packet = PacketClientSetCompression then backend_compression e packet s
         else if login \<and> rp_ID packet = PacketClientEncryptionRequest then BackBreak s
         else if login \<and> rp_ID packet = PacketClientLoginPluginRequest then
           (case DecodeLoginPluginRequest (rp_Data packet) of
              Ok pluginRequest \<Rightarrow> backend_plugin_request e config pluginRequest s
            | _ \<Rightarrow> BackBreak s)
         else if login \<and> rp_ID packet = PacketClientLoginSuccess then backend_success e config packet s
         else if login \<and> rp_ID packet = PacketClientLoginDisconnect then BackBreak s
         else BackContinue s)"

function backend_loop ::
  "backend_env \<Rightarrow> Config \<Rightarrow> bytes \<Rightarrow> script \<Rightarrow> backend_state \<Rightarrow> backend_next \<times> bytes \<times> script" where
  "backend_loop e config buf conn s =
     (case ReadPacket (be_zlib e) (bk_client s) buf conn of
        (ReadError err, buf, conn) \<Rightarrow> (BackBreak s, buf, conn)
      | (CleanEOF, buf, conn) \<Rightarrow> (BackBreak s, buf, conn)
      | (Packet packet raw, buf, conn) \<Rightarrow>
          (case backend_packet e config packet s of
             BackContinue s \<Rightarrow> backend_loop e config buf conn (s\<lparr>bk_round := bk_round s + 1\<rparr>)
           | BackBreak s \<Rightarrow> (BackBreak s, buf, conn)
           | BackDone s \<Rightarrow> (BackDone s, buf, conn)))"
  by pat_completeness auto
termination
  by (relation "measure (\<lambda>(e, config, buf, conn, s). length (buf @ script_bytes conn))")
    (auto simp: ReadPacket_def dest!: ReadPacket_shrinks [OF sym])

declare backend_loop.simps [simp del]

definition handshake_packet :: "Handshake \<Rightarrow> RawPacket" where
  "handshake_packet h = NewRawPacket PacketHandshake (Bytes (Handshake_Encode h NewPacketWriter))"

definition lobby_login_start :: "ClientInfo \<Rightarrow> string \<Rightarrow> RawPacket" where
  "lobby_login_start clientInfo username =
     (let lw = WriteString NewPacketWriter username;
          lw = (case GetProtocol clientInfo of
                  Some protocol \<Rightarrow>
                    if 759 \<le> protocol then
                      let lw = WriteBool lw (ci_Profile clientInfo \<noteq> None)
                      in (case ci_Profile clientInfo of Some p \<Rightarrow> Write lw (gp_UUID p) | None \<Rightarrow> lw)
                    else lw
                | None \<Rightarrow> lw)
      in NewRawPacket PacketServerLoginStart (Bytes lw))"

definition backend_start :: "forgeLoginRelay option \<Rightarrow> sink \<Rightarrow> backend_state" where
  "backend_start r k =
     \<lparr>bk_client = probe_client, bk_out = k, bk_relay = r, bk_replayIndex = 0, bk_forwarded = False, bk_round = 0\<rparr>"

text \<open>
  \<open>header\<close> is the PROXY header for the client's addresses, \<open>dial\<close> the connection to the backend; the result of a
  success is the last state with the unread bytes and the stream.
\<close>

definition connectToServerNoTimeout ::
  "backend_env \<Rightarrow> Config \<Rightarrow> bytes outcome \<Rightarrow> (script \<times> sink) option \<Rightarrow> forgeLoginRelay option \<Rightarrow>
   (backend_state \<times> bytes \<times> script) outcome \<times> forgeLoginRelay option" where
  "connectToServerNoTimeout e config header dial r =
     (case dial of
        None \<Rightarrow> (Fail, r)
      | Some (conn, k) \<Rightarrow>
          (case (if sv_SendProxyV2 (cfg_Server config)
                 then (case header of Ok h \<Rightarrow> conn_Write h k | _ \<Rightarrow> (False, k)) else (True, k)) of
             (False, k) \<Rightarrow> (Fail, r)
           | (True, k) \<Rightarrow>
               (case ci_Handshake (be_info e) of
                  None \<Rightarrow> (Fail, r)
                | Some h \<Rightarrow>
                    (case writePacket (be_zlib e) probe_client (handshake_packet h) k of
                       (False, k) \<Rightarrow> (Fail, r)
                     | (True, k) \<Rightarrow>
                         (case ci_Username (be_info e) of
                            None \<Rightarrow> (Fail, r)
                          | Some username \<Rightarrow>
                              (case writePacket (be_zlib e) probe_client (lobby_login_start (be_info e) username) k of
                                 (False, k) \<Rightarrow> (Fail, r)
                               | (True, k) \<Rightarrow>
                                   (case backend_loop e config [] conn (backend_start r k) of
                                      (BackDone s, buf, conn) \<Rightarrow> (Ok (s, buf, conn), bk_relay s)
                                    | (BackBreak s, buf, conn) \<Rightarrow> (Fail, bk_relay s)
                                    | (BackContinue s, buf, conn) \<Rightarrow> (Fail, bk_relay s))))))))"

definition connectToServerWithForge ::
  "bool \<Rightarrow> backend_env \<Rightarrow> Config \<Rightarrow> bytes outcome \<Rightarrow> (script \<times> sink) option \<Rightarrow> forgeLoginRelay option \<Rightarrow>
   (backend_state \<times> bytes \<times> script) outcome \<times> forgeLoginRelay option" where
  "connectToServerWithForge timedOut e config header dial r =
     (case connectToServerNoTimeout e config header dial r of
        (res, r) \<Rightarrow> (if timedOut then Fail else res, r))"

section \<open>Invariants of the login\<close>

text \<open>
  The invariants may speak of the packets \<open>ps\<close> read from the backend so far, each with the client state it was read under.
\<close>

lemma backend_loop_invariant:
  assumes "backend_loop e config buf conn s = (BackDone s', buf', conn')"
    and "packets_read (be_zlib e) ps st (buf, conn)" and "I ps s"
    and "\<And>ps packet s s'. I ps s \<Longrightarrow> backend_packet e config packet s = BackContinue s' \<Longrightarrow>
      I (ps @ [(bk_client s, packet)]) (s'\<lparr>bk_round := bk_round s' + 1\<rparr>)"
  shows "\<exists>ps packet last. packets_read (be_zlib e) (ps @ [(bk_client last, packet)]) st (buf', conn') \<and> I ps last \<and>
    backend_packet e config packet last = BackDone s'"
  using assms
proof (induction e config buf conn s arbitrary: ps rule: backend_loop.induct)
  case (1 e config buf conn s)
  obtain packet raw b c where r: "ReadPacket (be_zlib e) (bk_client s) buf conn = (Packet packet raw, b, c)"
    using "1.prems"(1) by (subst (asm) backend_loop.simps) (auto split: prod.splits read_result.splits)
  note read = packets_read_snoc [OF "1.prems"(2) r]
  show ?case
  proof (cases "backend_packet e config packet s")
    case (BackContinue s1)
    then have "backend_loop e config b c (s1\<lparr>bk_round := bk_round s1 + 1\<rparr>) = (BackDone s', buf', conn')"
      using "1.prems"(1) r by (subst (asm) backend_loop.simps) simp
    from "1.IH" [OF r [symmetric] refl refl BackContinue this read "1.prems"(4) [OF "1.prems"(3) BackContinue] "1.prems"(4)]
    show ?thesis .
  next
    case (BackDone s1)
    then have "s' = s1 \<and> buf' = b \<and> conn' = c" using "1.prems"(1) r by (subst (asm) backend_loop.simps) simp
    then show ?thesis using BackDone "1.prems"(3) read by blast
  qed (use "1.prems"(1) r in \<open>subst (asm) backend_loop.simps, simp\<close>)
qed

text \<open>
  What every state of the loop satisfies: when the profile counts as forwarded, one of the packets read from the backend is a
  request of the forwarding channel, and the frame of the signed answer to it with the client's profile is among the writes to
  the backend; the relay is within its bounds; and the relayed client has the threshold of a compressed backend.
\<close>

definition forwarded_in :: "backend_env \<Rightarrow> (Client \<times> RawPacket) list \<Rightarrow> bytes list \<Rightarrow> bool" where
  "forwarded_in e ps written \<longleftrightarrow>
     (\<exists>client packet request answer frame.
        (client, packet) \<in> set ps \<and> rp_ID packet = PacketClientLoginPluginRequest \<and>
        DecodeLoginPluginRequest (rp_Data packet) = Ok request \<and> lpq_Channel request = velocityPlayerInfoChannel \<and>
        velocity_response_packet (be_hmac e) (be_secret e) request (ci_Profile (be_info e)) (be_address e) = Ok answer \<and>
        EncodeWithLen (be_zlib e) answer client = Ok frame \<and> frame \<in> set written)"

definition same_threshold :: "backend_state \<Rightarrow> bool" where
  "same_threshold s \<longleftrightarrow>
     (\<forall>r. bk_relay s = Some r \<longrightarrow> IsCompressed (bk_client s) \<longrightarrow>
        cl_compression (fr_client r) = cl_compression (bk_client s))"

definition backend_inv :: "backend_env \<Rightarrow> (Client \<times> RawPacket) list \<Rightarrow> backend_state \<Rightarrow> bool" where
  "backend_inv e ps s \<longleftrightarrow>
     (bk_forwarded s \<longrightarrow> forwarded_in e ps (sk_written (bk_out s))) \<and> pred_option relay_inv (bk_relay s) \<and> same_threshold s"

lemma forwarded_in_mono:
  "forwarded_in e ps written \<Longrightarrow> set ps \<subseteq> set ps' \<Longrightarrow> set written \<subseteq> set written' \<Longrightarrow> forwarded_in e ps' written'"
  unfolding forwarded_in_def by blast

lemma backend_inv_more: "backend_inv e ps s \<Longrightarrow> backend_inv e (ps @ qs) s"
  using forwarded_in_mono [of e ps _ "ps @ qs"] by (auto simp: backend_inv_def)

lemma backend_inv_frame:
  "backend_inv e ps s \<Longrightarrow> bk_relay s' = bk_relay s \<Longrightarrow> bk_client s' = bk_client s \<Longrightarrow>
   (bk_forwarded s' \<Longrightarrow> bk_forwarded s) \<Longrightarrow> appends (bk_out s) (bk_out s') \<Longrightarrow> backend_inv e ps s'"
  using forwarded_in_mono [of e ps "sk_written (bk_out s)" ps "sk_written (bk_out s')"] appends_set [of "bk_out s" "bk_out s'"]
  by (auto simp: backend_inv_def same_threshold_def)

lemma after_write_inv:
  "after_write res s = BackContinue s' \<Longrightarrow> appends (bk_out s) (snd res) \<Longrightarrow> backend_inv e ps s \<Longrightarrow> backend_inv e ps s'"
  by (auto simp: after_write_def elim!: backend_inv_frame split: prod.splits bool.splits)

lemma after_write_not_done: "after_write res s \<noteq> BackDone s'"
  by (simp add: after_write_def split: prod.split bool.split)

text \<open>Every answer is one write to the backend, or none.\<close>

lemma answers_append:
  "appends k (snd (writePacket z client p k))"
  "appends k (snd (writeForgeLoginResponse z client m ok data k))"
  "appends k (snd (replayForgeLoginResponse z client exchange m k))"
  "appends k (snd (respondLoginPluginRequest z client request k))"
proof -
  show w: "appends k (snd (writePacket z client p k))" for z client p k
    by (rule writePacket_appends [of z client p k "fst (writePacket z client p k)"]) simp
  show "appends k (snd (writeForgeLoginResponse z client m ok data k))" for m ok data
    by (simp add: writeForgeLoginResponse_def w)
  then show "appends k (snd (replayForgeLoginResponse z client exchange m k))" by (simp add: replayForgeLoginResponse_def)
  show "appends k (snd (respondLoginPluginRequest z client request k))"
    by (simp add: respondLoginPluginRequest_def respondForgeLoginPacket_def w Let_def split: outcome.split)
qed

lemma relay_appends:
  "relayForgeLoginRequest z tmpClient request r k = (ok, r', k') \<Longrightarrow> appends k k'"
proof -
  have w: "writeForgeLoginResponse z tmpClient m b data k = (ok, k') \<Longrightarrow> appends k k'" for m b data ok k'
    using answers_append(2) [of k z tmpClient m b data] by simp
  have "relay_answer z tmpClient request m enc r k = (ok, r', k') \<Longrightarrow> appends k k'" for m enc r ok r' k'
    by (auto simp: relay_answer_def Let_def intro: w split: if_splits prod.splits read_result.splits outcome.splits)
  then show "relayForgeLoginRequest z tmpClient request r k = (ok, r', k') \<Longrightarrow> appends k k'"
    by (auto simp: relayForgeLoginRequest_def relay_def Let_def intro: w split: if_splits prod.splits bool.splits)
qed

lemma relay_keeps_client:
  "relayForgeLoginRequest z tmpClient request r k = (ok, r', k') \<Longrightarrow> fr_client r' = fr_client r"
  by (auto simp: relayForgeLoginRequest_def relay_def relay_answer_def Let_def
      split: if_splits prod.splits bool.splits read_result.splits outcome.splits option.splits)

lemma relay_inv_frame [simp]: "relay_inv (r\<lparr>fr_sink := k\<rparr>) = relay_inv r" "relay_inv (r\<lparr>fr_client := c\<rparr>) = relay_inv r"
  by (simp_all add: relay_inv_def)

lemma backend_compression_inv:
  assumes "backend_compression e packet s = BackContinue s'" and "backend_inv e ps s"
  shows "backend_inv e ps s'"
proof -
  obtain t where t: "DecodeSetCompression (rp_Data packet) = Ok t"
    using assms(1) by (auto simp: backend_compression_def split: outcome.splits)
  note simps = backend_compression_def t Let_def SetCompressionThreshold_def Compressed_def
  show ?thesis
  proof (cases "bk_relay s")
    case None
    then have "s' = s\<lparr>bk_client := (bk_client s)\<lparr>cl_compression := sc_Threshold t\<rparr>\<rparr>" using assms(1) by (simp add: simps)
    then show ?thesis using assms(2) None by (simp add: backend_inv_def same_threshold_def)
  next
    case (Some r)
    then show ?thesis
      using assms by (auto simp: simps backend_inv_def same_threshold_def split: if_splits prod.splits bool.splits)
  qed
qed

lemma backend_cached_inv:
  assumes "backend_cached e cache req s = BackContinue s'" and "backend_inv e ps s"
  shows "backend_inv e ps s'"
proof -
  let ?s1 = "s\<lparr>bk_replayIndex := bk_replayIndex s + 1\<rparr>"
  have s1: "backend_inv e ps ?s1" using assms(2) by (rule backend_inv_frame) simp_all
  have refused: "after_write (writeForgeLoginResponse (be_zlib e) (bk_client s) m b data (bk_out s)) s = BackContinue s' \<Longrightarrow>
      backend_inv e ps s'" for m b data
    by (rule after_write_inv [OF _ answers_append(2) assms(2)])
  have replayed: "after_write (replayForgeLoginResponse (be_zlib e) (bk_client s) x m (bk_out s)) ?s1 = BackContinue s' \<Longrightarrow>
      backend_inv e ps s'" for x m
    using answers_append(3) [of "bk_out s" "be_zlib e" "bk_client s" x m]
      after_write_inv [of "replayForgeLoginResponse (be_zlib e) (bk_client s) x m (bk_out s)" ?s1 s' e ps] s1 by simp
  have "\<exists>m b data. after_write (writeForgeLoginResponse (be_zlib e) (bk_client s) m b data (bk_out s)) s = BackContinue s' \<or>
      (\<exists>x m. after_write (replayForgeLoginResponse (be_zlib e) (bk_client s) x m (bk_out s)) ?s1 = BackContinue s') \<or> s' = ?s1"
    using assms(1) by (auto simp: backend_cached_def Let_def split: if_splits)
  then show ?thesis using s1 refused replayed by blast
qed

lemma backend_uncached_inv:
  assumes "backend_uncached e config req s = BackContinue s'" and "backend_inv e ps s"
  shows "backend_inv e ps s'"
  using assms(1) after_write_inv [OF _ _ assms(2)] answers_append
  by (auto simp: backend_uncached_def split: if_splits)

lemma backend_forwards:
  assumes "respondVelocityForwarding (be_zlib e) (be_hmac e) (be_secret e) client req (ci_Profile (be_info e)) (be_address e) k = (True, k')"
    and "(client, packet) \<in> set ps" and "rp_ID packet = PacketClientLoginPluginRequest"
    and "DecodeLoginPluginRequest (rp_Data packet) = Ok req" and "lpq_Channel req = velocityPlayerInfoChannel"
  shows "forwarded_in e ps (sk_written k')"
proof -
  obtain answer where a: "velocity_response_packet (be_hmac e) (be_secret e) req (ci_Profile (be_info e)) (be_address e) = Ok answer"
      "writePacket (be_zlib e) client answer k = (True, k')"
    using assms(1) by (auto simp: respondVelocityForwarding_def split: outcome.splits)
  obtain frame where "EncodeWithLen (be_zlib e) answer client = Ok frame" "frame \<in> set (sk_written k')"
    using writePacket_frame [OF a(2)] by auto
  with a(1) assms(2-5) show ?thesis unfolding forwarded_in_def by blast
qed

lemma backend_plugin_request_inv:
  assumes "backend_plugin_request e config req s = BackContinue s'" and "backend_inv e ps s"
    and "(bk_client s, packet) \<in> set ps" and "rp_ID packet = PacketClientLoginPluginRequest"
    and "DecodeLoginPluginRequest (rp_Data packet) = Ok req"
  shows "backend_inv e ps s'"
proof (cases "lpq_Channel req = velocityPlayerInfoChannel")
  case True
  then obtain k where k: "respondVelocityForwarding (be_zlib e) (be_hmac e) (be_secret e) (bk_client s) req
        (ci_Profile (be_info e)) (be_address e) (bk_out s) = (True, k)" "s' = s\<lparr>bk_out := k, bk_forwarded := True\<rparr>"
    using assms(1) by (auto simp: backend_plugin_request_def split: prod.splits bool.splits)
  show ?thesis using assms(2) k(2) backend_forwards [OF k(1) assms(3-5) True] by (simp add: backend_inv_def same_threshold_def)
next
  case False
  show ?thesis
  proof (cases "bk_relay s")
    case (Some r)
    obtain ok r' k where rel: "relayForgeLoginRequest (be_zlib e) (bk_client s) req r (bk_out s) = (ok, r', k)"
      by (metis prod_cases3)
    then have s': "s' = s\<lparr>bk_relay := Some r', bk_out := k\<rparr>"
      using assms(1) False Some by (auto simp: backend_plugin_request_def Let_def split: if_splits)
    have "relay_inv r'" using relay_keeps_inv [of r "be_zlib e" "bk_client s" req "bk_out s"] assms(2) Some rel
      by (simp add: backend_inv_def)
    moreover have "backend_inv e ps (s\<lparr>bk_out := k\<rparr>)"
      using assms(2) by (rule backend_inv_frame) (simp_all add: relay_appends [OF rel])
    ultimately show ?thesis using Some relay_keeps_client [OF rel] by (simp add: backend_inv_def same_threshold_def s')
  next
    case None
    then show ?thesis
      using assms(1) False backend_cached_inv [OF _ assms(2)] backend_uncached_inv [OF _ assms(2)]
      by (auto simp: backend_plugin_request_def split: option.splits if_splits)
  qed
qed

lemma backend_packet_inv:
  assumes "backend_packet e config packet s = BackContinue s'" and "backend_inv e ps s"
  shows "backend_inv e (ps @ [(bk_client s, packet)]) s'"
proof -
  let ?ps = "ps @ [(bk_client s, packet)]"
  have inv: "backend_inv e ?ps s" using assms(2) by (rule backend_inv_more)
  have "backend_success e config packet s \<noteq> BackContinue s'"
    by (auto simp: backend_success_def split: option.splits prod.splits bool.splits)
  then have "backend_compression e packet s = BackContinue s' \<or> s' = s \<or>
      rp_ID packet = PacketClientLoginPluginRequest \<and>
      (\<exists>req. DecodeLoginPluginRequest (rp_Data packet) = Ok req \<and> backend_plugin_request e config req s = BackContinue s')"
    using assms(1) by (auto simp: backend_packet_def Let_def split: if_splits outcome.splits)
  then show ?thesis
    using inv backend_compression_inv [OF _ inv] backend_plugin_request_inv [OF _ inv, of config _ s' packet] by auto
qed

lemma backend_packet_done:
  assumes "backend_packet e config packet s = BackDone s'" and "backend_inv e ps s"
  shows "backend_inv e ps s' \<and> (au_OnlineMode (cfg_Auth config) \<longrightarrow> bk_forwarded s') \<and>
    cl_state (bk_client s') = ClientStatePlay"
proof -
  have "backend_compression e packet s \<noteq> BackDone s'"
    by (auto simp: backend_compression_def Let_def split: option.split prod.split bool.split outcome.split)
  moreover have "backend_plugin_request e config req s \<noteq> BackDone s'" for req
    by (simp add: backend_plugin_request_def backend_cached_def backend_uncached_def after_write_not_done Let_def
        split: option.split prod.split bool.split)
  ultimately have "backend_success e config packet s = BackDone s'"
    using assms(1) by (auto simp: backend_packet_def Let_def split: if_splits outcome.splits)
  then show ?thesis
    using assms(2)
    by (auto simp: backend_success_def backend_inv_def same_threshold_def SetState_def IsCompressed_def
        split: option.splits prod.splits bool.splits if_splits)
qed

lemma backend_loop_done:
  assumes "backend_loop e config buf conn s = (BackDone s', buf', conn')" and "backend_inv e [] s"
  shows "\<exists>ps packet. packets_read (be_zlib e) (ps @ [packet]) (buf, conn) (buf', conn') \<and> backend_inv e ps s' \<and>
    (au_OnlineMode (cfg_Auth config) \<longrightarrow> bk_forwarded s') \<and> cl_state (bk_client s') = ClientStatePlay"
proof -
  have "\<exists>ps packet last. packets_read (be_zlib e) (ps @ [(bk_client last, packet)]) (buf, conn) (buf', conn') \<and>
      backend_inv e ps last \<and> backend_packet e config packet last = BackDone s'"
    using assms(1) packets_read.none assms(2)
  proof (rule backend_loop_invariant)
    fix ps packet s1 s2
    assume "backend_inv e ps s1" and "backend_packet e config packet s1 = BackContinue s2"
    then have "backend_inv e (ps @ [(bk_client s1, packet)]) s2" by (rule backend_packet_inv [rotated])
    then show "backend_inv e (ps @ [(bk_client s1, packet)]) (s2\<lparr>bk_round := bk_round s2 + 1\<rparr>)"
      by (rule backend_inv_frame) simp_all
  qed
  then show ?thesis using backend_packet_done by blast
qed

lemma backend_start_inv: "pred_option relay_inv r \<Longrightarrow> backend_inv e [] (backend_start r k)"
  by (auto simp: backend_inv_def backend_start_def same_threshold_def probe_client_def SetState_def DummyClient_def
      NewClient_def IsCompressed_def split: option.split)

lemma connectToServer_done:
  assumes "connectToServerWithForge timedOut e config header dial r = (Ok (s, buf, conn), r')" and "pred_option relay_inv r"
  shows "\<exists>conn0 k0 ps packet. dial = Some (conn0, k0) \<and>
    packets_read (be_zlib e) (ps @ [packet]) ([], conn0) (buf, conn) \<and> backend_inv e ps s \<and>
    (au_OnlineMode (cfg_Auth config) \<longrightarrow> bk_forwarded s) \<and> cl_state (bk_client s) = ClientStatePlay \<and> r' = bk_relay s"
proof -
  obtain conn0 k0 k where "dial = Some (conn0, k0)" "r' = bk_relay s"
      "backend_loop e config [] conn0 (backend_start r k) = (BackDone s, buf, conn)"
    using assms(1)
    by (auto simp: connectToServerWithForge_def connectToServerNoTimeout_def
        split: if_splits option.splits prod.splits bool.splits outcome.splits backend_next.splits)
  then show ?thesis using backend_loop_done [OF _ backend_start_inv [OF assms(2)]] by metis
qed

end
