(* ===== verification/Snbt.thy ===== *)
theory Snbt
  imports Nbt Go_Strings
begin

text \<open>
  The parser of the text form of tags, in \<^verbatim>\<open>nbt/nbt.go\<close>. The parser's state, the text and a position in it,
  is the text from that position on. The mutual recursion of \<^verbatim>\<open>parseValue\<close> with the loops of compounds and
  lists runs on fuel, where \<open>Panic\<close> stands for fuel that ran out: \<open>snbt_fuel\<close> is enough for every text.
  \<open>ParseFloat\<close> is \<^verbatim>\<open>strconv.ParseFloat\<close> at 64 bits, an argument.

  Shown here: the parser ends on every text, and it reads back every tag that is written in the usual
  notation.
\<close>

section \<open>Definitions\<close>

definition is_ws :: "char \<Rightarrow> bool" where
  "is_ws c \<longleftrightarrow> c = CHR '' '' \<or> c = CHR 0x09 \<or> c = CHR 0x0A \<or> c = CHR 0x0D"

definition skipWs :: "string \<Rightarrow> string" where
  "skipWs s = dropWhile is_ws s"

definition peek :: "string \<Rightarrow> char" where
  "peek s = (case s of [] \<Rightarrow> CHR 0x00 | c # _ \<Rightarrow> c)"

definition escaped :: "char \<Rightarrow> char" where
  "escaped e =
     (if e = CHR ''n'' then CHR 0x0A else if e = CHR ''t'' then CHR 0x09
      else if e = CHR ''r'' then CHR 0x0D else if e = CHR ''b'' then CHR 0x08
      else if e = CHR ''f'' then CHR 0x0C else e)"

text \<open>The text after the opening quote; the result is the string and the text after the closing one.\<close>

fun parseQuotedString :: "char \<Rightarrow> string \<Rightarrow> (string \<times> string) outcome" where
  "parseQuotedString quote [] = Fail"
| "parseQuotedString quote (ch # s) =
     (if ch = CHR 0x5C then
        (case s of
           [] \<Rightarrow> Fail
         | e # s' \<Rightarrow>
             (case parseQuotedString quote s' of
                Ok (str, rest) \<Rightarrow> Ok (escaped e # str, rest)
              | Fail \<Rightarrow> Fail | Panic \<Rightarrow> Panic))
      else if ch = quote then Ok ([], s)
      else (case parseQuotedString quote s of
              Ok (str, rest) \<Rightarrow> Ok (ch # str, rest)
            | Fail \<Rightarrow> Fail | Panic \<Rightarrow> Panic))"

definition is_quote :: "char \<Rightarrow> bool" where
  "is_quote c \<longleftrightarrow> c = CHR 0x22 \<or> c = CHR 0x27"

definition isFloatBody :: "string \<Rightarrow> bool" where
  "isFloatBody body \<longleftrightarrow> list_ex (\<lambda>c. c \<in> set ''.eE'') body"

definition scalar_tag :: "(string \<Rightarrow> f64 option) \<Rightarrow> string \<Rightarrow> Tag outcome" where
  "scalar_tag ParseFloat raw =
     (if raw = ''true'' then Ok (TByte 1)
      else if raw = ''false'' then Ok (TByte 0)
      else
        let suffix = (if raw \<noteq> [] \<and> last raw \<in> set ''bBsSlLfFdD'' then Some (last raw) else None);
            body = (if suffix \<noteq> None then butlast raw else raw)
        in if isFloatBody body then
             (case ParseFloat body of
                None \<Rightarrow> Fail
              | Some f \<Rightarrow>
                  (case suffix of
                     None \<Rightarrow> Ok (TDouble f)
                   | Some x \<Rightarrow>
                       if x = CHR ''f'' \<or> x = CHR ''F'' then Ok (TFloat f)
                       else if x = CHR ''d'' \<or> x = CHR ''D'' then Ok (TDouble f)
                       else Fail))
           else
             (case ParseInt 64 body of
                (iv, False) \<Rightarrow> Fail
              | (iv, True) \<Rightarrow>
                  (case suffix of
                     None \<Rightarrow>
                       if -2147483648 \<le> iv \<and> iv \<le> 2147483647 then Ok (TInt (word_of_int iv))
                       else Ok (TLong (word_of_int iv))
                   | Some x \<Rightarrow>
                       if x = CHR ''b'' \<or> x = CHR ''B'' then Ok (TByte (word_of_int iv))
                       else if x = CHR ''s'' \<or> x = CHR ''S'' then Ok (TShort (word_of_int iv))
                       else if x = CHR ''l'' \<or> x = CHR ''L'' then Ok (TLong (word_of_int iv))
                       else Fail)))"

definition scalar_end :: "char \<Rightarrow> bool" where
  "scalar_end c \<longleftrightarrow> c = CHR '','' \<or> c = CHR ''}'' \<or> c = CHR '']'' \<or> is_ws c"

definition parseScalar :: "(string \<Rightarrow> f64 option) \<Rightarrow> string \<Rightarrow> (Tag \<times> string) outcome" where
  "parseScalar ParseFloat s =
     (let raw = takeWhile (\<lambda>c. \<not> scalar_end c) s; rest = dropWhile (\<lambda>c. \<not> scalar_end c) s
      in if raw = [] then Fail
         else (case scalar_tag ParseFloat raw of
                 Ok t \<Rightarrow> Ok (t, rest)
               | Fail \<Rightarrow> Fail | Panic \<Rightarrow> Panic))"

definition key_end :: "char \<Rightarrow> bool" where
  "key_end c \<longleftrightarrow> c = CHR '':'' \<or> c = CHR '','' \<or> c = CHR ''}''"

definition parseKey :: "string \<Rightarrow> (string \<times> string) outcome" where
  "parseKey s =
     (if is_quote (peek s) then parseQuotedString (peek s) (tl s)
      else
        let raw = takeWhile (\<lambda>c. \<not> key_end c) s
        in if raw = [] then Fail else Ok (TrimSpace raw, dropWhile (\<lambda>c. \<not> key_end c) s))"

definition item_end :: "char \<Rightarrow> bool" where
  "item_end c \<longleftrightarrow> c = CHR '','' \<or> c = CHR '']''"

text \<open>
  The elements of a typed array: \<open>suf\<close> is the one that is trimmed and \<open>bits\<close> the width of an element. Each
  round ends behind the separator it found.
\<close>

lemma dropWhile_shorter: "length (dropWhile P s) \<le> length s"
  by (induction s) auto

lemma skipWs_shorter: "length (skipWs s) \<le> length s"
  by (simp add: skipWs_def dropWhile_shorter)

lemma tl_shorter: "peek s \<noteq> CHR 0x00 \<Longrightarrow> length s \<le> n \<Longrightarrow> length s - Suc 0 < n"
  by (cases s) (auto simp: peek_def)

lemma item_shorter: "length (skipWs (dropWhile P (skipWs s))) \<le> length s"
  by (meson dropWhile_shorter le_trans skipWs_shorter)

function parseArray :: "nat \<Rightarrow> string \<Rightarrow> string \<Rightarrow> (int list \<times> string) outcome" where
  "parseArray bits suf s =
     (let s = skipWs s;
          raw = TrimSpace (takeWhile (\<lambda>c. \<not> item_end c) s);
          s = dropWhile (\<lambda>c. \<not> item_end c) s
      in case ParseInt bits (TrimSuffix raw suf) of
           (v, False) \<Rightarrow> Fail
         | (v, True) \<Rightarrow>
             let s = skipWs s
             in if peek s = CHR '','' then
                  (case parseArray bits suf (tl s) of
                     Ok (vs, rest) \<Rightarrow> Ok (v # vs, rest)
                   | Fail \<Rightarrow> Fail | Panic \<Rightarrow> Panic)
                else if peek s = CHR '']'' then Ok ([v], tl s)
                else Fail)"
  by pat_completeness auto
termination
  by (relation "measure (\<lambda>(bits, suf, s). length s)") (auto intro!: tl_shorter item_shorter)

declare parseArray.simps [simp del]

definition array_tag :: "char \<Rightarrow> int list \<Rightarrow> Tag" where
  "array_tag arrType vs =
     (if arrType = CHR ''B'' then TByteArray (map word_of_int vs)
      else if arrType = CHR ''L'' then TLongArray (map word_of_int vs)
      else TIntArray (map word_of_int vs))"

definition parse_typed_array :: "char \<Rightarrow> string \<Rightarrow> (Tag \<times> string) outcome" where
  "parse_typed_array arrType s =
     (let s = skipWs s
      in if peek s = CHR '']'' then Ok (array_tag arrType [], tl s)
         else
           (case (if arrType = CHR ''B'' then parseArray 8 ''b'' s
                  else if arrType = CHR ''L'' then parseArray 64 ''L'' s
                  else parseArray 32 [] s) of
              Ok (vs, rest) \<Rightarrow> Ok (array_tag arrType vs, rest)
            | Fail \<Rightarrow> Fail | Panic \<Rightarrow> Panic))"

definition typed_array_start :: "string \<Rightarrow> bool" where
  "typed_array_start s \<longleftrightarrow> 1 < length s \<and> s ! 0 \<in> set ''BIL'' \<and> s ! 1 = CHR '';''"

fun parseValue :: "(string \<Rightarrow> f64 option) \<Rightarrow> nat \<Rightarrow> string \<Rightarrow> (Tag \<times> string) outcome"
  and parseMembers :: "(string \<Rightarrow> f64 option) \<Rightarrow> nat \<Rightarrow> Compound \<Rightarrow> string \<Rightarrow> (Tag \<times> string) outcome"
  and parseItems :: "(string \<Rightarrow> f64 option) \<Rightarrow> nat \<Rightarrow> Tag list \<Rightarrow> string \<Rightarrow> (Tag \<times> string) outcome" where
  "parseValue pf 0 s = Panic"
| "parseValue pf (Suc n) s =
     (case skipWs s of
        [] \<Rightarrow> Fail
      | c # s' \<Rightarrow>
          if c = CHR ''{'' then
            let s = skipWs s'
            in if peek s = CHR ''}'' then Ok (TCompound NewCompound, tl s) else parseMembers pf n NewCompound s
          else if c = CHR ''['' then
            let s = skipWs s'
            in if typed_array_start s then parse_typed_array (s ! 0) (drop 2 s)
               else if peek s = CHR '']'' then Ok (TList 0 [], tl s)
               else parseItems pf n [] s
          else if is_quote c then
            (case parseQuotedString c s' of
               Ok (str, rest) \<Rightarrow> Ok (TString str, rest)
             | Fail \<Rightarrow> Fail | Panic \<Rightarrow> Panic)
          else parseScalar pf (c # s'))"
| "parseMembers pf 0 c s = Panic"
| "parseMembers pf (Suc n) c s =
     (case parseKey (skipWs s) of
        Fail \<Rightarrow> Fail | Panic \<Rightarrow> Panic
      | Ok (key, s) \<Rightarrow>
          let s = skipWs s
          in if peek s \<noteq> CHR '':'' then Fail
             else (case parseValue pf n (tl s) of
                     Fail \<Rightarrow> Fail | Panic \<Rightarrow> Panic
                   | Ok (v, s) \<Rightarrow>
                       let c = Insert c key v; s = skipWs s
                       in if peek s = CHR '','' then parseMembers pf n c (tl s)
                          else if peek s = CHR ''}'' then Ok (TCompound c, tl s)
                          else Fail))"
| "parseItems pf 0 ts s = Panic"
| "parseItems pf (Suc n) ts s =
     (case parseValue pf n (skipWs s) of
        Fail \<Rightarrow> Fail | Panic \<Rightarrow> Panic
      | Ok (v, s) \<Rightarrow>
          if ts \<noteq> [] \<and> Type v \<noteq> Type (hd ts) then Fail
          else
            let ts = ts @ [v]; s = skipWs s
            in if peek s = CHR '','' then parseItems pf n ts (tl s)
               else if peek s = CHR '']'' then Ok (TList (Type (hd ts)) ts, tl s)
               else Fail)"

definition snbt_fuel :: "string \<Rightarrow> nat" where
  "snbt_fuel s = 2 * length s + 1"

definition ParseSNBT :: "(string \<Rightarrow> f64 option) \<Rightarrow> string \<Rightarrow> Compound outcome" where
  "ParseSNBT pf data =
     (let s = skipWs data
      in case parseValue pf (snbt_fuel s) s of
           Ok (TCompound c, s) \<Rightarrow> if skipWs s \<noteq> [] then Fail else Ok c
         | Ok _ \<Rightarrow> Fail | Fail \<Rightarrow> Fail | Panic \<Rightarrow> Panic)"

section \<open>The parser ends\<close>

text \<open>What a step leaves is shorter than what it got.\<close>

declare parseQuotedString.simps(2) [simp del]

lemma parseQuotedString_shorter: "parseQuotedString q s = Ok (str, rest) \<Longrightarrow> length rest < length s"
proof (induction q s arbitrary: str rule: parseQuotedString.induct)
  case (2 quote ch s)
  consider (esc) e s' str' where "ch = CHR 0x5C" "s = e # s'" "parseQuotedString quote s' = Ok (str', rest)"
    | (close) "s = rest"
    | (plain) str' where "ch \<noteq> CHR 0x5C" "ch \<noteq> quote" "parseQuotedString quote s = Ok (str', rest)"
    using "2.prems"
    by (auto simp: parseQuotedString.simps(2) split: if_splits list.splits outcome.splits)
  then show ?case
  proof cases
    case esc
    then show ?thesis using "2.IH"(1) [OF esc(1,2,3)] by simp
  next
    case plain
    then show ?thesis using "2.IH"(2) [OF plain] by simp
  qed simp
qed simp

lemma parseQuotedString_total: "parseQuotedString q s \<noteq> Panic"
proof (induction q s rule: parseQuotedString.induct)
  case (2 quote ch s)
  show ?case
  proof (cases "ch = CHR 0x5C")
    case True
    then show ?thesis using "2.IH"(1) [OF True]
      by (cases s) (auto simp: parseQuotedString.simps(2) split: outcome.split)
  next
    case False
    then show ?thesis using "2.IH"(2) [OF False] by (auto simp: parseQuotedString.simps(2) split: outcome.split)
  qed
qed simp

lemma parseArray_shorter:
  "parseArray bits suf s = Ok (vs, rest) \<Longrightarrow> length rest < length s"
proof (induction bits suf s arbitrary: vs rule: parseArray.induct)
  case (1 bits suf s)
  define t where "t = skipWs (dropWhile (\<lambda>c. \<not> item_end c) (skipWs s))"
  have t: "length t \<le> length s" unfolding t_def by (rule item_shorter)
  obtain v where v: "ParseInt bits (TrimSuffix (TrimSpace (takeWhile (\<lambda>c. \<not> item_end c) (skipWs s))) suf) = (v, True)"
    using "1.prems" by (subst (asm) parseArray.simps) (auto simp: Let_def split: prod.splits bool.splits)
  consider vs' where "peek t = CHR '',''" "parseArray bits suf (tl t) = Ok (vs', rest)" | "peek t = CHR '']''" "rest = tl t"
    using "1.prems" v
    by (subst (asm) parseArray.simps) (auto simp: Let_def t_def [symmetric] split: if_splits outcome.splits)
  then show ?case
  proof cases
    case 1
    then show ?thesis
      using "1.IH" [OF refl refl refl v [symmetric] refl refl, folded t_def] t by (cases t) (fastforce simp: peek_def)+
  next
    case 2
    then show ?thesis using t by (cases t) (auto simp: peek_def)
  qed
qed

lemma parseArray_total: "parseArray bits suf s \<noteq> Panic"
proof (induction bits suf s rule: parseArray.induct)
  case (1 bits suf s)
  define t where "t = skipWs (dropWhile (\<lambda>c. \<not> item_end c) (skipWs s))"
  obtain v ok where v: "ParseInt bits (TrimSuffix (TrimSpace (takeWhile (\<lambda>c. \<not> item_end c) (skipWs s))) suf) = (v, ok)"
    by fastforce
  show ?case
  proof (cases "ok \<and> peek t = CHR '',''")
    case True
    then have "parseArray bits suf (tl t) \<noteq> Panic"
      using "1.IH" [OF refl refl refl _ _ refl, folded t_def] v by simp
    then show ?thesis using True v by (subst parseArray.simps) (simp add: t_def [symmetric] split: outcome.splits)
  next
    case False
    then show ?thesis using v by (subst parseArray.simps) (cases ok, simp_all add: Let_def t_def)
  qed
qed

lemma typed_array_shorter: "parse_typed_array a s = Ok (t, rest) \<Longrightarrow> length rest < length s"
  using skipWs_shorter [of s]
  by (auto simp: parse_typed_array_def Let_def dest!: parseArray_shorter split: if_splits outcome.splits intro!: tl_shorter)

lemma typed_array_total: "parse_typed_array a s \<noteq> Panic"
  using parseArray_total by (auto simp: parse_typed_array_def Let_def split: outcome.splits)

lemma if_cases_total: "a \<noteq> Panic \<Longrightarrow> b \<noteq> Panic \<Longrightarrow> (if c then a else b) \<noteq> Panic"
  by simp

lemma scalar_tag_total: "scalar_tag pf raw \<noteq> Panic"
  unfolding scalar_tag_def Let_def
  by (intro if_cases_total) (simp_all split: option.split prod.split bool.split)

lemma parseScalar_shorter:
  assumes "parseScalar pf s = Ok (t, rest)"
  shows "length rest < length s"
proof -
  have "takeWhile (\<lambda>c. \<not> scalar_end c) s \<noteq> []" "rest = dropWhile (\<lambda>c. \<not> scalar_end c) s"
    using assms by (simp_all add: parseScalar_def Let_def split: if_splits outcome.splits)
  then show ?thesis by (metis length_append length_greater_0_conv less_add_same_cancel2 takeWhile_dropWhile_id)
qed

lemma parseScalar_total: "parseScalar pf s \<noteq> Panic"
  using scalar_tag_total by (auto simp: parseScalar_def Let_def split: outcome.splits)

lemma parseKey_shorter: "parseKey s = Ok (key, rest) \<Longrightarrow> length rest \<le> length s"
  by (cases s) (auto simp: parseKey_def Let_def dropWhile_shorter le_SucI dest!: parseQuotedString_shorter split: if_splits)

lemma parseKey_total: "parseKey s \<noteq> Panic"
  using parseQuotedString_total by (auto simp: parseKey_def Let_def)

lemmas leaf_total = parseQuotedString_total typed_array_total parseScalar_total parseKey_total

lemma skipWs_Cons: "skipWs s = c # s' \<Longrightarrow> length s' < length s"
  using skipWs_shorter [of s] by simp

lemma parse_shorter:
  "parseValue pf n s = Ok (t, rest) \<Longrightarrow> length rest < length s"
  "parseMembers pf n c s = Ok (t, rest) \<Longrightarrow> length rest < length s"
  "parseItems pf n ts s = Ok (t, rest) \<Longrightarrow> length rest < length s"
proof (induction pf n s and pf n c s and pf n ts s arbitrary: t rest and t rest and t rest
    rule: parseValue_parseMembers_parseItems.induct)
  case (2 pf n s)
  then obtain c s' where s: "skipWs s = c # s'" by (cases "skipWs s") auto
  note len = skipWs_Cons [OF s] skipWs_shorter [of s']
  consider (obj) "c = CHR ''{''" | (arr) "c \<noteq> CHR ''{''" "c = CHR ''[''" | (str) "c \<noteq> CHR ''{''" "c \<noteq> CHR ''[''" "is_quote c"
    | (sc) "c \<noteq> CHR ''{''" "c \<noteq> CHR ''[''" "\<not> is_quote c" by blast
  then show ?case
  proof cases
    case obj
    then show ?thesis using "2.prems" "2.IH"(1) [OF s obj refl] s len by (auto simp: Let_def split: if_splits)
  next
    case arr
    then show ?thesis using "2.prems" "2.IH"(2) [OF s arr refl] s len typed_array_shorter
      by (fastforce simp: Let_def split: if_splits)
  next
    case str
    then show ?thesis using "2.prems" s len parseQuotedString_shorter by (fastforce split: outcome.splits)
  next
    case sc
    then show ?thesis using "2.prems" s skipWs_shorter [of s] by (fastforce dest: parseScalar_shorter)
  qed
next
  case (4 pf n c s)
  obtain key s1 where k: "parseKey (skipWs s) = Ok (key, s1)" using "4.prems" by (auto split: outcome.splits)
  obtain v s2 where v: "peek (skipWs s1) = CHR '':''" "parseValue pf n (tl (skipWs s1)) = Ok (v, s2)"
    using "4.prems" k by (auto simp: Let_def split: if_splits outcome.splits)
  have "length s2 < length s"
    using "4.IH"(1) [OF k refl refl _ v(2)] v(1) parseKey_shorter [OF k] skipWs_shorter [of s] skipWs_shorter [of s1] by simp
  moreover have "length (skipWs s2) \<le> length s2" by (rule skipWs_shorter)
  ultimately show ?case
    using "4.prems" k v "4.IH"(2) [OF k refl refl _ v(2) refl refl refl] by (fastforce simp: Let_def split: if_splits)
next
  case (6 pf n ts s)
  obtain v s2 where v: "parseValue pf n (skipWs s) = Ok (v, s2)" using "6.prems" by (auto split: outcome.splits)
  have "length s2 < length s" using "6.IH"(1) [OF v] skipWs_shorter [of s] by simp
  moreover have "length (skipWs s2) \<le> length s2" by (rule skipWs_shorter)
  ultimately show ?case
    using "6.prems" v "6.IH"(2) [OF v refl _ refl refl] by (fastforce simp: Let_def split: if_splits)
qed simp_all

lemma parse_total:
  "2 * length s < n \<Longrightarrow> parseValue pf n s \<noteq> Panic"
  "2 * length s < n \<Longrightarrow> parseMembers pf n c s \<noteq> Panic"
  "2 * length s + 1 < n \<Longrightarrow> parseItems pf n ts s \<noteq> Panic"
proof (induction pf n s and pf n c s and pf n ts s rule: parseValue_parseMembers_parseItems.induct)
  case (2 pf n s)
  show ?case
  proof (cases "skipWs s")
    case (Cons c s')
    have len: "2 * length (skipWs s') + 1 < n"
      using "2.prems" skipWs_Cons [OF Cons] skipWs_shorter [of s'] by simp
    consider (obj) "c = CHR ''{''" | (arr) "c \<noteq> CHR ''{''" "c = CHR ''[''" | (leaf) "c \<noteq> CHR ''{''" "c \<noteq> CHR ''[''"
      by blast
    then show ?thesis
    proof cases
      case obj
      then show ?thesis using "2.IH"(1) [OF Cons obj refl] Cons len by (simp add: Let_def)
    next
      case arr
      then show ?thesis using "2.IH"(2) [OF Cons arr refl] Cons len by (simp add: Let_def typed_array_total)
    next
      case leaf
      then show ?thesis using leaf_total Cons by (simp split: outcome.split)
    qed
  qed simp
next
  case (4 pf n c s)
  show ?case
  proof (cases "parseKey (skipWs s)")
    case (Ok ks)
    obtain key s1 where ks: "ks = (key, s1)" by fastforce
    note k = Ok [unfolded ks]
    show ?thesis
    proof (cases "peek (skipWs s1) = CHR '':''")
      case True
      have len: "length (tl (skipWs s1)) < length s"
        using True parseKey_shorter [OF k] skipWs_shorter [of s] skipWs_shorter [of s1]
        by (cases "skipWs s1") (auto simp: peek_def)
      then have tot: "parseValue pf n (tl (skipWs s1)) \<noteq> Panic" using "4.IH"(1) [OF k refl refl] True "4.prems" by simp
      show ?thesis
      proof (cases "parseValue pf n (tl (skipWs s1))")
        case (Ok vs)
        obtain v s2 where vs: "vs = (v, s2)" by fastforce
        note v = Ok [unfolded vs]
        have "length (tl (skipWs s2)) < length s" using parse_shorter(1) [OF v] skipWs_shorter [of s2] len by simp
        then show ?thesis using "4.IH"(2) [OF k refl refl _ v refl refl refl] True "4.prems" k v by (simp add: Let_def)
      qed (use tot k True in \<open>simp_all add: Let_def\<close>)
    qed (simp add: k Let_def)
  qed (use leaf_total in simp_all)
next
  case (6 pf n ts s)
  have len: "length (skipWs s) \<le> length s" by (rule skipWs_shorter)
  then have tot: "parseValue pf n (skipWs s) \<noteq> Panic" using 6 by simp
  show ?case
  proof (cases "parseValue pf n (skipWs s)")
    case (Ok vs)
    obtain v s2 where vs: "vs = (v, s2)" by fastforce
    note v = Ok [unfolded vs]
    have "length (tl (skipWs s2)) < length s" using parse_shorter(1) [OF v] skipWs_shorter [of s2] len by simp
    then show ?thesis using "6.IH"(2) [OF v refl _ refl refl] "6.prems" v by (auto simp: Let_def)
  qed (use tot in simp_all)
qed simp_all

lemma ParseSNBT_total: "ParseSNBT pf data \<noteq> Panic"
  using parse_total(1) [of "skipWs data" "snbt_fuel (skipWs data)" pf]
  by (auto simp: ParseSNBT_def Let_def snbt_fuel_def split: outcome.split Tag.split)

text \<open>Fuel that suffices gives the result that any more fuel gives.\<close>

lemma parse_more_fuel:
  "parseValue pf n s \<noteq> Panic \<Longrightarrow> n \<le> m \<Longrightarrow> parseValue pf m s = parseValue pf n s"
  "parseMembers pf n c s \<noteq> Panic \<Longrightarrow> n \<le> m \<Longrightarrow> parseMembers pf m c s = parseMembers pf n c s"
  "parseItems pf n ts s \<noteq> Panic \<Longrightarrow> n \<le> m \<Longrightarrow> parseItems pf m ts s = parseItems pf n ts s"
proof (induction pf n s and pf n c s and pf n ts s arbitrary: m and m and m
    rule: parseValue_parseMembers_parseItems.induct)
  case (2 pf n s)
  obtain k where k: "m = Suc k" "n \<le> k" using "2.prems"(2) by (cases m) auto
  show ?case
  proof (cases "skipWs s")
    case (Cons c s')
    then show ?thesis using "2.IH"(1) [OF Cons _ refl _ _ k(2)] "2.IH"(2) [OF Cons _ _ refl _ _ _ k(2)] "2.prems"(1) k(1)
      by (auto simp: Let_def)
  qed (simp add: k)
next
  case (4 pf n c s)
  obtain k where k: "m = Suc k" "n \<le> k" using "4.prems"(2) by (cases m) auto
  show ?case
  proof (cases "parseKey (skipWs s)")
    case (Ok ks)
    obtain key s1 where ks: "ks = (key, s1)" by fastforce
    note kk = Ok [unfolded ks]
    show ?thesis
    proof (cases "peek (skipWs s1) = CHR '':''")
      case True
      have ne: "parseValue pf n (tl (skipWs s1)) \<noteq> Panic" using "4.prems"(1) kk True by (auto simp: Let_def)
      note same = "4.IH"(1) [OF kk refl refl _ ne k(2)]
      show ?thesis
      proof (cases "parseValue pf n (tl (skipWs s1))")
        case (Ok vs)
        obtain v s2 where vs: "vs = (v, s2)" by fastforce
        note v = Ok [unfolded vs]
        show ?thesis using "4.IH"(2) [OF kk refl refl _ v refl refl refl _ _ k(2)] "4.prems"(1) True kk v same k(1)
          by (auto simp: Let_def)
      qed (use kk True same k(1) in \<open>simp_all add: Let_def\<close>)
    qed (simp add: kk Let_def k(1))
  qed (simp_all add: k(1))
next
  case (6 pf n ts s)
  obtain k where k: "m = Suc k" "n \<le> k" using "6.prems"(2) by (cases m) auto
  have ne: "parseValue pf n (skipWs s) \<noteq> Panic" using "6.prems"(1) by auto
  note same = "6.IH"(1) [OF ne k(2)]
  show ?case
  proof (cases "parseValue pf n (skipWs s)")
    case (Ok vs)
    obtain v s2 where vs: "vs = (v, s2)" by fastforce
    note v = Ok [unfolded vs]
    show ?thesis using "6.IH"(2) [OF v refl _ refl refl _ _ k(2)] "6.prems"(1) v same k(1) by (auto simp: Let_def)
  qed (use same k(1) in simp_all)
qed simp_all

section \<open>Reading what is written\<close>

text \<open>The usual notation, as a specification: decimal numbers with a suffix, quoted strings and keys.\<close>

definition quote_char :: "char \<Rightarrow> string" where
  "quote_char c = (if c = CHR 0x5C \<or> c = CHR 0x22 then [CHR 0x5C, c] else [c])"

definition quoted :: "string \<Rightarrow> string" where
  "quoted s = CHR 0x22 # concat (map quote_char s) @ [CHR 0x22]"

fun snbt_text :: "Tag \<Rightarrow> string" where
  "snbt_text (TByte n) = dec_int (sint n) @ ''b''"
| "snbt_text (TShort n) = dec_int (sint n) @ ''s''"
| "snbt_text (TInt n) = dec_int (sint n)"
| "snbt_text (TLong n) = dec_int (sint n) @ ''L''"
| "snbt_text (TString s) = quoted s"
| "snbt_text (TList e ts) = ''['' @ join_with '','' (map snbt_text ts) @ '']''"
| "snbt_text (TCompound c) = ''{'' @ join_with '','' (map (\<lambda>(k, t). quoted k @ '':'' @ snbt_text t) c) @ ''}''"
| "snbt_text (TByteArray bs) = ''[B;'' @ join_with '','' (map (\<lambda>b. dec_int (sint b) @ ''b'') bs) @ '']''"
| "snbt_text (TIntArray vs) = ''[I;'' @ join_with '','' (map (\<lambda>v. dec_int (sint v)) vs) @ '']''"
| "snbt_text (TLongArray vs) = ''[L;'' @ join_with '','' (map (\<lambda>v. dec_int (sint v) @ ''L'') vs) @ '']''"
| "snbt_text _ = []"

text \<open>The tags with such a notation: floating-point numbers are left to \<open>ParseFloat\<close>.\<close>

fun printable :: "Tag \<Rightarrow> bool" where
  "printable (TInt n) \<longleftrightarrow> - (2 ^ 31) \<le> sint n \<and> sint n < 2 ^ 31"
| "printable (TList e ts) \<longleftrightarrow> e = (if ts = [] then TagEnd else Type (hd ts)) \<and>
     list_all (\<lambda>t. printable t \<and> Type t = e) ts"
| "printable (TCompound c) \<longleftrightarrow> distinct (map fst c) \<and> list_all (\<lambda>(k, t). printable t) c"
| "printable TEnd \<longleftrightarrow> False"
| "printable (TFloat _) \<longleftrightarrow> False"
| "printable (TDouble _) \<longleftrightarrow> False"
| "printable _ \<longleftrightarrow> True"

lemma digit_not: "digit c \<Longrightarrow> c \<noteq> CHR ''-'' \<and> c \<noteq> CHR ''+'' \<and> \<not> scalar_end c \<and> \<not> item_end c \<and> \<not> is_quote c \<and>
    c \<notin> set ''.eE'' \<and> c \<notin> set ''bBsSlLfFdD'' \<and> c \<noteq> CHR ''{'' \<and> c \<noteq> CHR ''[''"
  by (auto simp: digit_def scalar_end_def item_end_def is_ws_def is_quote_def)

lemma parseQuoted_quoted:
  "parseQuotedString (CHR 0x22) (concat (map quote_char s) @ CHR 0x22 # rest) = Ok (s, rest)"
proof (induction s)
  case Nil
  then show ?case by (simp add: parseQuotedString.simps(2))
next
  case (Cons c s)
  have "escaped c = c" if "c = CHR 0x5C \<or> c = CHR 0x22" using that by (auto simp: escaped_def)
  then show ?case using Cons by (auto simp: quote_char_def parseQuotedString.simps(2))
qed

definition stops :: "string \<Rightarrow> bool" where
  "stops rest \<longleftrightarrow> rest = [] \<or> scalar_end (hd rest)"

lemma takeWhile_stops:
  assumes "list_all (\<lambda>c. \<not> scalar_end c) raw" and "stops rest"
  shows "takeWhile (\<lambda>c. \<not> scalar_end c) (raw @ rest) = raw" "dropWhile (\<lambda>c. \<not> scalar_end c) (raw @ rest) = rest"
  using assms by (induction raw) (cases rest; simp add: stops_def)+

definition numeral_char :: "char \<Rightarrow> bool" where
  "numeral_char c \<longleftrightarrow> digit c \<or> c = CHR ''-''"

lemma numeral_char_not:
  "numeral_char c \<Longrightarrow> c \<noteq> CHR ''+'' \<and> \<not> scalar_end c \<and> \<not> item_end c \<and> \<not> is_quote c \<and> \<not> is_ws c \<and>
    c \<notin> set ''.eE'' \<and> c \<notin> set ''bBsSlLfFdD'' \<and> c \<noteq> CHR ''{'' \<and> c \<noteq> CHR ''['' \<and> c \<noteq> CHR '']'' \<and> c \<noteq> CHR ''t''"
  by (auto simp: numeral_char_def digit_def scalar_end_def item_end_def is_ws_def is_quote_def)

lemma dec_int_chars: "list_all numeral_char (dec_int i) \<and> dec_int i \<noteq> []"
  using dec_nat_digits [of "nat i"] dec_nat_digits [of "nat (- i)"]
  by (auto simp: dec_int_def list_all_iff numeral_char_def)

lemma isFloatBody_dec: "\<not> isFloatBody (dec_int i)"
  using dec_int_chars [of i] numeral_char_not by (auto simp: isFloatBody_def list_all_iff list_ex_iff)

lemma dec_int_cases: obtains c r where "dec_int i = c # r" "numeral_char c" "last (dec_int i) \<notin> set ''bBsSlLfFdD''"
proof -
  have "numeral_char (last (dec_int i))" using dec_int_chars [of i] by (auto simp: list_all_iff)
  then show ?thesis using that dec_int_chars [of i] numeral_char_not by (cases "dec_int i") auto
qed

lemma dec_int_not_bool: "dec_int i @ s \<noteq> ''true''" "dec_int i @ s \<noteq> ''false''"
proof -
  obtain c r where d: "dec_int i = c # r" "numeral_char c" using dec_int_cases [of i] by metis
  then have "c \<noteq> CHR ''t''" "c \<noteq> CHR ''f''" using numeral_char_not [OF d(2)] by simp_all
  then show "dec_int i @ s \<noteq> ''true''" "dec_int i @ s \<noteq> ''false''" by (simp_all add: d(1))
qed

lemma sint64_range: "- (2 ^ (64 - 1)) \<le> sint n \<and> sint n < 2 ^ (64 - 1)" for n :: i64
  using sint_ge [of n] sint_lt [of n] by simp

lemmas ParseInt_dec64 = ParseInt_dec [of 64, OF sint64_range [THEN conjunct1] sint64_range [THEN conjunct2]]

lemma scalar_tag_dec:
  fixes n :: i64
  shows "scalar_tag pf (dec_int (sint n) @ ''b'') = Ok (TByte n)"
    and "scalar_tag pf (dec_int (sint n) @ ''s'') = Ok (TShort n)"
    and "scalar_tag pf (dec_int (sint n) @ ''L'') = Ok (TLong n)"
    and "- (2 ^ 31) \<le> sint n \<Longrightarrow> sint n < 2 ^ 31 \<Longrightarrow> scalar_tag pf (dec_int (sint n)) = Ok (TInt n)"
proof -
  have d: "last (dec_int (sint n)) \<notin> set ''bBsSlLfFdD''" using dec_int_cases by metis
  show "scalar_tag pf (dec_int (sint n) @ ''b'') = Ok (TByte n)"
    "scalar_tag pf (dec_int (sint n) @ ''s'') = Ok (TShort n)"
    "scalar_tag pf (dec_int (sint n) @ ''L'') = Ok (TLong n)"
    unfolding scalar_tag_def if_not_P [OF dec_int_not_bool(1)] if_not_P [OF dec_int_not_bool(2)]
    by (simp_all add: Let_def isFloatBody_dec ParseInt_dec64)
  show "scalar_tag pf (dec_int (sint n)) = Ok (TInt n)" if "- (2 ^ 31) \<le> sint n" "sint n < 2 ^ 31"
    unfolding scalar_tag_def
      if_not_P [OF dec_int_not_bool(1) [of _ "[]", unfolded append_Nil2]]
      if_not_P [OF dec_int_not_bool(2) [of _ "[]", unfolded append_Nil2]]
    using d that by (simp add: Let_def isFloatBody_dec ParseInt_dec64)
qed

lemma find_plain_None:
  assumes "\<forall>p \<in> set ps. p \<noteq> [] \<and> set p \<inter> set s = {}"
  shows "find (HasPrefix s) ps = None"
proof -
  have "\<not> HasPrefix s p" if p: "p \<in> set ps" for p
  proof
    assume "HasPrefix s p"
    then have "set p \<subseteq> set s" unfolding HasPrefix_prefix by (rule set_mono_prefix)
    then show False using assms p by (metis Int_absorb2 set_empty)
  qed
  then show ?thesis by (auto simp: find_None_iff)
qed

lemma TrimSpace_plain:
  assumes "\<And>p. p \<in> set space_encodings \<Longrightarrow> set p \<inter> set s = {}"
  shows "TrimSpace s = s"
proof -
  have "find (HasPrefix s) space_encodings = None" "find (HasPrefix (rev s)) (map rev space_encodings) = None"
    using assms space_encodings_nonempty by (auto intro!: find_plain_None) fastforce+
  then show ?thesis by (simp add: TrimSpace_def)
qed

definition array_char :: "char \<Rightarrow> bool" where
  "array_char c \<longleftrightarrow> numeral_char c \<or> c = CHR ''b'' \<or> c = CHR ''L''"

lemma array_char_plain: "array_char c \<Longrightarrow> p \<in> set space_encodings \<Longrightarrow> c \<notin> set p"
  by (auto simp: array_char_def numeral_char_def digit_def space_encodings_def)

lemma TrimSpace_array: "list_all array_char s \<Longrightarrow> TrimSpace s = s"
  by (rule TrimSpace_plain) (auto simp: list_all_iff dest: array_char_plain)

lemma skipWs_nonws [simp]: "\<not> is_ws c \<Longrightarrow> skipWs (c # s) = c # s"
  by (simp add: skipWs_def)

lemma skipWs_idem [simp]: "skipWs (skipWs s) = skipWs s"
  by (simp add: skipWs_def)

lemma separators [simp]:
  "\<not> is_ws (CHR '','')" "\<not> is_ws (CHR '']'')" "\<not> is_ws (CHR ''}'')" "\<not> is_ws (CHR '':'')" "\<not> is_ws (CHR ''['')"
  "\<not> is_ws (CHR ''{'')" "\<not> is_ws (CHR 0x22)"
  "item_end (CHR '','')" "item_end (CHR '']'')" "peek (c # s) = c" "is_quote (CHR 0x22)"
  by (simp_all add: is_ws_def item_end_def peek_def is_quote_def)

text \<open>One element of a typed array, and the whole array.\<close>

lemma takeWhile_item:
  assumes "list_all array_char raw" and "item_end x"
  shows "takeWhile (\<lambda>c. \<not> item_end c) (raw @ x # s) = raw" "dropWhile (\<lambda>c. \<not> item_end c) (raw @ x # s) = x # s"
proof -
  have "\<not> item_end c" if "c \<in> set raw" for c
    using assms(1) that numeral_char_not by (auto simp: list_all_iff array_char_def item_end_def)
  then show "takeWhile (\<lambda>c. \<not> item_end c) (raw @ x # s) = raw" "dropWhile (\<lambda>c. \<not> item_end c) (raw @ x # s) = x # s"
    using assms(2) by simp_all
qed

lemma skipWs_array: "list_all array_char raw \<Longrightarrow> raw \<noteq> [] \<Longrightarrow> skipWs (raw @ s) = raw @ s"
  using numeral_char_not by (cases raw) (auto simp: array_char_def is_ws_def)

lemma TrimSuffix_append: "TrimSuffix (s @ p) p = s"
  by (simp add: TrimSuffix_def HasSuffix_def HasPrefix_def)

definition fits_bits :: "nat \<Rightarrow> int \<Rightarrow> bool" where
  "fits_bits bits v \<longleftrightarrow> - (2 ^ (bits - 1)) \<le> v \<and> v < 2 ^ (bits - 1)"

lemma fits_sint: "fits_bits LENGTH('a) (sint w)" for w :: "'a::len word"
  using sint_ge [of w] sint_lt [of w] by (simp add: fits_bits_def)

lemma parseArray_text:
  assumes "list_all array_char suf" and "vs \<noteq> []" and "list_all (fits_bits bits) vs"
  shows "parseArray bits suf (join_with '','' (map (\<lambda>v. dec_int v @ suf) vs) @ CHR '']'' # rest) = Ok (vs, rest)"
  using assms(2,3)
proof (induction vs)
  case (Cons v vs)
  have raw: "list_all array_char (dec_int v @ suf)" "dec_int v @ suf \<noteq> []"
    using dec_int_chars [of v] assms(1) by (auto simp: list_all_iff array_char_def)
  have v: "ParseInt bits (dec_int v) = (v, True)" using Cons.prems(2) ParseInt_dec by (simp add: fits_bits_def)
  show ?case
  proof (cases vs)
    case Nil
    then show ?thesis
      using raw v skipWs_array [OF raw, of "CHR '']'' # rest"] takeWhile_item [OF raw(1), of "CHR '']''" rest]
      by (subst parseArray.simps) (simp add: TrimSpace_array [OF raw(1)] TrimSuffix_append)
  next
    case (Cons v' vs')
    define t where "t = join_with '','' (map (\<lambda>v. dec_int v @ suf) vs) @ CHR '']'' # rest"
    have "join_with '','' (map (\<lambda>v. dec_int v @ suf) (v # vs)) @ CHR '']'' # rest = (dec_int v @ suf) @ CHR '','' # t"
      by (simp add: Cons t_def)
    moreover have "parseArray bits suf t = Ok (vs, rest)" using Cons.IH Cons.prems Cons by (simp add: t_def)
    ultimately show ?thesis
      using raw v skipWs_array [OF raw, of "CHR '','' # t"] takeWhile_item [OF raw(1), of "CHR '',''" t]
      by (simp only:) (subst parseArray.simps, simp add: TrimSpace_array [OF raw(1)] TrimSuffix_append)
  qed
qed simp

lemma typed_array_text:
  assumes "a = CHR ''B'' \<and> bits = 8 \<and> suf = ''b'' \<or> a = CHR ''L'' \<and> bits = 64 \<and> suf = ''L'' \<or>
      a = CHR ''I'' \<and> bits = 32 \<and> suf = []"
    and "list_all (fits_bits bits) vs"
  shows "parse_typed_array a (join_with '','' (map (\<lambda>v. dec_int v @ suf) vs) @ CHR '']'' # rest) =
    Ok (array_tag a vs, rest)"
proof (cases vs)
  case Nil
  then show ?thesis by (simp add: parse_typed_array_def)
next
  case (Cons v vs')
  have suf: "list_all array_char suf" using assms(1) by (auto simp: array_char_def)
  define t where "t = join_with '','' (map (\<lambda>v. dec_int v @ suf) vs) @ CHR '']'' # rest"
  obtain c r where d: "dec_int v = c # r" "numeral_char c" using dec_int_cases by metis
  then obtain r' where t: "t = c # r'" by (cases vs') (auto simp: t_def Cons)
  have c: "\<not> is_ws c" "c \<noteq> CHR '']''" using numeral_char_not [OF d(2)] by simp_all
  have "parseArray bits suf t = Ok (vs, rest)" using parseArray_text [OF suf _ assms(2)] Cons by (simp add: t_def)
  then show ?thesis unfolding t_def [symmetric]
    using c assms(1) by (auto simp: parse_typed_array_def Let_def t)
qed

text \<open>\<open>parses\<close>: with some fuel the text of a value is read back, whatever stops it.\<close>

definition parses :: "(string \<Rightarrow> f64 option) \<Rightarrow> string \<Rightarrow> Tag \<Rightarrow> bool" where
  "parses pf txt t \<longleftrightarrow> (\<forall>rest. stops rest \<longrightarrow> (\<exists>n. parseValue pf n (txt @ rest) = Ok (t, rest)))"

lemma stops_separator: "stops (CHR '','' # s)" "stops (CHR '']'' # s)" "stops (CHR ''}'' # s)"
  by (simp_all add: stops_def scalar_end_def)

lemma parseValue_skipWs [simp]: "parseValue pf n (skipWs s) = parseValue pf n s"
  by (cases n) simp_all

lemma parses_scalar:
  assumes "scalar_tag pf raw = Ok t" and "raw = c # r" and "numeral_char c" and "list_all (\<lambda>c. \<not> scalar_end c) raw"
  shows "parses pf raw t"
  unfolding parses_def
proof (intro allI impI)
  fix rest assume "stops rest"
  then have "parseScalar pf (raw @ rest) = Ok (t, rest)"
    using assms(1,2) takeWhile_stops [OF assms(4)] by (simp add: parseScalar_def Let_def)
  then have "parseValue pf (Suc 0) (raw @ rest) = Ok (t, rest)"
    using numeral_char_not [OF assms(3)] by (simp add: assms(2))
  then show "\<exists>n. parseValue pf n (raw @ rest) = Ok (t, rest)" by blast
qed

lemma parses_dec:
  assumes "scalar_tag pf (dec_int i @ suf) = Ok t" and "list_all (\<lambda>c. \<not> scalar_end c) suf"
  shows "parses pf (dec_int i @ suf) t"
proof -
  obtain c r where d: "dec_int i = c # r" "numeral_char c" using dec_int_cases by metis
  show ?thesis
  proof (rule parses_scalar [OF assms(1) _ d(2)])
    show "dec_int i @ suf = c # r @ suf" by (simp add: d(1))
    show "list_all (\<lambda>c. \<not> scalar_end c) (dec_int i @ suf)"
      using dec_int_chars [of i] numeral_char_not assms(2) by (auto simp: list_all_iff)
  qed
qed

lemma parses_quoted: "parses pf (quoted s) (TString s)"
proof -
  have "parseValue pf (Suc 0) (quoted s @ rest) = Ok (TString s, rest)" for rest
    using parseQuoted_quoted [of s rest] by (simp add: quoted_def)
  then show ?thesis unfolding parses_def by blast
qed

lemma parses_array:
  assumes "a = CHR ''B'' \<and> bits = 8 \<and> suf = ''b'' \<or> a = CHR ''L'' \<and> bits = 64 \<and> suf = ''L'' \<or>
      a = CHR ''I'' \<and> bits = 32 \<and> suf = []"
    and "list_all (fits_bits bits) vs"
  shows "parses pf (CHR ''['' # a # CHR '';'' # join_with '','' (map (\<lambda>v. dec_int v @ suf) vs) @ '']'') (array_tag a vs)"
proof -
  have "\<not> is_ws a" "a \<in> set ''BIL''" using assms(1) by (auto simp: is_ws_def)
  then have "parseValue pf (Suc 0)
      ((CHR ''['' # a # CHR '';'' # join_with '','' (map (\<lambda>v. dec_int v @ suf) vs) @ '']'') @ rest) =
      Ok (array_tag a vs, rest)" for rest
    using typed_array_text [OF assms, of rest] by (simp add: typed_array_start_def)
  then show ?thesis unfolding parses_def by blast
qed

text \<open>The texts of a list's items and of a compound's members.\<close>

lemma parseItems_text:
  assumes "ts \<noteq> []" and "\<And>t. t \<in> set ts \<Longrightarrow> parses pf (snbt_text t) t \<and> Type t = e"
    and "acc = [] \<or> Type (hd acc) = e"
  shows "\<exists>n. parseItems pf n acc (join_with '','' (map snbt_text ts) @ CHR '']'' # rest) = Ok (TList e (acc @ ts), rest)"
  using assms
proof (induction ts arbitrary: acc)
  case (Cons t ts)
  define s where "s = (if ts = [] then CHR '']'' # rest
    else CHR '','' # join_with '','' (map snbt_text ts) @ CHR '']'' # rest)"
  have whole: "join_with '','' (map snbt_text (t # ts)) @ CHR '']'' # rest = snbt_text t @ s"
    by (cases ts) (simp_all add: s_def)
  have "stops s" by (simp add: s_def stops_separator)
  then obtain n where n: "parseValue pf n (snbt_text t @ s) = Ok (t, s)"
    using Cons.prems(2) [of t] unfolding parses_def by auto
  have t: "Type t = e" and hd: "Type (hd (acc @ [t])) = e" using Cons.prems(2) [of t] Cons.prems(3) by (cases acc; simp)+
  show ?case
  proof (cases "ts = []")
    case True
    have "parseItems pf (Suc n) acc (snbt_text t @ s) = Ok (TList e (acc @ [t]), rest)"
      using n t hd Cons.prems(3) by (auto simp: s_def True Let_def)
    then show ?thesis unfolding whole using True by blast
  next
    case False
    define s' where "s' = join_with '','' (map snbt_text ts) @ CHR '']'' # rest"
    obtain m where m: "parseItems pf m (acc @ [t]) s' = Ok (TList e (acc @ [t] @ ts), rest)"
      using Cons.IH [of "acc @ [t]"] False Cons.prems(2) hd by (auto simp: s'_def)
    have "parseValue pf (max n m) (snbt_text t @ s) = Ok (t, s)" "parseItems pf (max n m) (acc @ [t]) s' = Ok (TList e (acc @ [t] @ ts), rest)"
      using parse_more_fuel(1) [of pf n "snbt_text t @ s" "max n m"] n parse_more_fuel(3) [of pf m "acc @ [t]" s' "max n m"] m
      by simp_all
    then have "parseItems pf (Suc (max n m)) acc (snbt_text t @ s) = Ok (TList e (acc @ t # ts), rest)"
      using t Cons.prems(3) False by (auto simp: s_def Let_def s'_def)
    then show ?thesis unfolding whole by blast
  qed
qed simp

definition member_text :: "string \<times> Tag \<Rightarrow> string" where
  "member_text = (\<lambda>(k, t). quoted k @ '':'' @ snbt_text t)"

lemma parseKey_quoted: "parseKey (quoted k @ s) = Ok (k, s)"
  using parseQuoted_quoted [of k s] by (simp add: parseKey_def quoted_def)

lemma skipWs_quoted [simp]: "skipWs (quoted k @ s) = quoted k @ s"
  by (simp add: quoted_def)

lemma parseMembers_text:
  assumes "c \<noteq> []" and "\<And>k t. (k, t) \<in> set c \<Longrightarrow> parses pf (snbt_text t) t" and "distinct (map fst (acc @ c))"
  shows "\<exists>n. parseMembers pf n acc (join_with '','' (map member_text c) @ CHR ''}'' # rest) = Ok (TCompound (acc @ c), rest)"
  using assms
proof (induction c arbitrary: acc)
  case (Cons kt c)
  obtain k t where kt: "kt = (k, t)" by fastforce
  define s where "s = (if c = [] then CHR ''}'' # rest
    else CHR '','' # join_with '','' (map member_text c) @ CHR ''}'' # rest)"
  have whole: "join_with '','' (map member_text (kt # c)) @ CHR ''}'' # rest = quoted k @ CHR '':'' # snbt_text t @ s"
    by (cases c) (simp_all add: s_def kt member_text_def)
  have "stops s" by (simp add: s_def stops_separator)
  then obtain n where n: "parseValue pf n (snbt_text t @ s) = Ok (t, s)"
    using Cons.prems(2) [of k t] unfolding parses_def by (auto simp: kt)
  have fresh: "Insert acc k t = acc @ [(k, t)]" using Cons.prems(3) by (auto simp: kt)
  show ?case
  proof (cases "c = []")
    case True
    have "parseMembers pf (Suc n) acc (quoted k @ CHR '':'' # snbt_text t @ s) = Ok (TCompound (acc @ [kt]), rest)"
      using n fresh by (simp add: parseKey_quoted True Let_def kt) (simp add: s_def True)
    then show ?thesis unfolding whole using True by blast
  next
    case False
    define s' where "s' = join_with '','' (map member_text c) @ CHR ''}'' # rest"
    obtain m where m: "parseMembers pf m (acc @ [kt]) s' = Ok (TCompound (acc @ kt # c), rest)"
      using Cons.IH [of "acc @ [kt]"] False Cons.prems(2,3) by (auto simp: s'_def)
    have "parseValue pf (max n m) (snbt_text t @ s) = Ok (t, s)" "parseMembers pf (max n m) (acc @ [kt]) s' = Ok (TCompound (acc @ kt # c), rest)"
      using parse_more_fuel(1) [of pf n "snbt_text t @ s" "max n m"] n parse_more_fuel(2) [of pf m "acc @ [kt]" s' "max n m"] m
      by simp_all
    then have "parseMembers pf (Suc (max n m)) acc (quoted k @ CHR '':'' # snbt_text t @ s) = Ok (TCompound (acc @ kt # c), rest)"
      using False fresh by (simp add: parseKey_quoted Let_def kt) (simp add: s_def s'_def kt)
    then show ?thesis unfolding whole by blast
  qed
qed simp

lemma snbt_text_start:
  assumes "printable t"
  obtains c r where "snbt_text t = c # r" "\<not> is_ws c" "c \<notin> set ''BIL''" "c \<noteq> CHR '']''"
proof -
  have dec: "\<exists>c r. dec_int i @ s = c # r \<and> \<not> is_ws c \<and> c \<notin> set ''BIL'' \<and> c \<noteq> CHR '']''" for i s
  proof -
    obtain c r where d: "dec_int i = c # r" "numeral_char c" using dec_int_cases by metis
    then have "c \<notin> set ''BIL''" by (auto simp: numeral_char_def digit_def)
    then show ?thesis using d numeral_char_not [OF d(2)] by simp
  qed
  consider i suf where "snbt_text t = dec_int i @ suf"
    | c r where "snbt_text t = c # r" "c = CHR 0x22 \<or> c = CHR ''['' \<or> c = CHR ''{''"
  proof (cases t)
    case (TInt n)
    then show ?thesis using that(1) [of "sint n" "[]"] by simp
  qed (use assms that in \<open>auto simp: quoted_def\<close>)
  then show ?thesis
  proof cases
    case 1
    then show ?thesis using that dec by metis
  next
    case 2
    then show ?thesis using that by (auto simp: is_ws_def)
  qed
qed

lemma parses_list:
  assumes "printable (TList e ts)" and "\<And>t. t \<in> set ts \<Longrightarrow> parses pf (snbt_text t) t"
  shows "parses pf (snbt_text (TList e ts)) (TList e ts)"
proof (cases ts)
  case Nil
  have "parseValue pf (Suc 0) (snbt_text (TList e ts) @ rest) = Ok (TList e ts, rest)" for rest
    using assms(1) by (simp add: Nil typed_array_start_def tag_ids)
  then show ?thesis unfolding parses_def by blast
next
  case (Cons t ts')
  have items: "parses pf (snbt_text t) t \<and> Type t = e" if "t \<in> set ts" for t
    using assms that by (auto simp: list_all_iff)
  obtain c r where c: "snbt_text t = c # r" "\<not> is_ws c" "c \<notin> set ''BIL''" "c \<noteq> CHR '']''"
    using snbt_text_start [of t] assms(1) by (auto simp: Cons)
  have "\<exists>n. parseValue pf n (snbt_text (TList e ts) @ rest) = Ok (TList e ts, rest)" for rest
  proof -
    define s where "s = join_with '','' (map snbt_text ts) @ CHR '']'' # rest"
    obtain n where n: "parseItems pf n [] s = Ok (TList e ts, rest)"
      using parseItems_text [of ts pf e "[]" rest] items Cons by (auto simp: s_def)
    obtain s' where s: "s = c # s'" using c(1) by (cases ts') (auto simp: s_def Cons)
    have "snbt_text (TList e ts) @ rest = CHR ''['' # s" by (simp add: s_def)
    moreover have "parseValue pf (Suc n) (CHR ''['' # s) = Ok (TList e ts, rest)"
      using n c(2-4) by (simp add: Let_def typed_array_start_def s)
    ultimately show ?thesis by metis
  qed
  then show ?thesis unfolding parses_def by blast
qed

lemma parses_compound:
  assumes "printable (TCompound c)" and "\<And>k t. (k, t) \<in> set c \<Longrightarrow> parses pf (snbt_text t) t"
  shows "parses pf (snbt_text (TCompound c)) (TCompound c)"
proof (cases c)
  case Nil
  have "parseValue pf (Suc 0) (snbt_text (TCompound c) @ rest) = Ok (TCompound c, rest)" for rest
    by (simp add: Nil NewCompound_def)
  then show ?thesis unfolding parses_def by blast
next
  case (Cons kt c')
  have "\<exists>n. parseValue pf n (snbt_text (TCompound c) @ rest) = Ok (TCompound c, rest)" for rest
  proof -
    define s where "s = join_with '','' (map member_text c) @ CHR ''}'' # rest"
    obtain n where n: "parseMembers pf n [] s = Ok (TCompound c, rest)"
      using parseMembers_text [of c pf "[]" rest] assms Cons by (auto simp: s_def)
    obtain s' where s: "s = CHR 0x22 # s'"
      by (cases kt, cases c') (auto simp: s_def Cons member_text_def quoted_def)
    have "snbt_text (TCompound c) @ rest = CHR ''{'' # s" by (simp add: s_def member_text_def)
    moreover have "parseValue pf (Suc n) (CHR ''{'' # s) = Ok (TCompound c, rest)"
      using n by (simp add: Let_def s NewCompound_def)
    ultimately show ?thesis by metis
  qed
  then show ?thesis unfolding parses_def by blast
qed

lemma parses_text: "printable t \<Longrightarrow> parses pf (snbt_text t) t"
proof (induction t)
  case (TByte n)
  then show ?case using parses_dec [OF scalar_tag_dec(1)] by (simp add: scalar_end_def is_ws_def)
next
  case (TShort n)
  then show ?case using parses_dec [OF scalar_tag_dec(2)] by (simp add: scalar_end_def is_ws_def)
next
  case (TLong n)
  then show ?case using parses_dec [OF scalar_tag_dec(3)] by (simp add: scalar_end_def is_ws_def)
next
  case (TInt n)
  then show ?case using parses_dec [of pf "sint n" "[]" "TInt n"] scalar_tag_dec(4) [of n pf] by simp
next
  case (TString s)
  then show ?case by (simp add: parses_quoted)
next
  case (TList e ts)
  then show ?case by (intro parses_list) (auto simp: list_all_iff)
next
  case (TCompound c)
  then show ?case by (intro parses_compound) (fastforce simp: list_all_iff)+
next
  case (TByteArray bs)
  have "list_all (fits_bits 8) (map sint bs)" using fits_sint [where 'a = 8] by (simp add: list_all_iff)
  then show ?case using parses_array [of "CHR ''B''" 8 "''b''" "map sint bs" pf]
    by (simp add: array_tag_def comp_def)
next
  case (TIntArray vs)
  have "list_all (fits_bits 32) (map sint vs)" using fits_sint [where 'a = 32] by (simp add: list_all_iff)
  then show ?case using parses_array [of "CHR ''I''" 32 "[]" "map sint vs" pf]
    by (simp add: array_tag_def comp_def)
next
  case (TLongArray vs)
  have "list_all (fits_bits 64) (map sint vs)" using fits_sint [where 'a = 64] by (simp add: list_all_iff)
  then show ?case using parses_array [of "CHR ''L''" 64 "''L''" "map sint vs" pf]
    by (simp add: array_tag_def comp_def)
qed simp_all

lemma ParseSNBT_text:
  assumes "printable (TCompound c)"
  shows "ParseSNBT pf (snbt_text (TCompound c)) = Ok c"
proof -
  let ?s = "snbt_text (TCompound c)"
  have "stops []" by (simp add: stops_def)
  then obtain n where n: "parseValue pf n ?s = Ok (TCompound c, [])"
    using parses_text [OF assms, of pf] unfolding parses_def by (metis append_Nil2)
  have ws: "skipWs ?s = ?s" by simp
  have "parseValue pf (snbt_fuel ?s) ?s = parseValue pf (max n (snbt_fuel ?s)) ?s"
    using parse_more_fuel(1) [OF parse_total(1) [of ?s "snbt_fuel ?s" pf]] by (simp add: snbt_fuel_def del: snbt_text.simps)
  also have "\<dots> = Ok (TCompound c, [])"
    using parse_more_fuel(1) [of pf n ?s] n by (simp del: snbt_text.simps)
  finally show ?thesis by (simp add: ParseSNBT_def ws skipWs_def [of "[]"] del: snbt_text.simps)
qed

end
