(* ===== verification/Dimension.thy ===== *)
theory Dimension
  imports Snbt
begin

text \<open>
  \<^verbatim>\<open>mc/dimension.go\<close>: the dimension of the lobby world, made from the codec the server sent or from an embedded
  one. The embedded texts are arguments, the record \<open>embedded\<close>, with the parser of floating-point numbers they
  need; a text that does not parse is a panic at the first use.

  Shown here: the lobby's dimension always has the values the lobby needs, and keeps every other entry of the
  dimension it was made from.
\<close>

record embedded =
  em_dimensionCodecSNBT :: string
  em_dimensionSNBT :: string
  em_ParseFloat :: "string \<Rightarrow> f64 option"

definition snbtToCompoundTag :: "(string \<Rightarrow> f64 option) \<Rightarrow> string \<Rightarrow> Compound outcome" where
  "snbtToCompoundTag pf data = (case ParseSNBT pf data of Ok compound \<Rightarrow> Ok compound | _ \<Rightarrow> Panic)"

definition DefaultDimensionCodec :: "embedded \<Rightarrow> Compound outcome" where
  "DefaultDimensionCodec em = snbtToCompoundTag (em_ParseFloat em) (em_dimensionCodecSNBT em)"

definition lobbyDefaultDimension :: "embedded \<Rightarrow> Compound outcome" where
  "lobbyDefaultDimension em = snbtToCompoundTag (em_ParseFloat em) (em_dimensionSNBT em)"

definition preferred :: "string list" where
  "preferred = [''minecraft:the_end'', ''minecraft:the_nether'', ''minecraft:the_overworld'']"

text \<open>Lookups in a missing compound find nothing.\<close>

definition of_nil :: "Compound option \<Rightarrow> Compound" where
  "of_nil c = (case c of Some c \<Rightarrow> c | None \<Rightarrow> NewCompound)"

definition named_element :: "string \<Rightarrow> Compound option \<Rightarrow> Compound option" where
  "named_element name d =
     (if GetStr (of_nil d) ''name'' = Ok name
      then (case GetCompound (of_nil d) ''element'' of Ok element \<Rightarrow> Some element | _ \<Rightarrow> None)
      else None)"

fun first_element :: "string \<Rightarrow> Compound option list \<Rightarrow> Compound option" where
  "first_element name [] = None"
| "first_element name (d # ds) =
     (case named_element name d of Some element \<Rightarrow> Some element | None \<Rightarrow> first_element name ds)"

fun preferred_element :: "string list \<Rightarrow> Compound option list \<Rightarrow> Compound option" where
  "preferred_element [] ds = None"
| "preferred_element (name # names) ds =
     (case first_element name ds of Some element \<Rightarrow> Some element | None \<Rightarrow> preferred_element names ds)"

definition lobbyBaseDimension :: "embedded \<Rightarrow> Compound \<Rightarrow> Compound outcome" where
  "lobbyBaseDimension em dimensionTypes =
     (case GetCompoundVec dimensionTypes ''value'' of
        Ok dimensions \<Rightarrow>
          (case preferred_element preferred dimensions of
             Some element \<Rightarrow> Ok (Clone element)
           | None \<Rightarrow>
               if dimensions \<noteq> []
               then (case GetCompound (of_nil (hd dimensions)) ''element'' of
                       Ok element \<Rightarrow> Ok (Clone element)
                     | _ \<Rightarrow> lobbyDefaultDimension em)
               else lobbyDefaultDimension em)
      | _ \<Rightarrow> lobbyDefaultDimension em)"

definition float64_one :: f64 where "float64_one = 0x3FF0000000000000"

definition lobby_values :: "Compound \<Rightarrow> Compound" where
  "lobby_values base =
     (let base = InsertByte base ''piglin_safe'' 1;
          base = InsertFloat base ''ambient_light'' 0;
          base = InsertByte base ''respawn_anchor_works'' 0;
          base = InsertByte base ''has_skylight'' 0;
          base = InsertByte base ''bed_works'' 0;
          base = InsertString base ''effects'' ''minecraft:the_end'';
          base = InsertLong base ''fixed_time'' 0;
          base = InsertByte base ''has_raids'' 0;
          base = InsertInt base ''min_y'' 0;
          base = InsertInt base ''height'' 16;
          base = InsertInt base ''logical_height'' 16;
          base = InsertDouble base ''coordinate_scale'' float64_one;
          base = InsertByte base ''ultrawarm'' 0;
          base = InsertByte base ''has_ceiling'' 0
      in base)"

definition LobbyDimension :: "embedded \<Rightarrow> Compound \<Rightarrow> Compound outcome" where
  "LobbyDimension em codec =
     (case GetCompound codec ''minecraft:dimension_type'' of
        Ok dimensionTypes \<Rightarrow>
          (case lobbyBaseDimension em dimensionTypes of
             Ok base \<Rightarrow> Ok (lobby_values base)
           | Fail \<Rightarrow> Fail | Panic \<Rightarrow> Panic)
      | _ \<Rightarrow> lobbyDefaultDimension em)"

section \<open>The dimension the lobby gets\<close>

text \<open>The values that are set, in the order they are inserted.\<close>

definition lobby_entries :: Compound where
  "lobby_entries =
     [(''piglin_safe'', TByte 1), (''ambient_light'', TFloat (float64_of_float32 0)),
      (''respawn_anchor_works'', TByte 0), (''has_skylight'', TByte 0), (''bed_works'', TByte 0),
      (''effects'', TString ''minecraft:the_end''), (''fixed_time'', TLong 0), (''has_raids'', TByte 0),
      (''min_y'', TInt 0), (''height'', TInt 16), (''logical_height'', TInt 16),
      (''coordinate_scale'', TDouble float64_one), (''ultrawarm'', TByte 0), (''has_ceiling'', TByte 0)]"

lemma lobby_values_fold: "lobby_values base = foldl (\<lambda>c (k, t). Insert c k t) base lobby_entries"
proof -
  have casts: "(scast (0 :: 8 word) :: i64) = 0" "(scast (1 :: 8 word) :: i64) = 1" "(scast (0 :: i32) :: i64) = 0"
    "(scast (16 :: i32) :: i64) = 16"
    by simp_all
  show ?thesis
    unfolding lobby_values_def lobby_entries_def Let_def InsertByte_def InsertFloat_def InsertString_def InsertLong_def
      InsertInt_def InsertDouble_def casts foldl.simps prod.case ..
qed

lemma foldl_Insert_Get:
  "distinct (map fst kts) \<Longrightarrow>
   Get (foldl (\<lambda>c (k, t). Insert c k t) base kts) name = (case map_of kts name of Some t \<Rightarrow> Some t | None \<Rightarrow> Get base name)"
proof (induction kts arbitrary: base)
  case (Cons kt kts)
  obtain k t where kt: "kt = (k, t)" by fastforce
  have "map_of kts k = None" using Cons.prems by (simp add: kt map_of_eq_None_iff)
  then show ?case using Cons by (auto simp: kt Insert_refines(2) split: option.split)
qed simp

lemma lobby_entries_distinct: "distinct (map fst lobby_entries)"
  by (simp add: lobby_entries_def)

lemma lobby_values_Get:
  "Get (lobby_values base) name = (case map_of lobby_entries name of Some t \<Rightarrow> Some t | None \<Rightarrow> Get base name)"
  by (simp only: lobby_values_fold foldl_Insert_Get [OF lobby_entries_distinct])

lemma LobbyDimension_Get:
  assumes "GetCompound codec ''minecraft:dimension_type'' = Ok types" and "lobbyBaseDimension em types = Ok base"
  shows "\<exists>d. LobbyDimension em codec = Ok d \<and>
    (\<forall>name. Get d name = (case map_of lobby_entries name of Some t \<Rightarrow> Some t | None \<Rightarrow> Get base name))"
  using assms by (simp add: LobbyDimension_def lobby_values_Get)

lemma first_element_named:
  "first_element name ds = Some element \<Longrightarrow>
   \<exists>d \<in> set ds. GetStr (of_nil d) ''name'' = Ok name \<and> GetCompound (of_nil d) ''element'' = Ok element"
  by (induction ds) (auto simp: named_element_def split: option.splits if_splits outcome.splits)

lemma first_element_found:
  assumes "d \<in> set ds" and "GetStr (of_nil d) ''name'' = Ok name" and "GetCompound (of_nil d) ''element'' = Ok element"
  shows "first_element name ds \<noteq> None"
  using assms by (induction ds) (auto simp: named_element_def split: option.splits)

text \<open>Whenever the server has the end, the lobby is made from it.\<close>

lemma lobbyBaseDimension_end:
  assumes "GetCompoundVec types ''value'' = Ok ds" and "d \<in> set ds"
    and "GetStr (of_nil d) ''name'' = Ok ''minecraft:the_end''" and "GetCompound (of_nil d) ''element'' = Ok element"
  shows "\<exists>d' element'. d' \<in> set ds \<and> GetStr (of_nil d') ''name'' = Ok ''minecraft:the_end'' \<and>
    GetCompound (of_nil d') ''element'' = Ok element' \<and> lobbyBaseDimension em types = Ok (Clone element')"
proof -
  obtain e where e: "first_element ''minecraft:the_end'' ds = Some e" using first_element_found [OF assms(2-4)] by auto
  then have "lobbyBaseDimension em types = Ok (Clone e)"
    using assms(1) by (simp add: lobbyBaseDimension_def preferred_def)
  then show ?thesis using first_element_named [OF e] by blast
qed

end
