(* ===== verification/Lobby.thy ===== *)
theory Lobby
  imports Backend_Login Online_Auth Dimension Service
begin

text \<open>
  \<^verbatim>\<open>lobby.go\<close>: the lobby that takes a client's login itself, keeps it in an empty world while the server
  starts and then hands it to the server. What other goroutines do to the shared state shows as what each
  look at it sees (\<open>lobby_env\<close>); a timer that fires first is a flag. After authentication the connection is
  encrypted: the model goes on with the plain text, which \<open>Online_Auth\<close> shows to be what both sides read.

  Shown here: in online mode the server is started only for an authenticated login and a client reaches the
  backend only with its verified profile forwarded; the client is told about compression once, before the
  login success, and every later packet is framed that way; a UUID survives its text form.
\<close>

section \<open>Packets of the login\<close>

definition respondSetCompression :: "zlib \<Rightarrow> Client \<Rightarrow> i32 \<Rightarrow> sink \<Rightarrow> bool \<times> sink" where
  "respondSetCompression z client threshold k =
     writePacket z client (NewRawPacket PacketClientSetCompression (Bytes (WriteVarInt NewPacketWriter threshold))) k"

text \<open>The result: an error, or whether compression is active; the client and the stream after it.\<close>

definition ensureClientCompression :: "zlib \<Rightarrow> Client \<Rightarrow> sink \<Rightarrow> bool option \<times> Client \<times> sink" where
  "ensureClientCompression z client k =
     (if sint CompressionThreshold < 0 then (Some False, client, k)
      else if IsCompressed client then
        (if Compressed client \<noteq> CompressionThreshold then (None, client, k) else (Some True, client, k))
      else (case respondSetCompression z client CompressionThreshold k of
              (False, k) \<Rightarrow> (None, client, k)
            | (True, k) \<Rightarrow> (Some True, SetCompressionThreshold client CompressionThreshold, k)))"

definition replayColdForgeLogin ::
  "zlib \<Rightarrow> Client \<Rightarrow> ServerState \<Rightarrow> bytes \<Rightarrow> script \<Rightarrow> sink \<Rightarrow> bool option \<times> Client \<times> bytes \<times> script \<times> sink" where
  "replayColdForgeLogin z client server buf conn k =
     (case ensureClientCompression z client k of
        (None, client, k) \<Rightarrow> (None, client, buf, conn, k)
      | (Some compressionSent, client, k) \<Rightarrow>
          (case replayForgeLoginPayload z client server buf conn k of
             (False, buf, conn, k) \<Rightarrow> (None, client, buf, conn, k)
           | (True, buf, conn, k) \<Rightarrow> (Some compressionSent, client, buf, conn, k)))"

fun hyphenate :: "nat \<Rightarrow> bytes \<Rightarrow> string" where
  "hyphenate i [] = []"
| "hyphenate i (b # u) =
     (if i = 4 \<or> i = 6 \<or> i = 8 \<or> i = 10 then ''-'' else []) @
     [hexDigits ! unat (drop_bit 4 b), hexDigits ! unat (b AND 0x0F)] @ hyphenate (i + 1) u"

definition hyphenatedUUID :: "bytes \<Rightarrow> string" where
  "hyphenatedUUID u = hyphenate 0 u"

definition from_protocol :: "u32 \<Rightarrow> ClientInfo \<Rightarrow> bool" where
  "from_protocol v clientInfo = (case GetProtocol clientInfo of Some p \<Rightarrow> v \<le> p | None \<Rightarrow> False)"

definition login_success_packet :: "(bytes \<Rightarrow> bytes) \<Rightarrow> ClientInfo \<Rightarrow> LoginStart \<Rightarrow> RawPacket" where
  "login_success_packet md5 clientInfo loginStart =
     (let uuid = (case ci_Profile clientInfo of
                    Some p \<Rightarrow> gp_UUID p | None \<Rightarrow> OfflinePlayerUUID md5 (ls_Name loginStart));
          w = (if from_protocol 735 clientInfo then Write NewPacketWriter uuid
               else WriteString NewPacketWriter (hyphenatedUUID uuid));
          w = WriteString w (ls_Name loginStart);
          properties = (case ci_Profile clientInfo of Some p \<Rightarrow> gp_Properties p | None \<Rightarrow> []);
          w = (if from_protocol 759 clientInfo
               then foldl write_property (WriteVarInt w (word_of_nat (length properties))) properties
               else w)
      in NewRawPacket PacketClientLoginSuccess (Bytes w))"

definition respondLoginSuccess ::
  "zlib \<Rightarrow> (bytes \<Rightarrow> bytes) \<Rightarrow> Client \<Rightarrow> ClientInfo \<Rightarrow> LoginStart \<Rightarrow> sink \<Rightarrow> bool \<times> sink" where
  "respondLoginSuccess z md5 client clientInfo loginStart k =
     writePacket z client (login_success_packet md5 clientInfo loginStart) k"

section \<open>Packets of the lobby world\<close>

definition allSpaces :: "string \<Rightarrow> bool" where
  "allSpaces s = list_all (\<lambda>c. c = CHR '' '' \<or> c = CHR 0x09) s"

definition playLobbyReadySound :: "zlib \<Rightarrow> Client \<Rightarrow> ClientInfo \<Rightarrow> Config \<Rightarrow> sink \<Rightarrow> bool \<times> sink" where
  "playLobbyReadySound z client clientInfo config k =
     (case jl_ReadySound (jo_Lobby (cfg_Join config)) of
        None \<Rightarrow> (True, k)
      | Some soundName \<Rightarrow>
          if length soundName = 0 \<or> allSpaces soundName then (True, k)
          else (case SendPlayerPos z client clientInfo k of
                  (False, k) \<Rightarrow> (False, k)
                | (True, k) \<Rightarrow> SendSound z client clientInfo soundName k))"

definition or_default :: "'a \<Rightarrow> ('b \<Rightarrow> 'a option) \<Rightarrow> 'b option \<Rightarrow> 'a" where
  "or_default d f x = (case x of None \<Rightarrow> d | Some y \<Rightarrow> (case f y of Some v \<Rightarrow> v | None \<Rightarrow> d))"

definition lobbyJoinGameParams :: "embedded \<Rightarrow> ServerState \<Rightarrow> JoinGameParams outcome" where
  "lobbyJoinGameParams em server =
     (let status = Status server; probed = ProbedJoinGame server
      in case DefaultDimensionCodec em of
           Ok defaultCodec \<Rightarrow>
             let dimensionCodec = or_default defaultCodec jg_DimensionCodec probed
             in (case LobbyDimension em dimensionCodec of
                   Ok dimension \<Rightarrow>
                     Ok \<lparr>jp_DimensionCodec = dimensionCodec,
                         jp_Dimension = dimension,
                         jp_MaxPlayers = (case status of
                            Some st \<Rightarrow> pl_Max (st_Players st)
                          | None \<Rightarrow> or_default 20 jg_MaxPlayers probed),
                         jp_ViewDistance = or_default 10 jg_ViewDistance probed,
                         jp_SimulationDistance = 0,
                         jp_Hardcore = or_default False jg_Hardcore probed,
                         jp_ReducedDebugInfo = or_default False jg_ReducedDebugInfo probed,
                         jp_EnableRespawnScreen = or_default True jg_EnableRespawnScreen probed,
                         jp_IsDebug = or_default False jg_IsDebug probed,
                         jp_IsFlat = or_default False jg_IsFlat probed\<rparr>
                 | Fail \<Rightarrow> Fail | Panic \<Rightarrow> Panic)
         | Fail \<Rightarrow> Fail | Panic \<Rightarrow> Panic)"

text \<open>\<open>Ok\<close> is a nil error.\<close>

definition sendLobbyPlayPackets ::
  "zlib \<Rightarrow> embedded \<Rightarrow> Client \<Rightarrow> ClientInfo \<Rightarrow> ServerState \<Rightarrow> sink \<Rightarrow> unit outcome \<times> sink" where
  "sendLobbyPlayPackets z em client clientInfo server k =
     (case lobbyJoinGameParams em server of
        Ok params \<Rightarrow>
          (case SendJoinGame z client clientInfo params k of
             (False, k) \<Rightarrow> (Fail, k)
           | (True, k) \<Rightarrow>
               (case SendServerBrand z client clientInfo k of
                  (False, k) \<Rightarrow> (Fail, k)
                | (True, k) \<Rightarrow>
                    (case SendPlayerPos z client clientInfo k of
                       (False, k) \<Rightarrow> (Fail, k)
                     | (True, k) \<Rightarrow>
                         (case SendTimeUpdate z client clientInfo k of
                            (False, k) \<Rightarrow> (Fail, k)
                          | (True, k) \<Rightarrow> (Ok (), k)))))
      | Fail \<Rightarrow> (Fail, k) | Panic \<Rightarrow> (Panic, k))"

definition respawn_dimension :: "embedded \<Rightarrow> JoinGameData \<Rightarrow> Compound outcome" where
  "respawn_dimension em data =
     (case jg_Dimension data of
        Some dimension \<Rightarrow> Ok dimension
      | None \<Rightarrow>
          (case DefaultDimensionCodec em of
             Ok defaultCodec \<Rightarrow> LobbyDimension em (or_default defaultCodec jg_DimensionCodec (Some data))
           | Fail \<Rightarrow> Fail | Panic \<Rightarrow> Panic))"

definition sendLobbyRespawn ::
  "zlib \<Rightarrow> embedded \<Rightarrow> Client \<Rightarrow> ClientInfo \<Rightarrow> JoinGameData \<Rightarrow> sink \<Rightarrow> unit outcome \<times> sink" where
  "sendLobbyRespawn z em client clientInfo data k =
     (case respawn_dimension em data of
        Ok dimension \<Rightarrow>
          (case SendRespawn z client clientInfo
                  \<lparr>re_Dimension = dimension,
                   re_WorldName = or_default ''minecraft:overworld'' jg_WorldName (Some data),
                   re_HashedSeed = or_default 0 jg_HashedSeed (Some data),
                   re_GameMode = or_default 0 jg_GameMode (Some data),
                   re_PreviousGameMode = or_default 0xFF jg_PreviousGameMode (Some data),
                   re_IsDebug = or_default False jg_IsDebug (Some data),
                   re_IsFlat = or_default False jg_IsFlat (Some data)\<rparr> k of
             (True, k) \<Rightarrow> (Ok (), k)
           | (False, k) \<Rightarrow> (Fail, k))
      | Fail \<Rightarrow> (Fail, k) | Panic \<Rightarrow> (Panic, k))"

text \<open>\<open>ticks\<close> is how often the ticker fires before the loop is stopped; a failed write ends the loop.\<close>

fun keepAliveLoop :: "zlib \<Rightarrow> Client \<Rightarrow> ClientInfo \<Rightarrow> Config \<Rightarrow> nat \<Rightarrow> u64 \<Rightarrow> sink \<Rightarrow> bool \<times> u64 \<times> sink" where
  "keepAliveLoop z client clientInfo config 0 keepAliveID k = (True, keepAliveID, k)"
| "keepAliveLoop z client clientInfo config (Suc ticks) keepAliveID k =
     (case SendKeepAlive z client clientInfo keepAliveID k of
        (False, keepAliveID, k) \<Rightarrow> (False, keepAliveID, k)
      | (True, keepAliveID, k) \<Rightarrow>
          (case SendTitle z client clientInfo (jl_Message (jo_Lobby (cfg_Join config))) k of
             (False, k) \<Rightarrow> (False, keepAliveID, k)
           | (True, k) \<Rightarrow> keepAliveLoop z client clientInfo config ticks keepAliveID k))"

text \<open>The states received before the lobby's timeout.\<close>

fun waitForServer :: "State list \<Rightarrow> bool" where
  "waitForServer [] = False"
| "waitForServer (StateStarting # states) = waitForServer states"
| "waitForServer (StateStarted # states) = True"
| "waitForServer (StateStopping # states) = False"
| "waitForServer (StateStopped # states) = False"

definition stageWait ::
  "zlib \<Rightarrow> Client \<Rightarrow> ClientInfo \<Rightarrow> Config \<Rightarrow> nat \<Rightarrow> u64 \<Rightarrow> State list \<Rightarrow> sink \<Rightarrow> bool \<times> sink" where
  "stageWait z client clientInfo config ticks keepAliveID states k =
     (case keepAliveLoop z client clientInfo config ticks keepAliveID k of
        (_, _, k) \<Rightarrow> (waitForServer states, k))"

text \<open>
  A read with a deadline that has passed fails before it looks for data, so the first read of the loop ends it.
\<close>

definition conn_Read_expired :: "script \<Rightarrow> (bytes \<times> io_error option) \<times> script" where
  "conn_Read_expired conn = (([], Some ErrTimeout), conn)"

definition drainStream :: "script \<Rightarrow> script" where
  "drainStream conn = (case conn_Read_expired conn of ((_, _), conn) \<Rightarrow> conn)"

definition lobbyRouteProxy :: "duplex \<Rightarrow> duplex \<Rightarrow> bytes \<Rightarrow> bool \<times> sink \<times> sink" where
  "lobbyRouteProxy inbound outbound inboundQueue = ProxyInboundOutboundWithQueue inbound outbound inboundQueue []"

section \<open>Serving a client\<close>

record lobby_env =
  le_zlib :: zlib
  le_md5 :: "bytes \<Rightarrow> bytes"
  le_hmac :: "bytes \<Rightarrow> bytes \<Rightarrow> bytes"
  le_secret :: "bytes outcome"
  le_auth :: auth_env
  le_embedded :: embedded
  le_env :: env
  le_remote :: net_addr
  le_local :: net_addr
  le_host :: string
  le_at_login :: ServerState
  le_at_replay :: ServerState
  le_at_play :: ServerState
  le_cache :: "nat \<Rightarrow> ForgeLoginExchange list"
  le_hot_states :: "State list"
  le_states :: "State list"
  le_ticks :: nat
  le_keepAliveID :: u64
  le_dial :: "(script \<times> sink) option"
  le_connectTimeout :: bool
  le_joinTimeout :: bool

record lobby_state =
  lb_client :: Client
  lb_info :: ClientInfo
  lb_buf :: bytes
  lb_in :: script
  lb_out :: sink
  lb_world :: world

datatype lobby_end =
    LobbyClosed lobby_state
  | LobbyProxied lobby_state backend_state "bool \<times> sink \<times> sink"
  | LobbyPanic

definition lobby_backend_env :: "lobby_env \<Rightarrow> lobby_state \<Rightarrow> backend_env" where
  "lobby_backend_env e s =
     \<lparr>be_zlib = le_zlib e, be_hmac = le_hmac e, be_secret = le_secret e, be_address = le_host e,
      be_info = lb_info s, be_cache = \<lambda>i. Some (le_cache e i)\<rparr>"

definition lobby_connect ::
  "lobby_env \<Rightarrow> Config \<Rightarrow> lobby_state \<Rightarrow> forgeLoginRelay option \<Rightarrow>
   (backend_state \<times> bytes \<times> script) outcome \<times> forgeLoginRelay option" where
  "lobby_connect e config s r =
     connectToServerWithForge (le_connectTimeout e) (lobby_backend_env e s) config
       (StreamHeader (le_remote e) (le_local e)) (le_dial e) r"

text \<open>The client's end and the backend's end of the proxied connection.\<close>

definition lobby_proxy ::
  "lobby_env \<Rightarrow> lobby_state \<Rightarrow> backend_state \<Rightarrow> bytes \<Rightarrow> script \<Rightarrow> lobby_end" where
  "lobby_proxy e s b serverBuf conn =
     LobbyProxied s b (lobbyRouteProxy
       \<lparr>dx_in = lb_in s, dx_out = lb_out s, dx_remote = le_remote e, dx_local = le_local e\<rparr>
       \<lparr>dx_in = conn, dx_out = bk_out b, dx_remote = OtherAddr, dx_local = OtherAddr\<rparr> serverBuf)"

text \<open>The first modern Forge client: its real login exchange is relayed to the started backend.\<close>

definition lobby_hot :: "lobby_env \<Rightarrow> Config \<Rightarrow> lobby_state \<Rightarrow> lobby_end" where
  "lobby_hot e config s =
     (if \<not> waitForServer (le_hot_states e) then LobbyClosed s
      else case ensureClientCompression (le_zlib e) (lb_client s) (lb_out s) of
        (None, client, k) \<Rightarrow> LobbyClosed (s\<lparr>lb_client := client, lb_out := k\<rparr>)
      | (Some _, client, k) \<Rightarrow>
          let s = s\<lparr>lb_client := client, lb_out := k\<rparr>;
              r = newForgeLoginRelay client (lb_in s) (lb_buf s) k
          in (case lobby_connect e config s (Some r) of
                (res, None) \<Rightarrow> LobbyClosed s
              | (res, Some r) \<Rightarrow>
                  let s = s\<lparr>lb_client := fr_client r, lb_in := fr_conn r, lb_buf := fr_buf r, lb_out := fr_sink r\<rparr>
                  in (case res of
                        Ok (b, serverBuf, conn) \<Rightarrow>
                          lobby_proxy e (s\<lparr>lb_world := (lb_world s)\<lparr>w_srv := commit r (w_srv (lb_world s))\<rparr>\<rparr>)
                            b serverBuf conn
                      | _ \<Rightarrow> LobbyClosed s)))"

text \<open>The replay for a client whose exchange is known, and the older payload; \<open>None\<close> is an error.\<close>

definition lobby_replay :: "lobby_env \<Rightarrow> Config \<Rightarrow> lobby_state \<Rightarrow> bool option \<times> lobby_state" where
  "lobby_replay e config s =
     (if sv_Forge (cfg_Server config) \<and> isForgeFML3 (lb_info s) then
        (case replayColdForgeLogin (le_zlib e) (lb_client s) (le_at_replay e) (lb_buf s) (lb_in s) (lb_out s) of
           (res, client, buf, conn, k) \<Rightarrow>
             (res, s\<lparr>lb_client := client, lb_buf := buf, lb_in := conn, lb_out := k\<rparr>))
      else if sv_Forge (cfg_Server config) then
        (case replayLoginPayload (le_zlib e) (lb_client s) (le_at_replay e) (lb_buf s) (lb_in s) (lb_out s) of
           (ok, buf, conn, k) \<Rightarrow>
             (if ok then Some False else None, s\<lparr>lb_buf := buf, lb_in := conn, lb_out := k\<rparr>))
      else (Some False, s))"

definition lobby_compress :: "lobby_env \<Rightarrow> bool \<Rightarrow> lobby_state \<Rightarrow> bool \<times> lobby_state" where
  "lobby_compress e compressionSent s =
     (if \<not> sint CompressionThreshold < 0 \<and> \<not> compressionSent then
        (case respondSetCompression (le_zlib e) (lb_client s) CompressionThreshold (lb_out s) of
           (False, k) \<Rightarrow> (False, s\<lparr>lb_out := k\<rparr>)
         | (True, k) \<Rightarrow>
             (True, s\<lparr>lb_out := k, lb_client := SetCompressionThreshold (lb_client s) CompressionThreshold\<rparr>))
      else (True, s))"

text \<open>The hand-over once the backend has accepted the login and sent its join game packet.\<close>

definition lobby_handover ::
  "lobby_env \<Rightarrow> Config \<Rightarrow> JoinGameData \<Rightarrow> backend_state \<Rightarrow> bytes \<Rightarrow> script \<Rightarrow> lobby_state \<Rightarrow> lobby_end" where
  "lobby_handover e config joinGameData b serverBuf conn s =
     (case SendTitle (le_zlib e) (lb_client s) (lb_info s) [] (lb_out s) of
        (False, k) \<Rightarrow> LobbyClosed (s\<lparr>lb_out := k\<rparr>)
      | (True, k) \<Rightarrow>
          (case playLobbyReadySound (le_zlib e) (lb_client s) (lb_info s) config k of
             (False, k) \<Rightarrow> LobbyClosed (s\<lparr>lb_out := k\<rparr>)
           | (True, k) \<Rightarrow>
               (case sendLobbyRespawn (le_zlib e) (le_embedded e) (lb_client s) (lb_info s) joinGameData k of
                  (Fail, k) \<Rightarrow> LobbyClosed (s\<lparr>lb_out := k\<rparr>)
                | (Panic, k) \<Rightarrow> LobbyPanic
                | (Ok _, k) \<Rightarrow>
                    lobby_proxy e (s\<lparr>lb_out := k, lb_in := drainStream (lb_in s)\<rparr>) b serverBuf conn)))"

definition lobby_connect_and_join :: "lobby_env \<Rightarrow> Config \<Rightarrow> lobby_state \<Rightarrow> lobby_end" where
  "lobby_connect_and_join e config s =
     (case lobby_connect e config s None of
        (Ok (b, serverBuf, conn), _) \<Rightarrow>
          (case waitForServerJoinGame (le_joinTimeout e) (le_zlib e) (bk_client b) (lb_info s) serverBuf conn of
             (Ok joinGameData, serverBuf, conn) \<Rightarrow> lobby_handover e config joinGameData b serverBuf conn s
           | (Fail, _, _) \<Rightarrow> LobbyClosed s
           | (Panic, _, _) \<Rightarrow> LobbyPanic)
      | (_, _) \<Rightarrow> LobbyClosed s)"

definition lobby_play :: "lobby_env \<Rightarrow> Config \<Rightarrow> LoginStart \<Rightarrow> lobby_state \<Rightarrow> lobby_end" where
  "lobby_play e config loginStart s =
     (case respondLoginSuccess (le_zlib e) (le_md5 e) (lb_client s) (lb_info s) loginStart (lb_out s) of
        (False, k) \<Rightarrow> LobbyClosed (s\<lparr>lb_out := k\<rparr>)
      | (True, k) \<Rightarrow>
          let s = s\<lparr>lb_out := k, lb_client := SetState (lb_client s) ClientStatePlay\<rparr>
          in (case sendLobbyPlayPackets (le_zlib e) (le_embedded e) (lb_client s) (lb_info s) (le_at_play e) (lb_out s) of
                (Fail, k) \<Rightarrow> LobbyClosed (s\<lparr>lb_out := k\<rparr>)
              | (Panic, k) \<Rightarrow> LobbyPanic
              | (Ok _, k) \<Rightarrow>
                  (case stageWait (le_zlib e) (lb_client s) (lb_info s) config (le_ticks e) (le_keepAliveID e)
                          (le_states e) k of
                     (False, k) \<Rightarrow> LobbyClosed (s\<lparr>lb_out := k\<rparr>)
                   | (True, k) \<Rightarrow> lobby_connect_and_join e config (s\<lparr>lb_out := k\<rparr>))))"

definition lobby_cold :: "lobby_env \<Rightarrow> Config \<Rightarrow> LoginStart \<Rightarrow> lobby_state \<Rightarrow> lobby_end" where
  "lobby_cold e config loginStart s =
     (case lobby_replay e config s of
        (None, s) \<Rightarrow> LobbyClosed s
      | (Some compressionSent, s) \<Rightarrow>
          (case lobby_compress e compressionSent s of
             (False, s) \<Rightarrow> LobbyClosed s
           | (True, s) \<Rightarrow> lobby_play e config loginStart s))"

text \<open>Authentication in online mode; \<open>None\<close> when it fails.\<close>

definition lobby_authenticate ::
  "lobby_env \<Rightarrow> Config \<Rightarrow> LoginStart \<Rightarrow> lobby_state \<Rightarrow> LoginStart option \<times> lobby_state" where
  "lobby_authenticate e config loginStart s =
     (if \<not> au_OnlineMode (cfg_Auth config) then (Some loginStart, s)
      else case authenticateLobbyClient (le_zlib e) (le_auth e) (lb_client s) (lb_in s) (lb_out s) (lb_buf s)
                  (ls_Name loginStart) config of
        (res, buf, conn, k) \<Rightarrow>
          (case res of
             Ok (ec, profile) \<Rightarrow>
               (Some \<lparr>ls_Name = gp_Name profile\<rparr>,
                s\<lparr>lb_in := plain_view ec, lb_out := ec_out ec, lb_buf := buf,
                  lb_info := (lb_info s)\<lparr>ci_Profile := Some profile, ci_Username := Some (gp_Name profile)\<rparr>\<rparr>)
           | _ \<Rightarrow> (None, s\<lparr>lb_in := conn, lb_out := k, lb_buf := buf\<rparr>)))"

definition lobby_login :: "lobby_env \<Rightarrow> Config \<Rightarrow> RawPacket \<Rightarrow> lobby_state \<Rightarrow> lobby_end" where
  "lobby_login e config packet s =
     (case DecodeLoginStart (rp_Data packet) of
        Ok loginStart \<Rightarrow>
          (case lobby_authenticate e config loginStart s of
             (None, s) \<Rightarrow> LobbyClosed s
           | (Some loginStart, s) \<Rightarrow>
               let s = s\<lparr>lb_world := snd (Start config (le_env e) (lb_world s))\<rparr>
               in if sv_Forge (cfg_Server config) \<and> isForgeFML3 (lb_info s) \<and> ForgeLoginCache (le_at_login e) = []
                  then lobby_hot e config s
                  else lobby_cold e config loginStart s)
      | _ \<Rightarrow> LobbyClosed s)"

function lobby_loop :: "lobby_env \<Rightarrow> Config \<Rightarrow> bytes \<Rightarrow> script \<Rightarrow> lobby_state \<Rightarrow> lobby_end" where
  "lobby_loop e config buf conn s =
     (case ReadPacket (le_zlib e) (lb_client s) buf conn of
        (ReadError err, buf, conn) \<Rightarrow> LobbyClosed (s\<lparr>lb_buf := buf, lb_in := conn\<rparr>)
      | (CleanEOF, buf, conn) \<Rightarrow> LobbyClosed (s\<lparr>lb_buf := buf, lb_in := conn\<rparr>)
      | (Packet packet raw, buf, conn) \<Rightarrow>
          if cl_state (lb_client s) = ClientStateLogin \<and> rp_ID packet = PacketServerLoginStart
          then lobby_login e config packet (s\<lparr>lb_buf := buf, lb_in := conn\<rparr>)
          else lobby_loop e config buf conn s)"
  by pat_completeness auto
termination
  by (relation "measure (\<lambda>(e, config, buf, conn, s). length (buf @ script_bytes conn))")
    (auto simp: ReadPacket_def dest!: ReadPacket_shrinks [OF sym])

declare lobby_loop.simps [simp del]

definition LobbyServe :: "lobby_env \<Rightarrow> Config \<Rightarrow> bytes \<Rightarrow> lobby_state \<Rightarrow> lobby_end" where
  "LobbyServe e config queue s =
     (if cl_state (lb_client s) \<noteq> ClientStateLogin then LobbyClosed s
      else if ci_Username (lb_info s) = None then LobbyClosed s
      else lobby_loop e config queue (lb_in s) s)"

section \<open>Who reaches the backend\<close>

definition lobby_end_state :: "lobby_end \<Rightarrow> lobby_state option" where
  "lobby_end_state r = (case r of LobbyClosed s \<Rightarrow> Some s | LobbyProxied s _ _ \<Rightarrow> Some s | LobbyPanic \<Rightarrow> None)"

text \<open>
  A login that was verified: of the packets read from the client, one is the login start, what follows it on the connection is the
  proof for the name it gives, and \<open>s'\<close> carries the profile that was confirmed.
\<close>

definition verified_login :: "lobby_env \<Rightarrow> Config \<Rightarrow> bytes \<Rightarrow> lobby_state \<Rightarrow> ClientInfo \<Rightarrow> bool" where
  "verified_login e config queue s info \<longleftrightarrow>
     (\<exists>ps start loginStart buf conn profile.
        packets_read (le_zlib e) (map (Pair (lb_client s)) (ps @ [start])) (queue, lb_in s) (buf, conn) \<and>
        rp_ID start = PacketServerLoginStart \<and> DecodeLoginStart (rp_Data start) = Ok loginStart \<and>
        login_verified (le_zlib e) (le_auth e) (lb_client s) conn (lb_out s) buf (ls_Name loginStart) config profile \<and>
        ci_Profile info = Some profile \<and> ci_Username info = Some (gp_Name profile))"

lemma lobby_authenticate_sound:
  assumes "lobby_authenticate e config loginStart s = (Some l, s')" and "au_OnlineMode (cfg_Auth config)"
  shows "\<exists>profile. login_verified (le_zlib e) (le_auth e) (lb_client s) (lb_in s) (lb_out s) (lb_buf s) (ls_Name loginStart) config profile \<and>
    ci_Profile (lb_info s') = Some profile \<and> ci_Username (lb_info s') = Some (gp_Name profile)"
proof -
  obtain res buf conn k where a: "authenticateLobbyClient (le_zlib e) (le_auth e) (lb_client s) (lb_in s) (lb_out s)
      (lb_buf s) (ls_Name loginStart) config = (res, buf, conn, k)" by (metis prod_cases4)
  obtain ec profile where res: "res = Ok (ec, profile)"
    using assms a by (cases res) (auto simp: lobby_authenticate_def)
  have "ci_Profile (lb_info s') = Some profile" "ci_Username (lb_info s') = Some (gp_Name profile)"
    using assms a res by (auto simp: lobby_authenticate_def)
  then show ?thesis using authenticateLobbyClient_sound [OF a [unfolded res]] by blast
qed

text \<open>
  The backend was told: it is the one the gateway dialled, it asked for the profile in one of the packets read from it, and the
  signed answer with the client's profile is among the frames written to it.
\<close>

definition profile_forwarded :: "lobby_env \<Rightarrow> lobby_state \<Rightarrow> backend_state \<Rightarrow> bool" where
  "profile_forwarded e s b \<longleftrightarrow>
     (\<exists>conn k ps st. le_dial e = Some (conn, k) \<and> packets_read (le_zlib e) ps ([], conn) st \<and>
        forwarded_in (lobby_backend_env e s) ps (sk_written (bk_out b)))"

text \<open>The rest of the lobby keeps what is known of the client, and proxies only an accepted login.\<close>

definition lobby_proper :: "lobby_env \<Rightarrow> Config \<Rightarrow> lobby_state \<Rightarrow> lobby_end \<Rightarrow> bool" where
  "lobby_proper e config s r \<longleftrightarrow>
     (\<forall>s'. lobby_end_state r = Some s' \<longrightarrow> lb_info s' = lb_info s) \<and>
     (\<forall>s' b p. r = LobbyProxied s' b p \<longrightarrow> au_OnlineMode (cfg_Auth config) \<longrightarrow> profile_forwarded e s b)"

lemma lobby_connect_forwarded:
  assumes "lobby_connect e config s r = (Ok (b, buf, conn), r')" and "pred_option relay_inv r"
    and "au_OnlineMode (cfg_Auth config)"
  shows "profile_forwarded e s b"
proof -
  obtain conn0 k0 ps packet where "le_dial e = Some (conn0, k0)" "bk_forwarded b"
      "packets_read (le_zlib e) (ps @ [packet]) ([], conn0) (buf, conn)" "backend_inv (lobby_backend_env e s) ps b"
    using connectToServer_done [OF assms(1) [unfolded lobby_connect_def] assms(2)] assms(3) by (auto simp: lobby_backend_env_def)
  moreover from this have "forwarded_in (lobby_backend_env e s) (ps @ [packet]) (sk_written (bk_out b))"
    using forwarded_in_mono [of _ ps _ "ps @ [packet]"] by (fastforce simp: backend_inv_def)
  ultimately show ?thesis unfolding profile_forwarded_def by blast
qed

lemma lobby_backend_env_info: "lb_info s' = lb_info s \<Longrightarrow> lobby_backend_env e s' = lobby_backend_env e s"
  by (simp add: lobby_backend_env_def)

lemma profile_forwarded_frame: "profile_forwarded e s b \<Longrightarrow> lb_info s' = lb_info s \<Longrightarrow> profile_forwarded e s' b"
  using lobby_backend_env_info [of s' s e] by (simp add: profile_forwarded_def)

lemma lobby_proper_closed: "lb_info s' = lb_info s \<Longrightarrow> lobby_proper e config s (LobbyClosed s')"
  by (simp add: lobby_proper_def lobby_end_state_def)

lemma lobby_proper_panic: "lobby_proper e config s LobbyPanic"
  by (simp add: lobby_proper_def lobby_end_state_def)

lemma lobby_proper_proxied:
  "lb_info s' = lb_info s \<Longrightarrow> (au_OnlineMode (cfg_Auth config) \<Longrightarrow> profile_forwarded e s b) \<Longrightarrow>
   lobby_proper e config s (lobby_proxy e s' b buf conn)"
  by (simp add: lobby_proper_def lobby_end_state_def lobby_proxy_def)

lemma lobby_proper_frame:
  "lobby_proper e config s1 r \<Longrightarrow> lb_info s1 = lb_info s \<Longrightarrow> lobby_proper e config s r"
  using profile_forwarded_frame [of e s1 _ s] by (auto simp: lobby_proper_def)

lemma lobby_hot_proper: "lobby_proper e config s (lobby_hot e config s)"
proof (cases "waitForServer (le_hot_states e)")
  case True
  obtain res client k where c: "ensureClientCompression (le_zlib e) (lb_client s) (lb_out s) = (res, client, k)"
    by (metis prod_cases3)
  define r where "r = newForgeLoginRelay client (lb_in s) (lb_buf s) k"
  let ?s1 = "s\<lparr>lb_client := client, lb_out := k\<rparr>"
  obtain x r' where x: "lobby_connect e config ?s1 (Some r) = (x, r')" by fastforce
  have "profile_forwarded e s b" if "x = Ok (b, buf, conn)" "au_OnlineMode (cfg_Auth config)" for b buf conn
    using lobby_connect_forwarded [of e config ?s1 "Some r" b buf conn r'] x that relay_inv_new
      profile_forwarded_frame [of e ?s1 b s] by (simp add: r_def)
  then show ?thesis
    using True c x
    by (auto simp: lobby_hot_def r_def Let_def intro!: lobby_proper_closed lobby_proper_proxied split: option.split outcome.split)
qed (simp add: lobby_hot_def lobby_proper_closed)

lemma lobby_handover_proper:
  assumes "au_OnlineMode (cfg_Auth config) \<Longrightarrow> profile_forwarded e s b"
  shows "lobby_proper e config s (lobby_handover e config d b buf conn s)"
  using assms
  by (auto simp: lobby_handover_def intro!: lobby_proper_closed lobby_proper_panic lobby_proper_proxied
      split: prod.split bool.split outcome.split)

lemma lobby_connect_and_join_proper: "lobby_proper e config s (lobby_connect_and_join e config s)"
proof -
  obtain x r' where x: "lobby_connect e config s None = (x, r')" by fastforce
  show ?thesis
  proof (cases x)
    case (Ok t)
    obtain b buf conn where t: "t = (b, buf, conn)" by (metis prod_cases3)
    have "au_OnlineMode (cfg_Auth config) \<Longrightarrow> profile_forwarded e s b"
      using lobby_connect_forwarded x Ok t by fastforce
    then show ?thesis
      by (auto simp: lobby_connect_and_join_def x Ok t intro!: lobby_proper_closed lobby_proper_panic lobby_handover_proper
          split: prod.split outcome.split)
  qed (simp_all add: lobby_connect_and_join_def x lobby_proper_closed)
qed

lemma lobby_play_proper: "lobby_proper e config s (lobby_play e config loginStart s)"
  by (auto simp: lobby_play_def Let_def intro!: lobby_proper_closed lobby_proper_panic lobby_proper_frame [OF lobby_connect_and_join_proper]
      split: prod.split bool.split outcome.split)

lemma lobby_replay_info: "lb_info (snd (lobby_replay e config s)) = lb_info s"
  by (simp add: lobby_replay_def split: prod.split)

lemma lobby_compress_info: "lb_info (snd (lobby_compress e sent s)) = lb_info s"
  by (simp add: lobby_compress_def split: prod.split bool.split)

lemma lobby_cold_proper: "lobby_proper e config s (lobby_cold e config loginStart s)"
  using lobby_replay_info [of e config s] lobby_compress_info [of e]
  by (auto simp: lobby_cold_def intro!: lobby_proper_closed lobby_proper_frame [OF lobby_play_proper]
      split: prod.split bool.split option.split) (metis snd_conv)+

text \<open>\<open>w\<close> is the state before; \<open>verified\<close> what is known of the client information after.\<close>

definition lobby_sound :: "lobby_env \<Rightarrow> (ClientInfo \<Rightarrow> bool) \<Rightarrow> world \<Rightarrow> lobby_end \<Rightarrow> bool" where
  "lobby_sound e verified w r \<longleftrightarrow>
     (\<forall>s'. lobby_end_state r = Some s' \<longrightarrow> lb_world s' \<noteq> w \<longrightarrow> verified (lb_info s')) \<and>
     (\<forall>s' b p. r = LobbyProxied s' b p \<longrightarrow> verified (lb_info s') \<and> profile_forwarded e s' b)"

lemma lobby_proper_sound:
  assumes "lobby_proper e config s r" and "verified (lb_info s)" and "au_OnlineMode (cfg_Auth config)"
  shows "lobby_sound e verified w r"
proof -
  have info: "lb_info s' = lb_info s" if "lobby_end_state r = Some s'" for s' using assms(1) that by (simp add: lobby_proper_def)
  have "verified (lb_info s') \<and> profile_forwarded e s' b" if "r = LobbyProxied s' b p" for s' b p
  proof -
    have "lb_info s' = lb_info s" by (rule info) (simp add: lobby_end_state_def that)
    then show ?thesis
      using assms that profile_forwarded_frame [of e s b s'] unfolding lobby_proper_def by metis
  qed
  then show ?thesis using info assms(2) unfolding lobby_sound_def by metis
qed

lemma lobby_authenticate_world: "lb_world (snd (lobby_authenticate e config l s)) = lb_world s"
  by (simp add: lobby_authenticate_def split: prod.split outcome.split)

lemma sound_closed: "lb_world s = w \<Longrightarrow> lobby_sound e verified w (LobbyClosed s)"
  by (simp add: lobby_sound_def lobby_end_state_def)

lemma lobby_login_sound:
  assumes "au_OnlineMode (cfg_Auth config)"
    and "\<And>loginStart profile info. DecodeLoginStart (rp_Data packet) = Ok loginStart \<Longrightarrow>
      login_verified (le_zlib e) (le_auth e) (lb_client s) (lb_in s) (lb_out s) (lb_buf s) (ls_Name loginStart) config profile \<Longrightarrow>
      ci_Profile info = Some profile \<Longrightarrow> ci_Username info = Some (gp_Name profile) \<Longrightarrow> verified info"
  shows "lobby_sound e verified (lb_world s) (lobby_login e config packet s)"
proof (cases "DecodeLoginStart (rp_Data packet)")
  case (Ok loginStart)
  obtain res s1 where a: "lobby_authenticate e config loginStart s = (res, s1)" by fastforce
  show ?thesis
  proof (cases res)
    case None
    then show ?thesis using a lobby_authenticate_world [of e config loginStart s] by (simp add: lobby_login_def Ok sound_closed)
  next
    case (Some l)
    let ?s2 = "s1\<lparr>lb_world := snd (Start config (le_env e) (lb_world s1))\<rparr>"
    have "verified (lb_info ?s2)"
      using lobby_authenticate_sound [OF a [unfolded Some] assms(1)] assms(2) [OF Ok] by auto
    then show ?thesis
      using lobby_proper_sound [OF lobby_hot_proper _ assms(1)] lobby_proper_sound [OF lobby_cold_proper _ assms(1)]
      by (simp add: lobby_login_def Ok a Some Let_def)
  qed
qed (simp_all add: lobby_login_def sound_closed)

lemma lobby_loop_sound:
  assumes "au_OnlineMode (cfg_Auth config)" and "lb_client s = lb_client s0" and "lb_out s = lb_out s0"
    and "packets_read (le_zlib e) (map (Pair (lb_client s0)) ps) (queue, lb_in s0) (buf, conn)"
  shows "lobby_sound e (verified_login e config queue s0) (lb_world s) (lobby_loop e config buf conn s)"
  using assms
proof (induction e config buf conn s arbitrary: ps rule: lobby_loop.induct)
  case (1 e config buf conn s)
  obtain res b c where r: "ReadPacket (le_zlib e) (lb_client s) buf conn = (res, b, c)" by (metis prod_cases3)
  show ?case
  proof (cases res)
    case (Packet packet raw)
    have read: "packets_read (le_zlib e) (map (Pair (lb_client s0)) (ps @ [packet])) (queue, lb_in s0) (b, c)"
      using packets_read_snoc [OF "1.prems"(4) r [unfolded Packet "1.prems"(2)]] by simp
    show ?thesis
    proof (cases "cl_state (lb_client s) = ClientStateLogin \<and> rp_ID packet = PacketServerLoginStart")
      case True
      have "lobby_sound e (verified_login e config queue s0) (lb_world (s\<lparr>lb_buf := b, lb_in := c\<rparr>))
          (lobby_login e config packet (s\<lparr>lb_buf := b, lb_in := c\<rparr>))"
        by (rule lobby_login_sound [OF "1.prems"(1)])
          (use read True "1.prems"(2,3) in \<open>unfold verified_login_def, simp, blast\<close>)
      then show ?thesis using True by (subst lobby_loop.simps) (simp add: r Packet)
    next
      case False
      then show ?thesis
        using "1.IH" [OF r [symmetric] Packet refl False "1.prems"(1-3) read]
        by (subst lobby_loop.simps) (simp only: r Packet prod.case read_result.case if_False)
    qed
  qed (subst lobby_loop.simps, simp add: r sound_closed)+
qed

lemma LobbyServe_sound:
  "au_OnlineMode (cfg_Auth config) \<Longrightarrow>
   lobby_sound e (verified_login e config queue s) (lb_world s) (LobbyServe e config queue s)"
  using lobby_loop_sound [of config s s e "[]" queue queue "lb_in s"]
  by (simp add: LobbyServe_def sound_closed packets_read.none)

section \<open>Compression\<close>

definition set_compression_packet :: RawPacket where
  "set_compression_packet = NewRawPacket PacketClientSetCompression (EncodeVarInt CompressionThreshold)"

lemma respondSetCompression_frame:
  assumes "respondSetCompression z client CompressionThreshold k = (True, k')"
  shows "\<exists>frame. EncodeWithLen z set_compression_packet client = Ok frame \<and> sk_written k' = sk_written k @ [frame]"
  using assms
  by (auto simp: respondSetCompression_def writePacket_def conn_Write_def set_compression_packet_def wire_simps
      split: outcome.splits if_splits)

text \<open>
  The writes of a cold login up to the login success: the announcement of the threshold, once, before it
  nothing but the older payload and after it only packets framed with the threshold.
\<close>

lemma writePackets_frames:
  assumes "writePackets z client ps k = (True, k')"
  shows "\<exists>frames. sk_written k' = sk_written k @ frames \<and> list_all2 (\<lambda>p f. EncodeWithLen z p client = Ok f) ps frames"
  using assms
proof (induction ps arbitrary: k)
  case (Cons p ps)
  obtain k1 where k1: "writePacket z client p k = (True, k1)" "writePackets z client ps k1 = (True, k')"
    using Cons.prems by (auto split: prod.splits bool.splits)
  obtain f where f: "EncodeWithLen z p client = Ok f" "sk_written k1 = sk_written k @ [f]"
    using k1(1) by (auto simp: writePacket_def conn_Write_def split: outcome.splits if_splits)
  obtain fs where "sk_written k' = sk_written k1 @ fs" "list_all2 (\<lambda>p f. EncodeWithLen z p client = Ok f) ps fs"
    using Cons.IH [OF k1(2)] by blast
  then show ?case using f by (intro exI [of _ "f # fs"]) simp
qed simp

lemma replay_payload_writes:
  "sk_written (foldl (\<lambda>k p. snd (conn_Write p k)) k ps) = sk_written k @ take (sk_budget k) ps"
proof (induction ps arbitrary: k)
  case (Cons p ps)
  then show ?case by (cases "sk_budget k") (simp_all add: conn_Write_def)
qed simp

lemma threshold_positive: "\<not> sint CompressionThreshold < 0"
  by (simp add: CompressionThreshold_def)

text \<open>
  What is written around the announcement: before it the recorded payload of an older Forge server, after it the cached requests
  of a modern one, and otherwise nothing.
\<close>

definition older_payload :: "lobby_env \<Rightarrow> Config \<Rightarrow> ClientInfo \<Rightarrow> bytes list" where
  "older_payload e config info =
     (if sv_Forge (cfg_Server config) \<and> \<not> isForgeFML3 info then ForgePayload (le_at_replay e) else [])"

definition replayed_requests :: "lobby_env \<Rightarrow> Config \<Rightarrow> ClientInfo \<Rightarrow> RawPacket list" where
  "replayed_requests e config info =
     (if sv_Forge (cfg_Server config) \<and> isForgeFML3 info
      then map (\<lambda>x. NewRawPacket PacketClientLoginPluginRequest (fx_Request x)) (ForgeLoginCache (le_at_replay e)) else [])"

definition compression_announced :: "lobby_env \<Rightarrow> Config \<Rightarrow> lobby_state \<Rightarrow> lobby_state \<Rightarrow> bool" where
  "compression_announced e config s s' \<longleftrightarrow>
     lb_client s' = SetCompressionThreshold (lb_client s) CompressionThreshold \<and>
     (\<exists>announcement replayed.
        EncodeWithLen (le_zlib e) set_compression_packet (lb_client s) = Ok announcement \<and>
        list_all2 (\<lambda>p f. EncodeWithLen (le_zlib e) p (lb_client s') = Ok f) (replayed_requests e config (lb_info s)) replayed \<and>
        sk_written (lb_out s') = sk_written (lb_out s) @ older_payload e config (lb_info s) @ [announcement] @ replayed)"

lemma replay_payload_budget: "sk_budget (foldl (\<lambda>k p. snd (conn_Write p k)) k ps) = sk_budget k - length ps"
proof (induction ps arbitrary: k)
  case (Cons p ps)
  then show ?case by (cases "sk_budget k") (simp_all add: conn_Write_def)
qed simp

lemma respondSetCompression_budget: "respondSetCompression z client t k = (True, k') \<Longrightarrow> 0 < sk_budget k"
  by (auto simp: respondSetCompression_def writePacket_def conn_Write_def split: outcome.splits if_splits)

lemma modern_compression:
  assumes "lobby_replay e config s = (Some sent, s1)" and "lobby_compress e sent s1 = (True, s2)"
    and "\<not> IsCompressed (lb_client s)" and "sv_Forge (cfg_Server config) \<and> isForgeFML3 (lb_info s)"
  shows "compression_announced e config s s2"
proof -
  let ?z = "le_zlib e" and ?client = "SetCompressionThreshold (lb_client s) CompressionThreshold"
  let ?requests = "replayed_requests e config (lb_info s)"
  obtain client buf conn k where r: "replayColdForgeLogin ?z (lb_client s) (le_at_replay e) (lb_buf s) (lb_in s) (lb_out s) =
      (Some sent, client, buf, conn, k)" and s1: "s1 = s\<lparr>lb_client := client, lb_buf := buf, lb_in := conn, lb_out := k\<rparr>"
    using assms(1,4) by (auto simp: lobby_replay_def split: prod.splits)
  obtain k1 where k1: "respondSetCompression ?z (lb_client s) CompressionThreshold (lb_out s) = (True, k1)"
      and k: "writePackets ?z ?client ?requests k1 = (True, k)" "client = ?client" "sent"
    using r assms(3,4) threshold_positive
    by (auto simp: replayColdForgeLogin_def ensureClientCompression_def replayForgeLoginPayload_def Let_def replayed_requests_def
        split: prod.splits bool.splits if_splits)
  have s2: "s2 = s1" using assms(2) k(3) by (simp add: lobby_compress_def)
  obtain a where a: "EncodeWithLen ?z set_compression_packet (lb_client s) = Ok a" "sk_written k1 = sk_written (lb_out s) @ [a]"
    using respondSetCompression_frame [OF k1] by blast
  obtain frames where f: "sk_written k = sk_written k1 @ frames" "list_all2 (\<lambda>p f. EncodeWithLen ?z p ?client = Ok f) ?requests frames"
    using writePackets_frames [OF k(1)] by blast
  have "sk_written (lb_out s2) = sk_written (lb_out s) @ older_payload e config (lb_info s) @ [a] @ frames"
    using a(2) f(1) assms(4) by (simp add: s2 s1 older_payload_def)
  moreover have "lb_client s2 = ?client" by (simp add: s2 s1 k(2))
  ultimately show ?thesis unfolding compression_announced_def using a(1) f(2) by metis
qed

lemma plain_compression:
  assumes "lobby_replay e config s = (Some sent, s1)" and "lobby_compress e sent s1 = (True, s2)"
    and "\<not> (sv_Forge (cfg_Server config) \<and> isForgeFML3 (lb_info s))"
  shows "compression_announced e config s s2"
proof -
  let ?payload = "if sv_Forge (cfg_Server config) then ForgePayload (le_at_replay e) else []"
  have s1: "lb_client s1 = lb_client s" "\<not> sent"
      "sk_written (lb_out s1) = sk_written (lb_out s) @ take (sk_budget (lb_out s)) ?payload"
      "sk_budget (lb_out s1) = sk_budget (lb_out s) - length ?payload"
    using assms(1,3)
    by (auto simp: lobby_replay_def replayLoginPayload_def Let_def replay_payload_writes replay_payload_budget
        split: if_splits prod.splits)
  then obtain k where k: "respondSetCompression (le_zlib e) (lb_client s1) CompressionThreshold (lb_out s1) = (True, k)"
      "s2 = s1\<lparr>lb_out := k, lb_client := SetCompressionThreshold (lb_client s1) CompressionThreshold\<rparr>"
    using assms(2) threshold_positive by (auto simp: lobby_compress_def split: prod.splits bool.splits)
  from respondSetCompression_budget [OF k(1)] s1(3,4) have "sk_written (lb_out s1) = sk_written (lb_out s) @ ?payload" by simp
  moreover have "?payload = older_payload e config (lb_info s)" using assms(3) by (simp add: older_payload_def)
  ultimately have payload: "sk_written (lb_out s1) = sk_written (lb_out s) @ older_payload e config (lb_info s)" by simp
  obtain a where a: "EncodeWithLen (le_zlib e) set_compression_packet (lb_client s) = Ok a"
      "sk_written k = sk_written (lb_out s1) @ [a]"
    using respondSetCompression_frame [OF k(1)] s1(1) by auto
  have "replayed_requests e config (lb_info s) = []" using assms(3) by (auto simp: replayed_requests_def)
  then show ?thesis unfolding compression_announced_def using a payload s1(1) k(2) by simp
qed

lemma lobby_login_compression:
  assumes "lobby_replay e config s = (Some sent, s1)" and "lobby_compress e sent s1 = (True, s2)"
    and "\<not> IsCompressed (lb_client s)"
  shows "compression_announced e config s s2"
  using modern_compression [OF assms] plain_compression [OF assms(1,2)] by blast

section \<open>Identifiers in text\<close>

lemma nibbles:
  "unat (drop_bit 4 b) < 16" "unat (b AND 0x0F) < 16" "16 * unat (drop_bit 4 b) + unat (b AND 0x0F) = unat b" for b :: byte
proof -
  have b: "unat b < 256" using unsigned_less [of b] by simp
  have hi: "unat (drop_bit 4 b) = unat b div 16" using unat_drop_bit_eq [of 4 b] drop_bit_eq_div [of 4 "unat b"] by simp
  have "b AND 0x0F = take_bit 4 b" by (simp add: take_bit_eq_mask mask_eq_exp_minus_1)
  then have lo: "unat (b AND 0x0F) = unat b mod 16" by (simp add: unat_mod_distrib take_bit_eq_mod)
  show "unat (drop_bit 4 b) < 16" "unat (b AND 0x0F) < 16" "16 * unat (drop_bit 4 b) + unat (b AND 0x0F) = unat b"
    using b by (simp_all only: hi lo) simp_all
qed

lemma hyphenate_decoded: "hex_DecodeString (ReplaceAll_char (CHR ''-'') (hyphenate i u)) = Some u"
proof (induction u arbitrary: i)
  case (Cons b u)
  have "(word_of_nat (16 * unat (drop_bit 4 b) + unat (b AND 0x0F)) :: byte) = b" by (simp only: nibbles(3)) simp
  then show ?case
    using Cons [of "i + 1"] nibbles [of b] hexDigits_digit
    by (auto simp: ReplaceAll_char_def fromHexChar_digit simp del: of_nat_add of_nat_mult)
qed (simp add: ReplaceAll_char_def)

lemma hyphenate_length: "length (ReplaceAll_char (CHR ''-'') (hyphenate i u)) = 2 * length u"
  using hex_DecodeString_length [OF hyphenate_decoded] by simp

lemma parseProfileUUID_hyphenated: "length u = 16 \<Longrightarrow> parseProfileUUID (hyphenatedUUID u) = Ok u"
  by (simp add: parseProfileUUID_def hyphenatedUUID_def hyphenate_decoded hyphenate_length)

section \<open>The hand-over\<close>

lemma ProxyInboundOutbound_sent:
  assumes "clean_stream (dx_in inbound)" and "clean_stream (dx_in outbound)"
    and "takes (length (dx_in inbound) + length (script_bytes (dx_in inbound)) + 1) (dx_out outbound)"
    and "takes (length (dx_in outbound) + length (script_bytes (dx_in outbound)) + 1) (dx_out inbound)"
  shows "\<exists>ik ok. ProxyInboundOutboundWithQueue inbound outbound inq outq = (True, ik, ok) \<and>
    sent_bytes ok = sent_bytes (dx_out outbound) @ outq @ script_bytes (dx_in inbound) \<and>
    sent_bytes ik = sent_bytes (dx_out inbound) @ inq @ script_bytes (dx_in outbound)"
proof -
  let ?n = "length (dx_in inbound) + length (script_bytes (dx_in inbound))"
  let ?m = "length (dx_in outbound) + length (script_bytes (dx_in outbound))"
  obtain k1 where k1: "write_queue inq (dx_out inbound) = (True, k1)" "sent_bytes k1 = sent_bytes (dx_out inbound) @ inq" "takes ?m k1"
    using write_queue_sent [of ?m "dx_out inbound" inq] assms(4) by auto
  obtain k2 where k2: "write_queue outq (dx_out outbound) = (True, k2)" "sent_bytes k2 = sent_bytes (dx_out outbound) @ outq" "takes ?n k2"
    using write_queue_sent [of ?n "dx_out outbound" outq] assms(3) by auto
  obtain k3 where "io_Copy (dx_in inbound) k2 = (True, k3)" "sent_bytes k3 = sent_bytes k2 @ script_bytes (dx_in inbound)"
    using io_Copy_sent [OF assms(1) k2(3)] by blast
  moreover obtain k4 where "io_Copy (dx_in outbound) k1 = (True, k4)" "sent_bytes k4 = sent_bytes k1 @ script_bytes (dx_in outbound)"
    using io_Copy_sent [OF assms(2) k1(3)] by blast
  ultimately show ?thesis using k1 k2 by (simp add: ProxyInboundOutboundWithQueue_def)
qed

text \<open>
  What the hand-over leaves alone: the client's stream from the switch on (the buffer of the lobby is not passed on) and the
  stream to the backend; to the client it only adds packets of the lobby.
\<close>

lemma SendTitle_packets: "\<exists>ps. length ps = 3 \<and> SendTitle z client info msg = writePackets z client ps"
proof -
  have "length (title_packetsV1_16_3 t u) = 3" "length (title_packetsV1_17 t u) = 3" "length (title_packetsV1_20_1 t u) = 3" for t u
    by (simp_all add: title_packetsV1_16_3_def title_packetsV1_17_def title_packetsV1_20_1_def)
  then show ?thesis unfolding SendTitle_def Let_def by (intro exI, intro conjI) (rule_tac [2] refl, simp)
qed

lemma handover_packets_append:
  "SendTitle z client info msg k = (ok, k') \<Longrightarrow> appends k k'"
  "playLobbyReadySound z client info config k = (ok, k') \<Longrightarrow> appends k k'"
  "sendLobbyRespawn z em client info data k = (r, k') \<Longrightarrow> appends k k'"
proof -
  show "SendTitle z client info msg k = (ok, k') \<Longrightarrow> appends k k'"
    using SendTitle_packets [of z client info msg] writePackets_appends by metis
  show "playLobbyReadySound z client info config k = (ok, k') \<Longrightarrow> appends k k'"
    by (auto simp: playLobbyReadySound_def SendPlayerPos_def SendSound_def Let_def dest!: writePacket_appends intro: appends_trans
        split: option.splits if_splits prod.splits bool.splits)
  show "sendLobbyRespawn z em client info data k = (r, k') \<Longrightarrow> appends k k'"
    by (auto simp: sendLobbyRespawn_def SendRespawn_def dest: writePacket_appends split: outcome.splits prod.splits bool.splits)
qed

lemma lobby_handover_proxied:
  assumes "lobby_handover e config d b buf conn s = LobbyProxied s' b' res"
  shows "b' = b \<and> lb_in s' = lb_in s \<and> appends (lb_out s) (lb_out s') \<and>
    res = lobbyRouteProxy \<lparr>dx_in = lb_in s, dx_out = lb_out s', dx_remote = le_remote e, dx_local = le_local e\<rparr>
            \<lparr>dx_in = conn, dx_out = bk_out b, dx_remote = OtherAddr, dx_local = OtherAddr\<rparr> buf"
proof -
  obtain k1 k2 k3 u where k: "SendTitle (le_zlib e) (lb_client s) (lb_info s) [] (lb_out s) = (True, k1)"
      "playLobbyReadySound (le_zlib e) (lb_client s) (lb_info s) config k1 = (True, k2)"
      "sendLobbyRespawn (le_zlib e) (le_embedded e) (lb_client s) (lb_info s) d k2 = (Ok u, k3)"
    using assms by (auto simp: lobby_handover_def split: prod.splits bool.splits outcome.splits)
  have "appends (lb_out s) k3"
    using handover_packets_append(1) [OF k(1)] handover_packets_append(2) [OF k(2)] handover_packets_append(3) [OF k(3)]
    by (metis appends_trans)
  then show ?thesis
    using assms by (auto simp: lobby_handover_def lobby_proxy_def drainStream_def conn_Read_expired_def k)
qed

end
