(* ===== verification/Polled.thy ===== *)
theory Polled
  imports Serve Monitor
begin

text \<open>
  A gateway polled by another one: the conversation of \<^verbatim>\<open>fetchStatus\<close> and \<^verbatim>\<open>doPing\<close> of \<^verbatim>\<open>monitor.go\<close> with the
  status server of \<^verbatim>\<open>status.go\<close>. What the poll writes is what \<^verbatim>\<open>Serve\<close> reads, in any pieces, and what \<^verbatim>\<open>Serve\<close> writes is
  what the poll reads, in any pieces.

  Shown here: a poll of a gateway finds the status the gateway shows, and a ping is answered; neither wakes
  the polled gateway's server.
\<close>

section \<open>What a poll writes\<close>

definition poll_handshake :: "Config \<Rightarrow> SocketAddr \<Rightarrow> RawPacket" where
  "poll_handshake config addr = sendHandshake_packet config (IP_String (sa_IP addr)) (word_of_int (sa_Port addr))"

definition request_frames :: "zlib \<Rightarrow> Config \<Rightarrow> SocketAddr \<Rightarrow> RawPacket \<Rightarrow> bytes" where
  "request_frames z config addr request =
     framed z DummyClient (poll_handshake config addr) @
     framed z DummyClient request"

lemma handshake_framed:
  assumes "length (sa_IP addr) \<le> 16"
  shows "carries z DummyClient (poll_handshake config addr) (framed z DummyClient (poll_handshake config addr))"
    and "DecodeHandshake (rp_Data (poll_handshake config addr)) =
      Ok \<lparr>hs_ProtocolVersion = pub_Protocol (cfg_Public config), hs_ServerAddr = IP_String (sa_IP addr),
        hs_ServerPort = word_of_int (sa_Port addr), hs_NextState = ToID ClientStateStatus\<rparr>"
    and "rp_ID (poll_handshake config addr) = PacketHandshake"
proof -
  let ?p = "poll_handshake config addr"
  note ip = IP_String_length [OF assms(1)]
  have v: "length (EncodeVarInt v) \<le> 5" for v by (rule length_EncodeVarInt(2))
  have "length (rp_Data ?p) \<le> 300"
    using ip v [of "pub_Protocol (cfg_Public config)"] v [of "ToID ClientStateStatus"]
      v [of "word_of_nat (length (IP_String (sa_IP addr)))"]
    by (simp add: poll_handshake_def sendHandshake_packet_def NewRawPacket_def Let_def StringBytes_def wire_simps wire_string_def)
  then show "carries z DummyClient ?p (framed z DummyClient ?p)" by (intro plain_framed) simp
  show "DecodeHandshake (rp_Data ?p) =
      Ok \<lparr>hs_ProtocolVersion = pub_Protocol (cfg_Public config), hs_ServerAddr = IP_String (sa_IP addr),
        hs_ServerPort = word_of_int (sa_Port addr), hs_NextState = ToID ClientStateStatus\<rparr>"
    unfolding poll_handshake_def by (rule DecodeHandshake_sendHandshake [OF ip])
  show "rp_ID ?p = PacketHandshake" by (simp add: poll_handshake_def sendHandshake_packet_def NewRawPacket_def Let_def)
qed

lemma poll_request_sends:
  assumes "\<not> sv_SendProxyV2 (cfg_Server config)" and "length (sa_IP addr) \<le> 16" and "takes (Suc n) c"
  shows "\<exists>c'. poll_request z config addr request c = request c' \<and> takes n c' \<and>
    sent_bytes c' = sent_bytes c @
      framed z DummyClient (poll_handshake config addr)"
proof -
  obtain c' where "writePacket z DummyClient (poll_handshake config addr) c = (True, c')" "takes n c'"
      "sent_bytes c' = sent_bytes c @ framed z DummyClient (poll_handshake config addr)"
    using writePacket_carries [OF handshake_framed(1) [OF assms(2)] assms(3)] by blast
  then show ?thesis using assms(1)
    by (auto simp: poll_request_def local_header_def sendHandshake_def poll_handshake_def)
qed

lemma status_request_sends:
  assumes "takes (Suc n) c"
  shows "\<exists>c'. status_request z c = (Some (), c') \<and>
    sent_bytes c' = sent_bytes c @ framed z DummyClient (NewRawPacket PacketServerStatusRequest [])"
  using writePacket_carries [OF plain_framed assms, of "NewRawPacket PacketServerStatusRequest []" z]
  by (auto simp: status_request_def requestStatus_def NewRawPacket_def)

lemma sendPing_sends:
  assumes "takes (Suc n) c"
  shows "\<exists>c'. sendPing z DummyClient token c = (Some token, c') \<and>
    sent_bytes c' = sent_bytes c @ framed z DummyClient (NewRawPacket PacketServerPing (be64 token))"
  using writePacket_carries [OF plain_framed assms, of "NewRawPacket PacketServerPing (be64 token)" z]
  by (auto simp: sendPing_def NewRawPacket_def Let_def wire_simps)

section \<open>What the gateway answers\<close>

text \<open>The client after the handshake, and what is known of it.\<close>

definition polled_info :: "Config \<Rightarrow> SocketAddr \<Rightarrow> ClientInfo" where
  "polled_info config addr = EmptyClientInfo
     \<lparr>ci_Protocol := Some (pub_Protocol (cfg_Public config)),
      ci_Handshake := Some \<lparr>hs_ProtocolVersion = pub_Protocol (cfg_Public config), hs_ServerAddr = IP_String (sa_IP addr),
        hs_ServerPort = word_of_int (sa_Port addr), hs_NextState = ToID ClientStateStatus\<rparr>\<rparr>"

lemma Serve_polled_handshake:
  assumes "length (sa_IP addr) \<le> 16" and "flows conn" and "script_bytes conn = request_frames (se_zlib e) config addr request"
  shows "\<exists>buf conn'. Serve e served (NewClient peer) conn k w =
      Serve_loop e served buf conn'
        \<lparr>sc_client = SetState (NewClient peer) ClientStateStatus, sc_info = polled_info config addr, sc_history = [],
         sc_sink = k, sc_world = w\<rparr> \<and>
    buf @ script_bytes conn' = framed (se_zlib e) DummyClient request \<and> flows conn' \<and> length buf \<le> MaxBufferedBytes"
proof -
  note h = handshake_framed [OF assms(1), where config = config]
  have "carries (se_zlib e) (NewClient peer) (poll_handshake config addr)
    (framed (se_zlib e) DummyClient (poll_handshake config addr))"
    using h(1) [of "se_zlib e"] carries_cong [of "NewClient peer" DummyClient] by simp
  from ReadPacket_flow [OF this assms(2), of "[]"] assms(3)
  obtain buf conn' where "ReadPacket (se_zlib e) (NewClient peer) [] conn =
      (Packet (poll_handshake config addr)
        (framed (se_zlib e) DummyClient (poll_handshake config addr)), buf, conn')"
      "buf @ script_bytes conn' = framed (se_zlib e) DummyClient request" "flows conn'" "length buf \<le> MaxBufferedBytes"
    by (auto simp: request_frames_def)
  moreover have "FromID (ToID ClientStateStatus) = Ok ClientStateStatus" by (simp add: FromID_def)
  ultimately show ?thesis using h(2,3)
    by (auto simp: Serve_def Serve_loop.simps [of e served "[]" conn] serve_packet_def serve_handshake_def polled_info_def Let_def)
qed

text \<open>A request of a client that is answered with the frame of one packet; then the client hangs up.\<close>

lemma Serve_polled:
  assumes "length (sa_IP addr) \<le> 16" and "flows conn" and "script_bytes conn = request_frames (se_zlib e) config addr request"
    and "length (rp_Data request) < 2 ^ 14 - 8"
    and answers: "\<And>buf c. cl_state (sc_client c) = ClientStateStatus \<Longrightarrow> Compressed (sc_client c) = Compressed DummyClient \<Longrightarrow>
      sc_info c = polled_info config addr \<Longrightarrow> sc_sink c = k \<Longrightarrow> sc_world c = w \<Longrightarrow>
      \<exists>c'. serve_packet e served request (framed (se_zlib e) DummyClient request) buf c = ServeContinue c' \<and>
        sent_bytes (sc_sink c') = sent_bytes k @ answer \<and> sc_world c' = w"
  shows "\<exists>c. Serve e served (NewClient peer) conn k w = (ServeBreak c, []) \<and> sc_world c = w \<and>
    sent_bytes (sc_sink c) = sent_bytes k @ answer"
proof -
  let ?client = "SetState (NewClient peer) ClientStateStatus"
  let ?c = "\<lparr>sc_client = ?client, sc_info = polled_info config addr, sc_history = [], sc_sink = k, sc_world = w\<rparr>"
  obtain buf conn1 where s: "Serve e served (NewClient peer) conn k w = Serve_loop e served buf conn1 ?c"
      "buf @ script_bytes conn1 = framed (se_zlib e) DummyClient request" "flows conn1" "length buf \<le> MaxBufferedBytes"
    using Serve_polled_handshake [OF assms(1-3)] by blast
  have "carries (se_zlib e) ?client request (framed (se_zlib e) DummyClient request)"
    using plain_framed [OF assms(4)] carries_cong [of ?client DummyClient] by simp
  from ReadPacket_flow [OF this s(3), of buf "[]"] s(2,4)
  obtain buf2 conn2 where r: "ReadPacket (se_zlib e) ?client buf conn1 =
      (Packet request (framed (se_zlib e) DummyClient request), buf2, conn2)" "buf2 @ script_bytes conn2 = []" "flows conn2"
    by auto
  obtain c' where c': "serve_packet e served request (framed (se_zlib e) DummyClient request) buf2 ?c = ServeContinue c'"
      "sent_bytes (sc_sink c') = sent_bytes k @ answer" "sc_world c' = w"
    using answers [of ?c buf2] by auto
  have "Serve_loop e served buf2 conn2 c' = (ServeBreak c', [])"
    using ReadPacket_end [OF r(2,3)] by (simp add: Serve_loop.simps [of e served buf2])
  then have "Serve_loop e served buf conn1 ?c = (ServeBreak c', [])"
    using r(1) c'(1) by (simp add: Serve_loop.simps [of e served buf])
  with s(1) c' show ?thesis by simp
qed

definition status_packet :: "serve_env \<Rightarrow> Config \<Rightarrow> ClientInfo \<Rightarrow> world \<Rightarrow> RawPacket" where
  "status_packet e served info w =
     NewRawPacket PacketClientStatusResponse
       (StringBytes (StatusResponseJSON (se_json_valid e) (serverStatusResponse (se_favicon e) info served (w_srv w))))"

lemma StringBytes_fits: "length s < 2 ^ 14 - 13 \<Longrightarrow> length (StringBytes s) < 2 ^ 14 - 8"
  using length_EncodeVarInt(2) [of "word_of_nat (length s)"] by (simp add: StringBytes_def)

lemma rp_ID_New: "rp_ID (NewRawPacket n data) = n" by (simp add: NewRawPacket_def)

lemma status_answered:
  assumes "takes (Suc n) k"
    and "length (StatusResponseJSON (se_json_valid e) (serverStatusResponse (se_favicon e) info served (w_srv w))) < 2 ^ 14 - 13"
    and "cl_state (sc_client c) = ClientStateStatus" and "Compressed (sc_client c) = Compressed DummyClient"
    and "sc_info c = info" and "sc_sink c = k" and "sc_world c = w"
  shows "\<exists>c'. serve_packet e served (NewRawPacket PacketServerStatusRequest []) raw buf c = ServeContinue c' \<and>
    sent_bytes (sc_sink c') = sent_bytes k @ framed (se_zlib e) DummyClient (status_packet e served info w) \<and> sc_world c' = w"
proof -
  let ?p = "status_packet e served info w"
  have "carries (se_zlib e) (sc_client c) ?p (framed (se_zlib e) DummyClient ?p)"
    using plain_framed [of ?p "se_zlib e"] StringBytes_fits [OF assms(2)] carries_cong [OF assms(4)]
    by (simp add: status_packet_def NewRawPacket_def)
  from writePacket_carries [OF this assms(1)]
  obtain k' where "writePacket (se_zlib e) (sc_client c) ?p k = (True, k')"
      "sent_bytes k' = sent_bytes k @ framed (se_zlib e) DummyClient ?p" by blast
  then show ?thesis using assms(3,5-7)
    by (simp add: serve_packet_def serve_status_def status_packet_def Let_def rp_ID_New)
qed

lemma ping_answered:
  assumes "takes (Suc n) k"
    and "cl_state (sc_client c) = ClientStateStatus" and "sc_sink c = k" and "sc_world c = w"
  shows "\<exists>c'. serve_packet e served (NewRawPacket PacketServerPing data) raw buf c = ServeContinue c' \<and>
    sent_bytes (sc_sink c') = sent_bytes k @ raw \<and> sc_world c' = w"
  using assms conn_Write_sent [OF assms(1), of raw]
  by (auto simp: serve_packet_def serve_ping_def Let_def rp_ID_New PacketServerPing_def PacketServerStatusRequest_def)

section \<open>What the poll makes of the answer\<close>

lemma waitForStatus_answered:
  assumes "length json < 2 ^ 14 - 13" and "flows reply"
    and "script_bytes reply = framed z DummyClient (NewRawPacket PacketClientStatusResponse (StringBytes json))"
  shows "waitForStatus (Suc (Suc fuel)) z parse DummyClient [] reply = Some (parse json)"
proof -
  let ?p = "NewRawPacket PacketClientStatusResponse (StringBytes json)"
  have "carries z DummyClient ?p (framed z DummyClient ?p)"
    using plain_framed [of ?p z] StringBytes_fits [OF assms(1)] by (simp add: NewRawPacket_def)
  from ReadPacket_flow [OF this assms(2), of "[]" "[]"] assms(3)
  obtain buf conn where r: "ReadPacket z DummyClient [] reply = (Packet ?p (framed z DummyClient ?p), buf, conn)"
      "buf @ script_bytes conn = []" "flows conn" by auto
  have "decodeStatusResponse parse (rp_Data ?p) = parse json"
    using decodeStatusResponse_StringBytes [of json parse "[]"] assms(1) by (simp add: NewRawPacket_def)
  then show ?thesis using r(1) ReadPacket_end [OF r(2,3), of z DummyClient]
    by (simp add: NewRawPacket_def split: option.split)
qed

lemma waitForPing_answered:
  assumes "flows reply" and "script_bytes reply = framed z DummyClient (NewRawPacket PacketServerPing (be64 token))"
  shows "waitForPing (Suc fuel) z DummyClient token [] reply = Some True"
proof -
  let ?p = "NewRawPacket PacketServerPing (be64 token)"
  have "carries z DummyClient ?p (framed z DummyClient ?p)" using plain_framed [of ?p z] by (simp add: NewRawPacket_def)
  from ReadPacket_flow [OF this assms(1), of "[]" "[]"] assms(2)
  obtain buf conn where "ReadPacket z DummyClient [] reply = (Packet ?p (framed z DummyClient ?p), buf, conn)" by auto
  then show ?thesis by (simp add: NewRawPacket_def PacketServerPing_def PacketClientPing_def)
qed

section \<open>The conversations\<close>

lemma gateway_status_conversation:
  assumes "\<not> sv_SendProxyV2 (cfg_Server config)" and "length (sa_IP addr) \<le> 16"
    and "takes 2 c" and "sent_bytes c = []" and "takes 1 k" and "sent_bytes k = []"
    and "flows conn" and "script_bytes conn = sent_bytes (snd (poll_request z config addr (status_request z) c))"
    and "se_zlib e = z"
    and json: "json = StatusResponseJSON (se_json_valid e)
      (serverStatusResponse (se_favicon e) (polled_info config addr) served (w_srv w))"
    and "length json < 2 ^ 14 - 13"
  shows "\<exists>s. Serve e served (NewClient peer) conn k w = (ServeBreak s, []) \<and> sc_world s = w \<and>
    (\<forall>reply. flows reply \<longrightarrow> script_bytes reply = sent_bytes (sc_sink s) \<longrightarrow>
       fetchStatus z parse (Suc (Suc fuel)) config addr (Some (reply, c)) = parse json)"
proof -
  obtain c1 where c1: "poll_request z config addr (status_request z) c = status_request z c1" "takes 1 c1"
      "sent_bytes c1 = framed z DummyClient (poll_handshake config addr)"
    using poll_request_sends [OF assms(1,2), of 1 c z "status_request z"] assms(3,4) by (auto simp: numeral_2_eq_2)
  obtain c2 where c2: "status_request z c1 = (Some (), c2)"
      "sent_bytes c2 = sent_bytes c1 @ framed z DummyClient (NewRawPacket PacketServerStatusRequest [])"
    using status_request_sends [of 0 c1 z] c1(2) by auto
  have "\<exists>s. Serve e served (NewClient peer) conn k w = (ServeBreak s, []) \<and> sc_world s = w \<and>
      sent_bytes (sc_sink s) = sent_bytes k @ framed (se_zlib e) DummyClient (status_packet e served (polled_info config addr) w)"
  proof (rule Serve_polled [OF assms(2,7)])
    show "script_bytes conn = request_frames (se_zlib e) config addr (NewRawPacket PacketServerStatusRequest [])"
      using assms(8,9) c1 c2 by (simp add: request_frames_def)
  next
    fix buf and c' :: serve_state assume *: "cl_state (sc_client c') = ClientStateStatus" "Compressed (sc_client c') = Compressed DummyClient"
      "sc_info c' = polled_info config addr" "sc_sink c' = k" "sc_world c' = w"
    show "\<exists>d. serve_packet e served (NewRawPacket PacketServerStatusRequest [])
        (framed (se_zlib e) DummyClient (NewRawPacket PacketServerStatusRequest [])) buf c' = ServeContinue d \<and>
      sent_bytes (sc_sink d) = sent_bytes k @ framed (se_zlib e) DummyClient (status_packet e served (polled_info config addr) w) \<and>
      sc_world d = w"
      using assms(5,11) json by (intro status_answered [OF _ _ *, of 0]) simp_all
  qed (simp add: NewRawPacket_def)
  moreover have "fetchStatus z parse (Suc (Suc fuel)) config addr (Some (reply, c)) = parse json"
    if "flows reply" "script_bytes reply = framed (se_zlib e) DummyClient (status_packet e served (polled_info config addr) w)" for reply
    using waitForStatus_answered [OF assms(11) that(1), of z fuel parse] that(2) assms(9) c1(1) c2(1) json
    by (simp add: fetchStatus_def waitForStatusTimeout_def status_packet_def)
  ultimately show ?thesis using assms(6) by auto
qed

lemma gateway_ping_conversation:
  assumes "\<not> sv_SendProxyV2 (cfg_Server config)" and "length (sa_IP addr) \<le> 16"
    and "takes 2 c" and "sent_bytes c = []" and "takes 1 k" and "sent_bytes k = []"
    and "flows conn" and "script_bytes conn = sent_bytes (snd (poll_request z config addr (sendPing z DummyClient token) c))"
    and "se_zlib e = z"
  shows "\<exists>s. Serve e served (NewClient peer) conn k w = (ServeBreak s, []) \<and> sc_world s = w \<and>
    (\<forall>reply. flows reply \<longrightarrow> script_bytes reply = sent_bytes (sc_sink s) \<longrightarrow>
       doPing z token (Suc fuel) config addr (Some (reply, c)))"
proof -
  let ?ping = "NewRawPacket PacketServerPing (be64 token)"
  obtain c1 where c1: "poll_request z config addr (sendPing z DummyClient token) c = sendPing z DummyClient token c1" "takes 1 c1"
      "sent_bytes c1 = framed z DummyClient (poll_handshake config addr)"
    using poll_request_sends [OF assms(1,2), of 1 c z "sendPing z DummyClient token"] assms(3,4) by (auto simp: numeral_2_eq_2)
  obtain c2 where c2: "sendPing z DummyClient token c1 = (Some token, c2)"
      "sent_bytes c2 = sent_bytes c1 @ framed z DummyClient ?ping"
    using sendPing_sends [of 0 c1 z token] c1(2) by auto
  have "\<exists>s. Serve e served (NewClient peer) conn k w = (ServeBreak s, []) \<and> sc_world s = w \<and>
      sent_bytes (sc_sink s) = sent_bytes k @ framed (se_zlib e) DummyClient ?ping"
  proof (rule Serve_polled [OF assms(2,7)])
    show "script_bytes conn = request_frames (se_zlib e) config addr ?ping"
      using assms(8,9) c1 c2 by (simp add: request_frames_def)
  next
    fix buf and c' :: serve_state assume *: "cl_state (sc_client c') = ClientStateStatus" "sc_sink c' = k" "sc_world c' = w"
    show "\<exists>d. serve_packet e served ?ping (framed (se_zlib e) DummyClient ?ping) buf c' = ServeContinue d \<and>
      sent_bytes (sc_sink d) = sent_bytes k @ framed (se_zlib e) DummyClient ?ping \<and> sc_world d = w"
      using assms(5) by (intro ping_answered [OF _ *, of 0]) simp
  qed (simp add: NewRawPacket_def)
  moreover have "doPing z token (Suc fuel) config addr (Some (reply, c))"
    if "flows reply" "script_bytes reply = framed (se_zlib e) DummyClient ?ping" for reply
    using waitForPing_answered [OF that(1), of z token fuel] that(2) assms(9) c1(1) c2(1)
    by (simp add: doPing_def waitForPingTimeout_def)
  ultimately show ?thesis using assms(6) by auto
qed

end
