(* ===== verification/Go_Files.thy ===== *)
theory Go_Files
  imports Go_Strings
begin

text \<open>
  Paths and files: what the program uses of Go's \<^verbatim>\<open>path/filepath\<close> on Unix (\<^verbatim>\<open>IsAbs\<close>, \<^verbatim>\<open>Clean\<close>, \<^verbatim>\<open>Join\<close>, \<^verbatim>\<open>Dir\<close>)
  and of \<^verbatim>\<open>os\<close>. A file system is a map from paths to nodes. Whether an operation succeeds is decided
  outside and given as an argument; a failing \<^verbatim>\<open>os.WriteFile\<close> may leave a part of the data.
\<close>

section \<open>Paths\<close>

definition IsAbs :: "string \<Rightarrow> bool" where
  "IsAbs path = HasPrefix path ''/''"

text \<open>The elements of a path: empty ones and dots vanish, two dots take the element before them away.\<close>

fun clean_elements :: "bool \<Rightarrow> string list \<Rightarrow> string list \<Rightarrow> string list" where
  "clean_elements rooted out [] = rev out"
| "clean_elements rooted out (e # es) =
     (if e = [] \<or> e = ''.'' then clean_elements rooted out es
      else if e = ''..'' then
        (if out \<noteq> [] \<and> hd out \<noteq> ''..'' then clean_elements rooted (tl out) es
         else if rooted then clean_elements rooted out es
         else clean_elements rooted (e # out) es)
      else clean_elements rooted (e # out) es)"

definition Clean :: "string \<Rightarrow> string" where
  "Clean path =
     (let rooted = IsAbs path;
          es = clean_elements rooted [] (split_on (CHR ''/'') path)
      in if rooted then ''/'' @ join_with ''/'' es else if es = [] then ''.'' else join_with ''/'' es)"

definition Join_path :: "string list \<Rightarrow> string" where
  "Join_path es = (case dropWhile (\<lambda>e. e = []) es of [] \<Rightarrow> [] | es \<Rightarrow> Clean (join_with ''/'' es))"

definition Dir :: "string \<Rightarrow> string" where
  "Dir path = Clean (rev (dropWhile (\<lambda>c. c \<noteq> CHR ''/'') (rev path)))"

section \<open>Files\<close>

datatype node = Directory | Regular string | Special

type_synonym files = "string \<Rightarrow> node option"

definition isFile :: "files \<Rightarrow> string \<Rightarrow> bool" where
  "isFile fs path = (case fs path of Some (Regular _) \<Rightarrow> True | _ \<Rightarrow> False)"

definition isDir :: "files \<Rightarrow> string \<Rightarrow> bool" where
  "isDir fs path = (fs path = Some Directory)"

text \<open>\<^verbatim>\<open>os.ReadFile\<close>, where \<open>readable\<close> says that no error occurs.\<close>

definition ReadFile :: "bool \<Rightarrow> files \<Rightarrow> string \<Rightarrow> string option" where
  "ReadFile readable fs path = (case fs path of Some (Regular data) \<Rightarrow> if readable then Some data else None | _ \<Rightarrow> None)"

datatype write_result = WriteOk | WriteRefused | WriteShort nat

definition WriteFile :: "write_result \<Rightarrow> string \<Rightarrow> string \<Rightarrow> files \<Rightarrow> bool \<times> files" where
  "WriteFile r path data fs =
     (case r of
        WriteOk \<Rightarrow> (True, fs(path \<mapsto> Regular data))
      | WriteRefused \<Rightarrow> (False, fs)
      | WriteShort n \<Rightarrow> (False, fs(path \<mapsto> Regular (take n data))))"

text \<open>\<^verbatim>\<open>os.Rename\<close> of an existing file, when it succeeds.\<close>

definition rename_file :: "string \<Rightarrow> string \<Rightarrow> files \<Rightarrow> files" where
  "rename_file old new fs = (fs(new := fs old))(old := None)"

section \<open>Cleaned paths\<close>

text \<open>The elements of a cleaned path: no empty element and no dot; two dots only in front of a relative one.\<close>

definition clean_path :: "bool \<Rightarrow> string list \<Rightarrow> bool" where
  "clean_path rooted es \<longleftrightarrow>
     (\<forall>e \<in> set es. e \<noteq> [] \<and> e \<noteq> ''.'' \<and> CHR ''/'' \<notin> set e) \<and>
     (\<exists>ups rest. es = replicate ups ''..'' @ rest \<and> ''..'' \<notin> set rest \<and> (rooted \<longrightarrow> ups = 0))"

lemma clean_elements_clean:
  assumes "clean_path rooted (rev out)" and "\<forall>e \<in> set es. CHR ''/'' \<notin> set e"
  shows "clean_path rooted (clean_elements rooted out es)"
  using assms
proof (induction rooted out es rule: clean_elements.induct)
  case (2 rooted out e es)
  obtain ups rest where out: "rev out = replicate ups ''..'' @ rest" "''..'' \<notin> set rest" "rooted \<longrightarrow> ups = 0"
    using "2.prems"(1) by (auto simp: clean_path_def)
  have names: "\<forall>e \<in> set out. e \<noteq> [] \<and> e \<noteq> ''.'' \<and> CHR ''/'' \<notin> set e" using "2.prems"(1) by (simp add: clean_path_def)
  show ?case
  proof (cases "e = ''..''")
    case True
    show ?thesis
    proof (cases "out \<noteq> [] \<and> hd out \<noteq> ''..''")
      case pop: True
      then obtain o1 os where o: "out = o1 # os" "o1 \<noteq> ''..''" by (cases out) auto
      have "rest \<noteq> []"
      proof
        assume "rest = []"
        then have "set (rev out) \<subseteq> {''..''}" by (simp add: out(1) set_replicate_conv_if)
        then show False using o by simp
      qed
      then obtain r where r: "rest = r @ [o1]" using out(1) o(1) by (cases rest rule: rev_cases) auto
      have "rev os = replicate ups ''..'' @ r" using out(1) unfolding o(1) r by simp
      moreover have "''..'' \<notin> set r" "\<forall>e \<in> set (rev os). e \<noteq> [] \<and> e \<noteq> ''.'' \<and> CHR ''/'' \<notin> set e"
        using out(2) names unfolding r o(1) by simp_all
      ultimately have "clean_path rooted (rev os)" unfolding clean_path_def using out(3) by blast
      then show ?thesis using "2.IH"(2) True pop o "2.prems"(2) by simp
    next
      case False
      show ?thesis
      proof (cases rooted)
        case root: True
        then show ?thesis using "2.IH"(3) True False "2.prems" by auto
      next
        case rel: False
        have "rest = []"
        proof (rule ccontr)
          assume "rest \<noteq> []"
          then obtain r x where "rest = r @ [x]" by (cases rest rule: rev_cases) auto
          then have "out = x # rev r @ replicate ups ''..''" using arg_cong [OF out(1), of rev] by simp
          then show False using False out(2) \<open>rest = r @ [x]\<close> by auto
        qed
        then have "rev out @ [''..''] = replicate (Suc ups) ''..''" using out(1) by (simp add: replicate_append_same)
        moreover have "\<forall>e \<in> set (rev (e # out)). e \<noteq> [] \<and> e \<noteq> ''.'' \<and> CHR ''/'' \<notin> set e"
          using names True by simp
        ultimately have "clean_path rooted (rev (e # out))" unfolding clean_path_def using True rel
          by (metis append_Nil2 empty_iff empty_set rev.simps(2))
        then show ?thesis using "2.IH"(4) True False rel "2.prems"(2) by auto
      qed
    qed
  next
    case False
    show ?thesis
    proof (cases "e = [] \<or> e = ''.''")
      case True
      then show ?thesis using "2.IH"(1) "2.prems" by auto
    next
      case name: False
      then have "\<forall>e \<in> set (rev (e # out)). e \<noteq> [] \<and> e \<noteq> ''.'' \<and> CHR ''/'' \<notin> set e"
        using names "2.prems"(2) by simp
      moreover have "rev (e # out) = replicate ups ''..'' @ rest @ [e]" "''..'' \<notin> set (rest @ [e])" using out(1,2) False by simp_all
      ultimately have "clean_path rooted (rev (e # out))" unfolding clean_path_def using out(3) by blast
      then show ?thesis using "2.IH"(5) False name "2.prems"(2) by auto
    qed
  qed
qed simp

lemma clean_elements_done:
  assumes "clean_path rooted (rev out @ es)"
  shows "clean_elements rooted out es = rev out @ es"
  using assms
proof (induction es arbitrary: out)
  case (Cons e es)
  have e: "e \<noteq> []" "e \<noteq> ''.''" using Cons.prems by (auto simp: clean_path_def)
  have rec: "clean_elements rooted (e # out) es = rev (e # out) @ es" using Cons.IH [of "e # out"] Cons.prems by simp
  show ?case
  proof (cases "e = ''..''")
    case True
    obtain ups rest where d: "rev out @ e # es = replicate ups ''..'' @ rest" "''..'' \<notin> set rest" "rooted \<longrightarrow> ups = 0"
      using Cons.prems by (auto simp: clean_path_def)
    have "length out < ups"
    proof (rule ccontr)
      assume "\<not> length out < ups"
      then have "drop ups (rev out @ e # es) = drop ups (rev out) @ e # es" by simp
      then have "e \<in> set rest" using d(1) by simp
      then show False using d(2) True by simp
    qed
    then have "\<forall>x \<in> set out. x = ''..''"
    proof -
      assume "length out < ups"
      then have "take (length out) (rev out @ e # es) = replicate (length out) ''..''" by (simp add: d(1) min_def)
      then have "rev out = replicate (length out) ''..''" by simp
      then show ?thesis by (metis in_set_replicate set_rev)
    qed
    moreover have "\<not> rooted" using d(3) \<open>length out < ups\<close> by auto
    ultimately have "clean_elements rooted out (e # es) = clean_elements rooted (e # out) es"
      using True by (cases out) auto
    then show ?thesis using rec by simp
  qed (use e rec in simp)
qed simp

lemma split_on_path:
  assumes "clean_path rooted es"
  shows "clean_elements rooted [] (split_on (CHR ''/'') (join_with ''/'' es)) = es"
proof (cases "es = []")
  case False
  then have "split_on (CHR ''/'') (join_with ''/'' es) = es"
    using assms by (intro split_join) (auto simp: clean_path_def)
  then show ?thesis using clean_elements_done [of rooted "[]" es] assms by simp
qed simp

lemma Clean_elements_clean:
  "clean_path (IsAbs path) (clean_elements (IsAbs path) [] (split_on (CHR ''/'') path))"
proof (rule clean_elements_clean)
  show "clean_path (IsAbs path) (rev [])" by (simp add: clean_path_def)
  show "\<forall>e \<in> set (split_on (CHR ''/'') path). CHR ''/'' \<notin> set e" using split_on_no_sep by blast
qed

lemma IsAbs_Clean [simp]: "IsAbs (Clean path) = IsAbs path"
proof (cases "IsAbs path")
  case True
  then show ?thesis by (simp add: Clean_def Let_def) (simp add: IsAbs_def HasPrefix_def)
next
  case False
  let ?es = "clean_elements (IsAbs path) [] (split_on (CHR ''/'') path)"
  have "\<not> IsAbs (join_with ''/'' ?es)" if ne: "?es \<noteq> []"
  proof -
    obtain e es where e: "?es = e # es" using ne by (cases ?es) auto
    have "e \<noteq> []" "CHR ''/'' \<notin> set e" using Clean_elements_clean [of path] e by (auto simp: clean_path_def)
    then obtain c e' where c: "e = c # e'" "c \<noteq> CHR ''/''" by (cases e) auto
    have "\<exists>rest. join_with ''/'' (e # es) = e @ rest" by (cases es) auto
    then show ?thesis using e c by (auto simp: IsAbs_def HasPrefix_def)
  qed
  then show ?thesis using False by (simp add: Clean_def Let_def) (simp add: IsAbs_def HasPrefix_def)
qed

lemma Clean_idem: "Clean (Clean path) = Clean path"
proof -
  let ?es = "clean_elements (IsAbs path) [] (split_on (CHR ''/'') path)"
  note clean = split_on_path [OF Clean_elements_clean [of path]]
  show ?thesis
  proof (cases "IsAbs path")
    case True
    then have c: "Clean path = CHR ''/'' # join_with ''/'' ?es" by (simp add: Clean_def Let_def)
    have "IsAbs (CHR ''/'' # join_with ''/'' ?es)" by (simp add: IsAbs_def HasPrefix_def)
    then show ?thesis using True clean by (subst (1) Clean_def) (simp add: c Let_def)
  next
    case False
    then have c: "Clean path = (if ?es = [] then ''.'' else join_with ''/'' ?es)" by (simp add: Clean_def Let_def)
    show ?thesis
    proof (cases "?es = []")
      case True
      then show ?thesis using c by (simp add: Clean_def IsAbs_def HasPrefix_def)
    next
      case ne: False
      then have "\<not> IsAbs (join_with ''/'' ?es)" using IsAbs_Clean [of path] False c by simp
      then show ?thesis using False clean ne by (subst (1) Clean_def) (simp add: c Let_def)
    qed
  qed
qed

end
