(* ===== verification/Test_Server.thy ===== *)
theory Test_Server
  imports Backend_Login Packet_Flow Go_Files Go_Strings
begin

text \<open>
  \<^verbatim>\<open>internal/testserver/testserver.go\<close>: the mock Minecraft server that the end-to-end tests run as a backend. It reads
  through a \<^verbatim>\<open>bufio.Reader\<close>, so that it can look for a PROXY header; the reader is a record here, with the bytes it holds,
  the error it has kept and the connection. After the header every read asks for more bytes than the reader holds and
  so is one read of \<open>as_script\<close>.

  The environment of a connection is a record: the codec, the text of the peer's address, and in which rounds of the
  last loop two seconds have passed since the last keep-alive. Connections are handled one after the other; the state
  file is written with the text that \<open>marshal\<close> gives for the state.

  Shown here: the header is taken off the stream whatever its pieces, and nothing else; the lobby's login at a mock
  server succeeds and finds its join-game data.
\<close>

section \<open>A buffered reader\<close>

record bufio =
  br_buf :: bytes
  br_err :: "io_error option"
  br_conn :: script

definition bufio_size :: nat where "bufio_size = 4096"

definition NewReader_bufio :: "script \<Rightarrow> bufio" where
  "NewReader_bufio conn = \<lparr>br_buf = [], br_err = None, br_conn = conn\<rparr>"

fun fill_tries :: "nat \<Rightarrow> bufio \<Rightarrow> bufio" where
  "fill_tries 0 b = b\<lparr>br_err := Some ErrNoProgress\<rparr>"
| "fill_tries (Suc tries) b =
     (case conn_Read (bufio_size - length (br_buf b)) (br_conn b) of
        ((bs, e), conn) \<Rightarrow>
          let b = b\<lparr>br_buf := br_buf b @ bs, br_conn := conn\<rparr>
          in if e \<noteq> None then b\<lparr>br_err := e\<rparr>
             else if bs \<noteq> [] then b
             else fill_tries tries b)"

definition bufio_fill :: "bufio \<Rightarrow> bufio" where
  "bufio_fill b = fill_tries 100 b"

lemma fill_tries_grows:
  "br_err (fill_tries n b) = None \<Longrightarrow> length (br_buf b) < length (br_buf (fill_tries n b))"
  by (induction n b rule: fill_tries.induct) (auto simp: Let_def split: prod.splits if_splits)

function peek_fill :: "nat \<Rightarrow> bufio \<Rightarrow> bufio" where
  "peek_fill n b =
     (if length (br_buf b) < n \<and> length (br_buf b) < bufio_size \<and> br_err b = None
      then peek_fill n (bufio_fill b) else b)"
  by pat_completeness auto
termination
proof (relation "measures [\<lambda>(n, b). if br_err b = None then 1 else 0, \<lambda>(n, b). n - length (br_buf b)]")
  fix n and b :: bufio assume "length (br_buf b) < n \<and> length (br_buf b) < bufio_size \<and> br_err b = None"
  then show "((n, bufio_fill b), (n, b)) \<in>
      measures [\<lambda>(n, b). if br_err b = None then 1 else 0, \<lambda>(n, b). n - length (br_buf b)]"
    using fill_tries_grows [of 100 b] by (auto simp: bufio_fill_def)
qed simp

declare peek_fill.simps [simp del]

text \<open>An error that \<^verbatim>\<open>Peek\<close> returns is no longer kept.\<close>

definition Peek :: "nat \<Rightarrow> bufio \<Rightarrow> bytes option \<times> bufio" where
  "Peek n b =
     (let b = peek_fill n b
      in if length (br_buf b) < n then (None, b\<lparr>br_err := None\<rparr>) else (Some (take n (br_buf b)), b))"

definition bufio_Read :: "nat \<Rightarrow> bufio \<Rightarrow> (bytes \<times> io_error option) \<times> bufio" where
  "bufio_Read k b =
     (if br_buf b \<noteq> [] then ((take k (br_buf b), None), b\<lparr>br_buf := drop k (br_buf b)\<rparr>)
      else if br_err b \<noteq> None then (([], br_err b), b\<lparr>br_err := None\<rparr>)
      else if bufio_size \<le> k then
        (case conn_Read k (br_conn b) of (r, conn) \<Rightarrow> (r, b\<lparr>br_conn := conn\<rparr>))
      else
        (case conn_Read bufio_size (br_conn b) of
           ((bs, e), conn) \<Rightarrow>
             if bs = [] then (([], e), b\<lparr>br_conn := conn\<rparr>)
             else ((take k bs, None), b\<lparr>br_buf := drop k bs, br_err := e, br_conn := conn\<rparr>)))"

text \<open>\<^verbatim>\<open>io.ReadFull\<close>; \<open>None\<close> is an error.\<close>

function ReadFull :: "nat \<Rightarrow> bufio \<Rightarrow> bytes option \<times> bufio" where
  "ReadFull k b =
     (if k = 0 then (Some [], b)
      else case bufio_Read k b of
        ((bs, e), b) \<Rightarrow>
          if k \<le> length bs then (Some bs, b)
          else if e \<noteq> None then (None, b)
          else (case ReadFull (k - length bs) b of (r, b) \<Rightarrow> (map_option ((@) bs) r, b)))"
  by pat_completeness auto
termination
proof (relation "measures [\<lambda>(k, b). k, \<lambda>(k, b). length (br_conn b)]")
  fix k r bs e and b b' :: bufio
  assume "k \<noteq> 0" "(r, b') = bufio_Read k b" "(bs, e) = r" "\<not> k \<le> length bs" "\<not> e \<noteq> None"
  moreover from this have "bs = [] \<longrightarrow> length (br_conn b') < length (br_conn b)"
    by (cases "(k, br_conn b)" rule: conn_Read.cases)
      (auto simp: bufio_Read_def bufio_size_def split: if_splits prod.splits)
  ultimately show "((k - length bs, b'), (k, b)) \<in> measures [\<lambda>(k, b). k, \<lambda>(k, b). length (br_conn b)]"
    by (cases bs) auto
qed simp

declare ReadFull.simps [simp del]

definition as_script :: "bufio \<Rightarrow> script" where
  "as_script b =
     (if br_buf b \<noteq> [] then [(br_buf b, None)] else []) @
     (case br_err b of Some e \<Rightarrow> [([], Some e)] | None \<Rightarrow> []) @ br_conn b"

lemma bufio_Read_as_script:
  assumes "bufio_size \<le> k" and "length (br_buf b) \<le> bufio_size" and "bufio_Read k b = (r, b')"
  shows "conn_Read k (as_script b) = (r, as_script b')" and "length (br_buf b') \<le> bufio_size"
  using assms by (auto simp: bufio_Read_def as_script_def split: if_splits prod.splits option.splits)

section \<open>The header\<close>

definition peekProxyHeader :: "bufio \<Rightarrow> bytes option \<times> bufio" where
  "peekProxyHeader b =
     (case Peek 12 b of
        (None, b) \<Rightarrow> (None, b)
      | (Some sig, b) \<Rightarrow>
          if sig \<noteq> signature then (None, b)
          else (case Peek 16 b of
             (None, b) \<Rightarrow> (None, b)
           | (Some full, b) \<Rightarrow> ReadFull (16 + (256 * unat (full ! 14) + unat (full ! 15))) b))"

section \<open>What the server observes\<close>

record Login =
  lg_Username :: string
  lg_Protocol :: i32
  lg_Addr :: string
  lg_Packets :: nat

record mock_state =
  ms_Statuses :: nat
  ms_Logins :: "Login list"
  ms_Shutdown :: bool

definition NewState :: mock_state where
  "NewState = \<lparr>ms_Statuses = 0, ms_Logins = [], ms_Shutdown = False\<rparr>"

definition addStatus :: "mock_state \<Rightarrow> mock_state" where
  "addStatus s = s\<lparr>ms_Statuses := ms_Statuses s + 1\<rparr>"

definition addLogin :: "Login \<Rightarrow> mock_state \<Rightarrow> mock_state" where
  "addLogin l s = s\<lparr>ms_Logins := ms_Logins s @ [l]\<rparr>"

definition setShutdown :: "mock_state \<Rightarrow> mock_state" where
  "setShutdown s = s\<lparr>ms_Shutdown := True\<rparr>"

text \<open>The entry that counts the packets of a login: always the last one of the list.\<close>

definition count_packet :: "Login \<Rightarrow> mock_state \<Rightarrow> mock_state" where
  "count_packet login s =
     (if 0 < length (ms_Logins s) then s\<lparr>ms_Logins := (ms_Logins s)[length (ms_Logins s) - 1 := login]\<rparr> else s)"

section \<open>A connection\<close>

record mock_env =
  mx_zlib :: zlib
  mx_addr :: string
  mx_elapsed :: "nat \<Rightarrow> bool"

definition mock_write :: "mock_env \<Rightarrow> Client \<Rightarrow> byte \<Rightarrow> bytes \<Rightarrow> sink \<Rightarrow> sink" where
  "mock_write e client pid data k = snd (writePacket (mx_zlib e) client (NewRawPacket pid data) k)"

definition mock_status :: ServerStatus where
  "mock_status =
     \<lparr>st_Version = \<lparr>sv_Name = ''Mock 1.20.4'', sv_Protocol = 765\<rparr>,
      st_Players = \<lparr>pl_Max = 20, pl_Online = 0, pl_Sample = []\<rparr>,
      st_Description = ''Mock MOTD'', st_Favicon = None, st_ForgeData = []\<rparr>"

definition handle_status :: "mock_env \<Rightarrow> bytes \<Rightarrow> script \<Rightarrow> sink \<Rightarrow> mock_state \<Rightarrow> sink \<times> mock_state" where
  "handle_status e buf conn k s =
     (let s = addStatus s
      in case ReadPacket (mx_zlib e) DummyClient buf conn of
           (Packet req _, buf, conn) \<Rightarrow>
             if rp_ID req \<noteq> PacketServerStatusRequest then (k, s)
             else
               let k = mock_write e DummyClient PacketClientStatusResponse
                         (StringBytes (StatusResponseJSON (\<lambda>_. False) mock_status)) k
               in (case ReadPacket (mx_zlib e) DummyClient buf conn of
                     (Packet ping _, _, _) \<Rightarrow>
                       (if rp_ID ping \<noteq> PacketServerPing then k
                        else mock_write e DummyClient PacketClientPing (rp_Data ping) k, s)
                   | _ \<Rightarrow> (k, s))
         | _ \<Rightarrow> (k, s))"

definition minimalCodec :: Compound where
  "minimalCodec =
     (let dimTypes = InsertString NewCompound ''type'' ''minecraft:dimension_type'';
          dim = InsertString NewCompound ''name'' ''minecraft:overworld'';
          dim = InsertInt dim ''id'' 0;
          element = InsertByte NewCompound ''piglin_safe'' 0;
          element = InsertByte element ''natural'' 1;
          element = InsertFloat element ''ambient_light'' 0;
          element = InsertString element ''infiniburn'' ''minecraft:infiniburn_overworld'';
          element = InsertByte element ''respawn_anchor_works'' 0;
          element = InsertByte element ''has_skylight'' 1;
          element = InsertByte element ''bed_works'' 1;
          element = InsertString element ''effects'' ''minecraft:overworld'';
          element = InsertByte element ''has_raids'' 1;
          element = InsertInt element ''min_y'' 0;
          element = InsertInt element ''height'' 256;
          element = InsertInt element ''logical_height'' 256;
          element = InsertDouble element ''coordinate_scale'' 0x3FF0000000000000;
          element = InsertByte element ''ultrawarm'' 0;
          element = InsertByte element ''has_ceiling'' 0;
          dim = Insert dim ''element'' (TCompound element);
          dimTypes = Insert dimTypes ''value'' (TList TagCompound [TCompound dim])
      in Insert NewCompound ''minecraft:dimension_type'' (TCompound dimTypes))"

definition mock_worlds :: "string list" where
  "mock_worlds = [''minecraft:overworld'', ''minecraft:the_nether'', ''minecraft:the_end'']"

definition mock_join :: bytes where
  "mock_join =
     (let jw = WriteUint32 NewPacketWriter 1;
          jw = WriteBool jw False;
          jw = WriteU8 jw 0;
          jw = WriteU8 jw 255;
          jw = WriteVarInt jw (word_of_nat (length mock_worlds));
          jw = foldl (\<lambda>jw n. WriteString jw n) jw mock_worlds;
          jw = WriteCompoundTag PacketWriter_ops jw minimalCodec;
          jw = WriteCompoundTag PacketWriter_ops jw NewCompound;
          jw = WriteString jw ''minecraft:overworld'';
          jw = WriteInt64 jw 0;
          jw = WriteVarInt jw 20;
          jw = WriteVarInt jw 10;
          jw = WriteBool jw False;
          jw = WriteBool jw True;
          jw = WriteBool jw False;
          jw = WriteBool jw False
      in Bytes jw)"

text \<open>The loop after the join; \<open>round\<close> numbers its rounds.\<close>

function handle_play ::
  "mock_env \<Rightarrow> Client \<Rightarrow> nat \<Rightarrow> u64 \<Rightarrow> Login \<Rightarrow> bytes \<Rightarrow> script \<Rightarrow> sink \<Rightarrow> mock_state \<Rightarrow> sink \<times> mock_state" where
  "handle_play e client round keepAliveID login buf conn k s =
     (let elapsed = mx_elapsed e round;
          k' = (if elapsed then mock_write e client 0x21 (Bytes (WriteUint64 NewPacketWriter keepAliveID)) k else k)
      in case ReadPacket (mx_zlib e) client buf conn of
           (Packet _ _, buf, conn) \<Rightarrow>
             let login = login\<lparr>lg_Packets := lg_Packets login + 1\<rparr>
             in handle_play e client (Suc round) (if elapsed then keepAliveID + 1 else keepAliveID) login buf conn k'
                  (count_packet login s)
         | _ \<Rightarrow> (k', s))"
  by pat_completeness auto
termination
  by (relation "measure (\<lambda>(e, client, round, keepAliveID, login, buf, conn, k, s). length (buf @ script_bytes conn))")
    (auto simp: ReadPacket_def dest!: ReadPacket_shrinks [OF sym])

declare handle_play.simps [simp del]

definition mock_compressed :: Client where
  "mock_compressed = SetCompressionThreshold DummyClient CompressionThreshold"

definition mock_playing :: Client where
  "mock_playing = SetState mock_compressed ClientStatePlay"

definition login_success_data :: "string \<Rightarrow> bytes" where
  "login_success_data name =
     (let sw = WriteString NewPacketWriter ''9e5f3c9a-2b1d-4e6f-8a7c-0d1e2f3a4b5c'';
          sw = WriteString sw name
      in Bytes sw)"

definition handle_login ::
  "mock_env \<Rightarrow> Handshake \<Rightarrow> bytes \<Rightarrow> script \<Rightarrow> sink \<Rightarrow> mock_state \<Rightarrow> sink \<times> mock_state" where
  "handle_login e handshake buf conn k s =
     (case ReadPacket (mx_zlib e) DummyClient buf conn of
        (Packet start _, buf, conn) \<Rightarrow>
          if rp_ID start \<noteq> PacketServerLoginStart then (k, s)
          else (case DecodeLoginStart (rp_Data start) of
             Ok ls \<Rightarrow>
               let login = \<lparr>lg_Username = ls_Name ls, lg_Protocol = hs_ProtocolVersion handshake,
                            lg_Addr = mx_addr e, lg_Packets = 0\<rparr>;
                   s = addLogin login s;
                   k = mock_write e DummyClient PacketClientSetCompression
                         (Bytes (WriteVarInt NewPacketWriter CompressionThreshold)) k;
                   k = mock_write e mock_compressed PacketClientLoginSuccess (login_success_data (ls_Name ls)) k;
                   k = mock_write e mock_playing 0x26 mock_join k
               in handle_play e mock_playing 0 0 login buf conn k s
           | _ \<Rightarrow> (k, s))
      | _ \<Rightarrow> (k, s))"

text \<open>The result has the header that was found.\<close>

definition handle :: "mock_env \<Rightarrow> script \<Rightarrow> sink \<Rightarrow> mock_state \<Rightarrow> bytes option \<times> sink \<times> mock_state" where
  "handle e conn k s =
     (case peekProxyHeader (NewReader_bufio conn) of
        (header, br) \<Rightarrow>
          (header,
           case ReadPacket (mx_zlib e) DummyClient [] (as_script br) of
             (Packet packet _, buf, conn) \<Rightarrow>
               if rp_ID packet \<noteq> PacketHandshake then (k, s)
               else (case DecodeHandshake (rp_Data packet) of
                  Ok handshake \<Rightarrow>
                    if hs_NextState handshake = 1 then handle_status e buf conn k s
                    else if hs_NextState handshake = 2 then handle_login e handshake buf conn k s
                    else (k, s)
                | _ \<Rightarrow> (k, s))
           | _ \<Rightarrow> (k, s)))"

section \<open>The server\<close>

record mock_server =
  mk_StateFile :: string
  mk_CaptureDir :: string
  mk_state :: mock_state
  mk_captureN :: nat
  mk_files :: files

definition saveCapture :: "write_result \<Rightarrow> bytes \<Rightarrow> mock_server \<Rightarrow> mock_server" where
  "saveCapture r header srv =
     (let n = mk_captureN srv;
          srv = srv\<lparr>mk_captureN := n + 1\<rparr>
      in srv\<lparr>mk_files := snd (WriteFile r (mk_CaptureDir srv @ ''/conn-'' @ dec_nat n @ ''.bin'') (string_of_bytes header) (mk_files srv))\<rparr>)"

text \<open>The calls of one \<^verbatim>\<open>writeState\<close>: the process id, the outcome of the write and of the rename.\<close>

record state_calls =
  xc_marshal :: "mock_state \<Rightarrow> string"
  xc_pid :: nat
  xc_write :: write_result
  xc_rename :: bool

definition writeState :: "state_calls \<Rightarrow> mock_server \<Rightarrow> mock_server" where
  "writeState x srv =
     (if mk_StateFile srv = [] then srv
      else
        let data = xc_marshal x (mk_state srv);
            tmp = mk_StateFile srv @ ''.'' @ dec_nat (xc_pid x) @ ''.tmp''
        in case WriteFile (xc_write x) tmp data (mk_files srv) of
             (False, fs) \<Rightarrow> srv\<lparr>mk_files := fs\<rparr>
           | (True, fs) \<Rightarrow> srv\<lparr>mk_files := if xc_rename x then rename_file tmp (mk_StateFile srv) fs else fs\<rparr>)"

definition NewServer :: "state_calls \<Rightarrow> string \<Rightarrow> files \<Rightarrow> mock_server" where
  "NewServer x stateFile fs =
     writeState x \<lparr>mk_StateFile = stateFile, mk_CaptureDir = [], mk_state = NewState, mk_captureN = 0, mk_files = fs\<rparr>"

definition serve_connection ::
  "state_calls \<Rightarrow> write_result \<Rightarrow> mock_env \<Rightarrow> script \<Rightarrow> sink \<Rightarrow> mock_server \<Rightarrow> sink \<times> mock_server" where
  "serve_connection x r e conn k srv =
     (case handle e conn k (mk_state srv) of
        (header, k, s) \<Rightarrow>
          let srv = srv\<lparr>mk_state := s\<rparr>;
              srv = (case header of
                       Some h \<Rightarrow> if mk_CaptureDir srv \<noteq> [] then saveCapture r h srv else srv
                     | None \<Rightarrow> srv)
          in (k, writeState x srv))"

text \<open>\<^verbatim>\<open>acceptLoop\<close> over the connections it accepts, until \<^verbatim>\<open>Accept\<close> fails because the listener was closed.\<close>

fun acceptLoop :: "state_calls \<Rightarrow> write_result \<Rightarrow> (mock_env \<times> script \<times> sink) list \<Rightarrow> mock_server \<Rightarrow> mock_server" where
  "acceptLoop x r [] srv = writeState x (srv\<lparr>mk_state := setShutdown (mk_state srv)\<rparr>)"
| "acceptLoop x r ((e, conn, k) # conns) srv = acceptLoop x r conns (snd (serve_connection x r e conn k srv))"

definition Shutdown :: "state_calls \<Rightarrow> mock_server \<Rightarrow> mock_server" where
  "Shutdown x srv = writeState x (srv\<lparr>mk_state := setShutdown (mk_state srv)\<rparr>)"

section \<open>The header is taken off the stream\<close>

text \<open>A reader over a connection that flows, and the bytes it has still to give.\<close>

definition bufio_ok :: "bufio \<Rightarrow> bool" where
  "bufio_ok b \<longleftrightarrow> br_err b = None \<and> flows (br_conn b) \<and> length (br_buf b) \<le> bufio_size"

definition br_bytes :: "bufio \<Rightarrow> bytes" where
  "br_bytes b = br_buf b @ script_bytes (br_conn b)"

lemma NewReader_bufio_ok: "flows conn \<Longrightarrow> bufio_ok (NewReader_bufio conn)" "br_bytes (NewReader_bufio conn) = script_bytes conn"
  by (simp_all add: bufio_ok_def br_bytes_def NewReader_bufio_def)

lemma as_script_ok: "bufio_ok b \<Longrightarrow> flows (as_script b) \<and> script_bytes (as_script b) = br_bytes b"
  by (auto simp: bufio_ok_def br_bytes_def as_script_def)

lemma fill_end: "br_conn b = [] \<Longrightarrow> bufio_fill b = b\<lparr>br_err := Some EOF\<rparr>"
  by (simp add: bufio_fill_def numeral_eq_Suc)

lemma fill_ok:
  assumes "bufio_ok b" and "br_conn b \<noteq> []" and "length (br_buf b) < bufio_size"
  shows "bufio_ok (bufio_fill b)" and "br_bytes (bufio_fill b) = br_bytes b"
proof -
  obtain bs conn where c: "br_conn b = (bs, None) # conn" "bs \<noteq> []" "flows conn"
    using assms(1,2) by (cases "br_conn b") (auto simp: bufio_ok_def)
  let ?k = "bufio_size - length (br_buf b)"
  have f: "bufio_fill b = b\<lparr>br_buf := br_buf b @ take ?k bs, br_conn := if length bs \<le> ?k then conn else (drop ?k bs, None) # conn\<rparr>"
    using c assms(3) by (auto simp: bufio_fill_def numeral_eq_Suc Let_def)
  show "bufio_ok (bufio_fill b)" "br_bytes (bufio_fill b) = br_bytes b"
    using assms c unfolding f by (auto simp: bufio_ok_def br_bytes_def)
qed

lemma peek_fill_ok:
  assumes "bufio_ok b" and "n \<le> bufio_size" and "b' = peek_fill n b"
  shows "br_bytes b' = br_bytes b \<and> bufio_ok (b'\<lparr>br_err := None\<rparr>) \<and>
    (if n \<le> length (br_bytes b) then n \<le> length (br_buf b') \<and> br_err b' = None else length (br_buf b') < n)"
  using assms
proof (induction n b arbitrary: b' rule: peek_fill.induct)
  case (1 n b)
  show ?case
  proof (cases "length (br_buf b) < n")
    case True
    with "1.prems" have more: "length (br_buf b) < n \<and> length (br_buf b) < bufio_size \<and> br_err b = None"
      by (simp add: bufio_ok_def)
    then have b': "b' = peek_fill n (bufio_fill b)" using "1.prems"(3) by (simp add: peek_fill.simps [of n b])
    show ?thesis
    proof (cases "br_conn b = []")
      case True
      then have "b' = b\<lparr>br_err := Some EOF\<rparr>" using b' by (simp add: fill_end peek_fill.simps [of n "b\<lparr>br_err := Some EOF\<rparr>"])
      then show ?thesis using True more "1.prems"(1) by (simp add: bufio_ok_def br_bytes_def)
    next
      case False
      note f = fill_ok [OF "1.prems"(1) False]
      show ?thesis using "1.IH" [OF more f(1) "1.prems"(2) b'] f(2) more by simp
    qed
  next
    case False
    then show ?thesis using "1.prems" by (simp add: peek_fill.simps [of n b] bufio_ok_def br_bytes_def)
  qed
qed

lemma Peek_ok:
  assumes "bufio_ok b" and "n \<le> bufio_size"
  shows "\<exists>b'. Peek n b = (if n \<le> length (br_bytes b) then Some (take n (br_bytes b)) else None, b') \<and> bufio_ok b' \<and>
    br_bytes b' = br_bytes b"
proof -
  note p = peek_fill_ok [OF assms refl]
  show ?thesis
  proof (cases "n \<le> length (br_bytes b)")
    case True
    then have "bufio_ok (peek_fill n b)" "n \<le> length (br_buf (peek_fill n b))" using p by (simp_all add: bufio_ok_def)
    moreover from this have "take n (br_bytes b) = take n (br_buf (peek_fill n b))"
      using p by (metis br_bytes_def append_take_drop_id take_append diff_is_0_eq take_0 append_Nil2)
    ultimately show ?thesis using True p by (simp add: Peek_def Let_def)
  next
    case False
    then show ?thesis using p by (simp add: Peek_def Let_def br_bytes_def)
  qed
qed

lemma bufio_Read_ok:
  assumes "bufio_ok b" and "0 < k" and "br_bytes b \<noteq> []"
  shows "\<exists>bs b'. bufio_Read k b = ((bs, None), b') \<and> bs \<noteq> [] \<and> length bs \<le> k \<and> br_bytes b = bs @ br_bytes b' \<and> bufio_ok b'"
proof (cases "br_buf b = []")
  case True
  then obtain ds conn where "br_conn b = (ds, None) # conn" "ds \<noteq> []" "flows conn"
    using assms(1,3) by (cases "br_conn b") (auto simp: bufio_ok_def br_bytes_def)
  moreover have "ds = take k ds @ drop k (take 4096 ds) @ drop 4096 ds" if "\<not> 4096 \<le> k"
    using that append_take_drop_id [of k "take 4096 ds"] by (simp flip: append_assoc add: min_def)
  ultimately show ?thesis using True assms
    by (auto simp: bufio_Read_def bufio_ok_def br_bytes_def bufio_size_def)
next
  case False
  then show ?thesis using assms
    by (auto simp: bufio_Read_def bufio_ok_def br_bytes_def)
qed

lemma ReadFull_ok:
  assumes "bufio_ok b" and "k \<le> length (br_bytes b)"
  shows "\<exists>b'. ReadFull k b = (Some (take k (br_bytes b)), b') \<and> bufio_ok b' \<and> br_bytes b' = drop k (br_bytes b)"
  using assms
proof (induction k b rule: ReadFull.induct)
  case (1 k b)
  show ?case
  proof (cases "k = 0")
    case True
    then show ?thesis using "1.prems" by (simp add: ReadFull.simps [of 0])
  next
    case False
    have "br_bytes b \<noteq> []" using "1.prems"(2) False by auto
    then obtain bs b1 where r: "bufio_Read k b = ((bs, None), b1)" "bs \<noteq> []" "length bs \<le> k" "br_bytes b = bs @ br_bytes b1" "bufio_ok b1"
      using bufio_Read_ok [OF "1.prems"(1)] False by blast
    show ?thesis
    proof (cases "length bs = k")
      case True
      then show ?thesis using r False by (simp add: ReadFull.simps [of k])
    next
      case more: False
      then have "\<not> k \<le> length bs" "k - length bs \<le> length (br_bytes b1)" using r(3,4) "1.prems"(2) by simp_all
      from "1.IH" [OF False r(1) [symmetric] refl this(1) _ r(5) this(2)]
      obtain b' where "ReadFull (k - length bs) b1 = (Some (take (k - length bs) (br_bytes b1)), b')" "bufio_ok b'"
          "br_bytes b' = drop (k - length bs) (br_bytes b1)" by auto
      then show ?thesis using r more False by (simp add: ReadFull.simps [of k])
    qed
  qed
qed

text \<open>A header as the protocol has it: the signature, and the length of what follows its first 16 bytes.\<close>

definition proxy_header :: "bytes \<Rightarrow> bool" where
  "proxy_header h \<longleftrightarrow> 16 \<le> length h \<and> take 12 h = signature \<and> length h = 16 + (256 * unat (h ! 14) + unat (h ! 15))"

lemma peekProxyHeader_none:
  assumes "bufio_ok b" and "take 12 (br_bytes b) \<noteq> signature"
  shows "\<exists>b'. peekProxyHeader b = (None, b') \<and> bufio_ok b' \<and> br_bytes b' = br_bytes b"
  using Peek_ok [OF assms(1), of 12] assms(2) by (auto simp: peekProxyHeader_def bufio_size_def split: if_splits)

lemma peekProxyHeader_some:
  assumes "bufio_ok b" and "br_bytes b = h @ rest" and "proxy_header h"
  shows "\<exists>b'. peekProxyHeader b = (Some h, b') \<and> bufio_ok b' \<and> br_bytes b' = rest"
proof -
  have h: "16 \<le> length h" "take 12 h = signature" "length h = 16 + (256 * unat (h ! 14) + unat (h ! 15))"
    using assms(3) by (simp_all add: proxy_header_def)
  obtain b1 where b1: "Peek 12 b = (Some signature, b1)" "bufio_ok b1" "br_bytes b1 = h @ rest"
    using Peek_ok [OF assms(1), of 12] h(1,2) assms(2) by (auto simp: bufio_size_def)
  obtain b2 where b2: "Peek 16 b1 = (Some (take 16 h), b2)" "bufio_ok b2" "br_bytes b2 = h @ rest"
    using Peek_ok [OF b1(2), of 16] h(1) b1(3) by (auto simp: bufio_size_def)
  obtain b3 where b3: "ReadFull (length h) b2 = (Some h, b3)" "bufio_ok b3" "br_bytes b3 = rest"
    using ReadFull_ok [OF b2(2), of "length h"] b2(3) by auto
  then show ?thesis using b1(1) b2(1) h by (simp add: peekProxyHeader_def)
qed

lemma proxy_header_Local: "LocalHeader = Ok h \<Longrightarrow> proxy_header h"
  by (auto simp: LocalHeader_def proxy_header_def signature_def)

lemma proxy_header_Stream:
  assumes "StreamHeader (TCPAddr src srcPort) (TCPAddr dst dstPort) = Ok h" and "length src \<in> {4, 16}" and "length dst \<in> {4, 16}"
  shows "proxy_header h"
proof -
  have four: "length p = 4" if "IP_To4 ip = Some p" for ip p using that by (auto simp: IP_To4_def split: if_splits)
  have sixteen: "length (slice_of (IP_To16 ip)) = 16" if "length ip \<in> {4, 16}" for ip
    using that by (auto simp: IP_To16_def slice_of_def IPv4_def)
  show ?thesis
    using assms four sixteen [OF assms(2)] sixteen [OF assms(3)]
    by (auto simp: StreamHeader_def proxy_header_def signature_def slice_of_def nth_append split: if_splits option.splits)
qed

section \<open>A login at the mock server\<close>

definition mock_join_data :: JoinGameData where
  "mock_join_data =
     \<lparr>jg_Hardcore = Some False, jg_GameMode = Some 0, jg_PreviousGameMode = Some 255, jg_WorldNames = Some mock_worlds,
      jg_Dimension = Some [], jg_DimensionCodec = Some minimalCodec, jg_DimensionType = None,
      jg_WorldName = Some ''minecraft:overworld'', jg_HashedSeed = Some 0, jg_MaxPlayers = Some 20, jg_ViewDistance = Some 10,
      jg_SimulationDistance = None, jg_ReducedDebugInfo = Some False, jg_EnableRespawnScreen = Some True,
      jg_IsDebug = Some False, jg_IsFlat = Some False\<rparr>"

lemma writable_Insert:
  assumes "writable (TCompound c)" and "Type t \<noteq> TagEnd" and "length name < 2 ^ 15" and "writable t"
  shows "writable (TCompound (Insert c name t))"
  using assms set_Insert [of c name t] by (auto simp: list_all_iff)

lemma writable_parts:
  "writable (TCompound c) \<Longrightarrow> writable (TList TagCompound [TCompound c])"
  "Type (TCompound c) \<noteq> TagEnd" "Type (TList e ts) \<noteq> TagEnd"
  by (simp_all add: tag_ids)

lemma minimalCodec_writable: "writable (TCompound minimalCodec)"
proof -
  have new: "writable (TCompound NewCompound)" by (simp add: NewCompound_def)
  show ?thesis
    unfolding minimalCodec_def Let_def InsertString_def InsertInt_def InsertByte_def InsertFloat_def InsertDouble_def
    by (intro writable_Insert writable_parts new) (simp_all add: tag_ids del: Insert.simps Insert_fresh)
qed

lemma decode_mock_join: "decodeJoinGameV1_16_3 mock_join = Ok mock_join_data"
proof -
  have names: "s \<in> set mock_worlds \<Longrightarrow> length s < 2 ^ 31" "length mock_worlds < 2 ^ 31" for s by (auto simp: mock_worlds_def)
  have "mock_join =
      (be32 1 @ wire_bool False @ [0, 255] @
       (EncodeVarInt (word_of_nat (length mock_worlds)) @ concat (map wire_string mock_worlds)) @
       wire_compound minimalCodec @ wire_compound [] @
       wire_string ''minecraft:overworld'' @ be64 0 @ EncodeVarInt 20 @ EncodeVarInt 10 @
       wire_bool False @ wire_bool True @ wire_bool False @ wire_bool False @ []) @ []"
    unfolding mock_join_def Let_def NewCompound_def
    by (simp only: wire_simps packet_writer.WriteCompoundTag_out append.simps append_assoc append_Nil2)
  note wire = this
  show ?thesis
    unfolding decodeJoinGameV1_16_3_def
    by (subst wire) (intro reads_run join_step, use minimalCodec_writable names in \<open>simp_all add: mock_join_data_def\<close>)
qed

text \<open>What the client writes: the header if the backend wants one, the handshake and the login start.\<close>

definition login_bytes :: "backend_env \<Rightarrow> bytes \<Rightarrow> Handshake \<Rightarrow> string \<Rightarrow> bytes" where
  "login_bytes e hdr h name =
     hdr @ framed (be_zlib e) DummyClient (handshake_packet h) @ framed (be_zlib e) DummyClient (lobby_login_start (be_info e) name)"

lemma login_handshake_framed:
  assumes "length (hs_ServerAddr h) \<le> 255"
  shows "carries z DummyClient (handshake_packet h) (framed z DummyClient (handshake_packet h))"
    and "DecodeHandshake (rp_Data (handshake_packet h)) = Ok h" and "rp_ID (handshake_packet h) = PacketHandshake"
proof -
  have v: "length (EncodeVarInt v) \<le> 5" for v by (rule length_EncodeVarInt(2))
  have "length (rp_Data (handshake_packet h)) \<le> 300"
    using assms v [of "hs_ProtocolVersion h"] v [of "hs_NextState h"] v [of "word_of_nat (length (hs_ServerAddr h))"]
    by (simp add: handshake_packet_def NewRawPacket_def Handshake_Encode_def wire_simps wire_string_def)
  then show "carries z DummyClient (handshake_packet h) (framed z DummyClient (handshake_packet h))"
    by (intro plain_framed) simp
  show "DecodeHandshake (rp_Data (handshake_packet h)) = Ok h" "rp_ID (handshake_packet h) = PacketHandshake"
    using DecodeHandshake_Encode [OF assms, of "[]"]
    by (simp_all add: handshake_packet_def NewRawPacket_def encode_with_def)
qed

lemma login_start_framed:
  assumes "length name \<le> 16" and "\<And>p. ci_Profile info = Some p \<Longrightarrow> length (gp_UUID p) = 16"
  shows "carries z DummyClient (lobby_login_start info name) (framed z DummyClient (lobby_login_start info name))"
    and "DecodeLoginStart (rp_Data (lobby_login_start info name)) = Ok \<lparr>ls_Name = name\<rparr>"
    and "rp_ID (lobby_login_start info name) = PacketServerLoginStart"
proof -
  obtain trailing where t: "rp_Data (lobby_login_start info name) = wire_string name @ trailing" "length trailing \<le> 17"
    using assms(2) by (cases "ci_Profile info"; cases "GetProtocol info"; cases "759 \<le> the (GetProtocol info)")
      (auto simp: lobby_login_start_def NewRawPacket_def Let_def wire_simps wire_bool_def)
  have "length (rp_Data (lobby_login_start info name)) \<le> 300"
    using t assms(1) length_EncodeVarInt(2) [of "word_of_nat (length name)"] by (simp add: wire_string_def)
  then show "carries z DummyClient (lobby_login_start info name) (framed z DummyClient (lobby_login_start info name))"
    by (intro plain_framed) simp
  show "DecodeLoginStart (rp_Data (lobby_login_start info name)) = Ok \<lparr>ls_Name = name\<rparr>"
    using DecodeLoginStart_Encode [of "\<lparr>ls_Name = name\<rparr>" trailing] assms(1) t(1)
    by (simp add: encode_with_def LoginStart_Encode_def wire_simps)
  show "rp_ID (lobby_login_start info name) = PacketServerLoginStart"
    by (simp add: lobby_login_start_def NewRawPacket_def Let_def)
qed

text \<open>A frame of a packet with id 0 cannot be mistaken for a header.\<close>

lemma EncodeVarInt_13: "EncodeVarInt 13 = [13]"
  by code_simp

lemma handshake_no_signature: "take 12 (framed z DummyClient (handshake_packet h) @ rest) \<noteq> signature"
proof
  let ?payload = "EncodeVarInt 0 @ rp_Data (handshake_packet h)"
  let ?v = "word_of_nat (length ?payload) :: i32"
  assume a: "take 12 (framed z DummyClient (handshake_packet h) @ rest) = signature"
  have zero: "EncodeVarInt 0 = [0]" by code_simp
  have f: "framed z DummyClient (handshake_packet h) = EncodeVarInt ?v @ [0] @ rp_Data (handshake_packet h)"
    by (simp add: framed_def EncodeWithLen_def EncodeWithoutLen_def Compressed_def DummyClient_def NewClient_def
        encodeUncompressed_def handshake_packet_def NewRawPacket_def PacketHandshake_def zero)
  define more where "more = drop 12 (framed z DummyClient (handshake_packet h) @ rest)"
  have b: "EncodeVarInt ?v @ [0] @ rp_Data (handshake_packet h) @ rest = signature @ more"
    using a append_take_drop_id [of 12 "framed z DummyClient (handshake_packet h) @ rest"] by (simp add: f more_def)
  have "ReadVarInt ([13] @ tl signature @ more) = Ok (1, 13)"
    using ReadVarInt_EncodeVarInt [of 13] by (simp add: EncodeVarInt_13)
  moreover have "signature = [13] @ tl signature" by (simp add: signature_def)
  ultimately have "length (EncodeVarInt ?v) = 1" "?v = 13"
    using ReadVarInt_EncodeVarInt [of ?v "[0] @ rp_Data (handshake_packet h) @ rest"] b by (metis append_assoc outcome.inject prod.inject)+
  then show False using b by (simp add: EncodeVarInt_13 signature_def)
qed

section \<open>The answers of the mock server\<close>

definition compression_packet :: RawPacket where
  "compression_packet = NewRawPacket PacketClientSetCompression (Bytes (WriteVarInt NewPacketWriter CompressionThreshold))"

definition success_packet :: "string \<Rightarrow> RawPacket" where
  "success_packet name = NewRawPacket PacketClientLoginSuccess (login_success_data name)"

definition join_packet :: RawPacket where
  "join_packet = NewRawPacket 0x26 mock_join"

definition keep_alive_packet :: "u64 \<Rightarrow> RawPacket" where
  "keep_alive_packet n = NewRawPacket 0x21 (Bytes (WriteUint64 NewPacketWriter n))"

lemma mock_clients [simp]:
  "Compressed mock_compressed = 256" "Compressed mock_playing = 256" "IsCompressed mock_compressed" "IsCompressed mock_playing"
  by (simp_all add: mock_compressed_def mock_playing_def SetCompressionThreshold_def Compressed_def IsCompressed_def SetState_def
      CompressionThreshold_def)

text \<open>A packet below the threshold is stored behind a zero.\<close>

lemma stored_framed:
  assumes "zlib_inverse z" and "Compressed client = 256" and "length (rp_Data p) \<le> 200"
  shows "carries z client p (framed z client p)"
proof -
  have id_len: "length (EncodeVarInt (ucast (rp_ID p) :: i32)) \<le> 5" by (rule length_EncodeVarInt(2))
  let ?payload = "EncodeVarInt (ucast (rp_ID p)) @ rp_Data p"
  have small: "length ?payload \<le> 205" using id_len assms(3) by simp
  have "sint (word_of_nat (length ?payload) :: i32) = int (length ?payload)" using small by (intro sint_of_length) simp
  then have enc: "EncodeWithoutLen z p client = Ok (EncodeVarInt 0 @ ?payload)"
    using assms(2) small by (simp add: EncodeWithoutLen_def encodeCompressed_def Let_def)
  have "length (EncodeVarInt 0) \<le> 5" by (rule length_EncodeVarInt(2))
  moreover have "length (EncodeVarInt v) \<le> 5" for v by (rule length_EncodeVarInt(2))
  note this [of "word_of_nat (length (EncodeVarInt 0 @ ?payload))"]
  ultimately show ?thesis
    using enc small assms(1,3) by (simp add: carries_def framed_def EncodeWithLen_def MaxPacketLength_def)
qed

lemma short_answers:
  assumes "length name \<le> 16"
  shows "length (rp_Data compression_packet) \<le> 200" and "length (rp_Data (success_packet name)) \<le> 200"
    and "length (rp_Data (keep_alive_packet n)) \<le> 200"
proof -
  have v: "length (EncodeVarInt v) \<le> 5" for v by (rule length_EncodeVarInt(2))
  show "length (rp_Data compression_packet) \<le> 200"
    using v [of CompressionThreshold] by (simp add: compression_packet_def NewRawPacket_def wire_simps)
  show "length (rp_Data (success_packet name)) \<le> 200"
    using v [of "word_of_nat (length name)"] v [of "word_of_nat (length ''9e5f3c9a-2b1d-4e6f-8a7c-0d1e2f3a4b5c'')"] assms
    by (simp add: success_packet_def login_success_data_def NewRawPacket_def wire_simps wire_string_def Let_def)
  show "length (rp_Data (keep_alive_packet n)) \<le> 200"
    by (simp add: keep_alive_packet_def NewRawPacket_def wire_simps)
qed

text \<open>What the loop sends after the client's last packet.\<close>

definition last_keep_alive :: "mock_env \<Rightarrow> bytes" where
  "last_keep_alive e = (if mx_elapsed e 0 then framed (mx_zlib e) mock_playing (keep_alive_packet 0) else [])"

definition mock_answer :: "mock_env \<Rightarrow> string \<Rightarrow> bytes" where
  "mock_answer e name =
     framed (mx_zlib e) DummyClient compression_packet @ framed (mx_zlib e) mock_compressed (success_packet name) @
     framed (mx_zlib e) mock_playing join_packet @ last_keep_alive e"

lemma mock_write_carries:
  assumes "carries (mx_zlib e) client (NewRawPacket pid data) frame" and "takes (Suc n) k"
  shows "sent_bytes (mock_write e client pid data k) = sent_bytes k @ frame" and "takes n (mock_write e client pid data k)"
  using writePacket_carries [OF assms] by (auto simp: mock_write_def)

lemma handle_play_end:
  assumes "zlib_inverse (mx_zlib e)" and "buf @ script_bytes conn = []" and "flows conn" and "takes 1 k"
  shows "\<exists>k'. handle_play e mock_playing 0 0 login buf conn k s = (k', s) \<and> sent_bytes k' = sent_bytes k @ last_keep_alive e"
proof -
  have "carries (mx_zlib e) mock_playing (keep_alive_packet 0) (framed (mx_zlib e) mock_playing (keep_alive_packet 0))"
    using assms(1) short_answers(3) [of "[]"] by (intro stored_framed) simp_all
  note sent = mock_write_carries(1) [OF this [unfolded keep_alive_packet_def]]
  show ?thesis
    using ReadPacket_end [OF assms(2,3), of "mx_zlib e" mock_playing] sent [of 0 k] assms(4)
    by (simp add: handle_play.simps [of e] last_keep_alive_def keep_alive_packet_def)
qed

lemma handle_login_answers:
  assumes "zlib_inverse (mx_zlib e)" and "carries (mx_zlib e) mock_playing join_packet (framed (mx_zlib e) mock_playing join_packet)"
    and "length name \<le> 16" and "\<And>p. ci_Profile info = Some p \<Longrightarrow> length (gp_UUID p) = 16"
    and "buf @ script_bytes conn = framed (mx_zlib e) DummyClient (lobby_login_start info name)" and "flows conn"
    and "length buf \<le> MaxBufferedBytes" and "takes 4 k"
  shows "\<exists>k'. handle_login e h buf conn k s =
      (k', addLogin \<lparr>lg_Username = name, lg_Protocol = hs_ProtocolVersion h, lg_Addr = mx_addr e, lg_Packets = 0\<rparr> s) \<and>
    sent_bytes k' = sent_bytes k @ mock_answer e name"
proof -
  note start = login_start_framed [OF assms(3,4)]
  obtain buf1 conn1 where r: "ReadPacket (mx_zlib e) DummyClient buf conn =
      (Packet (lobby_login_start info name) (framed (mx_zlib e) DummyClient (lobby_login_start info name)), buf1, conn1)"
      "buf1 @ script_bytes conn1 = []" "flows conn1"
    using ReadPacket_flow [OF start(1) assms(6), where buf = buf and tail = "[]"] assms(5,7) by auto
  have "carries (mx_zlib e) DummyClient compression_packet (framed (mx_zlib e) DummyClient compression_packet)"
    using short_answers(1) [of "[]"] by (intro plain_framed) simp
  note w1 = mock_write_carries [OF this [unfolded compression_packet_def], of 3 k]
  let ?k1 = "mock_write e DummyClient PacketClientSetCompression (Bytes (WriteVarInt NewPacketWriter CompressionThreshold)) k"
  have "carries (mx_zlib e) mock_compressed (success_packet name) (framed (mx_zlib e) mock_compressed (success_packet name))"
    using assms(1) short_answers(2) [OF assms(3)] by (intro stored_framed) simp_all
  note w2 = mock_write_carries [OF this [unfolded success_packet_def], of 2 ?k1]
  let ?k2 = "mock_write e mock_compressed PacketClientLoginSuccess (login_success_data name) ?k1"
  note w3 = mock_write_carries [OF assms(2) [unfolded join_packet_def], of 1 ?k2]
  let ?k3 = "mock_write e mock_playing 0x26 mock_join ?k2"
  have k3: "takes 1 ?k3" "sent_bytes ?k3 = sent_bytes k @ framed (mx_zlib e) DummyClient compression_packet @
      framed (mx_zlib e) mock_compressed (success_packet name) @ framed (mx_zlib e) mock_playing join_packet"
    using w1 w2 w3 assms(8) by (simp_all add: numeral_eq_Suc compression_packet_def success_packet_def join_packet_def)
  then show ?thesis
    using handle_play_end [OF assms(1) r(2,3), of ?k3] r(1) start(2,3)
    by (fastforce simp: handle_login_def Let_def mock_answer_def)
qed

lemma handle_answers:
  assumes "zlib_inverse (mx_zlib m)" and "carries (mx_zlib m) mock_playing join_packet (framed (mx_zlib m) mock_playing join_packet)"
    and "length name \<le> 16" and "\<And>p. ci_Profile (be_info e) = Some p \<Longrightarrow> length (gp_UUID p) = 16"
    and "length (hs_ServerAddr h) \<le> 255" and "hs_NextState h = ToID ClientStateLogin" and "be_zlib e = mx_zlib m"
    and "hdr = [] \<or> proxy_header hdr" and "flows conn" and "script_bytes conn = login_bytes e hdr h name" and "takes 4 k"
  shows "\<exists>k'. handle m conn k s = (if hdr = [] then None else Some hdr, k',
      addLogin \<lparr>lg_Username = name, lg_Protocol = hs_ProtocolVersion h, lg_Addr = mx_addr m, lg_Packets = 0\<rparr> s) \<and>
    sent_bytes k' = sent_bytes k @ mock_answer m name"
proof -
  let ?hs = "framed (mx_zlib m) DummyClient (handshake_packet h)" and ?ls = "framed (mx_zlib m) DummyClient (lobby_login_start (be_info e) name)"
  note hs = login_handshake_framed [OF assms(5)]
  have "proxy_header hdr \<Longrightarrow> hdr \<noteq> []" by (auto simp: proxy_header_def)
  moreover have "\<exists>br. peekProxyHeader (NewReader_bufio conn) = (None, br) \<and> bufio_ok br \<and> br_bytes br = ?hs @ ?ls" if "hdr = []"
    using peekProxyHeader_none [OF NewReader_bufio_ok(1) [OF assms(9)]] handshake_no_signature [of "mx_zlib m" h ?ls] that assms(7,10)
    by (simp add: NewReader_bufio_ok(2) login_bytes_def)
  moreover have "\<exists>br. peekProxyHeader (NewReader_bufio conn) = (Some hdr, br) \<and> bufio_ok br \<and> br_bytes br = ?hs @ ?ls" if "proxy_header hdr"
    using peekProxyHeader_some [OF NewReader_bufio_ok(1) [OF assms(9)] _ that] assms(7,10)
    by (simp add: NewReader_bufio_ok(2) login_bytes_def)
  ultimately obtain br where br: "peekProxyHeader (NewReader_bufio conn) = (if hdr = [] then None else Some hdr, br)" "bufio_ok br"
      "br_bytes br = ?hs @ ?ls" using assms(8) by (cases "hdr = []") auto
  have flow: "flows (as_script br)" "[] @ script_bytes (as_script br) = ?hs @ ?ls" using as_script_ok [OF br(2)] br(3) by simp_all
  obtain buf conn1 where r: "ReadPacket (mx_zlib m) DummyClient [] (as_script br) = (Packet (handshake_packet h) ?hs, buf, conn1)"
      "buf @ script_bytes conn1 = ?ls" "flows conn1" "length buf \<le> MaxBufferedBytes"
    using ReadPacket_flow [OF hs(1) flow] by auto
  show ?thesis
    using handle_login_answers [OF assms(1-4) r(2-4) assms(11)] r(1) hs(2,3) br(1) assms(6)
    by (auto simp: handle_def)
qed

section \<open>The lobby's login at the mock server\<close>

lemma probe_client_simps [simp]:
  "Compressed probe_client = Compressed DummyClient" "cl_state probe_client = ClientStateLogin"
  "Compressed (SetCompressionThreshold client t) = t" "cl_state (SetCompressionThreshold client t) = cl_state client"
  by (simp_all add: probe_client_def SetCompressionThreshold_def Compressed_def SetState_def)

lemma DecodeSetCompression_packet: "DecodeSetCompression (rp_Data compression_packet) = Ok \<lparr>sc_Threshold = 256\<rparr>"
  by code_simp

lemma connect_writes:
  assumes "length (hs_ServerAddr h) \<le> 255" and "length name \<le> 16" and "\<And>p. ci_Profile (be_info e) = Some p \<Longrightarrow> length (gp_UUID p) = 16"
    and "ci_Handshake (be_info e) = Some h" and "ci_Username (be_info e) = Some name"
    and "if sv_SendProxyV2 (cfg_Server config) then header = Ok hdr else hdr = []" and "takes 3 c" and "sent_bytes c = []"
  shows "\<exists>k. sent_bytes k = login_bytes e hdr h name \<and>
    connectToServerNoTimeout e config header (Some (conn, c)) r =
      (case backend_loop e config [] conn (backend_start r k) of
         (BackDone s, buf, conn) \<Rightarrow> (Ok (s, buf, conn), bk_relay s)
       | (BackBreak s, buf, conn) \<Rightarrow> (Fail, bk_relay s)
       | (BackContinue s, buf, conn) \<Rightarrow> (Fail, bk_relay s))"
proof -
  let ?z = "be_zlib e"
  obtain k0 where k0: "(if sv_SendProxyV2 (cfg_Server config) then (case header of Ok h \<Rightarrow> conn_Write h c | _ \<Rightarrow> (False, c)) else (True, c)) = (True, k0)"
      "sent_bytes k0 = hdr" "takes 2 k0"
    using assms(6-8) conn_Write_sent [of 2 c hdr] by (auto simp: takes_def split: if_splits)
  have "carries ?z probe_client (handshake_packet h) (framed ?z DummyClient (handshake_packet h))"
    using login_handshake_framed(1) [OF assms(1)] carries_cong [of probe_client DummyClient] by simp
  from writePacket_carries [OF this, of 1 k0] k0(2,3)
  obtain k1 where k1: "writePacket ?z probe_client (handshake_packet h) k0 = (True, k1)"
      "sent_bytes k1 = hdr @ framed ?z DummyClient (handshake_packet h)" "takes 1 k1" by (auto simp: numeral_2_eq_2)
  have "carries ?z probe_client (lobby_login_start (be_info e) name) (framed ?z DummyClient (lobby_login_start (be_info e) name))"
    using login_start_framed(1) [OF assms(2,3)] carries_cong [of probe_client DummyClient] by simp
  from writePacket_carries [OF this, of 0 k1] k1(2,3)
  obtain k2 where "writePacket ?z probe_client (lobby_login_start (be_info e) name) k1 = (True, k2)"
      "sent_bytes k2 = login_bytes e hdr h name" by (auto simp: login_bytes_def)
  then show ?thesis using k0(1) k1(1) assms(4,5) by (auto simp: connectToServerNoTimeout_def)
qed

lemma backend_loop_mock:
  assumes "zlib_inverse z" and "be_zlib e = z" and "length name \<le> 16" and "\<not> au_OnlineMode (cfg_Auth config)"
    and "flows conn" and "script_bytes conn = framed z DummyClient compression_packet @ framed z mock_compressed (success_packet name) @ rest"
  shows "\<exists>s buf conn'. backend_loop e config [] conn (backend_start None k) = (BackDone s, buf, conn') \<and> bk_out s = k \<and> bk_relay s = None \<and>
    cl_state (bk_client s) = ClientStatePlay \<and> Compressed (bk_client s) = 256 \<and>
    buf @ script_bytes conn' = rest \<and> flows conn' \<and> length buf \<le> MaxBufferedBytes"
proof -
  have c1: "carries z probe_client compression_packet (framed z DummyClient compression_packet)"
    using plain_framed [of compression_packet z] short_answers(1) [of "[]"] carries_cong [of probe_client DummyClient] by simp
  from ReadPacket_flow [OF c1 assms(5), of "[]"] assms(6)
  obtain b1 n1 where r1: "ReadPacket z probe_client [] conn = (Packet compression_packet (framed z DummyClient compression_packet), b1, n1)"
      "b1 @ script_bytes n1 = framed z mock_compressed (success_packet name) @ rest" "flows n1" "length b1 \<le> MaxBufferedBytes" by auto
  let ?client = "SetCompressionThreshold probe_client 256"
  have c2: "carries z ?client (success_packet name) (framed z mock_compressed (success_packet name))"
    using stored_framed [OF assms(1), of mock_compressed "success_packet name"] short_answers(2) [OF assms(3)]
      carries_cong [of ?client mock_compressed] by simp
  from ReadPacket_flow [OF c2 r1(3,2,4)]
  obtain b2 n2 where r2: "ReadPacket z ?client b1 n1 = (Packet (success_packet name) (framed z mock_compressed (success_packet name)), b2, n2)"
      "b2 @ script_bytes n2 = rest" "flows n2" "length b2 \<le> MaxBufferedBytes" by auto
  let ?s0 = "backend_start None k"
  let ?s1 = "?s0\<lparr>bk_client := ?client\<rparr>"
  have p1: "backend_packet e config compression_packet ?s0 = BackContinue ?s1"
    using DecodeSetCompression_packet
    by (simp add: backend_packet_def backend_compression_def backend_start_def compression_packet_def NewRawPacket_def Let_def)
  have p2: "backend_packet e config (success_packet name) (?s1\<lparr>bk_round := 1\<rparr>) =
      BackDone (?s1\<lparr>bk_round := 1, bk_client := SetState ?client ClientStatePlay\<rparr>)"
    using assms(4) by (simp add: backend_packet_def backend_success_def backend_start_def success_packet_def NewRawPacket_def Let_def
        PacketClientSetCompression_def PacketClientEncryptionRequest_def PacketClientLoginPluginRequest_def PacketClientLoginSuccess_def)
  have s0: "bk_client ?s0 = probe_client" "bk_round ?s0 = 0" by (simp_all add: backend_start_def)
  have "backend_loop e config b1 n1 (?s1\<lparr>bk_round := 1\<rparr>) =
      (BackDone (?s1\<lparr>bk_round := 1, bk_client := SetState ?client ClientStatePlay\<rparr>), b2, n2)"
    using r2(1) p2 assms(2) by (simp add: backend_loop.simps [of e config b1])
  then have "backend_loop e config [] conn ?s0 = (BackDone (?s1\<lparr>bk_round := 1, bk_client := SetState ?client ClientStatePlay\<rparr>), b2, n2)"
    using r1(1) p1 assms(2) s0 by (simp add: backend_loop.simps [of e config "[]"])
  with r2 show ?thesis by (simp add: backend_start_def)
qed

lemma wait_mock_join:
  assumes "carries z mock_playing join_packet (framed z mock_playing join_packet)" and "Compressed client = 256"
    and "JoinGamePacketID (GetProtocol info) = 0x26"
    and "flows conn" and "buf @ script_bytes conn = framed z mock_playing join_packet @ rest" and "length buf \<le> MaxBufferedBytes"
  shows "\<exists>buf' conn'. waitForServerJoinGame False z client info buf conn = (Ok mock_join_data, buf', conn') \<and>
    buf' @ script_bytes conn' = rest"
proof -
  have c: "carries z client join_packet (framed z mock_playing join_packet)"
    using assms(1,2) carries_cong [of client mock_playing] by simp
  from ReadPacket_flow [OF c assms(4-6)]
  obtain b n where r: "ReadPacket z client buf conn = (Packet join_packet (framed z mock_playing join_packet), b, n)" "b @ script_bytes n = rest"
    by auto
  have "JoinGameIsPacket info (rp_ID join_packet)" using assms(3) by (simp add: JoinGameIsPacket_ID join_packet_def NewRawPacket_def)
  moreover have "JoinGameDataFromPacket info join_packet = Ok mock_join_data"
    using assms(3) decode_mock_join
    by (auto simp: JoinGameDataFromPacket_def JoinGamePacketID_def join_packet_def NewRawPacket_def decodeJoinGameV1_17_def
        V1_20_1JoinGame_def V1_16_3JoinGame_def split: if_splits)
  ultimately show ?thesis using r
    by (simp add: waitForServerJoinGame_def waitForServerJoinGameNoTimeout.simps [of z client info "[]"])
qed

lemma mock_login_conversation:
  assumes "zlib_inverse (mx_zlib m)" and "carries (mx_zlib m) mock_playing join_packet (framed (mx_zlib m) mock_playing join_packet)"
    and "be_zlib e = mx_zlib m" and "\<not> au_OnlineMode (cfg_Auth config)"
    and "ci_Handshake (be_info e) = Some h" and "length (hs_ServerAddr h) \<le> 255" and "hs_NextState h = ToID ClientStateLogin"
    and "ci_Username (be_info e) = Some name" and "length name \<le> 16"
    and "\<And>p. ci_Profile (be_info e) = Some p \<Longrightarrow> length (gp_UUID p) = 16"
    and "JoinGamePacketID (GetProtocol (be_info e)) = 0x26"
    and "if sv_SendProxyV2 (cfg_Server config) then header = Ok hdr \<and> proxy_header hdr else hdr = []"
    and "takes 3 c" and "sent_bytes c = []" and "takes 4 k" and "sent_bytes k = []"
    and "flows conn" and "script_bytes conn = login_bytes e hdr h name"
  shows "\<exists>k'. handle m conn k ms = (if hdr = [] then None else Some hdr, k',
      addLogin \<lparr>lg_Username = name, lg_Protocol = hs_ProtocolVersion h, lg_Addr = mx_addr m, lg_Packets = 0\<rparr> ms) \<and>
    (\<forall>reply. flows reply \<longrightarrow> script_bytes reply = sent_bytes k' \<longrightarrow>
       (\<exists>s buf rest buf' rest'. connectToServerNoTimeout e config header (Some (reply, c)) None = (Ok (s, buf, rest), None) \<and>
          sent_bytes (bk_out s) = script_bytes conn \<and>
          waitForServerJoinGame False (be_zlib e) (bk_client s) (be_info e) buf rest = (Ok mock_join_data, buf', rest') \<and>
          buf' @ script_bytes rest' = last_keep_alive m))"
proof -
  have hdr: "hdr = [] \<or> proxy_header hdr" "if sv_SendProxyV2 (cfg_Server config) then header = Ok hdr else hdr = []"
    using assms(12) by (auto split: if_splits)
  obtain k' where k': "handle m conn k ms = (if hdr = [] then None else Some hdr, k',
      addLogin \<lparr>lg_Username = name, lg_Protocol = hs_ProtocolVersion h, lg_Addr = mx_addr m, lg_Packets = 0\<rparr> ms)"
      "sent_bytes k' = mock_answer m name"
    using handle_answers [OF assms(1,2,9,10,6,7,3) hdr(1) assms(17,18,15)] assms(16) by auto
  have "\<exists>s buf rest buf' rest'. connectToServerNoTimeout e config header (Some (reply, c)) None = (Ok (s, buf, rest), None) \<and>
          sent_bytes (bk_out s) = script_bytes conn \<and>
          waitForServerJoinGame False (be_zlib e) (bk_client s) (be_info e) buf rest = (Ok mock_join_data, buf', rest') \<and>
          buf' @ script_bytes rest' = last_keep_alive m"
    if reply: "flows reply" "script_bytes reply = mock_answer m name" for reply
  proof -
    obtain kc where kc: "sent_bytes kc = login_bytes e hdr h name" "connectToServerNoTimeout e config header (Some (reply, c)) None =
      (case backend_loop e config [] reply (backend_start None kc) of
         (BackDone s, buf, conn) \<Rightarrow> (Ok (s, buf, conn), bk_relay s)
       | (BackBreak s, buf, conn) \<Rightarrow> (Fail, bk_relay s)
       | (BackContinue s, buf, conn) \<Rightarrow> (Fail, bk_relay s))"
      using connect_writes [OF assms(6,9,10,5,8) hdr(2) assms(13,14)] by blast
    obtain s buf rest where bl: "backend_loop e config [] reply (backend_start None kc) = (BackDone s, buf, rest)" "bk_out s = kc" "bk_relay s = None"
        "Compressed (bk_client s) = 256" "buf @ script_bytes rest = framed (mx_zlib m) mock_playing join_packet @ last_keep_alive m"
        "flows rest" "length buf \<le> MaxBufferedBytes"
      using backend_loop_mock [OF assms(1,3,9,4) reply(1)] reply(2) unfolding mock_answer_def by blast
    show ?thesis
      using wait_mock_join [OF assms(2) bl(4) assms(11) bl(6,5,7)] kc bl(1-3) assms(3,18) by simp
  qed
  with k' show ?thesis by auto
qed

section \<open>The join-game packet has a short frame\<close>

lemma float_zero: "float64_of_float32 0 = 0"
  by (simp add: float64_of_float32_def widen_nat_def)

lemma minimalCodec_list: "minimalCodec =
  [(''minecraft:dimension_type'', TCompound
     [(''type'', TString ''minecraft:dimension_type''),
      (''value'', TList TagCompound [TCompound
        [(''name'', TString ''minecraft:overworld''), (''id'', TInt 0),
         (''element'', TCompound
           [(''piglin_safe'', TByte 0), (''natural'', TByte 1), (''ambient_light'', TFloat 0),
            (''infiniburn'', TString ''minecraft:infiniburn_overworld''), (''respawn_anchor_works'', TByte 0),
            (''has_skylight'', TByte 1), (''bed_works'', TByte 1), (''effects'', TString ''minecraft:overworld''),
            (''has_raids'', TByte 1), (''min_y'', TInt 0), (''height'', TInt 256), (''logical_height'', TInt 256),
            (''coordinate_scale'', TDouble 0x3FF0000000000000), (''ultrawarm'', TByte 0), (''has_ceiling'', TByte 0)])]])])]"
  unfolding minimalCodec_def Let_def InsertString_def InsertInt_def InsertByte_def InsertFloat_def InsertDouble_def
    NewCompound_def float_zero
  by code_simp

lemma mock_join_length: "length mock_join \<le> 2000"
proof -
  have codec: "length (wire_compound minimalCodec) \<le> 1000" "length (wire_compound []) \<le> 10"
    unfolding minimalCodec_list by (simp_all add: wire_compound_def wire_nbt_string_def)
  have v: "length (EncodeVarInt v) \<le> 5" for v by (rule length_EncodeVarInt(2))
  then have s: "length (wire_string s) \<le> 5 + length s" for s by (simp add: wire_string_def)
  have "length (concat (map wire_string mock_worlds)) \<le> 80"
    using s [of "''minecraft:overworld''"] s [of "''minecraft:the_nether''"] s [of "''minecraft:the_end''"]
    by (simp add: mock_worlds_def)
  then show ?thesis
    using codec v [of "word_of_nat (length mock_worlds)"] s [of "''minecraft:overworld''"] v [of 20] v [of 10]
    unfolding mock_join_def Let_def NewCompound_def wire_simps packet_writer.WriteCompoundTag_out
    by (simp add: wire_bool_def)
qed

lemma stored_join_framed: "carries stored_zlib mock_playing join_packet (framed stored_zlib mock_playing join_packet)"
proof -
  have v: "length (EncodeVarInt v) \<le> 5" for v by (rule length_EncodeVarInt(2))
  let ?payload = "EncodeVarInt (ucast (rp_ID join_packet)) @ rp_Data join_packet"
  have small: "length ?payload \<le> 2005"
    using v [of "ucast (rp_ID join_packet)"] mock_join_length by (simp add: join_packet_def NewRawPacket_def)
  obtain n where n: "EncodeWithoutLen stored_zlib join_packet mock_playing = Ok (EncodeVarInt n @ ?payload)"
  proof -
    have "zlibCompress stored_zlib ?payload = Ok ?payload" by (simp add: zlibCompress_def stored_zlib_def)
    then have "\<exists>n. EncodeWithoutLen stored_zlib join_packet mock_playing = Ok (EncodeVarInt n @ ?payload)"
      by (auto simp: EncodeWithoutLen_def encodeCompressed_def Let_def)
    then show thesis using that by blast
  qed
  then have "length (framed stored_zlib mock_playing join_packet) < 2 ^ 14"
    using v [of n] v [of "word_of_nat (length (EncodeVarInt n @ ?payload))"] small
    by (simp add: framed_def EncodeWithLen_def)
  then show ?thesis
    using n mock_join_length stored_zlib_inverse
    by (simp add: carries_def framed_def EncodeWithLen_def MaxPacketLength_def join_packet_def NewRawPacket_def)
qed

end
