(* ===== verification/Start_Up.thy ===== *)
theory Start_Up
  imports Server_Properties Go_Net Go_Files
begin

text \<open>
  The start action, \<^verbatim>\<open>action_start.go\<close>: checking and randomising the RCON settings, and the rewrite of the
  backend's \<^verbatim>\<open>server.properties\<close>, with the file operations of \<^verbatim>\<open>mc/server_properties.go\<close> and
  \<^verbatim>\<open>ServerDirectory\<close> of \<^verbatim>\<open>config.go\<close>. \<open>Fail\<close> of \<open>prepareRcon\<close> is the exit through \<^verbatim>\<open>util.QuitErrorMsg\<close>.

  Shown here: after the start action the file reads as the configuration says, so that the backend listens
  where the gateway connects and accepts the password the gateway uses.
\<close>

section \<open>RCON settings\<close>

definition rconPasswordLength :: nat where "rconPasswordLength = 32"

definition alphabet :: string where
  "alphabet = ''ABCDEFGHIJKLMNOPQRSTUVWXYZabcdefghijklmnopqrstuvwxyz0123456789''"

text \<open>\<open>draw i\<close> is what the \<open>i\<close>-th call of \<^verbatim>\<open>rand.Int\<close> returns, \<open>None\<close> for an error.\<close>

fun random_chars :: "(nat \<Rightarrow> nat option) \<Rightarrow> nat list \<Rightarrow> string outcome" where
  "random_chars draw [] = Ok []"
| "random_chars draw (i # is) =
     (case draw i of
        None \<Rightarrow> Panic
      | Some n \<Rightarrow>
          if length alphabet \<le> n then Panic
          else (case random_chars draw is of Ok s \<Rightarrow> Ok (alphabet ! n # s) | Fail \<Rightarrow> Fail | Panic \<Rightarrow> Panic))"

definition generateRandomPassword :: "(nat \<Rightarrow> nat option) \<Rightarrow> string outcome" where
  "generateRandomPassword draw = random_chars draw [0..<rconPasswordLength]"

definition prepareRcon :: "(nat \<Rightarrow> nat option) \<Rightarrow> Config \<Rightarrow> Config outcome" where
  "prepareRcon draw config =
     (let rcon = cfg_Rcon config
      in if \<not> rc_Enabled rcon then Ok config
         else if sa_Port (sv_Address (cfg_Server config)) = uint (rc_Port rcon) then Fail
         else if length (rc_Password rcon) = 0 \<and> \<not> rc_RandomizePassword rcon then Fail
         else if rc_RandomizePassword rcon then
           (if \<not> ad_RewriteServerProperties (cfg_Advanced config) then Fail
            else case generateRandomPassword draw of
              Ok password \<Rightarrow> Ok (config\<lparr>cfg_Rcon := rcon\<lparr>rc_Password := password\<rparr>\<rparr>)
            | Fail \<Rightarrow> Fail | Panic \<Rightarrow> Panic)
         else Ok config)"

section \<open>The properties of the backend\<close>

definition ServerDirectory :: "Config \<Rightarrow> string" where
  "ServerDirectory config =
     (let dir = sv_Directory (cfg_Server config)
      in if cfg_Path config \<noteq> [] \<and> \<not> IsAbs dir then Join_path [Dir (cfg_Path config), dir] else dir)"

definition ServerPropertiesFile_name :: string where "ServerPropertiesFile_name = ''server.properties''"

definition RewriteServerPropertiesFile :: "bool \<Rightarrow> write_result \<Rightarrow> string \<Rightarrow> changes \<Rightarrow> files \<Rightarrow> files" where
  "RewriteServerPropertiesFile readable written file changes fs =
     (if length changes = 0 then fs
      else if \<not> isFile fs file then fs
      else case ReadFile readable fs file of
        None \<Rightarrow> fs
      | Some contents \<Rightarrow>
          (case rewriteContents contents changes of
             (newContents, changed) \<Rightarrow> if \<not> changed then fs else snd (WriteFile written file newContents fs)))"

definition RewriteServerPropertiesDir :: "bool \<Rightarrow> write_result \<Rightarrow> string \<Rightarrow> changes \<Rightarrow> files \<Rightarrow> files" where
  "RewriteServerPropertiesDir readable written dir changes fs =
     (if length changes = 0 then fs
      else if \<not> isDir fs dir then fs
      else RewriteServerPropertiesFile readable written (Join_path [dir, ServerPropertiesFile_name]) changes fs)"

text \<open>The map of changes as a list of its entries; \<open>iter\<close> is the order in which Go's loop visits the map.\<close>

definition startup_changes :: "Config \<Rightarrow> changes" where
  "startup_changes config =
     (let addr = sv_Address (cfg_Server config)
      in [(''server-ip'', IP_String (sa_IP addr)), (''server-port'', dec_int (sa_Port addr)),
          (''enable-status'', ''true''), (''query.port'', dec_int (sa_Port addr))] @
         (if \<not> IP_IsLoopback (sa_IP addr) then [(''prevent-proxy-connections'', ''false'')] else []) @
         (if MethodLobby \<in> set (jo_Methods (cfg_Join config))
          then [(''network-compression-threshold'', dec_int (sint CompressionThreshold))] else []) @
         (if rc_Enabled (cfg_Rcon config)
          then [(''rcon.port'', dec_int (uint (rc_Port (cfg_Rcon config)))), (''rcon.password'', rc_Password (cfg_Rcon config)),
                (''enable-rcon'', ''true'')] else []))"

definition rewriteServerProperties ::
  "(changes \<Rightarrow> changes) \<Rightarrow> bool \<Rightarrow> write_result \<Rightarrow> Config \<Rightarrow> files \<Rightarrow> files" where
  "rewriteServerProperties iter readable written config fs =
     (if \<not> ad_RewriteServerProperties (cfg_Advanced config) then fs
      else let dir = ServerDirectory config
           in if dir = [] then fs
              else RewriteServerPropertiesDir readable written dir (iter (startup_changes config)) fs)"

section \<open>The random password\<close>

lemma random_chars_ok:
  assumes "\<forall>i \<in> set is. \<exists>n < length alphabet. draw i = Some n"
  shows "\<exists>s. random_chars draw is = Ok s \<and> length s = length is \<and> set s \<subseteq> set alphabet"
  using assms
proof (induction "is")
  case (Cons i "is")
  then obtain s n where "random_chars draw is = Ok s" "length s = length is" "set s \<subseteq> set alphabet"
    "n < length alphabet" "draw i = Some n" by auto
  then show ?case by auto
qed simp

lemma alphabet_visible: "\<forall>c \<in> set alphabet. visible c"
  by (simp add: alphabet_def visible_def)

lemma prepareRcon_randomized:
  assumes "prepareRcon draw config = Ok config'" and "rc_Enabled (cfg_Rcon config)" and "rc_RandomizePassword (cfg_Rcon config)"
    and "\<forall>i < rconPasswordLength. \<exists>n < length alphabet. draw i = Some n"
  shows "length (rc_Password (cfg_Rcon config')) = rconPasswordLength \<and> set (rc_Password (cfg_Rcon config')) \<subseteq> set alphabet"
  using assms random_chars_ok [of "[0..<rconPasswordLength]" draw]
  by (auto simp: prepareRcon_def generateRandomPassword_def Let_def split: if_splits)

lemma prepareRcon_frame:
  assumes "prepareRcon draw config = Ok config'"
  shows "cfg_Server config' = cfg_Server config" "cfg_Join config' = cfg_Join config" "cfg_Advanced config' = cfg_Advanced config"
    "cfg_Path config' = cfg_Path config" "rc_Enabled (cfg_Rcon config') = rc_Enabled (cfg_Rcon config)"
    "rc_Port (cfg_Rcon config') = rc_Port (cfg_Rcon config)"
    "rc_Enabled (cfg_Rcon config) \<Longrightarrow>
       rc_Password (cfg_Rcon config') \<noteq> [] \<or> rc_RandomizePassword (cfg_Rcon config)"
    "rc_Enabled (cfg_Rcon config) \<Longrightarrow> sa_Port (sv_Address (cfg_Server config)) \<noteq> uint (rc_Port (cfg_Rcon config))"
  using assms by (auto simp: prepareRcon_def Let_def split: if_splits outcome.splits)

section \<open>What the file says\<close>

lemma rewrite_lines_unchanged:
  "rewrite_lines remaining changed lines = (ls, r, False) \<Longrightarrow> ls = lines \<and> \<not> changed"
proof (induction lines arbitrary: remaining changed ls)
  case (Cons line lines)
  obtain line' remaining' changed' where s: "rewrite_line remaining changed line = (line', remaining', changed')"
    by (metis prod_cases3)
  with Cons.prems obtain ls' where "rewrite_lines remaining' changed' lines = (ls', r, False)" "ls = line' # ls'"
    by (auto split: prod.splits)
  moreover from this(1) Cons.IH have "ls' = lines" "\<not> changed'" by auto
  moreover have "line' = line \<and> \<not> changed" if "\<not> changed'"
    using s that by (auto simp: rewrite_line_def Let_def split: if_splits option.splits)
  ultimately show ?case by simp
qed simp

text \<open>A file that is left alone already says what the changes ask for.\<close>

lemma rewriteContents_unchanged:
  assumes "rewriteContents contents changes = (new, False)"
  shows "ReadServerProperties (Some new) p = ReadServerProperties (Some contents) p"
proof (cases "changes = []")
  case False
  obtain ls r c where rw: "rewrite_lines changes False (property_lines contents) = (ls, r, c)" by (metis prod_cases3)
  then have "ls = property_lines contents" and new: "new = join_with serverPropertiesEOL ls"
    using assms False rewrite_lines_unchanged [of changes False "property_lines contents" ls r]
    by (auto simp: rewriteContents_def split: if_splits)
  moreover have "\<forall>l \<in> set (property_lines contents). CHR 0x0A \<notin> set l"
    using split_on_no_sep [of _ "CHR 0x0A" contents]
    by (auto simp: property_lines_def TrimSuffix_def dest!: in_set_takeD split: if_splits)
  moreover have "prop_of [] = None" by (simp add: prop_of_def)
  ultimately have "props (split_on (CHR 0x0A) new) = props (property_lines contents)"
    using props_joined [of ls] by (cases "ls = []") auto
  then show ?thesis by (simp add: ReadServerProperties_def read_property_props props_property_lines)
qed (use assms in \<open>simp add: rewriteContents_def\<close>)

lemma RewriteServerPropertiesFile_read:
  assumes "changes \<noteq> []" and "list_all good_change changes" and "fs file = Some (Regular contents)"
  shows "\<exists>new. RewriteServerPropertiesFile True WriteOk file changes fs = fs(file \<mapsto> Regular new) \<and>
    (\<forall>p. ReadServerProperties (Some new) p =
      (case map_of changes (ToLower p) of Some v \<Rightarrow> Some (TrimSpace v) | None \<Rightarrow> ReadServerProperties (Some contents) p))"
proof -
  obtain new changed where rw: "rewriteContents contents changes = (new, changed)" by fastforce
  note read = rewriteContents_read [OF assms(1,2), of contents, unfolded rw fst_conv]
  have same: "fs(file \<mapsto> Regular contents) = fs" using assms(3) by auto
  have res: "RewriteServerPropertiesFile True WriteOk file changes fs = (if changed then fs(file \<mapsto> Regular new) else fs)"
    using assms(1,3) rw by (simp add: RewriteServerPropertiesFile_def isFile_def ReadFile_def WriteFile_def)
  show ?thesis
  proof (cases changed)
    case True
    then show ?thesis using res read by auto
  next
    case False
    then have "ReadServerProperties (Some new) p = ReadServerProperties (Some contents) p" for p
      using rewriteContents_unchanged rw by simp
    then show ?thesis using res read same False by (intro exI [of _ contents]) auto
  qed
qed

lemma dec_int_visible: "list_all visible (dec_int i)"
  using port_chars [of i] by (auto simp: list_all_iff digit_def visible_def)

lemma IP_String_visible: "list_all visible (IP_String ip)"
proof -
  have "\<forall>c \<in> set ''0123456789abcdef.:<>?nil''. visible c" by (simp add: visible_def)
  then have "ip_char c \<Longrightarrow> visible c" for c unfolding ip_char_def by blast
  then show ?thesis using IP_String_chars [of ip] by (simp add: list_all_iff)
qed

lemma visible_no_newline: "list_all visible s \<Longrightarrow> CHR 0x0A \<notin> set s"
  by (auto simp: list_all_iff visible_def)

lemma startup_changes_good:
  assumes "CHR 0x0A \<notin> set (rc_Password (cfg_Rcon config))"
  shows "list_all good_change (startup_changes config)"
proof -
  have key: "good_change (k, v)"
    if "ToLower k = k" "list_all visible k" "\<not> HasPrefix k ''#''" "CHR ''='' \<notin> set k" "CHR 0x0A \<notin> set v" for k v
    using that visible_no_newline by (simp add: good_change_def TrimSpace_visible)
  have low: "ToLower ''server-ip'' = ''server-ip''" "ToLower ''server-port'' = ''server-port''"
    "ToLower ''enable-status'' = ''enable-status''" "ToLower ''query.port'' = ''query.port''"
    "ToLower ''prevent-proxy-connections'' = ''prevent-proxy-connections''"
    "ToLower ''network-compression-threshold'' = ''network-compression-threshold''"
    "ToLower ''rcon.port'' = ''rcon.port''" "ToLower ''rcon.password'' = ''rcon.password''" "ToLower ''enable-rcon'' = ''enable-rcon''"
    by code_simp+
  show ?thesis
    unfolding startup_changes_def Let_def
    using assms visible_no_newline [OF dec_int_visible] visible_no_newline [OF IP_String_visible]
    by (auto simp: low visible_def HasPrefix_def intro!: key)
qed

lemma startup_changes_distinct: "distinct (map fst (startup_changes config))"
  by (cases "IP_IsLoopback (sa_IP (sv_Address (cfg_Server config)))"; cases "MethodLobby \<in> set (jo_Methods (cfg_Join config))";
      cases "rc_Enabled (cfg_Rcon config)"; simp add: startup_changes_def Let_def)

lemma iterated_map_of:
  assumes "distinct (map fst cs)" and "distinct (iter cs)" and "set (iter cs) = set cs"
  shows "map_of (iter cs) = map_of cs"
proof -
  have "inj_on fst (set (iter cs))" using assms(1,3) by (simp add: distinct_map)
  then have "distinct (map fst (iter cs))" using assms(2) by (simp add: distinct_map)
  then show ?thesis using assms(1,3) map_of_inject_set by blast
qed

lemma rewriteServerProperties_read:
  assumes "ad_RewriteServerProperties (cfg_Advanced config)" and "ServerDirectory config \<noteq> []"
    and "fs (ServerDirectory config) = Some Directory"
    and "file = Join_path [ServerDirectory config, ServerPropertiesFile_name]" and "fs file = Some (Regular contents)"
    and "distinct (iter (startup_changes config)) \<and> set (iter (startup_changes config)) = set (startup_changes config)"
    and "CHR 0x0A \<notin> set (rc_Password (cfg_Rcon config))"
  shows "\<exists>new. rewriteServerProperties iter True WriteOk config fs = fs(file \<mapsto> Regular new) \<and>
    (\<forall>p. ReadServerProperties (Some new) p =
      (case map_of (startup_changes config) (ToLower p) of
         Some v \<Rightarrow> Some (TrimSpace v) | None \<Rightarrow> ReadServerProperties (Some contents) p))"
proof -
  let ?cs = "iter (startup_changes config)"
  have m: "map_of ?cs = map_of (startup_changes config)"
    using iterated_map_of [OF startup_changes_distinct] assms(6) by blast
  have "list_all good_change ?cs" using startup_changes_good [OF assms(7)] assms(6) by (simp add: list_all_iff)
  moreover have "set ?cs \<noteq> {}" using assms(6) by (simp add: startup_changes_def Let_def)
  then have ne: "?cs \<noteq> []" by auto
  ultimately obtain new where "RewriteServerPropertiesFile True WriteOk file ?cs fs = fs(file \<mapsto> Regular new)"
    "\<forall>p. ReadServerProperties (Some new) p =
      (case map_of ?cs (ToLower p) of Some v \<Rightarrow> Some (TrimSpace v) | None \<Rightarrow> ReadServerProperties (Some contents) p)"
    using RewriteServerPropertiesFile_read [of ?cs fs "file" contents] assms(5) by blast
  then show ?thesis
    using assms(1-4) m ne
    by (intro exI [of _ new]) (simp add: rewriteServerProperties_def RewriteServerPropertiesDir_def isDir_def)
qed

lemma startup_values:
  "map_of (startup_changes config) ''server-ip'' = Some (IP_String (sa_IP (sv_Address (cfg_Server config))))"
  "map_of (startup_changes config) ''server-port'' = Some (dec_int (sa_Port (sv_Address (cfg_Server config))))"
  "rc_Enabled (cfg_Rcon config) \<Longrightarrow> map_of (startup_changes config) ''enable-rcon'' = Some ''true''"
  "rc_Enabled (cfg_Rcon config) \<Longrightarrow> map_of (startup_changes config) ''rcon.port'' = Some (dec_int (uint (rc_Port (cfg_Rcon config))))"
  "rc_Enabled (cfg_Rcon config) \<Longrightarrow> map_of (startup_changes config) ''rcon.password'' = Some (rc_Password (cfg_Rcon config))"
  by (simp_all add: startup_changes_def Let_def)

end
