(* ===== verification/Forge_Status.thy ===== *)
theory Forge_Status
  imports Service Go_Files
begin

text \<open>
  The snapshot of the Forge metadata, \<^verbatim>\<open>forge_status.go\<close>: the monitor saves what a running backend announces, and
  a gateway that starts while the backend sleeps announces it in its place. The decoder of JSON objects is
  an argument, \<open>obj\<close>, which gives the members of an object (\<open>None\<close> for a text that is no object). Saving is the
  sequence of its system calls; \<open>persist_trace\<close> has the file system after each of them, so that a crash at
  any point is covered. Symbolic links are not modelled: a path that is no regular file is \<open>Special\<close>.

  Shown here: at every moment the snapshot is the old one or the complete new one, and what was saved is
  what the next start of the gateway loads.
\<close>

section \<open>Definitions\<close>

definition maxForgeStatusFileSize :: nat where "maxForgeStatusFileSize = 1048576"

type_synonym json_fields = "string \<Rightarrow> (string \<times> string) list option"

definition forgeStatusPath :: "Config \<Rightarrow> string outcome" where
  "forgeStatusPath config =
     (let path = sv_ForgeStatusFile (cfg_Server config)
      in if path = [] then Fail
         else Ok (Clean (if \<not> IsAbs path then Join_path [Dir (cfg_Path config), path] else path)))"

definition raw_member :: "string \<Rightarrow> (string \<times> string) list \<Rightarrow> string" where
  "raw_member name object = (case map_of object name of Some raw \<Rightarrow> raw | None \<Rightarrow> [])"

definition validateForgeStatusData :: "json_fields \<Rightarrow> string \<Rightarrow> string outcome" where
  "validateForgeStatusData obj raw =
     (if length raw = 0 \<or> maxForgeStatusFileSize < length raw then Fail
      else let raw = TrimSpace raw
           in case obj raw of
                None \<Rightarrow> Fail
              | Some object \<Rightarrow>
                  if length object = 0 \<or> length (raw_member ''fmlNetworkVersion'' object) = 0 \<or>
                     length (raw_member ''channels'' object) = 0
                  then Fail else Ok raw)"

text \<open>\<open>lstat_ok\<close>: \<^verbatim>\<open>os.Lstat\<close> reports no error but that the file does not exist.\<close>

definition loadForgeStatusSnapshot ::
  "json_fields \<Rightarrow> bool \<Rightarrow> bool \<Rightarrow> Config \<Rightarrow> files \<Rightarrow> ServerStatus option outcome" where
  "loadForgeStatusSnapshot obj lstat_ok readable config fs =
     (case forgeStatusPath config of
        Ok path \<Rightarrow>
          if fs path = None then Ok None
          else if \<not> lstat_ok then Fail
          else (case fs path of
             Some (Regular data) \<Rightarrow>
               if length data \<le> 0 \<or> maxForgeStatusFileSize < length data then Fail
               else (case ReadFile readable fs path of
                  None \<Rightarrow> Fail
                | Some raw \<Rightarrow>
                    (case validateForgeStatusData obj raw of
                       Ok raw \<Rightarrow>
                         Ok (Some \<lparr>st_Version = \<lparr>sv_Name = pub_Version (cfg_Public config),
                                                sv_Protocol = pub_Protocol (cfg_Public config)\<rparr>,
                                   st_Players = \<lparr>pl_Max = 0, pl_Online = 0, pl_Sample = []\<rparr>,
                                   st_Description = [], st_Favicon = None, st_ForgeData = raw\<rparr>)
                     | _ \<Rightarrow> Fail))
           | _ \<Rightarrow> Fail)
      | _ \<Rightarrow> Fail)"

text \<open>What the operating system answers to the calls of the source, in their order.\<close>

record persist_env =
  px_readable :: bool
  px_CreateTemp :: "string option"
  px_Chmod :: bool
  px_Write :: write_result
  px_Sync :: bool
  px_Close :: bool
  px_Rename :: bool

text \<open>The deferred \<^verbatim>\<open>os.Remove(tmpPath)\<close>.\<close>

definition remove_file :: "string \<Rightarrow> files \<Rightarrow> files" where
  "remove_file path fs = fs(path := None)"

definition tmp_written :: "write_result \<Rightarrow> string \<Rightarrow> string" where
  "tmp_written r data = (case r of WriteOk \<Rightarrow> data | WriteRefused \<Rightarrow> [] | WriteShort n \<Rightarrow> take n data)"

text \<open>The states after the calls from \<^verbatim>\<open>os.CreateTemp\<close> on, and whether the function returns nil.\<close>

definition replace_trace :: "persist_env \<Rightarrow> string \<Rightarrow> string \<Rightarrow> string \<Rightarrow> files \<Rightarrow> bool \<times> files list" where
  "replace_trace e tmpPath path validated fs =
     (let created = fs(tmpPath \<mapsto> Regular []);
          written = fs(tmpPath \<mapsto> Regular (tmp_written (px_Write e) validated))
      in if \<not> px_Chmod e then (False, [created, remove_file tmpPath created])
         else if px_Write e \<noteq> WriteOk then (False, [created, written, remove_file tmpPath written])
         else if \<not> px_Sync e then (False, [created, written, remove_file tmpPath written])
         else if \<not> px_Close e then (False, [created, written, remove_file tmpPath written])
         else if \<not> px_Rename e then (False, [created, written, remove_file tmpPath written])
         else let renamed = rename_file tmpPath path written
              in (True, [created, written, renamed, remove_file tmpPath renamed]))"

definition persist_trace ::
  "json_fields \<Rightarrow> persist_env \<Rightarrow> Config \<Rightarrow> string \<Rightarrow> files \<Rightarrow> bool \<times> files list" where
  "persist_trace obj e config raw fs =
     (case validateForgeStatusData obj raw of
        Ok validated \<Rightarrow>
          (case forgeStatusPath config of
             Ok path \<Rightarrow>
               if (case ReadFile (px_readable e) fs path of
                     Some current \<Rightarrow> TrimSpace current = validated | None \<Rightarrow> False)
               then (True, [fs])
               else (case px_CreateTemp e of
                       None \<Rightarrow> (False, [fs])
                     | Some tmpPath \<Rightarrow> replace_trace e tmpPath path validated fs)
           | _ \<Rightarrow> (False, [fs]))
      | _ \<Rightarrow> (False, [fs]))"

definition persistForgeStatusSnapshot ::
  "json_fields \<Rightarrow> persist_env \<Rightarrow> Config \<Rightarrow> string \<Rightarrow> files \<Rightarrow> bool \<times> files" where
  "persistForgeStatusSnapshot obj e config raw fs =
     (case persist_trace obj e config raw fs of (ok, trace) \<Rightarrow> (ok, last trace))"

text \<open>The monitor saves the metadata of every status that has some.\<close>

definition monitor_persist :: "json_fields \<Rightarrow> persist_env \<Rightarrow> Config \<Rightarrow> ServerStatus \<Rightarrow> files \<Rightarrow> files" where
  "monitor_persist obj e config status fs =
     (if sv_ForgeStatusFile (cfg_Server config) \<noteq> [] \<and> length (st_ForgeData status) \<noteq> 0
      then snd (persistForgeStatusSnapshot obj e config (st_ForgeData status) fs) else fs)"

section \<open>Paths and data\<close>

lemma forgeStatusPath_clean:
  assumes "forgeStatusPath config = Ok path"
  shows "Clean path = path" and "IsAbs (cfg_Path config) \<Longrightarrow> IsAbs path"
proof -
  have "IsAbs (Dir p) = IsAbs (rev (dropWhile (\<lambda>c. c \<noteq> CHR ''/'') (rev p)))" for p by (simp add: Dir_def)
  moreover have "IsAbs (rev (dropWhile (\<lambda>c. c \<noteq> CHR ''/'') (rev p)))" if p: "IsAbs p" for p
  proof -
    obtain q where q: "p = CHR ''/'' # q" using p by (cases p) (auto simp: IsAbs_def HasPrefix_def)
    have "\<exists>x. dropWhile (\<lambda>c. c \<noteq> CHR ''/'') (rev q @ ''/'') = x @ ''/''" by (induction "rev q" arbitrary: q) (auto simp: dropWhile_append)
    then show ?thesis using q by (auto simp: IsAbs_def HasPrefix_def)
  qed
  moreover have "IsAbs (Join_path [d, f])" if "IsAbs d" for d f
  proof -
    have "d \<noteq> []" "IsAbs (d @ CHR ''/'' # f)" using that by (cases d; simp add: IsAbs_def HasPrefix_def)+
    then show ?thesis by (simp add: Join_path_def)
  qed
  ultimately show "Clean path = path" "IsAbs (cfg_Path config) \<Longrightarrow> IsAbs path"
    using assms by (auto simp: forgeStatusPath_def Let_def Clean_idem split: if_splits)
qed

lemma TrimSpace_length: "length (TrimSpace s) \<le> length s"
  using TrimRight_prefix [of "TrimLeft_space s"] trim_prefixes_suffix [of "length s" space_encodings s]
  by (metis TrimLeft_space_def TrimSpace_sides le_trans prefix_length_le suffix_length_le)

lemma validate_again:
  assumes "validateForgeStatusData obj raw = Ok validated" and "obj [] = None"
    and "TrimSpace current = validated" and "length current \<le> maxForgeStatusFileSize"
  shows "validateForgeStatusData obj current = Ok validated \<and> current \<noteq> []"
proof -
  have v: "validated = TrimSpace raw" using assms(1) by (auto simp: validateForgeStatusData_def Let_def split: if_splits option.splits)
  have "obj validated \<noteq> None" using assms(1) v by (auto simp: validateForgeStatusData_def Let_def split: if_splits option.splits)
  moreover have "TrimSpace [] = []" by (simp add: TrimSpace_def)
  ultimately have "current \<noteq> []" using assms(2,3) by auto
  then show ?thesis
    using assms v by (auto simp: validateForgeStatusData_def Let_def split: if_splits option.splits)
qed


section \<open>Replacing the snapshot\<close>

text \<open>
  The state of the snapshot's path along the calls: the old one until the rename, the new data after it; no
  other path but the temporary one is touched, and that one is gone in the end.
\<close>

definition snapshot_safe :: "files \<Rightarrow> string option \<Rightarrow> string \<Rightarrow> string \<Rightarrow> files \<Rightarrow> bool" where
  "snapshot_safe fs tmpPath path validated fs' \<longleftrightarrow>
     (fs' path = fs path \<or> fs' path = Some (Regular validated)) \<and>
     (\<forall>other. other \<noteq> path \<longrightarrow> tmpPath \<noteq> Some other \<longrightarrow> fs' other = fs other)"

text \<open>\<^verbatim>\<open>os.CreateTemp\<close> creates a file that did not exist; the name pattern keeps it apart from the snapshot.\<close>

definition fresh_temp :: "persist_env \<Rightarrow> Config \<Rightarrow> files \<Rightarrow> bool" where
  "fresh_temp e config fs \<longleftrightarrow>
     (\<forall>tmp. px_CreateTemp e = Some tmp \<longrightarrow> forgeStatusPath config \<noteq> Ok tmp \<and> fs tmp = None)"

lemma replace_trace_safe:
  assumes "replace_trace e tmpPath path validated fs = (ok, trace)" and "tmpPath \<noteq> path" and "fs tmpPath = None"
  shows "(\<forall>fs' \<in> set trace. snapshot_safe fs (Some tmpPath) path validated fs') \<and> trace \<noteq> [] \<and>
    last trace = (if ok then fs(path \<mapsto> Regular validated) else fs)"
proof -
  have "fs(tmpPath := None) = fs" "fs(path \<mapsto> x, tmpPath := None) = fs(path \<mapsto> x)" for x using assms(2,3) by auto
  then show ?thesis
    using assms(1,2)
    by (auto simp: replace_trace_def snapshot_safe_def remove_file_def rename_file_def tmp_written_def Let_def
        split: if_splits)
qed

lemma persist_trace_safe:
  assumes "persist_trace obj e config raw fs = (ok, trace)"
    and "fresh_temp e config fs"
  shows "(\<forall>fs' \<in> set trace. \<forall>path. forgeStatusPath config = Ok path \<longrightarrow>
      snapshot_safe fs (px_CreateTemp e) path (TrimSpace raw) fs') \<and>
    trace \<noteq> [] \<and> (\<not> ok \<longrightarrow> last trace = fs) \<and>
    (ok \<longrightarrow> (\<exists>path. forgeStatusPath config = Ok path \<and>
       (last trace = fs(path \<mapsto> Regular (TrimSpace raw)) \<or>
        last trace = fs \<and> (\<exists>current. fs path = Some (Regular current) \<and> TrimSpace current = TrimSpace raw))))"
proof -
  have same: "snapshot_safe fs tmp path data fs" for tmp path data by (simp add: snapshot_safe_def)
  have v: "validated = TrimSpace raw" if "validateForgeStatusData obj raw = Ok validated" for validated
    using that by (auto simp: validateForgeStatusData_def Let_def split: if_splits option.splits)
  show ?thesis
  proof (cases "validateForgeStatusData obj raw")
    case (Ok validated)
    show ?thesis
    proof (cases "forgeStatusPath config")
      case path: (Ok path)
      show ?thesis
      proof (cases "\<exists>current. ReadFile (px_readable e) fs path = Some current \<and> TrimSpace current = validated")
        case True
        then show ?thesis using assms(1) Ok path v [OF Ok] same
          by (auto simp: persist_trace_def ReadFile_def split: option.splits node.splits if_splits)
      next
        case False
        then have "persist_trace obj e config raw fs =
            (case px_CreateTemp e of None \<Rightarrow> (False, [fs]) | Some tmp \<Rightarrow> replace_trace e tmp path validated fs)"
          using Ok path by (auto simp: persist_trace_def split: option.splits)
        then show ?thesis
          using assms path v [OF Ok] same replace_trace_safe [of e _ path validated fs ok trace]
          by (cases "px_CreateTemp e") (auto simp: fresh_temp_def split: if_splits)
      qed
    qed (use assms(1) Ok in \<open>auto simp: persist_trace_def\<close>)
  qed (use assms(1) same in \<open>auto simp: persist_trace_def\<close>)
qed

section \<open>Saving and loading\<close>

lemma persist_load:
  assumes "persistForgeStatusSnapshot obj e config raw fs = (True, fs')" and "obj [] = None"
    and "fresh_temp e config fs"
    and "\<And>path current. forgeStatusPath config = Ok path \<Longrightarrow> fs path = Some (Regular current) \<Longrightarrow>
      length current \<le> maxForgeStatusFileSize"
  shows "\<exists>st. loadForgeStatusSnapshot obj True True config fs' = Ok (Some st) \<and> st_ForgeData st = TrimSpace raw"
proof -
  obtain trace where t: "persist_trace obj e config raw fs = (True, trace)" "last trace = fs'"
    using assms(1) by (auto simp: persistForgeStatusSnapshot_def split: prod.splits)
  obtain path where p: "forgeStatusPath config = Ok path" and
    last: "fs' = fs(path \<mapsto> Regular (TrimSpace raw)) \<or>
      fs' = fs \<and> (\<exists>current. fs path = Some (Regular current) \<and> TrimSpace current = TrimSpace raw)"
    using persist_trace_safe [OF t(1) assms(3)] t(2) by auto
  obtain validated where ok: "validateForgeStatusData obj raw = Ok validated"
    using t(1) by (auto simp: persist_trace_def split: outcome.splits)
  then have v: "validated = TrimSpace raw" and size: "length raw \<le> maxForgeStatusFileSize"
    by (auto simp: validateForgeStatusData_def Let_def split: if_splits option.splits)
  obtain current where c: "fs' path = Some (Regular current)" "TrimSpace current = TrimSpace raw"
      "length current \<le> maxForgeStatusFileSize"
    using last assms(4) [OF p] le_trans [OF TrimSpace_length size] by auto
  have "validateForgeStatusData obj current = Ok validated \<and> current \<noteq> []"
    using validate_again [OF ok assms(2)] c v by simp
  then show ?thesis using p c(1,3) v by (simp add: loadForgeStatusSnapshot_def ReadFile_def)
qed

end
