(* ===== verification/Config_Load.thy ===== *)
theory Config_Load
  imports Go_Net Go_Files
begin

text \<open>
  \<^verbatim>\<open>config.go\<close>, loading a configuration: the values the source decodes itself, the comparison of versions and
  \<^verbatim>\<open>ConfigLoad\<close>. The decoder of the TOML library is a parameter: from the text and the defaults it makes a configuration
  and says which keys are defined, or fails. \<open>toml_value\<close> are the values it hands to an \<^verbatim>\<open>UnmarshalTOML\<close> method.

  Shown here: versions are ordered as the sequences of their numbers, missing numbers being zero; loading keeps the path and needs a
  command.
\<close>

section \<open>Values\<close>

datatype toml_value = TomlInt i64 | TomlString string | TomlTable "(string \<times> toml_value) list" | TomlOther

definition SocketAddr_UnmarshalTOML ::
  "(string \<Rightarrow> bytes option) \<Rightarrow> (string \<Rightarrow> bytes list option) \<Rightarrow> toml_value \<Rightarrow> SocketAddr outcome" where
  "SocketAddr_UnmarshalTOML parse_ip lookup_ip v =
     (case v of TomlString raw \<Rightarrow> resolveSocketAddr parse_ip lookup_ip raw | _ \<Rightarrow> Fail)"

fun table_int :: "(string \<times> toml_value) list \<Rightarrow> string \<Rightarrow> i64 option" where
  "table_int m key = (case map_of m key of Some (TomlInt n) \<Rightarrow> Some n | _ \<Rightarrow> None)"

definition Time_UnmarshalTOML :: "toml_value \<Rightarrow> TimeSection \<Rightarrow> TimeSection outcome" where
  "Time_UnmarshalTOML v t =
     (case v of
        TomlTable m \<Rightarrow>
          let t = (case table_int m ''sleep_after'' of Some v \<Rightarrow> t\<lparr>tm_SleepAfter := ucast v\<rparr> | None \<Rightarrow> t);
              t = (case table_int m ''min_online_time'' of Some v \<Rightarrow> t\<lparr>tm_MinOnlineTime := ucast v\<rparr> | None \<Rightarrow> t);
              t = (case table_int m ''minimum_online_time'' of Some v \<Rightarrow> t\<lparr>tm_MinOnlineTime := ucast v\<rparr> | None \<Rightarrow> t)
          in Ok t
      | _ \<Rightarrow> Fail)"

definition Method_UnmarshalTOML :: "toml_value \<Rightarrow> Method outcome" where
  "Method_UnmarshalTOML v =
     (case v of
        TomlString raw \<Rightarrow>
          let name = ToLower raw
          in if name = ''kick'' then Ok MethodKick
             else if name = ''hold'' then Ok MethodHold
             else if name = ''forward'' then Ok MethodForward
             else if name = ''lobby'' then Ok MethodLobby
             else Fail
      | _ \<Rightarrow> Fail)"

section \<open>Versions\<close>

definition configVersion :: string where "configVersion = ''0.2.11''"

text \<open>The loop; an index beyond the end of a list leaves its number at zero.\<close>

definition part_value :: "string list \<Rightarrow> int" where
  "part_value parts = (case parts of [] \<Rightarrow> 0 | p # _ \<Rightarrow> fst (ParseInt 64 p))"

function compare_parts :: "string list \<Rightarrow> string list \<Rightarrow> int" where
  "compare_parts pa pb =
     (if pa = [] \<and> pb = [] then 0
      else if part_value pa < part_value pb then -1
      else if part_value pa > part_value pb then 1
      else compare_parts (tl pa) (tl pb))"
  by pat_completeness auto
termination
  by (relation "measure (\<lambda>(pa, pb). length pa + length pb)") (auto simp: neq_Nil_conv)

declare compare_parts.simps [simp del]

definition compareVersions :: "string \<Rightarrow> string \<Rightarrow> int outcome" where
  "compareVersions a b =
     (let pa = split_on (CHR ''.'') a;
          pb = split_on (CHR ''.'') b
      in if length pa = 0 \<or> length pb = 0 then Fail else Ok (compare_parts pa pb))"

section \<open>Loading\<close>

type_synonym toml_decode = "string \<Rightarrow> Config \<Rightarrow> (Config \<times> (string list \<Rightarrow> bool)) option"

datatype config_warning = VersionUnknown | VersionInvalid | VersionOlder

definition version_warning :: "Config \<Rightarrow> config_warning option" where
  "version_warning config =
     (case cc_Version (cfg_Config config) of
        None \<Rightarrow> Some VersionUnknown
      | Some version \<Rightarrow>
          (case compareVersions version configVersion of
             Ok cmp \<Rightarrow> if cmp < 0 then Some VersionOlder else None
           | _ \<Rightarrow> Some VersionInvalid))"

definition ConfigLoad ::
  "toml_decode \<Rightarrow> bool \<Rightarrow> files \<Rightarrow> string \<Rightarrow> (Config \<times> config_warning option) outcome" where
  "ConfigLoad decode readable fs path =
     (case ReadFile readable fs path of
        None \<Rightarrow> Fail
      | Some data \<Rightarrow>
          (case decode data defaultConfig of
             None \<Rightarrow> Fail
           | Some (config, defined) \<Rightarrow>
               if \<not> defined [''server''] then Fail
               else if \<not> defined [''server'', ''command''] then Fail
               else Ok (config\<lparr>cfg_Path := path\<rparr>, version_warning config)))"

section \<open>The order of versions\<close>

definition numbers :: "string list \<Rightarrow> nat \<Rightarrow> int" where
  "numbers parts i = (if i < length parts then fst (ParseInt 64 (parts ! i)) else 0)"

definition version_numbers :: "string \<Rightarrow> nat \<Rightarrow> int" where
  "version_numbers v = numbers (split_on (CHR ''.'') v)"

text \<open>The reference: the first number that differs decides.\<close>

definition first_less :: "(nat \<Rightarrow> int) \<Rightarrow> (nat \<Rightarrow> int) \<Rightarrow> bool" where
  "first_less f g \<longleftrightarrow> (\<exists>i. f i < g i \<and> (\<forall>j < i. f j = g j))"

lemma first_less_asym: "first_less f g \<Longrightarrow> \<not> first_less g f"
  unfolding first_less_def by (metis less_asym less_irrefl linorder_neqE_nat)

lemma first_less_irrefl: "\<not> first_less f f"
  by (simp add: first_less_def)

lemma numbers_0: "numbers parts 0 = part_value parts"
  by (simp add: numbers_def part_value_def split: list.split)

lemma numbers_Suc: "numbers parts (Suc i) = numbers (tl parts) i"
  by (cases parts) (simp_all add: numbers_def)

lemma first_less_parts:
  "first_less (numbers pa) (numbers pb) \<longleftrightarrow>
   part_value pa < part_value pb \<or> part_value pa = part_value pb \<and> first_less (numbers (tl pa)) (numbers (tl pb))"
proof -
  have step: "(\<exists>i. P i) \<longleftrightarrow> P 0 \<or> (\<exists>i. P (Suc i))" for P :: "nat \<Rightarrow> bool" by (metis not0_implies_Suc)
  have "(\<exists>i. numbers pa i < numbers pb i \<and> (\<forall>j < i. numbers pa j = numbers pb j)) \<longleftrightarrow>
      numbers pa 0 < numbers pb 0 \<or> (\<exists>i. numbers pa (Suc i) < numbers pb (Suc i) \<and> (\<forall>j < Suc i. numbers pa j = numbers pb j))"
    by (subst step) simp
  then show ?thesis unfolding first_less_def by (auto simp: numbers_0 numbers_Suc All_less_Suc2)
qed

lemma compare_parts_cases:
  "compare_parts pa pb = (if first_less (numbers pa) (numbers pb) then -1 else if first_less (numbers pb) (numbers pa) then 1 else 0)"
proof (induction pa pb rule: compare_parts.induct)
  case (1 pa pb)
  show ?case
  proof (cases "pa = [] \<and> pb = []")
    case False
    then show ?thesis
      using "1.IH" [OF False] first_less_parts [of pa pb] first_less_parts [of pb pa] by (subst compare_parts.simps) auto
  qed (simp add: compare_parts.simps first_less_irrefl)
qed

lemma compareVersions_first:
  "compareVersions a b = Ok (if first_less (version_numbers a) (version_numbers b) then -1
     else if first_less (version_numbers b) (version_numbers a) then 1 else 0)"
  by (simp add: compareVersions_def compare_parts_cases version_numbers_def Let_def)

text \<open>Two versions are equal for the comparison when all their numbers are.\<close>

lemma first_less_total: "first_less f g \<or> first_less g f \<or> f = g"
proof (cases "f = g")
  case False
  then obtain k where "f k \<noteq> g k" by auto
  define i where "i = (LEAST k. f k \<noteq> g k)"
  have "f i \<noteq> g i" using \<open>f k \<noteq> g k\<close> unfolding i_def by (rule LeastI)
  moreover have "\<forall>j < i. f j = g j" unfolding i_def using not_less_Least by blast
  ultimately show ?thesis unfolding first_less_def by (metis linorder_neqE)
qed simp

text \<open>Versions as they are written: decimal numbers with dots between them.\<close>

definition version_text :: "nat list \<Rightarrow> string" where
  "version_text ns = join_with ''.'' (map dec_nat ns)"

lemma version_numbers_text:
  assumes "ns \<noteq> []" and "\<forall>n \<in> set ns. n < 2 ^ 63"
  shows "version_numbers (version_text ns) i = (if i < length ns then int (ns ! i) else 0)"
proof -
  have "CHR ''.'' \<notin> set (dec_nat n)" for n
    using dec_nat_digits [of n] by (auto simp: list_all_iff digit_def)
  then have split: "split_on (CHR ''.'') (version_text ns) = map dec_nat ns"
    unfolding version_text_def using assms(1) by (intro split_join) auto
  have "fst (ParseInt 64 (dec_nat n)) = int n" if "n < 2 ^ 63" for n
    using ParseInt_dec [of 64 "int n"] that by (simp add: dec_int_def)
  with split assms(2) show ?thesis by (simp add: version_numbers_def numbers_def)
qed

section \<open>What loading gives\<close>

lemma ConfigLoad_facts:
  assumes "ConfigLoad decode readable fs path = Ok (config, warning)"
  shows "cfg_Path config = path" and "isFile fs path" and "warning \<noteq> Some VersionInvalid"
    and "warning = None \<longleftrightarrow> (\<exists>v. cc_Version (cfg_Config config) = Some v \<and> \<not> first_less (version_numbers v) (version_numbers configVersion))"
proof -
  obtain data config0 defined where d: "ReadFile readable fs path = Some data" "decode data defaultConfig = Some (config0, defined)"
      "config = config0\<lparr>cfg_Path := path\<rparr>" "warning = version_warning config0"
    using assms by (auto simp: ConfigLoad_def split: option.splits if_splits)
  show "cfg_Path config = path" using d(3) by simp
  show "isFile fs path" using d(1) by (auto simp: ReadFile_def isFile_def split: option.splits node.splits)
  show "warning \<noteq> Some VersionInvalid" using d(4) by (simp add: version_warning_def compareVersions_first split: option.splits)
  show "warning = None \<longleftrightarrow> (\<exists>v. cc_Version (cfg_Config config) = Some v \<and> \<not> first_less (version_numbers v) (version_numbers configVersion))"
    using d(3,4) by (auto simp: version_warning_def compareVersions_first split: option.splits if_splits)
qed

end
