(* ===== verification/Command_Line.thy ===== *)
theory Command_Line
  imports Config_Load
begin

text \<open>
  \<^verbatim>\<open>cli.go\<close>, \<^verbatim>\<open>main.go\<close>, the configuration actions and the helpers of \<^verbatim>\<open>util/cli.go\<close> and \<^verbatim>\<open>util/error.go\<close>. A function that may end
  the process returns \<open>Exits\<close> with the exit code and the text it writes to standard output and standard error as it ends; the
  others return their value. Text is plain: \<^verbatim>\<open>isTerminal\<close> is a parameter of the functions that colour it.

  Shown here: the arguments are read the same wherever the flags stand, the last configuration flag counts, and what every
  command line ends in.
\<close>

datatype 'a process = Exits int string string | Returns 'a

fun then_run :: "'a process \<Rightarrow> ('a \<Rightarrow> 'b process) \<Rightarrow> 'b process" where
  "then_run (Exits code out err) f = Exits code out err"
| "then_run (Returns x) f = f x"

section \<open>Arguments\<close>

definition appName :: string where "appName = ''lazymc''"
definition appVersion :: string where "appVersion = ''0.2.11''"
definition appDescription :: string where "appDescription = ''Put your Minecraft server to rest when idle.''"
definition ConfigFile :: string where "ConfigFile = ''lazymc.toml''"

abbreviation newline :: string where "newline \<equiv> [CHR 0x0A]"

record parsedArgs =
  pa_subcommand :: string
  pa_subSubcommand :: string
  pa_config :: string

definition cliError :: "string \<Rightarrow> string \<Rightarrow> 'a process" where
  "cliError msg usage =
     Exits 2 [] (''error: '' @ msg @ newline @ (if usage \<noteq> [] then newline @ usage @ newline else []) @
       newline @ ''For more information, try '' @ [CHR 0x27] @ ''--help'' @ [CHR 0x27] @ ''.'' @ newline)"

definition usageLine :: "string \<Rightarrow> string" where
  "usageLine cmd =
     (if cmd = ''start'' then ''Usage: '' @ appName @ '' start [OPTIONS]''
      else if cmd = ''config'' then ''Usage: '' @ appName @ '' config [OPTIONS] <COMMAND>''
      else if cmd = ''config generate'' then ''Usage: '' @ appName @ '' config generate [OPTIONS]''
      else if cmd = ''config test'' then ''Usage: '' @ appName @ '' config test [OPTIONS]''
      else ''Usage: '' @ appName @ '' [OPTIONS] [COMMAND]'')"

definition lines_of :: "string list \<Rightarrow> string" where
  "lines_of ls = concat (map (\<lambda>l. l @ newline) ls)"

definition option_lines :: "string list" where
  "option_lines =
     [''Options:'', ''  -c, --config <FILE>  Use config file [default: lazymc.toml]'', ''  -h, --help           Print help'']"

definition help_text :: "string \<Rightarrow> string" where
  "help_text cmd =
     (let short = (\<lambda>title. lines_of ([title, [], usageLine cmd, []] @ option_lines))
      in if cmd = ''start'' then short ''Start lazymc and server (default)''
         else if cmd = ''config'' then
           lines_of ([''Config actions'', [], usageLine cmd, [], ''Commands:'', ''  generate  Generate config'',
             ''  test      Test config'', ''  help      Print this message or the help of the given subcommand(s)'', []] @ option_lines)
         else if cmd = ''config generate'' then short ''Generate config''
         else if cmd = ''config test'' then short ''Test config''
         else
           lines_of ([appDescription, [], usageLine cmd, [], ''Commands:'', ''  start   Start lazymc and server (default)'',
             ''  config  Config actions'', ''  help    Print this message or the help of the given subcommand(s)'', []] @ option_lines @
             [''  -V, --version        Print version'']))"

definition help_topic :: "string list \<Rightarrow> string" where
  "help_topic positional =
     (case positional of
        [] \<Rightarrow> ''root''
      | cmd # rest \<Rightarrow> (case rest of [] \<Rightarrow> cmd | sub # _ \<Rightarrow> if cmd = ''config'' then ''config '' @ sub else cmd))"

definition in_quotes :: "string \<Rightarrow> string" where "in_quotes s = [CHR 0x27] @ s @ [CHR 0x27]"

text \<open>The cases of an argument, in their order.\<close>

datatype argument = HelpFlag | VersionFlag | ConfigFlag | ConfigValue string | UnknownFlag | Positional

definition classify :: "string \<Rightarrow> argument" where
  "classify arg =
     (if arg = ''-h'' \<or> arg = ''--help'' then HelpFlag
      else if arg = ''-V'' \<or> arg = ''--version'' then VersionFlag
      else if arg = ''-c'' \<or> arg = ''--config'' \<or> arg = ''--cfg'' then ConfigFlag
      else if HasPrefix arg ''--config='' then ConfigValue (drop (length ''--config='') arg)
      else if HasPrefix arg ''-c='' then ConfigValue (drop (length ''-c='') arg)
      else if HasPrefix arg ''-'' \<and> arg \<noteq> ''-'' then UnknownFlag
      else Positional)"

definition missing_value :: "'a process" where
  "missing_value = cliError (''a value is required for '' @ in_quotes ''--config <FILE>'' @ '' but none was supplied'') []"

definition print_version :: "'a process" where
  "print_version = Exits 0 (appName @ '' '' @ appVersion @ newline) []"

definition unexpected :: "string \<Rightarrow> string \<Rightarrow> 'a process" where
  "unexpected arg cmd = cliError (''unexpected argument '' @ in_quotes arg @ '' found'') (usageLine cmd)"

text \<open>The loop over the arguments: the configuration path and the positional arguments.\<close>

fun parse_flags :: "string list \<Rightarrow> string \<Rightarrow> string list \<Rightarrow> (string \<times> string list) process" where
  "parse_flags [] config positional = Returns (config, positional)"
| "parse_flags (arg # args) config positional =
     (case classify arg of
        HelpFlag \<Rightarrow> Exits 0 (help_text (help_topic positional)) []
      | VersionFlag \<Rightarrow> print_version
      | ConfigFlag \<Rightarrow> (case args of [] \<Rightarrow> missing_value | f # rest \<Rightarrow> parse_flags rest f positional)
      | ConfigValue f \<Rightarrow> parse_flags args f positional
      | UnknownFlag \<Rightarrow> unexpected arg ''root''
      | Positional \<Rightarrow> parse_flags args config (positional @ [arg]))"

definition unrecognized :: "string \<Rightarrow> string \<Rightarrow> 'a process" where
  "unrecognized cmd context_cmd = cliError (''unrecognized subcommand '' @ in_quotes cmd) (usageLine context_cmd)"

definition parse_config_command :: "string \<Rightarrow> string list \<Rightarrow> parsedArgs process" where
  "parse_config_command config positional =
     (if length positional < 2 then Exits 2 (help_text ''config'') []
      else
        let sub = positional ! 1
        in then_run
             (if sub = ''generate'' \<or> sub = ''gen'' then Returns ''generate''
              else if sub = ''test'' then Returns ''test''
              else unrecognized sub ''config'')
             (\<lambda>subSubcommand.
                if 2 < length positional then unexpected (positional ! 2) (''config '' @ sub)
                else Returns \<lparr>pa_subcommand = ''config'', pa_subSubcommand = subSubcommand, pa_config = config\<rparr>))"

definition parseArgs :: "string list \<Rightarrow> parsedArgs process" where
  "parseArgs args =
     then_run (parse_flags args ConfigFile []) (\<lambda>(config, positional).
       let start = \<lparr>pa_subcommand = ''start'', pa_subSubcommand = [], pa_config = config\<rparr>
       in case positional of
            [] \<Rightarrow> Returns start
          | cmd # rest \<Rightarrow>
              if cmd = ''start'' \<or> cmd = ''run'' then
                (case rest of [] \<Rightarrow> Returns start | extra # _ \<Rightarrow> unexpected extra ''start'')
              else if cmd = ''config'' \<or> cmd = ''cfg'' then parse_config_command config positional
              else unrecognized cmd ''root'')"

section \<open>Errors and their hints\<close>

record ErrorHints =
  eh_info :: "string list"
  eh_config :: bool
  eh_configGenerate :: bool
  eh_configTest :: bool
  eh_verbose :: bool
  eh_help :: bool

definition DefaultErrorHints :: ErrorHints where
  "DefaultErrorHints =
     \<lparr>eh_info = [], eh_config = False, eh_configGenerate = False, eh_configTest = False, eh_verbose = True, eh_help = True\<rparr>"

definition any_hint :: "ErrorHints \<Rightarrow> bool" where
  "any_hint h \<longleftrightarrow> eh_config h \<or> eh_configGenerate h \<or> eh_configTest h \<or> eh_verbose h \<or> eh_help h"

definition colorize :: "bool \<Rightarrow> string \<Rightarrow> string \<Rightarrow> string" where
  "colorize isTerminal msg code = (if \<not> isTerminal then msg else code @ msg @ [CHR 0x1B] @ ''[0m'')"

definition Highlight :: "bool \<Rightarrow> string \<Rightarrow> string" where
  "Highlight isTerminal msg = colorize isTerminal msg ([CHR 0x1B] @ ''[33m'')"
definition HighlightError :: "bool \<Rightarrow> string \<Rightarrow> string" where
  "HighlightError isTerminal msg = colorize isTerminal msg ([CHR 0x1B] @ ''[31m'' @ [CHR 0x1B] @ ''[1m'')"
definition HighlightInfo :: "bool \<Rightarrow> string \<Rightarrow> string" where
  "HighlightInfo isTerminal msg = colorize isTerminal msg ([CHR 0x1B] @ ''[36m'')"

definition hints_text :: "bool \<Rightarrow> string \<Rightarrow> ErrorHints \<Rightarrow> bool \<Rightarrow> string" where
  "hints_text tty bin h endNewline =
     concat (map (\<lambda>msg. HighlightInfo tty ''info:'' @ '' '' @ msg @ newline) (eh_info h)) @
     (if \<not> any_hint h then []
      else newline @
        (if eh_configGenerate h
         then ''Use '' @ in_quotes (Highlight tty (bin @ '' config generate'')) @ '' to generate a new config file'' @ newline else []) @
        (if eh_config h then ''Use '' @ in_quotes (Highlight tty ''--config FILE'') @ '' to select a config file'' @ newline else []) @
        (if eh_configTest h
         then ''Use '' @ in_quotes (Highlight tty (bin @ '' config test -c FILE'')) @ '' to test a config file'' @ newline else []) @
        (if eh_verbose h then ''For a detailed log add '' @ in_quotes (Highlight tty ''--verbose'') @ newline else []) @
        (if eh_help h then ''For more information add '' @ in_quotes (Highlight tty ''--help'') @ newline else []) @
        (if endNewline then newline else []))"

text \<open>The messages of an error and of the errors it wraps, outermost first; at most 32 that are not empty are printed.\<close>

definition error_text :: "bool \<Rightarrow> string list \<Rightarrow> string" where
  "error_text tty msgs =
     (case take 32 (filter (\<lambda>m. m \<noteq> []) msgs) of
        [] \<Rightarrow> HighlightError tty ''error:'' @ '' an undefined error occurred'' @ newline
      | m # causes \<Rightarrow>
          HighlightError tty ''error:'' @ '' '' @ m @ newline @
          concat (map (\<lambda>c. HighlightError tty ''caused by:'' @ '' '' @ c @ newline) causes))"

definition QuitError :: "bool \<Rightarrow> string \<Rightarrow> string list \<Rightarrow> ErrorHints \<Rightarrow> 'a process" where
  "QuitError tty bin msgs hints = Exits 1 [] (error_text tty msgs @ hints_text tty bin hints False)"

section \<open>Questions\<close>

definition deriveBool :: "string \<Rightarrow> bool option" where
  "deriveBool input =
     (let input = ToLower (TrimSpace input)
      in if input \<in> {''y'', ''ye'', ''t'', ''1''} then Some True
         else if input \<in> {''n'', ''f'', ''0''} then Some False
         else if HasPrefix input ''yes'' \<or> HasPrefix input ''true'' then Some True
         else if HasPrefix input ''no'' \<or> HasPrefix input ''false'' then Some False
         else None)"

text \<open>The answers are the lines the user enters; the end of the input ends the process.\<close>

fun PromptYes :: "bool \<Rightarrow> string \<Rightarrow> bool option \<Rightarrow> string list \<Rightarrow> bool process" where
  "PromptYes tty bin def [] = QuitError tty bin [''failed to read input from prompt: EOF''] DefaultErrorHints"
| "PromptYes tty bin def (line # answers) =
     (let answer = TrimSpace line
      in case (answer = [], def) of
           (True, Some d) \<Rightarrow> Returns d
         | _ \<Rightarrow> (case deriveBool answer of Some b \<Rightarrow> Returns b | None \<Rightarrow> PromptYes tty bin def answers))"

section \<open>Actions\<close>

text \<open>\<open>ae_cause\<close> is the text of the error of a call that fails.\<close>

record action_env =
  ae_tty :: bool
  ae_bin :: string
  ae_cwd :: "string option"
  ae_readable :: bool
  ae_decode :: toml_decode
  ae_template :: string
  ae_written :: write_result
  ae_answers :: "string list"
  ae_cause :: string

text \<open>\<^verbatim>\<open>filepath.Abs\<close>; without a working directory the path stays as it is.\<close>

definition canonical :: "action_env \<Rightarrow> string \<Rightarrow> string" where
  "canonical e path =
     (if IsAbs path then Clean path else case ae_cwd e of Some cwd \<Rightarrow> Join_path [cwd, path] | None \<Rightarrow> path)"

definition invokeConfigGenerate :: "action_env \<Rightarrow> parsedArgs \<Rightarrow> files \<Rightarrow> unit process \<times> files" where
  "invokeConfigGenerate e args fs =
     (let path = canonical e (pa_config args);
          consent = (if isFile fs path then PromptYes (ae_tty e) (ae_bin e) (Some True) (ae_answers e) else Returns True)
      in case consent of
           Exits code out err \<Rightarrow> (Exits code out err, fs)
         | Returns False \<Rightarrow> (Exits 0 [] [], fs)
         | Returns True \<Rightarrow>
             (case WriteFile (ae_written e) path (ae_template e) fs of
                (False, fs) \<Rightarrow> (QuitError (ae_tty e) (ae_bin e) [''Failed to generate config file: '' @ ae_cause e, ae_cause e] DefaultErrorHints, fs)
              | (True, fs) \<Rightarrow> (Returns (), fs)))"

definition invokeConfigTest :: "action_env \<Rightarrow> parsedArgs \<Rightarrow> files \<Rightarrow> unit process" where
  "invokeConfigTest e args fs =
     (let path = canonical e (pa_config args)
      in if \<not> isFile fs path then
           QuitError (ae_tty e) (ae_bin e) [''Config file does not exist at: '' @ path] DefaultErrorHints
         else case ConfigLoad (ae_decode e) (ae_readable e) fs path of
           Ok _ \<Rightarrow> Returns ()
         | _ \<Rightarrow> QuitError (ae_tty e) (ae_bin e) [''Failed to load and parse config: '' @ ae_cause e, ae_cause e] DefaultErrorHints)"

definition LoadConfig :: "action_env \<Rightarrow> string \<Rightarrow> files \<Rightarrow> Config process" where
  "LoadConfig e path fs =
     (let path = canonical e path
      in if \<not> isFile fs path then
           QuitError (ae_tty e) (ae_bin e) [''Config file does not exist: '' @ path]
             (DefaultErrorHints\<lparr>eh_config := True, eh_configGenerate := True\<rparr>)
         else case ConfigLoad (ae_decode e) (ae_readable e) fs path of
           Ok (config, _) \<Rightarrow> Returns config
         | _ \<Rightarrow> QuitError (ae_tty e) (ae_bin e) [''Failed to load config: '' @ ae_cause e, ae_cause e]
                  (DefaultErrorHints\<lparr>eh_config := True, eh_configTest := True\<rparr>))"

datatype action = ConfigGenerate | ConfigTest | StartServer

definition main_action :: "parsedArgs \<Rightarrow> action process" where
  "main_action args =
     (if pa_subcommand args = ''config'' \<and> pa_subSubcommand args = ''generate'' then Returns ConfigGenerate
      else if pa_subcommand args = ''config'' \<and> pa_subSubcommand args = ''test'' then Returns ConfigTest
      else if pa_subcommand args = ''start'' then Returns StartServer
      else Exits 1 [] (''No action specified'' @ newline))"

definition main :: "string list \<Rightarrow> action process" where
  "main args = then_run (parseArgs args) main_action"

section \<open>Flags may stand anywhere\<close>

text \<open>An argument list as its meaning: words, and the ways to choose the configuration file.\<close>

datatype token = Word string | FileFlag string string | FileValue string string

fun token_args :: "token \<Rightarrow> string list" where
  "token_args (Word w) = [w]"
| "token_args (FileFlag flag f) = [flag, f]"
| "token_args (FileValue pre f) = [pre @ f]"

fun token_ok :: "token \<Rightarrow> bool" where
  "token_ok (Word w) = (classify w = Positional)"
| "token_ok (FileFlag flag f) = (flag \<in> {''-c'', ''--config'', ''--cfg''})"
| "token_ok (FileValue pre f) = (pre \<in> {''--config='', ''-c=''})"

fun token_words :: "token list \<Rightarrow> string list" where
  "token_words [] = []"
| "token_words (Word w # ts) = w # token_words ts"
| "token_words (_ # ts) = token_words ts"

fun token_file :: "string \<Rightarrow> token list \<Rightarrow> string" where
  "token_file config [] = config"
| "token_file config (Word w # ts) = token_file config ts"
| "token_file config (FileFlag flag f # ts) = token_file f ts"
| "token_file config (FileValue pre f # ts) = token_file f ts"

lemma classify_flags: "flag \<in> {''-c'', ''--config'', ''--cfg''} \<Longrightarrow> classify flag = ConfigFlag"
  by (auto simp: classify_def)

lemma classify_value:
  assumes "pre \<in> {''--config='', ''-c=''}"
  shows "classify (pre @ f) = ConfigValue f"
proof -
  from assms consider "pre = ''--config=''" | "pre = ''-c=''" by blast
  then show ?thesis by cases (simp_all add: classify_def HasPrefix_def)
qed

lemma parse_flags_tokens:
  "list_all token_ok ts \<Longrightarrow>
   parse_flags (concat (map token_args ts)) config positional = Returns (token_file config ts, positional @ token_words ts)"
proof (induction ts arbitrary: config positional)
  case (Cons t ts)
  then show ?case by (cases t) (simp_all add: classify_flags classify_value)
qed simp

lemma words_positional: "list_all token_ok ts \<Longrightarrow> parse_flags (token_words ts) config positional = Returns (config, positional @ token_words ts)"
proof (induction ts arbitrary: positional)
  case (Cons t ts)
  then show ?case by (cases t) simp_all
qed simp

lemma then_run_error [simp]: "then_run (cliError msg usage) f = cliError msg usage"
  by (simp add: cliError_def)

lemma parse_config_command_file:
  "parse_config_command config positional =
   then_run (parse_config_command config' positional) (\<lambda>a. Returns (a\<lparr>pa_config := config\<rparr>))"
  by (simp add: parse_config_command_def unexpected_def unrecognized_def Let_def)

lemma parseArgs_tokens:
  assumes "list_all token_ok ts"
  shows "parseArgs (concat (map token_args ts)) =
    then_run (parseArgs (token_words ts)) (\<lambda>a. Returns (a\<lparr>pa_config := token_file ConfigFile ts\<rparr>))"
  using parse_flags_tokens [OF assms, of ConfigFile "[]"] words_positional [OF assms, of ConfigFile "[]"]
    parse_config_command_file [of "token_file ConfigFile ts" "token_words ts" ConfigFile]
  by (cases "token_words ts") (auto simp: parseArgs_def Let_def unexpected_def unrecognized_def split: list.split)

section \<open>Every command line\<close>

text \<open>
  What a command line means that consists of words only: the action, or the usage error and the text it is reported with. \<open>stops\<close>
  describes the argument at which reading a command line ends before its last argument.
\<close>

definition words_result :: "string list \<Rightarrow> action process" where
  "words_result ws =
     (case ws of
        [] \<Rightarrow> Returns StartServer
      | cmd # rest \<Rightarrow>
          if cmd \<in> {''start'', ''run''} then (case rest of [] \<Rightarrow> Returns StartServer | x # _ \<Rightarrow> unexpected x ''start'')
          else if cmd \<in> {''config'', ''cfg''} then
            (case rest of
               [] \<Rightarrow> Exits 2 (help_text ''config'') []
             | sub # others \<Rightarrow>
                 if sub \<in> {''generate'', ''gen'', ''test''} then
                   (case others of
                      [] \<Rightarrow> Returns (if sub = ''test'' then ConfigTest else ConfigGenerate)
                    | x # _ \<Rightarrow> unexpected x (''config '' @ sub))
                 else unrecognized sub ''config'')
          else unrecognized cmd ''root'')"

definition stops :: "string list \<Rightarrow> bool" where
  "stops rest = (case rest of [] \<Rightarrow> True
     | arg # others \<Rightarrow> classify arg \<in> {HelpFlag, VersionFlag, UnknownFlag} \<or> classify arg = ConfigFlag \<and> others = [])"

lemma parse_flags_append:
  "list_all token_ok ts \<Longrightarrow>
   parse_flags (concat (map token_args ts) @ rest) config positional =
   parse_flags rest (token_file config ts) (positional @ token_words ts)"
proof (induction ts arbitrary: config positional)
  case (Cons t ts)
  then show ?case by (cases t) (simp_all add: classify_flags classify_value)
qed simp

lemma stop_flags:
  "classify arg = HelpFlag \<longleftrightarrow> arg \<in> {''-h'', ''--help''}" "classify arg = VersionFlag \<longleftrightarrow> arg \<in> {''-V'', ''--version''}"
  "classify arg = ConfigFlag \<longleftrightarrow> arg \<in> {''-c'', ''--config'', ''--cfg''}" "classify arg = UnknownFlag \<Longrightarrow> HasPrefix arg ''-''"
  by (auto simp: classify_def split: if_splits)

lemma classify_ConfigValue: "classify arg = ConfigValue f \<Longrightarrow> \<exists>pre \<in> {''--config='', ''-c=''}. arg = pre @ f"
  by (auto simp: classify_def HasPrefix_prefix prefix_def split: if_splits)

lemma token_split:
  assumes "\<not> stops (arg # args)"
  shows "\<exists>t rest. token_ok t \<and> arg # args = token_args t @ rest"
proof (cases "classify arg")
  case ConfigFlag
  then obtain f rest where "args = f # rest" using assms by (cases args) (auto simp: stops_def)
  then have "token_ok (FileFlag arg f) \<and> arg # args = token_args (FileFlag arg f) @ rest"
    using ConfigFlag by (simp add: stop_flags)
  then show ?thesis by blast
next
  case (ConfigValue f)
  from classify_ConfigValue [OF this] obtain pre where "pre \<in> {''--config='', ''-c=''}" "arg = pre @ f" by blast
  then have "token_ok (FileValue pre f) \<and> arg # args = token_args (FileValue pre f) @ args" by simp
  then show ?thesis by blast
next
  case Positional
  then have "token_ok (Word arg) \<and> arg # args = token_args (Word arg) @ args" by simp
  then show ?thesis by blast
qed (use assms in \<open>auto simp: stops_def\<close>)

lemma args_split: "\<exists>ts rest. args = concat (map token_args ts) @ rest \<and> list_all token_ok ts \<and> stops rest"
proof (induction args rule: length_induct)
  case (1 args)
  show ?case
  proof (cases "stops args")
    case True
    then show ?thesis by (intro exI [of _ "[]"] exI [of _ args]) simp
  next
    case False
    then obtain arg others where "args = arg # others" by (cases args) (auto simp: stops_def)
    with False token_split obtain t rest where t: "token_ok t" "args = token_args t @ rest" by blast
    moreover have "token_args t \<noteq> []" by (cases t) simp_all
    ultimately have "length rest < length args" by simp
    with 1 obtain ts rest' where "rest = concat (map token_args ts) @ rest'" "list_all token_ok ts" "stops rest'" by blast
    with t show ?thesis by (intro exI [of _ "t # ts"] exI [of _ rest']) simp
  qed
qed

lemma main_words:
  "parse_flags args ConfigFile [] = Returns (config, ws) \<Longrightarrow> main args = words_result ws"
  by (auto simp: main_def parseArgs_def words_result_def parse_config_command_def main_action_def unexpected_def
      unrecognized_def Let_def split: list.split)

lemma main_exits: "parse_flags args ConfigFile [] = Exits code out err \<Longrightarrow> main args = Exits code out err"
  by (simp add: main_def parseArgs_def)

lemma main_stopped:
  assumes "stops (flag # others)" and read: "parse_flags args ConfigFile [] = parse_flags (flag # others) config ws"
  shows "flag \<in> {''-h'', ''--help''} \<and> main args = Exits 0 (help_text (help_topic ws)) [] \<or>
    flag \<in> {''-V'', ''--version''} \<and> main args = Exits 0 (''lazymc 0.2.11'' @ newline) [] \<or>
    flag \<in> {''-c'', ''--config'', ''--cfg''} \<and> others = [] \<and> main args = missing_value \<or>
    classify flag = UnknownFlag \<and> HasPrefix flag ''-'' \<and> main args = unexpected flag ''root''"
proof -
  from assms(1) consider "classify flag = HelpFlag" | "classify flag = VersionFlag" | "classify flag = UnknownFlag"
    | "classify flag = ConfigFlag" "others = []" by (auto simp: stops_def)
  then show ?thesis
  proof cases
    case 1
    then show ?thesis using read main_exits [of args] stop_flags(1) [of flag] by simp
  next
    case 2
    then show ?thesis
      using read main_exits [of args] stop_flags(2) [of flag]
      by (simp add: print_version_def appName_def appVersion_def)
  next
    case 3
    then show ?thesis
      using read main_exits [of args] stop_flags(4) [of flag] by (simp add: unexpected_def cliError_def)
  next
    case 4
    then show ?thesis
      using read main_exits [of args] stop_flags(3) [of flag] by (simp add: missing_value_def cliError_def)
  qed
qed

section \<open>Generating asks first\<close>

lemma PromptYes_no:
  assumes "deriveBool (TrimSpace line) = Some False" and "TrimSpace line \<noteq> []"
  shows "PromptYes tty bin def (line # answers) = Returns False"
  using assms by (simp add: Let_def)

lemma generate_keeps_refused:
  assumes "isFile fs (canonical e (pa_config args))" and "ae_answers e = line # answers" and "TrimSpace line \<noteq> []"
    and "deriveBool (TrimSpace line) = Some False"
  shows "invokeConfigGenerate e args fs = (Exits 0 [] [], fs)"
  using assms PromptYes_no [OF assms(4,3)] by (simp add: invokeConfigGenerate_def del: PromptYes.simps)

lemma generate_other_files:
  assumes "invokeConfigGenerate e args fs = (r, fs')" and "p \<noteq> canonical e (pa_config args)"
  shows "fs' p = fs p"
  using assms by (auto simp: invokeConfigGenerate_def WriteFile_def Let_def
      split: process.splits bool.splits write_result.splits if_splits)

lemma generated_config_tests:
  assumes "invokeConfigGenerate e args fs = (Returns (), fs')" and "ae_readable e"
    and "ae_decode e (ae_template e) defaultConfig = Some (config, defined)"
    and "defined [''server'']" and "defined [''server'', ''command'']"
  shows "invokeConfigTest e args fs' = Returns ()"
proof -
  have "fs' (canonical e (pa_config args)) = Some (Regular (ae_template e))"
    using assms(1) by (auto simp: invokeConfigGenerate_def WriteFile_def QuitError_def Let_def
        split: process.splits bool.splits write_result.splits if_splits)
  then show ?thesis using assms(2-5) by (simp add: invokeConfigTest_def isFile_def ConfigLoad_def ReadFile_def Let_def)
qed

text \<open>The hint that every error prints names a flag that no command takes.\<close>

lemma verbose_hint_rejected:
  "eh_verbose DefaultErrorHints" "parseArgs [''start'', ''--verbose''] = unexpected ''--verbose'' ''root''"
proof -
  have "classify ''start'' = Positional" "classify ''--verbose'' = UnknownFlag" by (simp_all add: classify_def HasPrefix_def)
  then show "parseArgs [''start'', ''--verbose''] = unexpected ''--verbose'' ''root''" by (simp add: parseArgs_def unexpected_def)
qed (simp add: DefaultErrorHints_def)

end
