(* ===== verification/Start_Action.thy ===== *)
theory Start_Action
  imports Start_Up Forge_Status Command_Line
begin

text \<open>
  \<^verbatim>\<open>invokeStart\<close> of \<^verbatim>\<open>action_start.go\<close>: loading the configuration, preparing RCON, rewriting the backend's properties and
  starting the service, in this order. \<open>StartQuit\<close> is an exit with an error message; an error that \<^verbatim>\<open>Service\<close> returns is dropped
  by the caller, so the process ends without a message.

  Shown here: the order matters, since the properties of the backend are rewritten before the service refuses a
  configuration that forbids it.
\<close>

record start_env =
  sx_action :: action_env
  sx_draw :: "nat \<Rightarrow> nat option"
  sx_iter :: "changes \<Rightarrow> changes"
  sx_readable :: bool
  sx_written :: write_result
  sx_object :: json_fields
  sx_secret_ok :: bool
  sx_env :: env

datatype start_result = StartQuit | StartPanic | StartService "(world \<times> connectionAdmission) outcome"

definition invokeStart :: "start_env \<Rightarrow> parsedArgs \<Rightarrow> files \<Rightarrow> start_result \<times> files" where
  "invokeStart x args fs =
     (case LoadConfig (sx_action x) (pa_config args) fs of
        Exits code out err \<Rightarrow> (StartQuit, fs)
      | Returns config \<Rightarrow>
          (case prepareRcon (sx_draw x) config of
             Fail \<Rightarrow> (StartQuit, fs)
           | Panic \<Rightarrow> (StartPanic, fs)
           | Ok config \<Rightarrow>
               let fs = rewriteServerProperties (sx_iter x) (sx_readable x) (sx_written x) config fs
               in (StartService (Service_init (sx_secret_ok x)
                     (loadForgeStatusSnapshot (sx_object x) (sx_readable x) (sx_readable x) config fs) (sx_env x) config), fs)))"

lemma invokeStart_refused:
  assumes "LoadConfig (sx_action x) (pa_config args) fs = Returns config"
    and "ControllerManaged config" and "ad_RewriteServerProperties (cfg_Advanced config)" and "\<not> rc_Enabled (cfg_Rcon config)"
    and "CHR 0x0A \<notin> set (rc_Password (cfg_Rcon config))"
    and "dir = ServerDirectory config" and "dir \<noteq> []" and "fs dir = Some Directory"
    and "file = Join_path [dir, ServerPropertiesFile_name]" and "fs file = Some (Regular contents)"
    and "\<And>cs. distinct cs \<Longrightarrow> distinct (sx_iter x cs) \<and> set (sx_iter x cs) = set cs"
    and "sx_readable x" and "sx_written x = WriteOk"
  shows "\<exists>new. invokeStart x args fs = (StartService Fail, fs(file \<mapsto> Regular new)) \<and>
    ReadServerProperties (Some new) ''server-ip'' = Some (IP_String (sa_IP (sv_Address (cfg_Server config)))) \<and>
    ReadServerProperties (Some new) ''server-port'' = Some (dec_int (sa_Port (sv_Address (cfg_Server config))))"
proof -
  have prep: "prepareRcon (sx_draw x) config = Ok config" using assms(4) by (simp add: prepareRcon_def)
  have "distinct (startup_changes config)" using startup_changes_distinct by (metis distinct_map)
  with assms(11) have perm: "distinct (sx_iter x (startup_changes config)) \<and> set (sx_iter x (startup_changes config)) = set (startup_changes config)"
    by blast
  obtain new where new: "rewriteServerProperties (sx_iter x) True WriteOk config fs = fs(file \<mapsto> Regular new)"
    and read: "\<And>p. ReadServerProperties (Some new) p =
      (case map_of (startup_changes config) (ToLower p) of
         Some v \<Rightarrow> Some (TrimSpace v) | None \<Rightarrow> ReadServerProperties (Some contents) p)"
    using rewriteServerProperties_read [of config fs "file" contents "sx_iter x"] assms(3,5-10) perm by auto
  have low: "ToLower ''server-ip'' = ''server-ip''" "ToLower ''server-port'' = ''server-port''" by code_simp+
  have "Service_init s snap env config = Fail" for s snap env
    using assms(2,3) by (simp add: Service_init_def validateControllerManagedConfig_def)
  then show ?thesis
    using assms(1,12,13) prep new
    by (intro exI [of _ new])
      (simp add: invokeStart_def Let_def read low startup_values TrimSpace_visible dec_int_visible IP_String_visible)
qed

end
