(* ===== verification/Server_Files.thy ===== *)
theory Server_Files
  imports Files Start_Up Probe
begin

text \<open>
  The files of a server directory behind \<open>Files\<close> and \<open>Serve\<close>: the loaders of \<^verbatim>\<open>mc/whitelist.go\<close> and \<^verbatim>\<open>mc/ban.go\<close>, the icon of
  \<^verbatim>\<open>status.go\<close> and \<^verbatim>\<open>mc/favicon.go\<close>, and the tasks of \<^verbatim>\<open>service_tasks.go\<close> that use them. \<open>read_server_dir\<close> is the directory as \<open>Files\<close> sees
  it. Decoding JSON into entries is a parameter, as is the time of a file's last change.

  Shown here: the icon a client receives decodes to the bytes of the file; the watcher puts the lists of the
  directory in force and keeps them there; and the gateway does not wake the server at its start unless it is told to probe.
\<close>

section \<open>Loading the lists\<close>

record whitelistUser =
  wu_Username :: string
  wu_UUID :: "string option"

record opUser =
  ou_Username :: string
  ou_UUID :: "string option"
  ou_Level :: "u32 option"
  ou_BypassesPlayerLimit :: "bool option"

record entry_decoders =
  ed_whitelist :: "string \<Rightarrow> whitelistUser list option"
  ed_ops :: "string \<Rightarrow> opUser list option"
  ed_bans :: "string \<Rightarrow> BannedIp list option"

definition loadWhitelist :: "entry_decoders \<Rightarrow> bool \<Rightarrow> files \<Rightarrow> string \<Rightarrow> string list outcome" where
  "loadWhitelist j readable fs path =
     (case ReadFile readable fs path of
        None \<Rightarrow> Fail
      | Some contents \<Rightarrow>
          (case ed_whitelist j contents of
             None \<Rightarrow> Fail
           | Some users \<Rightarrow> Ok (map wu_Username users)))"

definition loadOps :: "entry_decoders \<Rightarrow> bool \<Rightarrow> files \<Rightarrow> string \<Rightarrow> string list outcome" where
  "loadOps j readable fs path =
     (case ReadFile readable fs path of
        None \<Rightarrow> Fail
      | Some contents \<Rightarrow>
          (case ed_ops j contents of
             None \<Rightarrow> Fail
           | Some users \<Rightarrow> Ok (map ou_Username users)))"

definition decode_bans :: "entry_decoders \<Rightarrow> bool \<Rightarrow> files \<Rightarrow> string \<Rightarrow> BannedIp list outcome" where
  "decode_bans j readable fs path =
     (case ReadFile readable fs path of
        None \<Rightarrow> Fail
      | Some contents \<Rightarrow> (case ed_bans j contents of None \<Rightarrow> Fail | Some ips \<Rightarrow> Ok ips))"

fun watched_name :: "watched \<Rightarrow> string" where
  "watched_name BanFile = ''banned-ips.json''"
| "watched_name WhitelistFile = ''whitelist.json''"
| "watched_name OpsFile = ''ops.json''"
| "watched_name ServerPropertiesFile = ''server.properties''"

definition watched_path :: "string \<Rightarrow> watched \<Rightarrow> string" where
  "watched_path dir w = Join_path [dir, watched_name w]"

definition read_server_dir :: "entry_decoders \<Rightarrow> bool \<Rightarrow> files \<Rightarrow> string \<Rightarrow> server_dir" where
  "read_server_dir j readable fs dir =
     (let load = (\<lambda>w f. if isFile fs (watched_path dir w) then Some (f (watched_path dir w)) else None)
      in \<lparr>sd_props = ReadFile readable fs (watched_path dir ServerPropertiesFile),
          sd_bans = load BanFile (decode_bans j readable fs),
          sd_whitelist = (if isFile fs (watched_path dir WhitelistFile)
                          then Some (loadWhitelist j readable fs (watched_path dir WhitelistFile)) else None),
          sd_ops = (if isFile fs (watched_path dir OpsFile)
                    then Some (loadOps j readable fs (watched_path dir OpsFile)) else None)\<rparr>)"

section \<open>The watcher\<close>

text \<open>\<open>mtime\<close> is the time of the last change of a file.\<close>

definition currentFileState :: "(string \<Rightarrow> int) \<Rightarrow> files \<Rightarrow> string \<Rightarrow> fileState" where
  "currentFileState mtime fs path =
     (case fs path of
        Some (Regular data) \<Rightarrow> \<lparr>fs_exists = True, fs_mtime = mtime path, fs_size = int (length data)\<rparr>
      | _ \<Rightarrow> \<lparr>fs_exists = False, fs_mtime = 0, fs_size = 0\<rparr>)"

text \<open>
  What the watcher finds: the files and their times when it reloads, when it records their states, and in each round.
\<close>

type_synonym disk = "files \<times> (string \<Rightarrow> int)"

definition disk_states :: "string \<Rightarrow> disk \<Rightarrow> watched \<Rightarrow> fileState" where
  "disk_states dir d w = currentFileState (snd d) (fst d) (watched_path dir w)"

definition disk_dir :: "entry_decoders \<Rightarrow> bool \<Rightarrow> string \<Rightarrow> disk \<Rightarrow> server_dir" where
  "disk_dir j readable dir d = read_server_dir j readable (fst d) dir"

fun watch_rounds ::
  "entry_decoders \<Rightarrow> bool \<Rightarrow> Config \<Rightarrow> string \<Rightarrow> disk list \<Rightarrow> (watched \<Rightarrow> fileState) \<times> ServerState \<Rightarrow>
   (watched \<Rightarrow> fileState) \<times> ServerState" where
  "watch_rounds j readable config dir [] st = st"
| "watch_rounds j readable config dir (d # ds) st =
     watch_rounds j readable config dir ds (watch_round config (disk_dir j readable dir d) (disk_states dir d) st)"

definition watchServer ::
  "entry_decoders \<Rightarrow> bool \<Rightarrow> Config \<Rightarrow> string \<Rightarrow> disk \<Rightarrow> disk list \<Rightarrow> ServerState \<Rightarrow> ServerState" where
  "watchServer j readable config dir recorded ds server =
     (if \<not> isDir (fst recorded) dir then server
      else snd (watch_rounds j readable config dir ds (disk_states dir recorded, server)))"

text \<open>\<^verbatim>\<open>watchServer\<close> returns only when the directory is missing, and the loop then ends: it runs once.\<close>

definition fileWatcherService ::
  "entry_decoders \<Rightarrow> bool \<Rightarrow> Config \<Rightarrow> disk \<Rightarrow> disk \<Rightarrow> disk list \<Rightarrow> ServerState \<Rightarrow> ServerState" where
  "fileWatcherService j readable config found recorded ds server =
     (let dir = ServerDirectory config
      in if \<not> isDir (fst found) dir then server
         else
           let server = reloadBans config (disk_dir j readable dir found) server;
               server = reloadWhitelist config (disk_dir j readable dir found) server
           in watchServer j readable config dir recorded ds server)"

section \<open>Probing at the start\<close>

definition probeMustProbe :: "Config \<Rightarrow> bool" where
  "probeMustProbe config = sv_ProbeOnStart (cfg_Server config)"

definition probeService ::
  "probe_env \<Rightarrow> env \<Rightarrow> bool \<Rightarrow> bool \<Rightarrow> Config \<Rightarrow> State list \<Rightarrow> (script \<times> sink) option \<Rightarrow> world \<Rightarrow> world" where
  "probeService e env timedOut joinTimedOut config states dial w =
     (if \<not> probeMustProbe config then w else snd (Probe e env timedOut joinTimedOut config states dial w))"

section \<open>The icon\<close>

definition base64_alphabet :: string where
  "base64_alphabet = ''ABCDEFGHIJKLMNOPQRSTUVWXYZabcdefghijklmnopqrstuvwxyz0123456789+/''"

definition sextet :: "nat \<Rightarrow> char" where "sextet n = base64_alphabet ! (n mod 64)"

fun EncodeToString :: "bytes \<Rightarrow> string" where
  "EncodeToString [] = []"
| "EncodeToString [a] =
     (let n = unat a * 65536 in [sextet (n div 262144), sextet (n div 4096), CHR ''='', CHR ''=''])"
| "EncodeToString [a, b] =
     (let n = unat a * 65536 + unat b * 256
      in [sextet (n div 262144), sextet (n div 4096), sextet (n div 64), CHR ''=''])"
| "EncodeToString (a # b # c # bs) =
     (let n = unat a * 65536 + unat b * 256 + unat c
      in [sextet (n div 262144), sextet (n div 4096), sextet (n div 64), sextet n] @ EncodeToString bs)"

definition EncodeFavicon :: "bytes \<Rightarrow> string" where
  "EncodeFavicon data = ''data:image/png;base64,'' @ EncodeToString data"

text \<open>\<open>png\<close> is the embedded icon.\<close>

definition DefaultFavicon :: "bytes \<Rightarrow> string" where
  "DefaultFavicon png = EncodeFavicon png"

definition serverIconFile :: string where "serverIconFile = ''server-icon.png''"

definition serverFavicon :: "bytes \<Rightarrow> bool \<Rightarrow> Config \<Rightarrow> files \<Rightarrow> string" where
  "serverFavicon png readable config fs =
     (let path = Join_path [ServerDirectory config, serverIconFile]
      in if \<not> isFile fs path then DefaultFavicon png
         else case ReadFile readable fs path of
           None \<Rightarrow> DefaultFavicon png
         | Some data \<Rightarrow> EncodeFavicon (bytes_of_string data))"

section \<open>The icon can be read back\<close>

text \<open>The reference decoder: groups of four characters, the last one padded.\<close>

definition char_value :: "char \<Rightarrow> nat" where
  "char_value c = (case index_of c base64_alphabet of Some i \<Rightarrow> i | None \<Rightarrow> 0)"

definition group_value :: "char \<Rightarrow> char \<Rightarrow> char \<Rightarrow> char \<Rightarrow> nat" where
  "group_value p q r s = char_value p * 262144 + char_value q * 4096 + char_value r * 64 + char_value s"

fun DecodeString :: "string \<Rightarrow> bytes" where
  "DecodeString (p # q # r # s # rest) =
     (let n = group_value p q r s
      in (if r = CHR ''='' then [word_of_nat (n div 65536)]
          else if s = CHR ''='' then [word_of_nat (n div 65536), word_of_nat (n div 256)]
          else [word_of_nat (n div 65536), word_of_nat (n div 256), word_of_nat n]) @ DecodeString rest)"
| "DecodeString _ = []"

lemma index_of_nth: "distinct xs \<Longrightarrow> i < length xs \<Longrightarrow> index_of (xs ! i) xs = Some i"
proof (induction xs arbitrary: i)
  case (Cons x xs)
  then show ?case by (cases i) auto
qed simp

lemma alphabet_facts: "distinct base64_alphabet" "length base64_alphabet = 64" "CHR ''='' \<notin> set base64_alphabet"
  by (simp_all add: base64_alphabet_def)

lemma sextet_value: "char_value (sextet n) = n mod 64" "sextet n \<noteq> CHR ''=''" "char_value (CHR ''='') = 0"
proof -
  have i: "n mod 64 < length base64_alphabet" by (simp add: alphabet_facts)
  show "char_value (sextet n) = n mod 64" using index_of_nth [OF alphabet_facts(1) i] by (simp add: char_value_def sextet_def)
  show "sextet n \<noteq> CHR ''=''" using nth_mem [OF i] alphabet_facts(3) by (auto simp: sextet_def)
  show "char_value (CHR ''='') = 0" by code_simp
qed

lemma sextets:
  fixes n :: nat
  assumes "n < 16777216"
  shows "(n div 262144) mod 64 * 262144 + (n div 4096) mod 64 * 4096 + (n div 64) mod 64 * 64 + n mod 64 = n"
proof -
  have "n div 262144 < 64" using assms by (simp add: less_mult_imp_div_less)
  then have top: "(n div 262144) mod 64 = n div 262144" by simp
  have "n div 4096 = n div 262144 * 64 + (n div 4096) mod 64"
    using div_mult_mod_eq [of "n div 4096" 64] by (simp add: div_mult2_eq [symmetric])
  moreover have "n div 64 = n div 4096 * 64 + (n div 64) mod 64"
    using div_mult_mod_eq [of "n div 64" 64] by (simp add: div_mult2_eq [symmetric])
  moreover have "n = n div 64 * 64 + n mod 64" by simp
  ultimately show ?thesis unfolding top by linarith
qed

lemma byte_group:
  fixes a b c :: byte
  defines "n \<equiv> unat a * 65536 + unat b * 256 + unat c"
  shows "n < 16777216" and "(word_of_nat (n div 65536) :: byte) = a" and "(word_of_nat (n div 256) :: byte) = b"
    and "(word_of_nat n :: byte) = c"
proof -
  have u: "unat a < 256" "unat b < 256" "unat c < 256"
    using unsigned_less [of a, where ?'a = nat] unsigned_less [of b, where ?'a = nat] unsigned_less [of c, where ?'a = nat] by simp_all
  then show "n < 16777216" unfolding n_def by linarith
  have "n div 65536 = unat a" using u unfolding n_def by (intro div_nat_eqI) simp_all
  then show "(word_of_nat (n div 65536) :: byte) = a" by simp
  have "n div 256 = unat a * 256 + unat b" using u unfolding n_def by (intro div_nat_eqI) simp_all
  moreover have "(word_of_nat (unat a * 256 + unat b) :: byte) = word_of_nat (unat b)"
    by (simp only: word_of_nat_eq_iff) (simp add: take_bit_eq_mod)
  ultimately show "(word_of_nat (n div 256) :: byte) = b" by simp
  have "n = unat c + 256 * (unat a * 256 + unat b)" unfolding n_def by simp
  then have "n mod 256 = unat c mod 256" by (simp only: mod_mult_self2)
  then have "(word_of_nat n :: byte) = word_of_nat (unat c)" by (simp only: word_of_nat_eq_iff) (simp add: take_bit_eq_mod)
  then show "(word_of_nat n :: byte) = c" by simp
qed

lemma DecodeString_EncodeToString: "DecodeString (EncodeToString bs) = bs"
proof (induction bs rule: EncodeToString.induct)
  case (2 a)
  note g = byte_group [of a 0 0]
  have low: "(unat a * 65536 div 64) mod 64 = 0" "unat a * 65536 mod 64 = 0" by simp_all
  have "group_value (sextet (unat a * 65536 div 262144)) (sextet (unat a * 65536 div 4096)) (CHR ''='') (CHR ''='') = unat a * 65536"
    using sextets [of "unat a * 65536"] g(1) unfolding group_value_def sextet_value low by simp
  then show ?case using g by (simp add: Let_def)
next
  case (3 a b)
  note g = byte_group [of a b 0]
  let ?n = "unat a * 65536 + unat b * 256"
  have low: "?n mod 64 = 0" by simp
  have "group_value (sextet (?n div 262144)) (sextet (?n div 4096)) (sextet (?n div 64)) (CHR ''='') = ?n"
    using sextets [of ?n] g(1) unfolding group_value_def sextet_value low by simp
  then show ?case using g by (simp add: Let_def sextet_value)
next
  case (4 a b c bs)
  note g = byte_group [of a b c]
  let ?n = "unat a * 65536 + unat b * 256 + unat c"
  have "group_value (sextet (?n div 262144)) (sextet (?n div 4096)) (sextet (?n div 64)) (sextet ?n) = ?n"
    unfolding group_value_def sextet_value by (rule sextets [OF g(1)])
  then show ?case using g 4 by (simp add: Let_def sextet_value)
qed simp

section \<open>The watcher keeps the lists of the directory in force\<close>

definition bans_on_disk :: "server_dir \<Rightarrow> BannedIps option" where
  "bans_on_disk dir =
     (case sd_bans dir of None \<Rightarrow> Some NewBannedIps | Some (Ok ips) \<Rightarrow> Some (LoadBannedIps ips) | Some _ \<Rightarrow> None)"

lemma reloadBans_in_force:
  "ss_banned (reloadBans config dir server) =
     (if sv_BlockBannedIps (cfg_Server config) \<or> sv_DropBannedIps (cfg_Server config)
      then (case bans_on_disk dir of Some b \<Rightarrow> b | None \<Rightarrow> ss_banned server) else ss_banned server)"
  by (auto simp: reloadBans_def bans_on_disk_def SetBannedIPs_def split: option.splits outcome.splits)

text \<open>The lists in force are those of a directory, as far as they can be read there.\<close>

definition lists_in_force :: "Config \<Rightarrow> server_dir \<Rightarrow> ServerState \<Rightarrow> bool" where
  "lists_in_force config dir server \<longleftrightarrow>
     (sv_WakeWhitelist (cfg_Server config) \<longrightarrow> (\<forall>w. whitelist_on_disk dir = Some w \<longrightarrow> ss_whitelist server = w)) \<and>
     (sv_BlockBannedIps (cfg_Server config) \<or> sv_DropBannedIps (cfg_Server config) \<longrightarrow>
        (\<forall>b. bans_on_disk dir = Some b \<longrightarrow> ss_banned server = b))"

text \<open>What a file holds; times and sizes are honest when equal ones mean that the file holds the same.\<close>

definition file_contents :: "files \<Rightarrow> string \<Rightarrow> string option" where
  "file_contents fs path = (case fs path of Some (Regular data) \<Rightarrow> Some data | _ \<Rightarrow> None)"

definition honest_stats :: "string \<Rightarrow> disk \<Rightarrow> disk \<Rightarrow> bool" where
  "honest_stats dir d d' \<longleftrightarrow>
     (\<forall>w. disk_states dir d w = disk_states dir d' w \<longrightarrow>
        file_contents (fst d) (watched_path dir w) = file_contents (fst d') (watched_path dir w))"

definition honest :: "string \<Rightarrow> disk list \<Rightarrow> bool" where
  "honest dir ds \<longleftrightarrow> (\<forall>d \<in> set ds. \<forall>d' \<in> set ds. honest_stats dir d d')"

lemma honest_tl: "honest dir (d # ds) \<Longrightarrow> honest dir ds" and honest_pair: "honest dir (d # d' # ds) \<Longrightarrow> honest_stats dir d d'"
  by (simp_all add: honest_def)

lemma contents_readers:
  assumes "file_contents fs path = file_contents fs' path"
  shows "isFile fs path = isFile fs' path" and "ReadFile readable fs path = ReadFile readable fs' path"
  using assms by (auto simp: file_contents_def isFile_def ReadFile_def split: option.splits node.splits)

lemma whitelist_on_disk_cong:
  assumes "\<forall>w \<in> {WhitelistFile, OpsFile, ServerPropertiesFile}.
    file_contents (fst d) (watched_path dir w) = file_contents (fst d') (watched_path dir w)"
  shows "whitelist_on_disk (disk_dir j readable dir d) = whitelist_on_disk (disk_dir j readable dir d')"
proof -
  have "isFile (fst d) (watched_path dir w) = isFile (fst d') (watched_path dir w)"
    "ReadFile readable (fst d) (watched_path dir w) = ReadFile readable (fst d') (watched_path dir w)"
    if "w \<in> {WhitelistFile, OpsFile, ServerPropertiesFile}" for w
    using contents_readers [of "fst d" "watched_path dir w" "fst d'"] assms that by blast+
  then have "sd_props (disk_dir j readable dir d) = sd_props (disk_dir j readable dir d')"
    "sd_whitelist (disk_dir j readable dir d) = sd_whitelist (disk_dir j readable dir d')"
    "sd_ops (disk_dir j readable dir d) = sd_ops (disk_dir j readable dir d')"
    by (simp_all add: disk_dir_def read_server_dir_def Let_def loadWhitelist_def loadOps_def)
  moreover from this have "LoadWhitelistDir (disk_dir j readable dir d) = LoadWhitelistDir (disk_dir j readable dir d')"
    by (simp add: LoadWhitelistDir_def split: outcome.split)
  ultimately show ?thesis by (simp add: whitelist_on_disk_def whitelist_enabled_def)
qed

lemma bans_on_disk_cong:
  assumes "file_contents (fst d) (watched_path dir BanFile) = file_contents (fst d') (watched_path dir BanFile)"
  shows "bans_on_disk (disk_dir j readable dir d) = bans_on_disk (disk_dir j readable dir d')"
  using contents_readers [OF assms]
  by (simp add: bans_on_disk_def disk_dir_def read_server_dir_def decode_bans_def Let_def)

text \<open>One round.\<close>

lemma watch_check_frames:
  "p \<noteq> BanFile \<Longrightarrow> ss_banned (snd (watch_check config dir cur p st)) = ss_banned (snd st)"
  "ss_whitelist (snd (watch_check config dir cur BanFile st)) = ss_whitelist (snd st)"
  by (cases p; cases st; simp add: watch_check_def updateFiles_def reload_frames)
    (cases st; simp add: watch_check_def updateFiles_def reload_frames)

lemma watch_check_states:
  "fst (watch_check config dir cur p st) = (fst st)(p := cur p)"
  by (cases st) (auto simp: watch_check_def)

lemma watch_round_states: "fst (watch_round config dir cur st) = cur"
proof
  fix p show "fst (watch_round config dir cur st) p = cur p" by (cases p) (simp_all add: watch_round_def watch_check_states)
qed

lemma watch_round_banned:
  "ss_banned (snd (watch_round config dir cur (states, server))) =
     (if cur BanFile \<noteq> states BanFile then ss_banned (reloadBans config dir server) else ss_banned server)"
  by (simp add: watch_round_def watch_check_frames) (simp add: watch_check_def updateFiles_def)

lemma watch_round_whitelisted:
  "ss_whitelist (snd (watch_round config dir cur (states, server))) =
     (if \<exists>p \<in> {WhitelistFile, OpsFile, ServerPropertiesFile}. cur p \<noteq> states p
      then ss_whitelist (reloadWhitelist config dir server) else ss_whitelist server)"
proof -
  define reload where "reload x = (if sv_WakeWhitelist (cfg_Server config)
    then (case whitelist_on_disk dir of Some w \<Rightarrow> w | None \<Rightarrow> x) else x)" for x
  have r: "ss_whitelist (reloadWhitelist config dir s) = reload (ss_whitelist s)" "reload (reload x) = reload x" for s x
    by (simp_all add: reload_def reloadWhitelist_in_force split: option.split)
  have "ss_whitelist (snd (watch_check config dir cur p st)) =
      (if cur p \<noteq> fst st p then reload (ss_whitelist (snd st)) else ss_whitelist (snd st))" if "p \<noteq> BanFile" for p st
    using that by (cases p; cases st) (simp_all add: watch_check_def updateFiles_def r)
  note check = this
  define s1 where "s1 = watch_check config dir cur BanFile (states, server)"
  define s2 where "s2 = watch_check config dir cur WhitelistFile s1"
  define s3 where "s3 = watch_check config dir cur OpsFile s2"
  have s: "fst s1 p = states p" "fst s2 q = states q" "fst s3 ServerPropertiesFile = states ServerPropertiesFile"
    if "p \<noteq> BanFile" "q \<in> {OpsFile, ServerPropertiesFile}" for p q
    using that by (auto simp: s1_def s2_def s3_def watch_check_states)
  have "ss_whitelist (snd s1) = ss_whitelist server" unfolding s1_def by (simp add: watch_check_frames(2))
  then show ?thesis
    using check [of WhitelistFile s1] check [of OpsFile s2] check [of ServerPropertiesFile s3] s [of WhitelistFile OpsFile] r(2)
    unfolding watch_round_def s1_def [symmetric] s2_def [symmetric] s3_def [symmetric] by (simp add: r(1))
qed

lemma watch_round_lists:
  assumes "honest_stats dir d d'" and "lists_in_force config (disk_dir j readable dir d) server"
  shows "lists_in_force config (disk_dir j readable dir d')
    (snd (watch_round config (disk_dir j readable dir d') (disk_states dir d') (disk_states dir d, server)))"
proof -
  have same: "file_contents (fst d) (watched_path dir w) = file_contents (fst d') (watched_path dir w)"
    if "disk_states dir d' w = disk_states dir d w" for w
    using assms(1) that by (simp add: honest_stats_def)
  have "ss_whitelist (snd (watch_round config (disk_dir j readable dir d') (disk_states dir d') (disk_states dir d, server))) = w"
    if on: "sv_WakeWhitelist (cfg_Server config)" and w: "whitelist_on_disk (disk_dir j readable dir d') = Some w" for w
  proof (cases "\<exists>p \<in> {WhitelistFile, OpsFile, ServerPropertiesFile}. disk_states dir d' p \<noteq> disk_states dir d p")
    case False
    then have "whitelist_on_disk (disk_dir j readable dir d) = Some w"
      using whitelist_on_disk_cong [of d dir d' j readable] same w by auto
    with False show ?thesis using assms(2) on by (simp add: watch_round_whitelisted lists_in_force_def)
  qed (use on w in \<open>simp add: watch_round_whitelisted reloadWhitelist_in_force\<close>)
  moreover have "ss_banned (snd (watch_round config (disk_dir j readable dir d') (disk_states dir d') (disk_states dir d, server))) = b"
    if on: "sv_BlockBannedIps (cfg_Server config) \<or> sv_DropBannedIps (cfg_Server config)"
      and b: "bans_on_disk (disk_dir j readable dir d') = Some b" for b
  proof (cases "disk_states dir d' BanFile = disk_states dir d BanFile")
    case True
    then have "bans_on_disk (disk_dir j readable dir d) = Some b" using bans_on_disk_cong [OF same [OF True]] b by simp
    with True show ?thesis using assms(2) on by (simp add: watch_round_banned lists_in_force_def)
  qed (use on b in \<open>simp add: watch_round_banned reloadBans_in_force\<close>)
  ultimately show ?thesis by (simp add: lists_in_force_def)
qed

lemma watch_rounds_lists:
  assumes "honest dir (d # ds)" and "lists_in_force config (disk_dir j readable dir d) server"
  shows "lists_in_force config (disk_dir j readable dir (last (d # ds)))
    (snd (watch_rounds j readable config dir ds (disk_states dir d, server)))"
  using assms
proof (induction ds arbitrary: d server)
  case (Cons d' ds)
  let ?st = "watch_round config (disk_dir j readable dir d') (disk_states dir d') (disk_states dir d, server)"
  have "?st = (disk_states dir d', snd ?st)" by (metis prod.collapse watch_round_states)
  moreover have "lists_in_force config (disk_dir j readable dir d') (snd ?st)"
    by (rule watch_round_lists [OF honest_pair [OF Cons.prems(1)] Cons.prems(2)])
  ultimately show ?case using Cons.IH [OF honest_tl [OF Cons.prems(1)], of "snd ?st"] by simp
qed simp

lemma reload_lists: "lists_in_force config dir (reloadWhitelist config dir (reloadBans config dir server))"
  by (simp add: lists_in_force_def reloadWhitelist_in_force reloadBans_in_force reload_frames)

lemma fileWatcherService_lists:
  assumes "dir = ServerDirectory config" and "isDir (fst found) dir" and "isDir (fst recorded) dir"
    and "honest dir (recorded # ds)"
    and "\<And>w. file_contents (fst found) (watched_path dir w) = file_contents (fst recorded) (watched_path dir w)"
  shows "lists_in_force config (disk_dir j readable dir (last (recorded # ds)))
    (fileWatcherService j readable config found recorded ds server)"
proof -
  let ?server = "reloadWhitelist config (disk_dir j readable dir found) (reloadBans config (disk_dir j readable dir found) server)"
  have "lists_in_force config (disk_dir j readable dir recorded) ?server"
    using reload_lists [of config "disk_dir j readable dir found" server]
      whitelist_on_disk_cong [of found dir recorded j readable] bans_on_disk_cong [of found dir recorded j readable] assms(5)
    by (simp add: lists_in_force_def)
  from watch_rounds_lists [OF assms(4) this] show ?thesis
    using assms(1-3) by (simp add: fileWatcherService_def watchServer_def Let_def)
qed

text \<open>A change between the reload and the recording of the states is not noticed.\<close>

lemma early_change_missed:
  assumes "isDir (fst found) (ServerDirectory config)" and "isDir (fst recorded) (ServerDirectory config)"
  shows "fileWatcherService j readable config found recorded [recorded] server =
    fileWatcherService j readable config found found [] server"
proof -
  have "watch_round config dir cur (cur, s) = (cur, s)" for dir cur s by (rule watch_round_quiet) simp
  then show ?thesis using assms by (simp add: fileWatcherService_def watchServer_def Let_def)
qed

section \<open>Probing\<close>

lemma probeService_idle: "\<not> sv_ProbeOnStart (cfg_Server config) \<Longrightarrow> probeService e env t jt config states dial w = w"
  by (simp add: probeService_def probeMustProbe_def)

end
