(* ===== verification/Logging.thy ===== *)
theory Logging
  imports Go_Strings Go_Files
begin

text \<open>
  \<^verbatim>\<open>util/logger.go\<close>: the levels, the filter that \<^verbatim>\<open>RUST_LOG\<close> describes, the decision and the line of a log statement, and the
  variables of a \<^verbatim>\<open>.env\<close> file. The environment is a map; the message of a statement is given as it is formatted.

  Shown here: a filter that is written out is read back, a level that is shown shows every higher one, the first directive
  for a target decides, and the variables of a file never replace those of the environment.
\<close>

section \<open>Levels\<close>

datatype Level = LevelTrace | LevelDebug | LevelInfo | LevelWarn | LevelError | LevelOff

fun level_rank :: "Level \<Rightarrow> nat" where
  "level_rank LevelTrace = 0"
| "level_rank LevelDebug = 1"
| "level_rank LevelInfo = 2"
| "level_rank LevelWarn = 3"
| "level_rank LevelError = 4"
| "level_rank LevelOff = 5"

lemma level_rank_inj: "level_rank a = level_rank b \<Longrightarrow> a = b"
  by (cases a; cases b) simp_all

instantiation Level :: linorder
begin
definition less_eq_Level :: "Level \<Rightarrow> Level \<Rightarrow> bool" where "a \<le> b \<longleftrightarrow> level_rank a \<le> level_rank b"
definition less_Level :: "Level \<Rightarrow> Level \<Rightarrow> bool" where "a < b \<longleftrightarrow> level_rank a < level_rank b"
instance
  by standard (auto simp: less_eq_Level_def less_Level_def intro: level_rank_inj)
end

fun Level_String :: "Level \<Rightarrow> string" where
  "Level_String LevelTrace = ''TRACE''"
| "Level_String LevelDebug = ''DEBUG''"
| "Level_String LevelInfo = ''INFO''"
| "Level_String LevelWarn = ''WARN''"
| "Level_String LevelError = ''ERROR''"
| "Level_String LevelOff = ''OFF''"

definition escape :: "string \<Rightarrow> string" where "escape code = [CHR 0x1B] @ ''['' @ code @ ''m''"

fun Level_color :: "bool \<Rightarrow> Level \<Rightarrow> string" where
  "Level_color isTerminal level =
     (if \<not> isTerminal then []
      else case level of
        LevelTrace \<Rightarrow> escape ''35'' | LevelDebug \<Rightarrow> escape ''34'' | LevelInfo \<Rightarrow> escape ''32''
      | LevelWarn \<Rightarrow> escape ''33'' | LevelError \<Rightarrow> escape ''31'' | LevelOff \<Rightarrow> [])"

definition level_name :: "string \<Rightarrow> Level option" where
  "level_name s =
     (if s = ''trace'' then Some LevelTrace
      else if s = ''debug'' then Some LevelDebug
      else if s = ''info'' then Some LevelInfo
      else if s = ''warn'' \<or> s = ''warning'' then Some LevelWarn
      else if s = ''error'' then Some LevelError
      else if s = ''off'' then Some LevelOff
      else None)"

definition parseLevel :: "string \<Rightarrow> Level option" where
  "parseLevel s = level_name (ToLower (TrimSpace s))"

section \<open>The filter\<close>

record log_filter =
  lf_global :: Level
  lf_directives :: "(string \<times> Level) list"

definition filter_part :: "string \<Rightarrow> log_filter \<Rightarrow> log_filter" where
  "filter_part part f =
     (let part = TrimSpace part
      in if part = [] then f
         else
           let (target, levelStr) = (case index_of (CHR ''='') part of
                 Some idx \<Rightarrow> (take idx part, drop (idx + 1) part)
               | None \<Rightarrow> ([], part))
           in case parseLevel levelStr of
                None \<Rightarrow> f
              | Some level \<Rightarrow>
                  if target = [] then f\<lparr>lf_global := level\<rparr>
                  else f\<lparr>lf_directives := lf_directives f @ [(target, level)]\<rparr>)"

definition parseLogFilter :: "string \<Rightarrow> log_filter" where
  "parseLogFilter spec =
     foldl (\<lambda>f part. filter_part part f) \<lparr>lf_global = LevelInfo, lf_directives = []\<rparr> (split_on (CHR '','') spec)"

definition directive_matches :: "string \<Rightarrow> string \<times> Level \<Rightarrow> bool" where
  "directive_matches target d \<longleftrightarrow> fst d = target \<or> HasPrefix target (fst d @ ''::'')"

fun first_match :: "string \<Rightarrow> (string \<times> Level) list \<Rightarrow> Level option" where
  "first_match target [] = None"
| "first_match target (d # ds) = (if directive_matches target d then Some (snd d) else first_match target ds)"

definition enabled :: "log_filter \<Rightarrow> Level \<Rightarrow> string \<Rightarrow> bool" where
  "enabled f level target =
     (case first_match target (lf_directives f) of Some l \<Rightarrow> l \<le> level | None \<Rightarrow> lf_global f \<le> level)"

text \<open>The line of a statement; the padded name of the level is computed by the source and not used.\<close>

definition log_line :: "bool \<Rightarrow> string \<Rightarrow> Level \<Rightarrow> string \<Rightarrow> string \<Rightarrow> string" where
  "log_line isTerminal ts level target msg =
     (let levelColored =
            (if Level_color isTerminal level \<noteq> [] then Level_color isTerminal level @ Level_String level @ escape ''0''
             else Level_String level)
      in ''['' @ ts @ '' '' @ levelColored @ '' '' @ target @ ''] '' @ msg @ [CHR 0x0A])"

definition Log :: "log_filter \<Rightarrow> bool \<Rightarrow> string \<Rightarrow> Level \<Rightarrow> string \<Rightarrow> string \<Rightarrow> string" where
  "Log f isTerminal ts level target msg =
     (if \<not> enabled f level target then [] else log_line isTerminal ts level target msg)"

section \<open>Variables from a file\<close>

type_synonym environment = "string \<Rightarrow> string option"

text \<open>\<^verbatim>\<open>os.Setenv\<close> refuses an empty name, a name with an equals sign, and a zero byte.\<close>

definition Setenv :: "string \<Rightarrow> string \<Rightarrow> environment \<Rightarrow> environment" where
  "Setenv key val env =
     (if key = [] \<or> CHR ''='' \<in> set key \<or> CHR 0x00 \<in> set key \<or> CHR 0x00 \<in> set val then env else env(key \<mapsto> val))"

definition unquote :: "string \<Rightarrow> string" where
  "unquote val =
     (if 2 \<le> length val \<and>
         (hd val = CHR 0x22 \<and> last val = CHR 0x22 \<or> hd val = CHR 0x27 \<and> last val = CHR 0x27)
      then take (length val - 2) (drop 1 val) else val)"

definition dotenv_entry :: "string \<Rightarrow> (string \<times> string) option" where
  "dotenv_entry line =
     (let line = TrimSpace line
      in if line = [] \<or> HasPrefix line ''#'' then None
         else
           let line = (if HasPrefix line ''export '' then TrimSpace (drop (length ''export '') line) else line)
           in case index_of (CHR ''='') line of
                None \<Rightarrow> None
              | Some idx \<Rightarrow>
                  if idx = 0 then None
                  else Some (TrimSpace (take idx line), unquote (TrimSpace (drop (idx + 1) line))))"

definition dotenv_line :: "string \<Rightarrow> environment \<Rightarrow> environment" where
  "dotenv_line line env =
     (case dotenv_entry line of
        None \<Rightarrow> env
      | Some (key, val) \<Rightarrow> if env key \<noteq> None then env else Setenv key val env)"

definition loadDotenv :: "string option \<Rightarrow> environment \<Rightarrow> environment" where
  "loadDotenv data env =
     (case data of
        None \<Rightarrow> env
      | Some text \<Rightarrow> foldl (\<lambda>env line. dotenv_line line env) env (split_on (CHR 0x0A) text))"

text \<open>\<^verbatim>\<open>os.Getenv\<close> is empty for a variable that is not set.\<close>

definition InitLog :: "string option \<Rightarrow> environment \<Rightarrow> log_filter \<times> environment" where
  "InitLog dotenv env =
     (let env = loadDotenv dotenv env;
          level = (case env ''RUST_LOG'' of Some v \<Rightarrow> v | None \<Rightarrow> []);
          level = (if level = [] then ''info'' else level)
      in (parseLogFilter level, env))"

section \<open>Decisions\<close>

lemma enabled_mono: "enabled f level target \<Longrightarrow> level \<le> level' \<Longrightarrow> enabled f level' target"
  by (auto simp: enabled_def split: option.splits)

lemma first_match_append:
  "first_match target (ds @ es) = (case first_match target ds of Some l \<Rightarrow> Some l | None \<Rightarrow> first_match target es)"
  by (induction ds) auto

text \<open>A directive for a module in front of one for a part of it hides the second.\<close>

lemma earlier_directive_hides:
  assumes "directive_matches target d"
  shows "enabled (f\<lparr>lf_directives := ds @ d # es\<rparr>) level target = enabled (f\<lparr>lf_directives := ds @ [d]\<rparr>) level target"
  using assms by (simp add: enabled_def first_match_append split: option.split)

section \<open>A filter that is written out\<close>

fun level_text :: "Level \<Rightarrow> string" where
  "level_text LevelTrace = ''trace''"
| "level_text LevelDebug = ''debug''"
| "level_text LevelInfo = ''info''"
| "level_text LevelWarn = ''warn''"
| "level_text LevelError = ''error''"
| "level_text LevelOff = ''off''"

definition target_ok :: "string \<Rightarrow> bool" where
  "target_ok t \<longleftrightarrow> t \<noteq> [] \<and> list_all visible t \<and> CHR '','' \<notin> set t \<and> CHR ''='' \<notin> set t"

definition filter_text :: "log_filter \<Rightarrow> string" where
  "filter_text f = join_with '','' (level_text (lf_global f) # map (\<lambda>(t, l). t @ ''='' @ level_text l) (lf_directives f))"

lemma parseLevel_text: "parseLevel (level_text l) = Some l"
proof -
  have "parseLevel ''trace'' = Some LevelTrace" "parseLevel ''debug'' = Some LevelDebug" "parseLevel ''info'' = Some LevelInfo"
    "parseLevel ''warn'' = Some LevelWarn" "parseLevel ''error'' = Some LevelError" "parseLevel ''off'' = Some LevelOff"
    by code_simp+
  then show ?thesis by (cases l) simp_all
qed

lemma level_text_chars:
  "level_text l \<noteq> [] \<and> list_all visible (level_text l) \<and> CHR '','' \<notin> set (level_text l) \<and> CHR ''='' \<notin> set (level_text l)"
  by (cases l) (simp_all add: visible_def)

lemma index_of_sep: "c \<notin> set a \<Longrightarrow> index_of c (a @ c # b) = Some (length a)"
  by (simp add: index_of_append)

lemma filter_part_level: "filter_part (level_text l) f = f\<lparr>lf_global := l\<rparr>"
  using level_text_chars [of l] by (simp add: filter_part_def TrimSpace_visible parseLevel_text)

lemma filter_part_directive:
  assumes "target_ok t"
  shows "filter_part (t @ ''='' @ level_text l) f = f\<lparr>lf_directives := lf_directives f @ [(t, l)]\<rparr>"
proof -
  have "list_all visible (t @ ''='' @ level_text l)" using assms level_text_chars [of l] by (simp add: target_ok_def visible_def)
  then show ?thesis using assms level_text_chars [of l]
    by (simp add: filter_part_def TrimSpace_visible index_of_sep target_ok_def parseLevel_text)
qed

lemma foldl_directives:
  assumes "list_all (\<lambda>(t, l). target_ok t) ds"
  shows "foldl (\<lambda>f part. filter_part part f) f (map (\<lambda>(t, l). t @ ''='' @ level_text l) ds) =
    f\<lparr>lf_directives := lf_directives f @ ds\<rparr>"
  using assms
proof (induction ds arbitrary: f)
  case (Cons d ds)
  then show ?case by (cases d) (simp add: filter_part_directive [unfolded append_Cons append_Nil])
qed simp

lemma parseLogFilter_text:
  assumes "list_all (\<lambda>(t, l). target_ok t) (lf_directives f)"
  shows "parseLogFilter (filter_text f) = f"
proof -
  have "CHR '','' \<notin> set w" if "w \<in> set (level_text (lf_global f) # map (\<lambda>(t, l). t @ ''='' @ level_text l) (lf_directives f))" for w
    using that assms level_text_chars by (auto simp: list_all_iff target_ok_def)
  then have "split_on (CHR '','') (filter_text f) =
      level_text (lf_global f) # map (\<lambda>(t, l). t @ ''='' @ level_text l) (lf_directives f)"
    unfolding filter_text_def by (intro split_join) auto
  then show ?thesis using foldl_directives [OF assms] by (simp add: parseLogFilter_def filter_part_level)
qed

section \<open>Variables\<close>

lemma dotenv_line_keeps: "env k = Some v \<Longrightarrow> dotenv_line line env k = Some v"
  by (auto simp: dotenv_line_def Setenv_def split: option.splits)

lemma foldl_dotenv_keeps: "env k = Some v \<Longrightarrow> foldl (\<lambda>env line. dotenv_line line env) env lines k = Some v"
  by (induction lines arbitrary: env) (simp_all add: dotenv_line_keeps)

lemma loadDotenv_keeps: "env k = Some v \<Longrightarrow> loadDotenv data env k = Some v"
  by (cases data) (simp_all add: loadDotenv_def foldl_dotenv_keeps)

text \<open>A file with one quoted value in each line.\<close>

definition key_ok :: "string \<Rightarrow> bool" where
  "key_ok k \<longleftrightarrow> k \<noteq> [] \<and> list_all visible k \<and> CHR ''='' \<notin> set k \<and> hd k \<noteq> CHR ''#''"

definition value_ok :: "string \<Rightarrow> bool" where
  "value_ok v \<longleftrightarrow> CHR 0x0A \<notin> set v \<and> CHR 0x00 \<notin> set v"

definition assignment :: "string \<times> string \<Rightarrow> string" where
  "assignment kv = fst kv @ ''='' @ [CHR 0x22] @ snd kv @ [CHR 0x22]"

lemma unquote_quoted: "unquote ([CHR 0x22] @ v @ [CHR 0x22]) = v"
  by (simp add: unquote_def)

lemma dotenv_assignment:
  assumes "key_ok k" and "value_ok v"
  shows "dotenv_line (assignment (k, v)) env = (if env k \<noteq> None then env else env(k \<mapsto> v))"
proof -
  let ?line = "assignment (k, v)"
  have k: "k \<noteq> []" "list_all visible k" "CHR ''='' \<notin> set k" "hd k \<noteq> CHR ''#''" using assms(1) by (simp_all add: key_ok_def)
  have "visible (hd k)" using k(1,2) by (simp add: list_all_iff)
  then have trim: "TrimSpace ?line = ?line"
    using k(1) by (intro TrimSpace_ends) (simp_all add: assignment_def visible_def hd_append)
  have no_hash: "\<not> HasPrefix ?line ''#''" using k(1,4) by (cases k) (simp_all add: HasPrefix_def assignment_def)
  have no_export: "\<not> HasPrefix ?line ''export ''"
  proof
    assume p: "HasPrefix ?line ''export ''"
    have "CHR '' '' \<notin> set k" using k(2) by (auto simp: list_all_iff visible_def)
    moreover have "?line = (k @ ''='') @ ([CHR 0x22] @ v @ [CHR 0x22])" by (simp add: assignment_def)
    moreover obtain rest where "?line = ''export '' @ rest" using p by (metis HasPrefix_prefix prefix_def)
    ultimately have "(k @ ''='') @ ([CHR 0x22] @ v @ [CHR 0x22]) = ''export '' @ rest" by simp
    then show False using \<open>CHR '' '' \<notin> set k\<close> k(3)
      by (auto simp: append_eq_append_conv2 append_eq_Cons_conv)
  qed
  have "TrimSpace ([CHR 0x22] @ v @ [CHR 0x22]) = [CHR 0x22] @ v @ [CHR 0x22]"
    by (intro TrimSpace_ends) (simp_all add: visible_def)
  moreover have "index_of (CHR ''='') ?line = Some (length k)" using index_of_sep [OF k(3)] by (simp add: assignment_def)
  moreover have "CHR 0x00 \<notin> set k" using k(2) by (auto simp: list_all_iff visible_def)
  moreover have "?line \<noteq> []" "take (length k) ?line = k" "drop (length k + 1) ?line = [CHR 0x22] @ v @ [CHR 0x22]"
    by (simp_all add: assignment_def)
  ultimately have "dotenv_entry ?line = Some (k, v)"
    using trim no_hash no_export k(1) TrimSpace_visible [OF k(2)] unquote_quoted [of v] by (simp add: dotenv_entry_def)
  with k \<open>CHR 0x00 \<notin> set k\<close> assms(2) show ?thesis by (simp add: dotenv_line_def Setenv_def value_ok_def)
qed

lemma loadDotenv_assignments:
  assumes "kvs \<noteq> []" and "list_all (\<lambda>(k, v). key_ok k \<and> value_ok v) kvs"
  shows "loadDotenv (Some (join_with [CHR 0x0A] (map assignment kvs))) env k =
    (case env k of Some v \<Rightarrow> Some v | None \<Rightarrow> map_of kvs k)"
proof -
  have "CHR 0x0A \<notin> set (assignment kv)" if "kv \<in> set kvs" for kv
  proof -
    have ok: "key_ok (fst kv)" "value_ok (snd kv)" using that assms(2) by (auto simp: list_all_iff)
    have "CHR 0x0A \<notin> set (fst kv)" using ok(1) by (auto simp: key_ok_def list_all_iff visible_def)
    with ok(2) show ?thesis by (simp add: assignment_def value_ok_def)
  qed
  then have "split_on (CHR 0x0A) (join_with [CHR 0x0A] (map assignment kvs)) = map assignment kvs"
    using assms(1) by (intro split_join) auto
  moreover have "foldl (\<lambda>env line. dotenv_line line env) env (map assignment kvs) k =
      (case env k of Some v \<Rightarrow> Some v | None \<Rightarrow> map_of kvs k)"
    using assms(2)
  proof (induction kvs arbitrary: env)
    case (Cons kv kvs)
    obtain k' v where "kv = (k', v)" by (cases kv)
    then show ?case using Cons.prems Cons.IH dotenv_assignment [of k' v env]
      by (cases "k = k'") (auto split: option.split)
  qed (simp split: option.split)
  ultimately show ?thesis by (simp add: loadDotenv_def)
qed

end
