(* ===== verification/Spec2Isabelle.thy ===== *)
theory Spec2Isabelle
  imports Monitor Join Edge Play Process Files Velocity Uuid Rcon Online_Auth Lobby Polled Test_Server Start_Action Server_Files Logging
begin

text \<open>
  \<^bold>\<open>A verification development for lazygate\<close>

  lazygate is a gateway for a Minecraft server. It listens on the public address, answers status requests
  itself while the server sleeps, wakes the server when a player who may join logs in, keeps that player
  waiting by one of several join methods (kick, hold, forward, lobby), and then copies bytes between client
  and backend. A monitor polls the backend and puts it to sleep when it has been idle.

  \<^bold>\<open>Parts, theories and sources.\<close> Paths are relative to \<^verbatim>\<open>src/\<close>.
    \<^item> \<open>Lazygate_Prelude\<close>: results as the datatype \<open>outcome\<close> (\<open>Ok\<close>, \<open>Fail\<close> for a returned error, \<open>Panic\<close>),
      bytes and strings, Go's index and slice expressions with their panics, the collections of simplification rules and the vocabulary of round trips. \<open>Go_Strings\<close>, \<open>Go_Float\<close>, \<open>Go_Net\<close>,
      \<open>Go_Files\<close>: what the sources use of Go's \<^verbatim>\<open>strings\<close>, \<^verbatim>\<open>strconv\<close>, of the conversions between floats and bit patterns, of
      \<^verbatim>\<open>net\<close> (texts of addresses), and of \<^verbatim>\<open>path/filepath\<close> and \<^verbatim>\<open>os\<close> over a map from paths to files.
    \<^item> \<open>VarInt\<close>, \<open>Cursor\<close>, \<open>Wire\<close>: \<^verbatim>\<open>proto/varint.go\<close>, \<^verbatim>\<open>proto/encode.go\<close> and the field readers of
      \<^verbatim>\<open>proto/packets.go\<close>. \<open>Framing\<close>: \<^verbatim>\<open>proto/packet.go\<close>, \<^verbatim>\<open>proto/zlib.go\<close>. \<open>Stream_Read\<close>: \<^verbatim>\<open>proto/stream.go\<close>
      over a scripted connection, a list of the chunks and errors the reads return. \<open>Packet_Flow\<close>: when the
      bytes of a list of packets, cut anywhere, are read back as these packets. \<open>Packets\<close>, \<open>Status_Json\<close>, \<open>Conn_Write\<close>: \<^verbatim>\<open>proto/packets.go\<close>, \<^verbatim>\<open>proto/client.go\<close>, \<^verbatim>\<open>proto/action.go\<close>. \<open>Play\<close>: \<^verbatim>\<open>proto/packets/play/\<close>.
    \<^item> \<open>Nbt\<close>, \<open>Nbt_Read\<close>, \<open>Snbt\<close>: \<^verbatim>\<open>nbt/nbt.go\<close> and \<^verbatim>\<open>nbt/read.go\<close>: tags, compounds, both writers, the reader
      and the parser of the text form.
    \<^item> \<open>Config\<close>, \<open>Config_Load\<close>: the records and the loading of \<^verbatim>\<open>config.go\<close>. \<open>Access\<close>, \<open>Files\<close>, \<open>Server_Files\<close>:
      \<^verbatim>\<open>mc/ban.go\<close>, \<^verbatim>\<open>mc/whitelist.go\<close>, \<^verbatim>\<open>mc/favicon.go\<close> and the file watcher of \<^verbatim>\<open>service_tasks.go\<close>. \<open>Server_Properties\<close>, \<open>Uuid\<close>, \<open>Process\<close>: \<^verbatim>\<open>mc/server_properties.go\<close>,
      \<^verbatim>\<open>mc/uuid.go\<close>, \<^verbatim>\<open>process.go\<close>, \<^verbatim>\<open>os.go\<close>.
    \<^item> \<open>Server_State\<close>, \<open>Lifecycle\<close>: \<^verbatim>\<open>server.go\<close>. The record \<open>ServerState\<close> has the fields of the struct; each method is a
      function from the old to the new record. A \<open>world\<close> adds the signals sent and the process goroutines in
      flight; the interleavings of the connection goroutines, the monitor, the process goroutines and the signal
      handler are the inductive relation \<open>lifecycle_step\<close>. \<open>Monitor\<close>: the polls of \<^verbatim>\<open>monitor.go\<close>; \<open>Polled\<close>: the
      conversation of a poll with \<open>Serve\<close>. \<open>Forge_Status\<close>: \<^verbatim>\<open>forge_status.go\<close>, the snapshot the monitor saves.
    \<^item> \<open>Service\<close>: start-up, admission and routing of \<^verbatim>\<open>service_server.go\<close>. \<open>Serve\<close>: the login and status loop of
      \<^verbatim>\<open>status.go\<close>. \<open>Join\<close>: \<^verbatim>\<open>join.go\<close> and the join methods. \<open>Edge\<close>: the goroutines of all connections over the one
      pair of admission channels, in every order. \<open>Proxy_Stream\<close>: \<^verbatim>\<open>proxy.go\<close>, \<^verbatim>\<open>proxyv2/\<close>.
    \<^item> \<open>Forge\<close>, \<open>Velocity\<close>: \<^verbatim>\<open>forge.go\<close>, \<^verbatim>\<open>velocity_forwarding.go\<close>.
    \<^item> \<open>Lobby\<close>, \<open>Backend_Login\<close>: \<^verbatim>\<open>lobby.go\<close>; the first is the service a waiting client talks to, the second the
      login the gateway performs at the backend in the client's name. \<open>Probe\<close>: \<^verbatim>\<open>probe.go\<close> and the wait for the
      join-game packet it shares with the lobby. \<open>Online_Auth\<close>: \<^verbatim>\<open>online_auth.go\<close>, the encryption exchange, the
      session lookup and the encrypted connection. \<open>Rcon\<close>: \<^verbatim>\<open>mc/rcon.go\<close>. \<open>Dimension\<close>: \<^verbatim>\<open>mc/dimension.go\<close>.
    \<^item> \<open>Command_Line\<close>: \<^verbatim>\<open>cli.go\<close>, \<^verbatim>\<open>main.go\<close>, \<^verbatim>\<open>action_config_generate.go\<close>, \<^verbatim>\<open>action_configtest.go\<close> and the messages and
      prompts of \<^verbatim>\<open>util/\<close>. \<open>Start_Up\<close>, \<open>Start_Action\<close>: \<^verbatim>\<open>action_start.go\<close> and the file side of
      \<^verbatim>\<open>mc/server_properties.go\<close>. \<open>Logging\<close>: \<^verbatim>\<open>util/logger.go\<close>. \<open>Test_Server\<close>: \<^verbatim>\<open>internal/testserver/\<close>, the mock backend.

  \<^bold>\<open>What is shown.\<close> The properties C1 to C40 stand in this theory. They are about
    \<^item> the wire: packets, variable-length integers, binary tags, join-game packets and status strings survive
      a round trip, a stream gives back exactly the bytes and packets it was sent, the frame and login decoders never panic (the NBT
      reader can, which is a finding);
    \<^item> the server's state: along every interleaving of steps a kill time is set only while the backend starts or
      stops; a backend another controller manages is never signalled or stopped, and of the helper that asks for its start at
      most one runs; and the start-up checks establish the invariants the steps keep;
    \<^item> clients: only an admitted login read from the connection wakes the server, the slots of the admission are counted
      exactly under concurrency, a client held during the start is proxied with every byte it sent; the lobby passes on
      every byte of the backend but the join-game packet it consumes, while the client's bytes it has read before the switch are
      dropped, as intended; in online mode it acts only for verified players;
    \<^item> the protocols towards the backend: Forge exchanges are bounded and replayed faithfully, forwarded
      profiles are accepted by a reader of the protocol, RCON commands are answered by their own answers;
    \<^item> conversations: the gateway's login at a backend and the mock server's side of it complete each other, and a
      poll of the monitor reads exactly the status a gateway serves, however the network cuts the bytes;
    \<^item> files: the start-up makes the backend's properties agree with the configuration, the watcher keeps the access
      lists of the directory in force, the Forge snapshot is replaced atomically and survives a restart;
    \<^item> the command line: what every invocation ends in, an action, help, the version or a usage error; flags may stand
      anywhere, and versions are ordered by their numbers.
  Where the code does not do what it means to do, a property states the behaviour it has; the manifest lists
  these under its findings.

  \<^bold>\<open>Fuel and bounds.\<close> Loops over input recurse over the script of the connection, or over the bytes left, and
  are total. The NBT reader recurses with fuel; \<open>readTag_fuel\<close> gives enough of it for every input and
  \<open>readTag_terminates\<close> shows so; the SNBT parser likewise with \<open>snbt_fuel\<close> and \<open>snbt_parser_ends\<close>. Loops that wait for time to pass or for the backend take the observations of
  their rounds as a list. Machine integers are words of Go's width wherever they can wrap.

  \<^bold>\<open>Parameters.\<close> Third-party code and cryptography are arguments of the definitions that use them, with laws as
  hypotheses where a property needs them: \<^verbatim>\<open>compress/zlib\<close>, HMAC, MD5, SHA-1, RSA, AES, JSON and TOML decoding, the
  HTTP session server, name resolution, random numbers, the order of a Go map, dialling, and the clock. What the operating
  system answers to file operations is an argument as well.

  \<^bold>\<open>Not modelled.\<close> The TOML parser (third-party; its result is a parameter), listening and accepting, the scheduling
  of goroutines below the granularity of a critical section, the wrappers of \<^verbatim>\<open>log.go\<close> and \<^verbatim>\<open>proto/log.go\<close> around \<open>Log\<close>,
  the detection of a terminal, the warning printers and the hints builder of \<^verbatim>\<open>util/error.go\<close>, and \<^verbatim>\<open>cmd/mockserver/main.go\<close>,
  which parses flags and waits for a signal. The mock server serves its connections one after the other.
\<close>

text \<open>The equations that run one read on concrete bytes, for the witnesses below.\<close>

lemmas read_run =
  ReadPacketWithTimeout_def read_until.simps readMore_def MaxBufferedBytes_def MaxPacketLength_def
  BufSize_def ReadVarInt_scan DecodeWithLen_eq DecodeWithoutLen_eq readPacketIDData_eq
  DummyClient_def NewClient_def IsCompressed_def Compressed_def NewRawPacket_def

section \<open>The wire protocol\<close>

text \<open>
  C8: A packet that \<^verbatim>\<open>EncodeWithLen\<close> turned into a frame is decoded by \<^verbatim>\<open>DecodeWithLen\<close> to the same
  packet, whatever follows the frame, with and without compression. Bounds: the frame and the packet data
  (with its id) have lengths that fit in a 32-bit length prefix.
\<close>

theorem frame_roundtrip:
  assumes "IsCompressed client \<Longrightarrow> zlib_inverse z"
    and "EncodeWithLen z p client = Ok frame"
    and "length frame < 2 ^ 31" and "length (rp_Data p) + 5 < 2 ^ 31"
  shows "DecodeWithLen z client (frame @ trailing) = Ok p"
  using assms by (rule DecodeWithLen_Encode)

theorem frame_roundtrip_witness:
  "EncodeWithLen stored_zlib (NewRawPacket 3 [1, 2, 3]) (SetCompressionThreshold DummyClient 2) =
     Ok [5, 4, 3, 1, 2, 3] \<and>
   DecodeWithLen stored_zlib (SetCompressionThreshold DummyClient 2) ([5, 4, 3, 1, 2, 3] @ [9]) =
     Ok (NewRawPacket 3 [1, 2, 3])"
proof -
  have enc: "EncodeWithLen stored_zlib (NewRawPacket 3 [1, 2, 3]) (SetCompressionThreshold DummyClient 2) =
     Ok [5, 4, 3, 1, 2, 3]" by code_simp
  then show ?thesis
    using frame_roundtrip [OF stored_zlib_inverse enc, of "[9]"] by (simp add: NewRawPacket_def)
qed

text \<open>
  C1: However the network splits a frame, one call of \<^verbatim>\<open>ReadPacket\<close> returns exactly the packet that was
  encoded and the frame's bytes, and leaves what follows for the next call. The stream delivers the frame
  in non-empty pieces; the payload is below 16384 bytes, so that its length prefix has one or two bytes, and the
  data before compression at most \<^verbatim>\<open>MaxPacketLength\<close> - 5.
\<close>

theorem packet_read_whole:
  assumes "IsCompressed client \<Longrightarrow> zlib_inverse z"
    and "EncodeWithoutLen z p client = Ok payload"
    and "frame = EncodeVarInt (word_of_nat (length payload)) @ payload"
    and "length payload < 2 ^ 14" and "length (rp_Data p) + 5 \<le> MaxPacketLength"
    and "buf @ script_bytes conn = frame @ tail"
    and "delivers (length frame - length buf) conn" and "length buf \<le> MaxBufferedBytes"
  shows "\<exists>buf' conn'. ReadPacket z client buf conn = (Packet p frame, buf', conn') \<and>
    buf' @ script_bytes conn' = tail"
  using ReadPacket_delivers [OF assms] by (simp add: ReadPacket_def)

theorem packet_read_whole_witness:
  "\<exists>buf' conn'. ReadPacket stored_zlib DummyClient [3] [([0], None), ([7], None), ([8, 1], None)] =
     (Packet (NewRawPacket 0 [7, 8]) [3, 0, 7, 8], buf', conn') \<and> buf' @ script_bytes conn' = [1]"
proof (rule packet_read_whole)
  show "EncodeWithoutLen stored_zlib (NewRawPacket 0 [7, 8]) DummyClient = Ok [0, 7, 8]" by code_simp
  show "[3, 0, 7, 8] = EncodeVarInt (word_of_nat (length [0, 7, 8 :: byte])) @ [0, 7, 8]" by code_simp
  show "delivers (length [3, 0, 7, 8 :: byte] - length [3 :: byte]) [([0], None), ([7], None), ([8, 1], None)]"
    by code_simp
qed (simp_all add: stored_zlib_inverse NewRawPacket_def MaxPacketLength_def MaxBufferedBytes_def)

text \<open>
  C13: A call of \<^verbatim>\<open>ReadPacketWithTimeout\<close> neither loses, nor adds, nor reorders a byte of the stream, on every
  outcome (a packet, the end of the stream, an error), and the buffer never grows beyond
  \<^verbatim>\<open>MaxBufferedBytes\<close>.
\<close>

theorem reading_conserves_bytes:
  assumes "length buf \<le> MaxBufferedBytes"
    and "ReadPacketWithTimeout z client buf conn = (res, buf', conn')"
  shows "(case res of Packet p raw \<Rightarrow> raw | _ \<Rightarrow> []) @ buf' @ script_bytes conn' = buf @ script_bytes conn \<and>
    length (case res of Packet p raw \<Rightarrow> raw | _ \<Rightarrow> []) + length buf' \<le> MaxBufferedBytes"
  using ReadPacketWithTimeout_outcome [OF assms(1), of conn z client] assms(2)
  by (simp add: read_outcome_def split: read_result.splits)

theorem reading_conserves_bytes_witness:
  "ReadPacketWithTimeout stored_zlib DummyClient [] [([2, 0, 7, 5], None)] =
     (Packet (NewRawPacket 0 [7]) [2, 0, 7], [5], []) \<and>
   [2, 0, 7] @ [5] @ script_bytes [] = [2, 0, 7, 5 :: byte]"
proof -
  have run: "ReadPacketWithTimeout stored_zlib DummyClient [] [([2, 0, 7, 5], None)] =
     (Packet (NewRawPacket 0 [7]) [2, 0, 7], [5], [])" by (simp add: read_run)
  then show ?thesis using reading_conserves_bytes [OF _ run] by (simp add: MaxBufferedBytes_def)
qed

text \<open>
  C37: Once a read reports a malformed packet, the poll loops of the monitor never return: no number of
  iterations of \<^verbatim>\<open>waitForStatus\<close> or \<^verbatim>\<open>waitForPing\<close> gives a result, because the malformed bytes stay in
  the buffer and every further read reports them again without touching the connection.
\<close>

theorem malformed_packet_wedges_polls:
  assumes "ReadPacketWithTimeout z client buf conn = (ReadError ErrMalformedPacket, buf', conn')"
    and "length buf \<le> MaxBufferedBytes" and "net_errors_only conn"
  shows "waitForStatus fuel z parse_status client buf conn = None \<and>
    waitForPing fuel z client token buf conn = None"
  using polls_never_return [OF assms] by simp

theorem malformed_packet_wedges_polls_witness:
  "waitForStatus 1000 stored_zlib (\<lambda>_. None) DummyClient [] [([0xFF, 0xFF, 0xFF, 0xFF, 0xFF], None)] = None \<and>
   waitForPing 1000 stored_zlib DummyClient 0 [] [([0xFF, 0xFF, 0xFF, 0xFF, 0xFF], None)] = None"
proof (rule malformed_packet_wedges_polls)
  show "ReadPacketWithTimeout stored_zlib DummyClient [] [([0xFF, 0xFF, 0xFF, 0xFF, 0xFF], None)] =
    (ReadError ErrMalformedPacket, [0xFF, 0xFF, 0xFF, 0xFF, 0xFF], [])" by (simp add: read_run)
qed (simp_all add: net_errors_only_def)

text \<open>
  A well-formed frame whose length prefix takes three bytes (a payload of 16384 bytes or more) is
  rejected as malformed when the first two bytes arrive alone: two bytes in the buffer are taken for the
  whole prefix.
\<close>

lemma split_long_header_rejected:
  assumes "frame = EncodeVarInt (word_of_nat (length payload)) @ payload"
    and "2 ^ 14 \<le> length payload" and "length payload < 2 ^ 31"
  shows "ReadPacket z client [] ((take 2 frame, None) # (drop 2 frame, None) # conn) =
    (ReadError ErrMalformedPacket, take 2 frame, (drop 2 frame, None) # conn)"
  using long_header_split [OF assms] by (simp add: ReadPacket_def)

lemma split_long_header_rejected_witness:
  "ReadPacket stored_zlib DummyClient []
     ((take 2 (EncodeVarInt 16384 @ replicate 16384 0), None) # (drop 2 (EncodeVarInt 16384 @ replicate 16384 0), None) # []) =
   (ReadError ErrMalformedPacket, take 2 (EncodeVarInt 16384 @ replicate 16384 0),
    [(drop 2 (EncodeVarInt 16384 @ replicate 16384 0), None)])"
  by (rule split_long_header_rejected [of _ "replicate 16384 0"]) simp_all

text \<open>
  Every 32-bit value has an encoding of one to five bytes, \<open>k\<close> bytes exactly when it fits in \<open>7 k\<close> bits,
  and \<^verbatim>\<open>ReadVarInt\<close> reads it back from the front of any buffer, with its length.
\<close>

lemma varint_roundtrip:
  "ReadVarInt (EncodeVarInt v @ rest) = Ok (length (EncodeVarInt v), v) \<and>
   1 \<le> length (EncodeVarInt v) \<and> length (EncodeVarInt v) \<le> 5 \<and>
   (length (EncodeVarInt v) \<le> Suc k \<longleftrightarrow> unat v < 2 ^ (7 * Suc k))"
  using length_EncodeVarInt [of v] length_EncodeVarInt_le [of v k] by simp

text \<open>
  C29: No input makes the frame and login decoders panic: every index and every slice expression of the source is checked in
  the model, where one that is out of range is a panic, and none is.
\<close>

theorem protocol_decoders_never_panic:
  "\<not> is_Panic (ReadVarInt data) \<and> \<not> is_Panic (DecodeWithLen z client data) \<and>
   \<not> is_Panic (DecodeWithoutLen z client data) \<and>
   \<not> is_Panic (DecodeHandshake data) \<and> \<not> is_Panic (DecodeLoginStart data) \<and>
   \<not> is_Panic (DecodeLoginPluginResponse data) \<and> \<not> is_Panic (DecodeLoginPluginRequest data) \<and>
   \<not> is_Panic (DecodeSetCompression data) \<and> \<not> is_Panic (DecodePingRequest data) \<and>
   \<not> is_Panic (DecodePingResponse data)"
  by (simp add: ReadVarInt_never_panics decode_never_panics decoders_never_panic)

text \<open>
  The login packets are decoded as they were encoded: a handshake whose address has at most 255 bytes, a
  login start whose name has at most 16, and every login plugin response.
\<close>

lemma login_packets_roundtrip:
  assumes "length (hs_ServerAddr h) \<le> 255" and "length (ls_Name l) \<le> 16"
  shows "DecodeHandshake (encode_with (Handshake_Encode h)) = Ok h \<and>
    DecodeLoginStart (encode_with (LoginStart_Encode l)) = Ok l \<and>
    DecodeLoginPluginResponse (encode_with (LoginPluginResponse_Encode r)) = Ok r"
  using DecodeHandshake_Encode [OF assms(1), of "[]"] DecodeLoginStart_Encode [OF assms(2), of "[]"]
  by (simp add: DecodeLoginPluginResponse_Encode)

lemma login_packets_roundtrip_witness:
  "let h = \<lparr>hs_ProtocolVersion = 763, hs_ServerAddr = ''localhost'', hs_ServerPort = 25565, hs_NextState = 2\<rparr>;
       l = \<lparr>ls_Name = ''Steve''\<rparr>;
       r = \<lparr>lpr_MessageID = 1, lpr_Successful = True, lpr_Data = [1]\<rparr>
   in DecodeHandshake (encode_with (Handshake_Encode h)) = Ok h \<and>
      DecodeLoginStart (encode_with (LoginStart_Encode l)) = Ok l \<and>
      DecodeLoginPluginResponse (encode_with (LoginPluginResponse_Encode r)) = Ok r"
  unfolding Let_def by (rule login_packets_roundtrip) simp_all

section \<open>Named binary tags\<close>

text \<open>
  C7: A compound tag written through either writer of the program (the packet writer and the package's own)
  is read back by \<^verbatim>\<open>ReadCompoundTag\<close> as it was, and the reader stops exactly at its end. The tag is
  writable: numbers in the range of their type, names and strings below 2\^15 bytes, arrays below 2\^31
  elements, list elements of the list's type, no end tag as a value, no name twice.
\<close>

theorem nbt_write_read:
  assumes "writable (TCompound c)"
  shows "ReadCompoundTag (NewReader (pw_buf (WriteCompoundTag PacketWriter_ops NewPacketWriter c) @ rest)) =
      (Ok c, cursor_at (wire_compound c @ rest) (length (wire_compound c))) \<and>
    ReadCompoundTag (NewReader (nw_buf (WriteCompoundTag Writer_ops NewWriter c) @ rest)) =
      (Ok c, cursor_at (wire_compound c @ rest) (length (wire_compound c)))"
  using reads_NewReader [OF reads_ReadCompoundTag [OF assms], of rest]
  by (simp add: packet_writer.WriteCompoundTag_out nbt_writer.WriteCompoundTag_out NewPacketWriter_def
      NewWriter_def)

theorem nbt_write_read_witness:
  "let c = [(''a'', TByte 1), (''b'', TList TagInt [TInt 7, TInt 9]), (''c'', TCompound [(''s'', TString ''x'')])]
   in writable (TCompound c) \<and>
      ReadCompoundTag (NewReader (pw_buf (WriteCompoundTag PacketWriter_ops NewPacketWriter c) @ [1])) =
        (Ok c, cursor_at (wire_compound c @ [1]) (length (wire_compound c))) \<and>
      ReadCompoundTag (NewReader (nw_buf (WriteCompoundTag Writer_ops NewWriter c) @ [1])) =
        (Ok c, cursor_at (wire_compound c @ [1]) (length (wire_compound c)))"
proof -
  have w: "writable (TCompound [(''a'', TByte 1), (''b'', TList TagInt [TInt 7, TInt 9]),
      (''c'', TCompound [(''s'', TString ''x'')])])"
    by (simp add: TagEnd_def TagByte_def TagInt_def TagList_def TagCompound_def TagString_def)
  then show ?thesis using nbt_write_read [OF w, of "[1]"] by (simp only: Let_def simp_thms)
qed

text \<open>
  C31: What \<^verbatim>\<open>ReadCompoundTag\<close> accepts can be written again without loss: writing an accepted compound
  with \<^verbatim>\<open>WriteCompoundTag\<close> and reading that gives the same compound.
\<close>

theorem nbt_accepted_rewritable:
  assumes "ReadCompoundTag r = (Ok c, r')"
  shows "fst (ReadCompoundTag (NewReader (nw_buf (WriteCompoundTag Writer_ops NewWriter c)))) = Ok c"
proof -
  have "writable (TCompound c)" using yieldsD [OF yields_ReadCompoundTag assms] .
  from reads_NewReader [OF reads_ReadCompoundTag [OF this], of "[]"] show ?thesis
    by (simp add: nbt_writer.WriteCompoundTag_out NewWriter_def)
qed

theorem nbt_accepted_rewritable_witness:
  "ReadCompoundTag (NewReader [10, 0, 0, 1, 0, 1, 97, 5, 0]) = (Ok [(''a'', TByte 5)], cursor_at [10, 0, 0, 1, 0, 1, 97, 5, 0] 9) \<and>
   fst (ReadCompoundTag (NewReader (nw_buf (WriteCompoundTag Writer_ops NewWriter [(''a'', TByte 5)])))) =
     Ok [(''a'', TByte 5)]"
proof -
  have r: "ReadCompoundTag (NewReader [10, 0, 0, 1, 0, 1, 97, 5, 0]) =
      (Ok [(''a'', TByte 5)], cursor_at [10, 0, 0, 1, 0, 1, 97, 5, 0] 9)"
    by code_simp
  then show ?thesis using nbt_accepted_rewritable [OF r] by simp
qed

text \<open>
  C32: \<^verbatim>\<open>readTag\<close> is the recursion of the source and terminates on every input: its body calls it again for
  list elements and compound entries, and the bytes left bound the depth, so any fuel above them gives the
  same result.
\<close>

theorem readTag_terminates:
  "readTag tagID = readTag_body readTag tagID \<and>
   readTag_fuel (Suc (remaining r) + k) tagID r = readTag tagID r"
proof
  show "readTag tagID = readTag_body readTag tagID" by (rule readTag_unfold)
  show "readTag_fuel (Suc (remaining r) + k) tagID r = readTag tagID r"
    unfolding readTag_def by (rule readTag_fuel_enough) (simp_all add: Reader_Remaining_def remaining_def)
qed

text \<open>
  C38: The NBT reader trusts lengths. Three bytes make \<^verbatim>\<open>ReadCompoundTag\<close> panic: a name with a negative length
  passes the bounds check and the slice expression fails. And five bytes make \<^verbatim>\<open>readTag\<close> build a list of any length below 2147483648, because an end tag takes no
  bytes, so the count is not bounded by the input.
\<close>

theorem nbt_reader_trusts_lengths:
  "fst (ReadCompoundTag (NewReader [10, 0x80, 0x00])) = Panic \<and>
   readTag TagList (NewReader ([0] @ be32 n)) =
     (Ok (TList 0 (replicate (nat (sint n)) TEnd)), cursor_at ([0] @ be32 n) 5)"
  using ReadCompoundTag_panics reads_NewReader [OF readTag_end_list [of n], of "[]"] by simp

text \<open>
  \<^verbatim>\<open>Insert\<close> is an update of an ordered map: it changes the value of one name only, keeps the place of a
  name that is present and appends a new one. \<^verbatim>\<open>Clone\<close> of a compound without repeated names at any depth
  is the same compound.
\<close>

lemma compound_insert_clone:
  assumes "distinct_names (TCompound c)"
  shows "Get (Insert c name tag) = (Get c)(name \<mapsto> tag) \<and>
    Names (Insert c name tag) = (if Get c name = None then Names c @ [name] else Names c) \<and>
    Clone c = c"
  using assms clone_same(3) [of "[]" c] by (simp add: Insert_refines Clone_def NewCompound_def)

lemma compound_insert_clone_witness:
  "Get (Insert [(''a'', TByte 1), (''b'', TByte 2)] ''a'' (TByte 3)) =
     (Get [(''a'', TByte 1), (''b'', TByte 2)])(''a'' \<mapsto> TByte 3) \<and>
   Names (Insert [(''a'', TByte 1), (''b'', TByte 2)] ''a'' (TByte 3)) = [''a'', ''b''] \<and>
   Clone [(''a'', TByte 1), (''b'', TByte 2)] = [(''a'', TByte 1), (''b'', TByte 2)]"
  using compound_insert_clone [of "[(''a'', TByte 1), (''b'', TByte 2)]" "''a''" "TByte 3"]
  by (simp add: Get_def Names_def)

section \<open>Play packets and the status response\<close>

text \<open>
  C27: The join-game packet the lobby sends is understood by the decoder the gateway applies to a backend's
  join-game packet, for every protocol: the two layouts agree field by field. The dimension codec and the dimension are
  compounds the writer can represent: numbers in their range, no repeated names, texts and lists within their length fields.
\<close>

theorem join_game_roundtrip:
  assumes "writable (TCompound (jp_DimensionCodec params))" and "writable (TCompound (jp_Dimension params))"
  shows "JoinGameDataFromPacket clientInfo
      (NewRawPacket (JoinGamePacketID (GetProtocol clientInfo)) (LobbyJoinGameData clientInfo params)) =
    Ok (if isV1_20_1 (GetProtocol clientInfo) then lobby_join_data_1_20_1 params else lobby_join_data params) \<and>
    JoinGameIsPacket clientInfo (JoinGamePacketID (GetProtocol clientInfo))"
  using JoinGame_roundtrip [OF assms] by (simp add: JoinGameIsPacket_ID)

theorem join_game_roundtrip_witness:
  "let params = \<lparr>jp_DimensionCodec = [(''a'', TInt 1)], jp_Dimension = [],
       jp_MaxPlayers = 20, jp_ViewDistance = 10, jp_SimulationDistance = 10, jp_Hardcore = False,
       jp_ReducedDebugInfo = False, jp_EnableRespawnScreen = True, jp_IsDebug = False, jp_IsFlat = False\<rparr>; info = EmptyClientInfo
   in JoinGameDataFromPacket info
          (NewRawPacket (JoinGamePacketID (GetProtocol info)) (LobbyJoinGameData info params)) =
        Ok (if isV1_20_1 (GetProtocol info) then lobby_join_data_1_20_1 params else lobby_join_data params) \<and>
      JoinGameIsPacket info (JoinGamePacketID (GetProtocol info))"
  unfolding Let_def by (rule join_game_roundtrip) (simp_all add: TagInt_def TagEnd_def)

text \<open>
  A JSON string written by \<^verbatim>\<open>serdeJSONString\<close> is read back byte for byte by the escapes of RFC 8259, up
  to its closing quote, and contains no raw control character, so no text can end the string early or
  break the status response.
\<close>

lemma json_string_roundtrip:
  "serdeJSONString s = quote # tl (serdeJSONString s) \<and>
   json_string (tl (serdeJSONString s) @ rest) = Some (s, rest) \<and>
   list_all (\<lambda>x. 0x20 \<le> (of_char x :: nat)) (serdeJSONString s)"
  using serdeJSONString_printable [of _ s] json_string_serde [of s rest]
  by (auto simp: serdeJSONString_def list_all_iff)

text \<open>
  A status poll of the monitor finds the status the backend sends: when the connection delivers a
  status response whose JSON the parser accepts, however it is split, \<^verbatim>\<open>waitForStatus\<close> returns that status
  in its first round.
\<close>

lemma status_poll_succeeds:
  assumes "IsCompressed client \<Longrightarrow> zlib_inverse z"
    and "EncodeWithoutLen z (NewRawPacket PacketClientStatusResponse (StringBytes json)) client = Ok payload"
    and "frame = EncodeVarInt (word_of_nat (length payload)) @ payload"
    and "length payload < 2 ^ 14" and "length json + 10 \<le> MaxPacketLength"
    and "script_bytes conn = frame @ tail" and "delivers (length frame) conn"
    and "parse_status json = Some status"
  shows "waitForStatus (Suc fuel) z parse_status client [] conn = Some (Some status)"
  using assms by (rule poll_finds_status)

lemma status_poll_succeeds_witness:
  "waitForStatus (Suc 0) stored_zlib (\<lambda>_. Some some_status) DummyClient [] [([4, 0], None), ([2, 123, 125], None)] =
     Some (Some some_status)"
proof (rule status_poll_succeeds)
  show "EncodeWithoutLen stored_zlib (NewRawPacket PacketClientStatusResponse (StringBytes ''{}'')) DummyClient =
    Ok [0, 2, 123, 125]" by code_simp
  show "[4, 0, 2, 123, 125] = EncodeVarInt (word_of_nat (length [0, 2, 123, 125 :: byte])) @ [0, 2, 123, 125]"
    by code_simp
  show "delivers (length [4, 0, 2, 123, 125 :: byte]) [([4, 0], None), ([2, 123, 125], None)]" by code_simp
qed (simp_all add: stored_zlib_inverse MaxPacketLength_def)

section \<open>The lifecycle of the backend\<close>

text \<open>
  C5: In every state the gateway can reach by any sequence of operations (starts, monitor ticks, signals,
  processes that spawn, exit and cool down, subscribers), each atomic, a kill time is set only while the
  backend is starting or stopping, and an unread state in a subscriber's channel is the current one.
\<close>

theorem reachable_kill_timer:
  assumes "lifecycle_reachable config w"
  shows "(ss_killAt (w_srv w) \<noteq> None \<longrightarrow> ss_state (w_srv w) \<in> {StateStarting, StateStopping}) \<and>
    set (ss_subs (w_srv w)) \<subseteq> {None, Some (ss_state (w_srv w))}"
  using lifecycle_reachable_inv [OF assms] by (auto simp: server_inv_def)

theorem reachable_kill_timer_witness:
  "let w = snd (Start rcon_config (env_at 0) initial_world)
   in ss_killAt (w_srv w) = Some (seconds 300) \<and> ss_state (w_srv w) = StateStarting \<and>
      set (ss_subs (w_srv w)) \<subseteq> {None, Some (ss_state (w_srv w))}"
proof -
  have r: "lifecycle_reachable rcon_config (snd (Start rcon_config (env_at 0) initial_world))"
    unfolding lifecycle_reachable_def by (rule r_into_rtranclp) (rule lifecycle_step.start)
  show ?thesis using reachable_kill_timer [OF r] by (simp add: Let_def run_defs)
qed

text \<open>
  C6: With an external controller the gateway never owns the backend process: in no reachable state has it
  sent a signal or entered the stopping state, and at most one helper is being started or runs, which holds the
  current generation of the helper slot while the slot is taken.
\<close>

theorem controller_managed_safe:
  assumes "lifecycle_reachable config w" and "ControllerManaged config"
  shows "w_sent w = [] \<and> ss_state (w_srv w) \<noteq> StateStopping \<and>
    (w_tasks w = [] \<or>
     ss_helperActive (w_srv w) \<and>
     (w_tasks w = [Spawning (ss_helperGeneration (w_srv w))] \<or>
      (\<exists>pid. w_tasks w = [Waiting pid (ss_helperGeneration (w_srv w))])))"
  using controller_reachable [OF assms] unfolding controller_inv_def .

theorem controller_managed_safe_witness:
  "let config = rcon_config\<lparr>cfg_Server := (cfg_Server rcon_config)\<lparr>sv_ControllerManaged := True\<rparr>\<rparr>;
       w = snd (Start config (env_at 0) initial_world)
   in w_sent w = [] \<and> ss_state (w_srv w) = StateStarting \<and> w_tasks w = [Spawning 1] \<and>
      ss_helperActive (w_srv w)"
proof -
  let ?config = "rcon_config\<lparr>cfg_Server := (cfg_Server rcon_config)\<lparr>sv_ControllerManaged := True\<rparr>\<rparr>"
  have r: "lifecycle_reachable ?config (snd (Start ?config (env_at 0) initial_world))"
    unfolding lifecycle_reachable_def by (rule r_into_rtranclp) (rule lifecycle_step.start)
  show ?thesis
    using controller_managed_safe [OF r]
    by (simp add: Let_def run_defs beginControllerHelper_simps)
qed

text \<open>
  A backend that the gateway did not spawn and that it stops through RCON is lost: such a state (stopping,
  no process id, no goroutine left) can be reached, and from it no sequence of operations leads to another
  state, so the gateway reports a stopping server for ever and never starts it again.
\<close>

lemma stopping_state_can_stick:
  "\<exists>w. lifecycle_reachable rcon_config w \<and> ss_state (w_srv w) = StateStopping \<and>
     {w'. (lifecycle_step rcon_config)\<^sup>*\<^sup>* w w'} \<subseteq> {w'. ss_state (w_srv w') = StateStopping \<and> w_tasks w' = []}"
proof -
  obtain w where "lifecycle_reachable rcon_config w" and o: "orphan_stopping w"
    using orphan_reachable by blast
  moreover have "orphan_stopping w'" if "(lifecycle_step rcon_config)\<^sup>*\<^sup>* w w'" for w'
    using orphan_forever [OF that o] .
  ultimately show ?thesis unfolding orphan_stopping_def by blast
qed

text \<open>
  Two backend processes can run at once: one poll and one ping that fail while the first process is alive
  put the gateway in the stopped state, and the next start spawns a second process, whose id replaces the
  first one's.
\<close>

lemma second_process_possible:
  "\<exists>w. lifecycle_reachable rcon_config w \<and> processes w = [1, 2] \<and> ss_pid (w_srv w) = 2"
  by (rule second_process_reachable)

text \<open>
  The steps of \<^verbatim>\<open>updateStateFrom\<close> are separate critical sections. A status update that runs between
  the commit of the starting state and the write of its kill time leaves a started server with a kill time:
  the invariant on kill times fails, and the next monitor tick after that time force-kills the running server.
\<close>

lemma state_update_race:
  assumes "0 < sv_StartTimeout (cfg_Server config)" and "ss_state s = StateStopped"
  shows "let s1 = snd (commit_state (Some StateStopped) StateStarting s);
             s2 = UpdateStatus config now (Some st) s1;
             s3 = set_kill_time config now StateStarting (broadcastState StateStarting s2)
         in ss_state s3 = StateStarted \<and>
            ss_killAt s3 = Some (now + seconds (sv_StartTimeout (cfg_Server config))) \<and>
            ShouldKill (now + seconds (sv_StartTimeout (cfg_Server config)) + 1) s3"
  using interleaved_kill_timer(1,2) [OF assms, where now = now and st = st]
  by (simp add: Let_def ShouldKill_def)

lemma state_update_race_witness:
  "let s1 = snd (commit_state (Some StateStopped) StateStarting NewServerState);
       s2 = UpdateStatus defaultConfig 5 (Some some_status) s1;
       s3 = set_kill_time defaultConfig 5 StateStarting (broadcastState StateStarting s2)
   in ss_state s3 = StateStarted \<and>
      ss_killAt s3 = Some (5 + seconds (sv_StartTimeout (cfg_Server defaultConfig))) \<and>
      ShouldKill (5 + seconds (sv_StartTimeout (cfg_Server defaultConfig)) + 1) s3"
  by (rule state_update_race) (simp_all add: defaultConfig_def NewServerState_def)

text \<open>
  The server is put to sleep exactly when no controller manages it, it is started, its last status (if
  any) reports no player, its minimum online time is over, and it has been idle for the configured time.
\<close>

lemma sleeps_exactly_when_idle:
  "ShouldSleep config now s \<longleftrightarrow>
     \<not> ControllerManaged config \<and> ss_state s = StateStarted \<and>
     (case ss_status s of Some st \<Rightarrow> pl_Online (st_Players st) = 0 | None \<Rightarrow> True) \<and>
     (case ss_keepOnline s of Some t \<Rightarrow> t < now | None \<Rightarrow> True) \<and>
     (case ss_lastActive s of Some t \<Rightarrow> seconds (tm_SleepAfter (cfg_Time config)) \<le> now - t | None \<Rightarrow> False)"
  unfolding ShouldSleep_iff by (auto split: option.splits)

section \<open>The edge: start-up, admission, routing, login\<close>

text \<open>
  C16: The admission slots are exact under any interleaving of arriving connections, held clients that are passed
  on, and goroutines that return: the tokens in the status channel are the goroutines serving a status or login
  (the lobby with its proxying included), at most 128; those in the proxy channel are the goroutines that \<^verbatim>\<open>routeProxy\<close>
  and \<^verbatim>\<open>routeProxyAddressQueue\<close> started, at most 256 together; and a connection is closed for want of a slot only
  when all slots of one kind are taken.
\<close>

theorem admission_exact:
  assumes "edge_step\<^sup>*\<^sup>* quiet_edge g"
  shows "ca_status (eg_admission g) = eg_status g \<and> eg_status g \<le> 128 \<and>
    ca_proxy (eg_admission g) = eg_proxy g + eg_queued g \<and> eg_proxy g + eg_queued g \<le> 256 \<and>
    (fst (route ip_string parse_time now config server peer (eg_admission g)) = CloseConnection \<longrightarrow>
       eg_status g = 128 \<or> eg_proxy g + eg_queued g = 256)"
  using edge_reachable_inv [OF assms] route_closes [OF edge_reachable_inv [OF assms]]
  by (cases "route ip_string parse_time now config server peer (eg_admission g)")
    (auto simp: edge_inv_def maxStatusClients_def maxProxyClients_def)

theorem admission_exact_witness:
  "let busy = \<lparr>eg_admission = \<lparr>ca_status = 1, ca_proxy = 0\<rparr>, eg_status = 1, eg_proxy = 0, eg_queued = 0\<rparr>
   in edge_step\<^sup>*\<^sup>* quiet_edge busy \<and> ca_status (eg_admission busy) = eg_status busy \<and>
      fst (route id (\<lambda>_. None) 0 defaultConfig NewServerState None (eg_admission busy)) \<noteq> CloseConnection"
proof -
  let ?busy = "\<lparr>eg_admission = \<lparr>ca_status = 1, ca_proxy = 0\<rparr>, eg_status = 1, eg_proxy = 0, eg_queued = 0\<rparr>"
  have "route id (\<lambda>_. None) 0 defaultConfig NewServerState (Some ''1.2.3.4'') (eg_admission quiet_edge) =
      (ServeStatus, \<lparr>ca_status = 1, ca_proxy = 0\<rparr>)"
    by (simp add: route_def shouldRouteDirectProxy_def routeStatus_def acquireStatus_def Let_def quiet_edge_def
        NewServerState_def newConnectionAdmission_def maxStatusClients_def IsBannedIP_def BannedIps_IsBanned_def
        BannedIps_Get_def NewBannedIps_def defaultConfig_def)
  from edge_step.serve [OF this] have "edge_step\<^sup>*\<^sup>* quiet_edge ?busy"
    by (intro r_into_rtranclp) (simp add: quiet_edge_def)
  then show ?thesis
    using admission_exact [of ?busy id "\<lambda>_. None" 0 defaultConfig NewServerState None] by (auto simp: Let_def)
qed

text \<open>
  C17: A connection goes straight to the backend only from a peer whose address is known and not banned, while
  the server is started, without lockout and without online mode; and routing keeps both slots within their
  bounds.
\<close>

theorem route_safe:
  assumes "route ip_string parse_time now config server peer a = (d, a')"
    and "ca_status a \<le> maxStatusClients" and "ca_proxy a \<le> maxProxyClients"
  shows "ca_status a' \<le> maxStatusClients \<and> ca_proxy a' \<le> maxProxyClients \<and>
    (d = ProxyDirect \<longrightarrow>
       (\<exists>peerIP. peer = Some peerIP \<and> \<not> IsBannedIP ip_string parse_time now peerIP server) \<and>
       ss_state server = StateStarted \<and> \<not> lo_Enabled (cfg_Lockout config) \<and> \<not> au_OnlineMode (cfg_Auth config))"
  using route_bounds [OF assms] route_ProxyDirect [of ip_string parse_time now config server peer a] assms(1)
  by auto

theorem route_safe_witness:
  "let server = NewServerState\<lparr>ss_state := StateStarted\<rparr>;
       r = route id (\<lambda>_. None) 0 defaultConfig server (Some ''1.2.3.4'') newConnectionAdmission
   in r = (ProxyDirect, \<lparr>ca_status = 0, ca_proxy = 1\<rparr>) \<and> ca_proxy (snd r) \<le> maxProxyClients \<and>
      \<not> IsBannedIP id (\<lambda>_. None) 0 ''1.2.3.4'' server"
proof -
  have r: "route id (\<lambda>_. None) 0 defaultConfig (NewServerState\<lparr>ss_state := StateStarted\<rparr>) (Some ''1.2.3.4'')
      newConnectionAdmission = (ProxyDirect, \<lparr>ca_status = 0, ca_proxy = 1\<rparr>)"
    by (simp add: route_def shouldRouteDirectProxy_def routeProxy_def acquireProxy_def Let_def defaultConfig_def
        NewServerState_def newConnectionAdmission_def maxProxyClients_def IsBannedIP_def BannedIps_IsBanned_def
        BannedIps_Get_def NewBannedIps_def)
  show ?thesis using route_safe [OF r] r by (simp add: Let_def newConnectionAdmission_def)
qed

text \<open>
  C33: Start-up succeeds exactly for the configurations it should accept: under an external controller none that
  freezes the backend, restarts it after a crash, controls it by RCON or rewrites its properties; in online mode
  only a loopback backend, the lobby as first join method and a usable forwarding secret; and a configured
  Forge status file must be readable. When it succeeds, the state it hands to the services satisfies the
  lifecycle invariants and no admission slot is taken.
\<close>

theorem startup_establishes_invariants:
  "((\<exists>w a. Service_init secret_ok snapshot env config = Ok (w, a)) \<longleftrightarrow>
      (ControllerManaged config \<longrightarrow> \<not> FreezeProcess config \<and> \<not> sv_WakeOnCrash (cfg_Server config) \<and>
         \<not> rc_Enabled (cfg_Rcon config) \<and> \<not> ad_RewriteServerProperties (cfg_Advanced config)) \<and>
      (au_OnlineMode (cfg_Auth config) \<longrightarrow> IP_IsLoopback (sa_IP (sv_Address (cfg_Server config))) \<and>
         (\<exists>ms. jo_Methods (cfg_Join config) = MethodLobby # ms) \<and> secret_ok) \<and>
      (sv_ForgeStatusFile (cfg_Server config) \<noteq> [] \<longrightarrow> (\<exists>st. snapshot = Ok st))) \<and>
   (Service_init secret_ok snapshot env config = Ok (w, a) \<longrightarrow>
      server_inv (w_srv w) \<and> a = newConnectionAdmission \<and> (ControllerManaged config \<longrightarrow> controller_inv w))"
  using Service_init_iff [of secret_ok snapshot env config] Service_init_reachable [of secret_ok snapshot env config w a]
  unfolding validateControllerManagedConfig_iff validateOnlineModeConfig_iff by blast

text \<open>A configuration with both an external controller and online mode that start-up accepts.\<close>

definition guarded_config :: Config where
  "guarded_config =
     defaultConfig
       \<lparr>cfg_Auth := (cfg_Auth defaultConfig)\<lparr>au_OnlineMode := True\<rparr>,
        cfg_Server := (cfg_Server defaultConfig)\<lparr>sv_ControllerManaged := True, sv_FreezeProcess := False, sv_WakeOnCrash := False\<rparr>,
        cfg_Rcon := (cfg_Rcon defaultConfig)\<lparr>rc_Enabled := False\<rparr>,
        cfg_Advanced := (cfg_Advanced defaultConfig)\<lparr>ad_RewriteServerProperties := False\<rparr>,
        cfg_Join := (cfg_Join defaultConfig)\<lparr>jo_Methods := [MethodLobby]\<rparr>\<rparr>"

lemma guarded_config_simps [simp]:
  "ControllerManaged guarded_config" "au_OnlineMode (cfg_Auth guarded_config)"
  "\<not> FreezeProcess guarded_config" "\<not> sv_WakeOnCrash (cfg_Server guarded_config)"
  "\<not> rc_Enabled (cfg_Rcon guarded_config)" "\<not> ad_RewriteServerProperties (cfg_Advanced guarded_config)"
  "IP_IsLoopback (sa_IP (sv_Address (cfg_Server guarded_config)))"
  "jo_Methods (cfg_Join guarded_config) = [MethodLobby]" "sv_ForgeStatusFile (cfg_Server guarded_config) = []"
  by (simp_all add: guarded_config_def defaultConfig_def IP_IsLoopback_def
      IP_To4_def IPv4_def nth_append)

theorem startup_establishes_invariants_witness:
  "\<exists>w. Service_init True (Ok None) (env_at 0) guarded_config = Ok (w, newConnectionAdmission) \<and>
     server_inv (w_srv w) \<and> controller_inv w \<and> ControllerManaged guarded_config \<and>
     au_OnlineMode (cfg_Auth guarded_config)"
proof -
  note facts = startup_establishes_invariants [of True "Ok None" "env_at 0" guarded_config]
  obtain w a where init: "Service_init True (Ok None) (env_at 0) guarded_config = Ok (w, a)"
    using facts [of initial_world newConnectionAdmission] by auto
  show ?thesis using facts [of w a] init by auto
qed


text \<open>An environment for the witnesses, and the first packets of a login as bytes.\<close>

definition plain_env :: serve_env where
  "plain_env = \<lparr>se_zlib = stored_zlib, se_ip_string = id, se_parse_time = (\<lambda>_. None), se_json_valid = (\<lambda>_. False),
     se_favicon = [], se_peerIP = ''1.2.3.4'', se_env = env_at 0\<rparr>"

lemma empty_login_undecodable: "DecodeLoginStart [] = Fail"
  by code_simp

text \<open>
  A login start that cannot be decoded (an empty packet, a name above 16 bytes) skips the whitelist check:
  without lockout, ban or online mode it starts the backend whatever the whitelist says, and the client is
  handed on.
\<close>

lemma undecodable_login_wakes:
  assumes "DecodeLoginStart (rp_Data packet) = Fail" and "ci_Username (sc_info c) = None"
    and "\<not> lo_Enabled (cfg_Lockout config)" and "\<not> au_OnlineMode (cfg_Auth config)"
    and "BanEntry (se_ip_string e) (se_peerIP e) (w_srv (sc_world c)) = None"
  shows "serve_login e config packet raw buf c =
    ServeOccupy (c\<lparr>sc_world := snd (Start config (se_env e) (sc_world c)),
      sc_history := sc_history c @ raw @ buf\<rparr>) (raw @ buf)"
  using assms by (simp add: serve_login_def serve_login_allowed_def Let_def)

lemma undecodable_login_wakes_witness:
  "let e = plain_env; w = initial_world\<lparr>w_srv := SetWhitelist (Some \<lparr>wl_whitelist = [], wl_ops = []\<rparr>) NewServerState\<rparr>;
       c = \<lparr>sc_client = SetState DummyClient ClientStateLogin, sc_info = EmptyClientInfo, sc_history = [],
         sc_sink = \<lparr>sk_written = [], sk_budget = 9\<rparr>, sc_world = w\<rparr>
   in serve_login e rcon_config (NewRawPacket 0 []) [1, 0] [] c =
        ServeOccupy (c\<lparr>sc_world := snd (Start rcon_config (env_at 0) w), sc_history := [1, 0]\<rparr>) [1, 0] \<and>
      ss_state (w_srv (snd (Start rcon_config (env_at 0) w))) = StateStarting"
  unfolding Let_def
proof
  show "ss_state (w_srv (snd (Start rcon_config (env_at 0) (initial_world\<lparr>w_srv := SetWhitelist
      (Some \<lparr>wl_whitelist = [], wl_ops = []\<rparr>) NewServerState\<rparr>)))) = StateStarting"
    by (simp add: run_defs SetWhitelist_def)
qed (subst undecodable_login_wakes;
    simp add: plain_env_def EmptyClientInfo_def initial_world_def SetWhitelist_def NewServerState_def BanEntry_def
      BannedIps_Get_def NewBannedIps_def NewRawPacket_def empty_login_undecodable defaultConfig_def rcon_config_def)

section \<open>Forge logins\<close>

text \<open>
  C14: Relaying Forge logins keeps the record of exchanges within 512 exchanges and 8 MiB and its byte count
  exact, whatever the backend and the client send; what \<^verbatim>\<open>commit\<close> stores in the cache is the record.
\<close>

theorem forge_cache_bounded:
  assumes "relay_inv r"
  shows "relay_inv (fst (snd (relayForgeLoginRequest z tmpClient request r outbound))) \<and>
    (fr_exchanges r \<noteq> [] \<longrightarrow>
      length (ForgeLoginCache (commit r s)) \<le> maxForgeLoginExchanges \<and>
      sum_list (map exchange_size (ForgeLoginCache (commit r s))) \<le> maxForgeLoginCacheBytes \<and>
      ForgeLoginCache (commit r s) = fr_exchanges r)"
  using relay_keeps_inv [OF assms] commit_bounded [OF assms] by blast

text \<open>A request that expects no answer: it is recorded at once.\<close>

definition silent_request :: LoginPluginRequest where
  "silent_request = \<lparr>lpq_MessageID = 1, lpq_Channel = forgeChannelLoginWrapper,
     lpq_Data = wire_string forgeChannelHandshake @ [1, 5]\<rparr>"

theorem forge_cache_bounded_witness:
  "let r = fst (snd (relayForgeLoginRequest stored_zlib DummyClient silent_request
         (newForgeLoginRelay DummyClient [] [] \<lparr>sk_written = [], sk_budget = 9\<rparr>) \<lparr>sk_written = [], sk_budget = 9\<rparr>))
   in relay_inv r \<and> length (fr_exchanges r) = 1"
proof -
  let ?k = "\<lparr>sk_written = [], sk_budget = 9\<rparr>"
  have inner: "inspectForgeLoginWrapper silent_request = Some (forgeChannelHandshake, 5)" by code_simp
  have short: "length (encodeLoginPluginRequest (silent_request\<lparr>lpq_MessageID := 1\<rparr>)) = 34" by code_simp
  have plain: "\<not> IsCompressed DummyClient" by (simp add: DummyClient_def NewClient_def IsCompressed_def)
  obtain k' where w: "writePacket stored_zlib DummyClient (NewRawPacket PacketClientLoginPluginRequest
      (encodeLoginPluginRequest (silent_request\<lparr>lpq_MessageID := 1\<rparr>))) ?k = (True, k')"
    using writePacket_plain [OF plain, of ?k stored_zlib] by auto
  have "length (fr_exchanges (fst (snd (relayForgeLoginRequest stored_zlib DummyClient silent_request
      (newForgeLoginRelay DummyClient [] [] ?k) ?k)))) = 1"
    using inner short w
    by (simp add: relayForgeLoginRequest_def relay_def Let_def newForgeLoginRelay_def silent_request_def
        maxForgeLoginExchanges_def maxForgeLoginCacheBytes_def MaxPacketLength_def)
  then show ?thesis
    using forge_cache_bounded [OF relay_inv_new, of stored_zlib DummyClient silent_request DummyClient "[]" "[]"
        "\<lparr>sk_written = [], sk_budget = 9\<rparr>" "\<lparr>sk_written = [], sk_budget = 9\<rparr>"] by (simp add: Let_def)
qed

text \<open>
  A recorded exchange answers a request exactly when channel and data are the recorded ones; the message id,
  which the backend numbers afresh on every connection, does not matter.
\<close>

lemma cached_exchange_matches:
  assumes "length (lpq_Channel q) \<le> 32767" and "fx_Request x = encodeLoginPluginRequest (q\<lparr>lpq_MessageID := m\<rparr>)"
  shows "cachedForgeRequestMatches x q' \<longleftrightarrow> lpq_Channel q' = lpq_Channel q \<and> lpq_Data q' = lpq_Data q"
  using assms by (rule cached_matches)

lemma cached_exchange_matches_witness:
  "cachedForgeRequestMatches
     \<lparr>fx_Request = encodeLoginPluginRequest \<lparr>lpq_MessageID = 1, lpq_Channel = ''c'', lpq_Data = [2]\<rparr>,
      fx_Success = True, fx_Data = [], fx_NoResponse = False\<rparr> \<lparr>lpq_MessageID = 5, lpq_Channel = ''c'', lpq_Data = [2]\<rparr>"
  by (subst cached_exchange_matches [of "\<lparr>lpq_MessageID = 1, lpq_Channel = ''c'', lpq_Data = [2]\<rparr>" _ 1]) simp_all

text \<open>
  The reply to a mod list repeats the server's mods and channels and gives every registry an empty marker,
  for every list whose strings have at most 32767 bytes.
\<close>

lemma mod_list_reply:
  assumes "short_strings mods" "short_strings (map fst chans)" "short_strings (map snd chans)"
    "short_strings regs"
  shows "forgeModListReply (wire_strings mods @ wire_pairs chans @ wire_strings regs @ rest) =
    Ok (wire_strings mods @ wire_pairs chans @ wire_pairs (map (\<lambda>s. (s, [])) regs))"
  using assms by (rule forgeModListReply_reply)

lemma mod_list_reply_witness:
  "forgeModListReply (wire_strings [''forge''] @ wire_pairs [(''a:b'', ''1'')] @ wire_strings [''r''] @ []) =
    Ok (wire_strings [''forge''] @ wire_pairs [(''a:b'', ''1'')] @ wire_pairs (map (\<lambda>s. (s, [])) [''r'']))"
  by (rule mod_list_reply) (simp_all add: short_strings_def)

text \<open>
  The packet \<^verbatim>\<open>respondForgeLoginPacket\<close> builds does not carry its message id: a backend that decodes it
  as a login plugin response reads the length of the channel name as the id.
\<close>

lemma forge_response_loses_id:
  assumes "respondForgeLoginPacket_packet z client messageID channel pid data = Ok p"
    and "channel \<noteq> []" and "CHR 0x00 \<notin> set channel"
  shows "\<exists>rest. DecodeLoginPluginResponse (rp_Data p) =
    Ok \<lparr>lpr_MessageID = word_of_nat (length channel), lpr_Successful = True, lpr_Data = rest\<rparr>"
  using assms by (rule respondForge_decoded)

lemma forge_response_loses_id_witness:
  "\<exists>rest. DecodeLoginPluginResponse (rp_Data (NewRawPacket 2 [1, 99, 2, 7])) =
    Ok \<lparr>lpr_MessageID = word_of_nat (length ''c''), lpr_Successful = True, lpr_Data = rest\<rparr>"
proof (rule forge_response_loses_id)
  show "respondForgeLoginPacket_packet stored_zlib DummyClient 42 ''c'' 2 [7] = Ok (NewRawPacket 2 [1, 99, 2, 7])"
    by code_simp
qed simp_all

section \<open>Joining\<close>

text \<open>
  The moments and connections of the witnesses: a server that is starting and becomes ready while the client
  is held, a login split across two reads, and two peers that say nothing more.
\<close>

definition waking_moment :: join_moment where
  "waking_moment = \<lparr>jm_server = NewServerState\<lparr>ss_state := StateStarting\<rparr>, jm_states = [StateStarting, StateStarted],
     jm_admission = newConnectionAdmission\<rparr>"

definition login_script :: script where
  "login_script = [([6, 0, 1, 0], None), ([0, 9, 2, 3, 0, 1, 97, 8], None)]"

definition idle_backend :: duplex where
  "idle_backend = \<lparr>dx_in = [], dx_out = \<lparr>sk_written = [], sk_budget = 9\<rparr>, dx_remote = OtherAddr, dx_local = OtherAddr\<rparr>"

definition idle_client :: duplex where
  "idle_client = \<lparr>dx_in = [], dx_out = \<lparr>sk_written = [], sk_budget = 9\<rparr>, dx_remote = OtherAddr, dx_local = OtherAddr\<rparr>"

text \<open>
  C2: The backend of a held client sees what the client sent. When a connection starts with a login handshake
  and a login start, a join method proxies it, and both streams end cleanly, the backend receives the PROXY
  header (if one is configured) and then the client's whole stream from its first byte, and the client
  receives the backend's whole stream.
\<close>

theorem held_client_transparent:
  assumes "ReadPacket (se_zlib e) client [] conn = (Packet p1 raw1, b1, k1)"
    and "ReadPacket (se_zlib e) (SetState client ClientStateLogin) b1 k1 = (Packet p2 raw2, b2, k2)"
    and "cl_state client = ClientStateHandshake" and "rp_ID p1 = PacketHandshake"
    and "DecodeHandshake (rp_Data p1) = Ok hs" and "hs_NextState hs = ToID ClientStateLogin"
    and "rp_ID p2 = PacketServerLoginStart"
    and "Serve e config client conn k w = (ServeOccupy c q, rest)"
    and "Occupy (se_zlib e) (sc_client c) (sc_info c) config moments (sc_history c) q (sc_sink c) =
      (OccProxied h addr queue, k')"
    and "dx_in inbound = rest" and "clean_stream rest" and "clean_stream (dx_in outbound)"
    and "takes (length rest + length (script_bytes rest) + 2) (dx_out outbound)"
    and "takes (length (dx_in outbound) + length (script_bytes (dx_in outbound)) + 1) (dx_out inbound)"
    and "proxy_header_bytes h inbound = Ok header"
  shows "\<exists>ik ok. ProxyWithQueue (Some outbound) inbound h queue = Some (True, ik, ok) \<and>
    sent_bytes ok = sent_bytes (dx_out outbound) @ header @ script_bytes conn \<and>
    sent_bytes ik = sent_bytes (dx_out inbound) @ script_bytes (dx_in outbound)"
proof -
  have "queue = sc_history c"
    using Occupy_loop_proxied assms(9) by (fastforce simp: Occupy_def proxied_properly_def)
  moreover have "sc_history c @ script_bytes rest = script_bytes conn" using Serve_history(1) [OF assms(1-8)] .
  ultimately show ?thesis
    using ProxyWithQueue_sent [of inbound outbound h header queue] assms(10-15) by (metis append.assoc)
qed

theorem held_client_transparent_witness:
  "\<exists>c h addr queue k' ik ok. Serve plain_env rcon_config DummyClient login_script \<lparr>sk_written = [], sk_budget = 9\<rparr> initial_world =
       (ServeOccupy c [3, 0, 1, 97, 8], []) \<and>
     Occupy stored_zlib (sc_client c) (sc_info c) rcon_config (\<lambda>_. waking_moment) (sc_history c) [3, 0, 1, 97, 8] (sc_sink c) =
       (OccProxied h addr queue, k') \<and>
     ProxyWithQueue (Some idle_backend) idle_client h queue = Some (True, ik, ok) \<and>
     sent_bytes ok = [6, 0, 1, 0, 0, 9, 2, 3, 0, 1, 97, 8]"
proof -
  have z: "se_zlib plain_env = stored_zlib" by (simp add: plain_env_def)
  have r1: "ReadPacket (se_zlib plain_env) DummyClient [] login_script =
      (Packet (NewRawPacket 0 [1, 0, 0, 9, 2]) [6, 0, 1, 0, 0, 9, 2], [3, 0, 1, 97, 8], [])"
    by (simp add: ReadPacket_def read_run login_script_def)
  have r2: "ReadPacket (se_zlib plain_env) (SetState DummyClient ClientStateLogin) [3, 0, 1, 97, 8] [] =
      (Packet (NewRawPacket 0 [1, 97]) [3, 0, 1, 97], [8], [])"
    by (simp add: ReadPacket_def read_run SetState_def)
  have h: "DecodeHandshake [1, 0, 0, 9, 2] =
      Ok \<lparr>hs_ProtocolVersion = 1, hs_ServerAddr = [], hs_ServerPort = 9, hs_NextState = 2\<rparr>" by code_simp
  have l: "DecodeLoginStart [1, 97] = Ok \<lparr>ls_Name = ''a''\<rparr>" by code_simp
  have "\<exists>c. Serve plain_env rcon_config DummyClient login_script \<lparr>sk_written = [], sk_budget = 9\<rparr> initial_world =
      (ServeOccupy c [3, 0, 1, 97, 8], [])"
    using r1 r2 h l
    by (simp add: Serve_def Serve_loop.simps [of _ _ "[]"] Serve_loop.simps [of _ _ "[3, 0, 1, 97, 8]"]
        serve_packet_def serve_handshake_def serve_login_def serve_login_allowed_def Let_def FromID_def
        DummyClient_def NewClient_def SetState_def NewRawPacket_def PacketHandshake_def PacketServerLoginStart_def
        BanEntry_def BannedIps_Get_def NewBannedIps_def initial_world_def NewServerState_def IsWhitelisted_def
        rcon_config_def defaultConfig_def)
  then obtain c where c: "Serve plain_env rcon_config DummyClient login_script \<lparr>sk_written = [], sk_budget = 9\<rparr>
      initial_world = (ServeOccupy c [3, 0, 1, 97, 8], [])" ..
  have h': "DecodeHandshake (rp_Data (NewRawPacket 0 [1, 0, 0, 9, 2])) =
      Ok \<lparr>hs_ProtocolVersion = 1, hs_ServerAddr = [], hs_ServerPort = 9, hs_NextState = 2\<rparr>"
    using h by (simp add: NewRawPacket_def)
  have occ: "Occupy (se_zlib plain_env) (sc_client c) (sc_info c) rcon_config (\<lambda>_. waking_moment) (sc_history c)
      [3, 0, 1, 97, 8] (sc_sink c) =
    (OccProxied ProxyHeaderNone (sv_Address (cfg_Server rcon_config)) (sc_history c), sc_sink c)"
    by (simp add: Occupy_def run_method_def holdOccupy_def routeProxyQueue_def routeProxyAddressQueue_def
        acquireProxy_def waking_moment_def newConnectionAdmission_def maxProxyClients_def NotNone_def rcon_config_def
        defaultConfig_def)
  have "\<exists>ik ok. ProxyWithQueue (Some idle_backend) idle_client ProxyHeaderNone (sc_history c) = Some (True, ik, ok) \<and>
      sent_bytes ok = sent_bytes (dx_out idle_backend) @ [] @ script_bytes login_script \<and>
      sent_bytes ik = sent_bytes (dx_out idle_client) @ script_bytes (dx_in idle_backend)"
    by (rule held_client_transparent [OF r1 r2 _ _ h' _ _ c occ])
      (simp_all add: NewRawPacket_def DummyClient_def NewClient_def PacketHandshake_def PacketServerLoginStart_def
        idle_backend_def idle_client_def clean_stream_def takes_def proxy_header_bytes_def)
  then show ?thesis
    using c occ z by (fastforce simp: idle_backend_def sent_bytes_def login_script_def)
qed

text \<open>
  C22: A joining client is proxied only by the hold method, to the backend, after the server was seen starting and
  then started with nothing else between, or by the forward method, to the configured address; either way
  with its whole history and the PROXY header its setting asks for. A client the lobby takes over (\<open>OccLobby\<close>) is
  proxied by the lobby itself, which is another result.
\<close>

theorem join_proxies_properly:
  assumes "Occupy z client clientInfo config moments history loginQueue k = (OccProxied h addr queue, k')"
  shows "queue = history \<and>
    (\<exists>i < length (jo_Methods (cfg_Join config)).
       jo_Methods (cfg_Join config) ! i = MethodHold \<and> addr = sv_Address (cfg_Server config) \<and>
         h = NotNone ProxyHeaderProxy (sv_SendProxyV2 (cfg_Server config)) \<and>
         ss_state (jm_server (moments i)) = StateStarting \<and>
         (\<exists>n ys. jm_states (moments i) = replicate n StateStarting @ StateStarted # ys) \<or>
       jo_Methods (cfg_Join config) ! i = MethodForward \<and> addr = jf_Address (jo_Forward (cfg_Join config)) \<and>
         h = NotNone ProxyHeaderProxy (jf_SendProxyV2 (jo_Forward (cfg_Join config))))"
  using Occupy_loop_proxied [OF assms [unfolded Occupy_def]]
  unfolding proxied_properly_def holdClient_iff .

theorem join_proxies_properly_witness:
  "Occupy stored_zlib DummyClient EmptyClientInfo defaultConfig (\<lambda>_. waking_moment) [1] [1] \<lparr>sk_written = [], sk_budget = 9\<rparr> =
     (OccProxied ProxyHeaderNone (sv_Address (cfg_Server defaultConfig)) [1], \<lparr>sk_written = [], sk_budget = 9\<rparr>) \<and>
   (\<exists>i < length (jo_Methods (cfg_Join defaultConfig)). jo_Methods (cfg_Join defaultConfig) ! i \<in> {MethodHold, MethodForward})"
proof -
  have run: "Occupy stored_zlib DummyClient EmptyClientInfo defaultConfig (\<lambda>_. waking_moment) [1] [1]
      \<lparr>sk_written = [], sk_budget = 9\<rparr> =
     (OccProxied ProxyHeaderNone (sv_Address (cfg_Server defaultConfig)) [1], \<lparr>sk_written = [], sk_budget = 9\<rparr>)"
    by (simp add: Occupy_def run_method_def holdOccupy_def routeProxyQueue_def routeProxyAddressQueue_def
        acquireProxy_def waking_moment_def newConnectionAdmission_def maxProxyClients_def NotNone_def defaultConfig_def)
  then show ?thesis using join_proxies_properly [OF run] by blast
qed

text \<open>
  With online mode, a configuration that start-up accepts sends a joining client to the lobby, which verifies
  it, unless the gateway is set up for Forge, has no probed join-game packet and the client's protocol is
  older than 763.
\<close>

lemma online_mode_lobby:
  assumes "validateOnlineModeConfig secret_ok config" and "au_OnlineMode (cfg_Auth config)"
    and "\<not> mustStillProbe config (jm_server (moments 0)) clientInfo"
  shows "Occupy z client clientInfo config moments history loginQueue k = (OccLobby loginQueue, k)"
  using assms by (rule Occupy_online_lobby)

text \<open>An online-mode configuration that start-up accepts, with the hold method behind the lobby.\<close>

definition online_config :: "bool \<Rightarrow> Config" where
  "online_config forge =
     defaultConfig
       \<lparr>cfg_Auth := (cfg_Auth defaultConfig)\<lparr>au_OnlineMode := True\<rparr>,
        cfg_Server := (cfg_Server defaultConfig)\<lparr>sv_Forge := forge\<rparr>,
        cfg_Join := (cfg_Join defaultConfig)\<lparr>jo_Methods := [MethodLobby, MethodHold]\<rparr>\<rparr>"

lemma online_config_valid: "validateOnlineModeConfig True (online_config forge)"
  by (simp add: online_config_def validateOnlineModeConfig_def defaultConfig_def IP_IsLoopback_def IP_To4_def IPv4_def nth_append)

lemma online_mode_lobby_witness:
  "Occupy stored_zlib DummyClient EmptyClientInfo (online_config False) (\<lambda>_. waking_moment) [1] [1]
     \<lparr>sk_written = [], sk_budget = 9\<rparr> = (OccLobby [1], \<lparr>sk_written = [], sk_budget = 9\<rparr>)"
  by (rule online_mode_lobby [OF online_config_valid])
    (simp_all add: online_config_def mustStillProbe_def mustProbe_def defaultConfig_def)

text \<open>
  C39: With the lobby and the hold method configured, a Forge backend without a probed join-game packet, and a client that
  does not announce protocol 763 (1.20.1) or later, the client reaches the backend without being verified: the
  lobby method passes, and the hold method behind it proxies the unverified login to the offline-mode backend as soon as the
  server is up, although online-mode clients are meant to pass through the lobby always.
\<close>

theorem online_mode_bypass:
  assumes "jo_Methods (cfg_Join config) = [MethodLobby, MethodHold]" and "sv_Forge (cfg_Server config)"
    and "\<not> isForgeFML3 clientInfo" and "ProbedJoinGame (jm_server (moments 0)) = None"
    and "ss_state (jm_server (moments 1)) = StateStarting" and "holdClient (jm_states (moments 1))"
    and "ca_proxy (jm_admission (moments 1)) < maxProxyClients"
  shows "Occupy z client clientInfo config moments history loginQueue k =
    (OccProxied (NotNone ProxyHeaderProxy (sv_SendProxyV2 (cfg_Server config)))
      (sv_Address (cfg_Server config)) history, k)"
  using assms by (rule Occupy_online_bypass)

theorem online_mode_bypass_witness:
  "validateOnlineModeConfig True (online_config True) \<and> au_OnlineMode (cfg_Auth (online_config True)) \<and>
   Occupy stored_zlib DummyClient EmptyClientInfo (online_config True) (\<lambda>_. waking_moment) [1] [1]
     \<lparr>sk_written = [], sk_budget = 9\<rparr> =
   (OccProxied (NotNone ProxyHeaderProxy (sv_SendProxyV2 (cfg_Server (online_config True))))
      (sv_Address (cfg_Server (online_config True))) [1], \<lparr>sk_written = [], sk_budget = 9\<rparr>)"
proof (intro conjI)
  show "Occupy stored_zlib DummyClient EmptyClientInfo (online_config True) (\<lambda>_. waking_moment) [1] [1]
     \<lparr>sk_written = [], sk_budget = 9\<rparr> =
   (OccProxied (NotNone ProxyHeaderProxy (sv_SendProxyV2 (cfg_Server (online_config True))))
      (sv_Address (cfg_Server (online_config True))) [1], \<lparr>sk_written = [], sk_budget = 9\<rparr>)"
    by (rule online_mode_bypass)
      (simp_all add: online_config_def waking_moment_def isForgeFML3_def EmptyClientInfo_def GetProtocol_def ProbedJoinGame_def
        NewServerState_def newConnectionAdmission_def maxProxyClients_def)
qed (simp_all add: online_config_valid, simp add: online_config_def)

text \<open>
  The PROXY header of a proxied client is one a receiver of the protocol can parse: it gives the addresses and
  ports of the connection (as IPv4 when both are, otherwise as IPv6) and ends exactly where the client's
  bytes begin.
\<close>

lemma proxy_header_parses:
  assumes "StreamHeader (TCPAddr src sp) (TCPAddr dst dp) = Ok header"
    and "length src \<in> {4, 16}" and "length dst \<in> {4, 16}"
  shows "parse_proxy_v2 (header @ rest) =
    Some (if IP_To4 src \<noteq> None \<and> IP_To4 dst \<noteq> None
      then (slice_of (IP_To4 src), slice_of (IP_To4 dst), word_of_int sp, word_of_int dp)
      else (slice_of (IP_To16 src), slice_of (IP_To16 dst), word_of_int sp, word_of_int dp), rest)"
  using assms by (rule parse_StreamHeader)

lemma proxy_header_parses_witness:
  "parse_proxy_v2 ((signature @ [0x21, 0x11, 0, 12, 1, 2, 3, 4, 127, 0, 0, 1, 0, 80, 0, 81]) @ [9]) =
     Some (([1, 2, 3, 4], [127, 0, 0, 1], 80, 81), [9])"
proof -
  have h: "StreamHeader (TCPAddr [1, 2, 3, 4] 80) (TCPAddr [127, 0, 0, 1] 81) =
      Ok (signature @ [0x21, 0x11, 0, 12, 1, 2, 3, 4, 127, 0, 0, 1, 0, 80, 0, 81])" by code_simp
  show ?thesis using proxy_header_parses [OF h, of "[9]"] by (simp add: IP_To4_def slice_of_def)
qed

text \<open>
  C24: The answer to a Velocity request is one a backend with the same secret accepts: a login plugin response to
  that request whose data is the digest, under the secret, of the rest, and the rest reads as a version between
  1 and 4, the client's address and the verified profile. The secret has 16 to 4096 bytes, and there is
  one only where a private regular file was found.
\<close>

theorem velocity_forwarding_accepted:
  assumes "forwardingSecret stat credentialsDir join config = Ok secret"
    and "velocity_response_packet hmac (Ok secret) request (Some profile) address = Ok p"
    and "profile_fits profile" and "length address \<le> 32767"
  shows "(\<exists>payload version. DecodeLoginPluginResponse (rp_Data p) =
      Ok \<lparr>lpr_MessageID = lpq_MessageID request, lpr_Successful = True, lpr_Data = hmac secret payload @ payload\<rparr> \<and>
      run_decoder read_forwarding payload = Ok (version, address, profile) \<and> 1 \<le> sint version \<and> sint version \<le> 4) \<and>
    (\<exists>path info. stat path = Some info \<and> sf_regular info \<and> sf_perm info AND 0x3F = 0) \<and>
    16 \<le> length secret \<and> length secret \<le> 4096"
  using velocity_response_read [OF assms(2-4)] forwardingSecret_safe [OF assms(1)] by blast

theorem velocity_forwarding_accepted_witness:
  "let secret = replicate 16 97; profile = \<lparr>gp_UUID = replicate 16 1, gp_Name = ''Steve'', gp_Properties = []\<rparr>;
       request = \<lparr>lpq_MessageID = 5, lpq_Channel = ''velocity:player_info'', lpq_Data = [4]\<rparr>
   in \<exists>p payload version. velocity_response_packet (\<lambda>k m. k) (Ok secret) request (Some profile) ''1.2.3.4'' = Ok p \<and>
        DecodeLoginPluginResponse (rp_Data p) =
          Ok \<lparr>lpr_MessageID = 5, lpr_Successful = True, lpr_Data = secret @ payload\<rparr> \<and>
        run_decoder read_forwarding payload = Ok (version, ''1.2.3.4'', profile)"
proof -
  let ?secret = "replicate 16 97" and ?request = "\<lparr>lpq_MessageID = 5, lpq_Channel = ''velocity:player_info'', lpq_Data = [4]\<rparr>"
  let ?profile = "\<lparr>gp_UUID = replicate 16 1, gp_Name = ''Steve'', gp_Properties = []\<rparr>"
  let ?stat = "\<lambda>_. Some \<lparr>sf_regular = True, sf_perm = 0, sf_data = Some ?secret\<rparr>"
  have trimmed: "trim_line_end ?secret = ?secret" by code_simp
  have s: "forwardingSecret ?stat ''/run'' (\<lambda>d f. d @ f) defaultConfig = Ok ?secret"
    by (simp add: forwardingSecret_def defaultConfig_def Let_def maximumForwardingSecret_def minimumForwardingSecret_def
        trimmed)
  have t: "TrimSpace ''1.2.3.4'' \<noteq> []" by code_simp
  then obtain p where p: "velocity_response_packet (\<lambda>k m. k) (Ok ?secret) ?request (Some ?profile) ''1.2.3.4'' = Ok p"
    by (simp add: velocity_response_packet_def velocityPlayerInfoChannel_def Let_def)
  have "profile_fits ?profile" by (simp add: profile_fits_def)
  from velocity_forwarding_accepted [OF s p this] show ?thesis using p by auto
qed

section \<open>The files of the server\<close>

text \<open>
  Rewriting \<^verbatim>\<open>server.properties\<close> does what it says: afterwards every changed property reads as its new
  value, wherever and however often it occurred, and every other property reads as before. The keys of the
  changes are lower-case, without white space at their ends, equals or comment signs, and nothing contains a
  line end.
\<close>

lemma properties_rewrite_read:
  assumes "changes \<noteq> []" and "list_all good_change changes"
  shows "ReadServerProperties (Some (fst (rewriteContents contents changes))) property =
    (case map_of changes (ToLower property) of
       Some v \<Rightarrow> Some (TrimSpace v)
     | None \<Rightarrow> ReadServerProperties (Some contents) property)"
  using assms by (rule rewriteContents_read)

lemma properties_rewrite_read_witness:
  "ReadServerProperties (Some (fst (rewriteContents ''port=1'' [(''port'', ''2'')]))) ''port'' = Some ''2''"
proof -
  have v: "TrimSpace ''2'' = ''2''" "ToLower ''port'' = ''port''" "good_change (''port'', ''2'')" by code_simp+
  show ?thesis
    by (subst properties_rewrite_read) (simp_all add: v)
qed

text \<open>
  When the watcher sees that the whitelist, the operator list or the properties changed, the whitelist in
  force afterwards is the one the files ask for (none when it is not enabled), unless a list cannot be read,
  in which case it stays as it was; and the watcher remembers the state of every file it looked at. A round
  without changes does nothing.
\<close>

lemma watcher_reloads:
  assumes "watch_round config dir cur (states, server) = (states', server')"
    and "sv_WakeWhitelist (cfg_Server config)"
  shows "(cur WhitelistFile \<noteq> states WhitelistFile \<or> cur OpsFile \<noteq> states OpsFile \<or>
      cur ServerPropertiesFile \<noteq> states ServerPropertiesFile \<longrightarrow>
      ss_whitelist server' = (case whitelist_on_disk dir of Some w \<Rightarrow> w | None \<Rightarrow> ss_whitelist server) \<and> states' = cur) \<and>
    (cur = states \<longrightarrow> server' = server)"
proof (intro conjI impI)
  assume "cur = states"
  then show "server' = server" using watch_round_quiet [of cur states config dir server] assms(1) by simp
qed (use watch_round_whitelist [OF assms(1)] assms(2) reloadWhitelist_in_force [of config dir server] in auto)

lemma watcher_reloads_witness:
  "let dir = \<lparr>sd_props = Some ''white-list=true'', sd_bans = None, sd_whitelist = Some (Ok [''Steve'']), sd_ops = None\<rparr>;
       old = (\<lambda>_. \<lparr>fs_exists = False, fs_mtime = 0, fs_size = 0\<rparr>);
       cur = old(WhitelistFile := \<lparr>fs_exists = True, fs_mtime = 1, fs_size = 5\<rparr>);
       server' = snd (watch_round defaultConfig dir cur (old, NewServerState))
   in ss_whitelist server' = Some \<lparr>wl_whitelist = [''Steve''], wl_ops = []\<rparr>"
proof -
  let ?dir = "\<lparr>sd_props = Some ''white-list=true'', sd_bans = None, sd_whitelist = Some (Ok [''Steve'']), sd_ops = None\<rparr>"
  let ?old = "\<lambda>_. \<lparr>fs_exists = False, fs_mtime = 0, fs_size = 0\<rparr>"
  let ?cur = "?old(WhitelistFile := \<lparr>fs_exists = True, fs_mtime = 1, fs_size = 5\<rparr>)"
  have p: "ReadServerProperties (Some ''white-list=true'') ''white-list'' = Some ''true''" by code_simp
  have d: "whitelist_on_disk ?dir = Some (Some \<lparr>wl_whitelist = [''Steve''], wl_ops = []\<rparr>)"
    by (simp add: whitelist_on_disk_def whitelist_enabled_def p LoadWhitelistDir_def loaded_def)
  have w: "sv_WakeWhitelist (cfg_Server defaultConfig)" by (simp add: defaultConfig_def)
  show ?thesis
    using watcher_reloads [where dir = ?dir and cur = ?cur and states = ?old and server = NewServerState,
        OF prod.collapse [symmetric] w] d
    by (simp add: Let_def)
qed

section \<open>Commands and access lists\<close>

text \<open>
  The command line of the backend is split as written: quoting every argument and joining with blanks gives
  the arguments back, whatever blanks, backslashes and double quotes they contain.
\<close>

lemma command_quoting:
  assumes "\<forall>w \<in> set ws. CHR 0x27 \<notin> set w"
  shows "shlexSplit (join_with '' '' (map single_quoted ws)) = ws"
  using assms by (rule shlexSplit_quoted)

lemma command_quoting_witness:
  "shlexSplit (join_with '' '' (map single_quoted [''java'', ''-D a=b'', []])) = [''java'', ''-D a=b'', []]"
  by (rule command_quoting) simp

section \<open>Dimensions, RCON and their text\<close>

text \<open>
  C21: The SNBT parser reads back what is printed: the text of a compound (its names quoted and escaped, numbers
  with their suffixes, typed arrays, nested lists and compounds) is parsed to the same compound. Floating-point
  values are left out, whose text \<^verbatim>\<open>strconv.ParseFloat\<close> defines.
\<close>

theorem snbt_roundtrip:
  assumes "printable (TCompound c)"
  shows "ParseSNBT pf (snbt_text (TCompound c)) = Ok c"
  using assms by (rule ParseSNBT_text)

theorem snbt_roundtrip_witness:
  "ParseSNBT (\<lambda>_. None) (snbt_text (TCompound [(''a'', TList TagString [TString ''b'', TString [CHR 0x22]]),
     (''n'', TCompound [(''x'', TByte 300), (''y'', TIntArray [1, -2])])])) =
   Ok [(''a'', TList TagString [TString ''b'', TString [CHR 0x22]]), (''n'', TCompound [(''x'', TByte 300), (''y'', TIntArray [1, -2])])]"
  by (rule snbt_roundtrip) simp

text \<open>
  C30: The SNBT parser ends on every input: \<^verbatim>\<open>ParseSNBT\<close> returns a compound or an error, and the fuel its recursion
  is given is enough, since more of it changes nothing.
\<close>

theorem snbt_parser_ends:
  "ParseSNBT pf data \<noteq> Panic \<and> parseValue pf (snbt_fuel s + extra) s = parseValue pf (snbt_fuel s) s"
  using ParseSNBT_total parse_more_fuel(1) [OF parse_total(1) [of s "snbt_fuel s" pf], of "snbt_fuel s + extra"]
  by (simp add: snbt_fuel_def)

text \<open>
  C23: RCON commands are answered by their own answers: with the next free packet id, \<^verbatim>\<open>Cmd\<close> sends the command and
  an empty end marker and returns the concatenation of all the parts the server answers, in order, however the
  network splits the frames; it consumes exactly the answer and leaves a positive packet id, also where the id
  wraps around at \<^verbatim>\<open>math.MaxInt32\<close>.
\<close>

theorem rcon_command_answered:
  assumes "length cmd \<le> rconMaxPayloadSize" and "2 \<le> sk_budget (rcon_out r)" and "clean_stream (rcon_in r)"
    and "pid = rcon_nextPacketID r" and "endID = next_packet_id pid"
    and "script_bytes (rcon_in r) = answer_frames pid parts @ rcon_frame endID ptype marker @ rest"
    and "\<forall>part \<in> set (marker # parts). length part + 10 < 2 ^ 31"
  shows "\<exists>r'. Cmd cmd r = (Some (concat parts), r') \<and> script_bytes (rcon_in r') = rest \<and> rcon_ok r' \<and>
    sk_written (rcon_out r') = sk_written (rcon_out r) @
      [rcon_frame pid rconTypeExecCommand cmd, rcon_frame endID rconTypeExecCommand []]"
  using Cmd_answered [OF assms] next_packet_id_positive [of endID] by (auto simp: rcon_ok_def)

theorem rcon_command_answered_witness:
  "\<exists>r'. Cmd [115, 97, 121]
      \<lparr>rcon_in = [(take 9 (rcon_frame 0x7FFFFFFF 0 [79, 75]), None), (drop 9 (rcon_frame 0x7FFFFFFF 0 [79, 75]), None),
         (rcon_frame 1 0 [], None), ([8], None)],
       rcon_out = \<lparr>sk_written = [], sk_budget = 9\<rparr>, rcon_nextPacketID = 0x7FFFFFFF\<rparr> = (Some [79, 75], r') \<and>
    script_bytes (rcon_in r') = [8] \<and> rcon_ok r' \<and>
    sk_written (rcon_out r') = [] @ [rcon_frame 0x7FFFFFFF rconTypeExecCommand [115, 97, 121], rcon_frame 1 rconTypeExecCommand []]"
  using rcon_command_answered [where cmd = "[115, 97, 121]" and pid = "0x7FFFFFFF" and endID = 1 and parts = "[[79, 75]]" and
      ptype = 0 and marker = "[]" and rest = "[8]" and
      r = "\<lparr>rcon_in = [(take 9 (rcon_frame 0x7FFFFFFF 0 [79, 75]), None), (drop 9 (rcon_frame 0x7FFFFFFF 0 [79, 75]), None),
         (rcon_frame 1 0 [], None), ([8], None)],
       rcon_out = \<lparr>sk_written = [], sk_budget = 9\<rparr>, rcon_nextPacketID = 0x7FFFFFFF\<rparr>"]
  by (simp add: rconMaxPayloadSize_def clean_stream_def next_packet_id_def rconInitialPacketID_def answer_frames_def
      rconTypeResponseValue_def)

section \<open>Online players\<close>

definition toy_block :: "bytes \<Rightarrow> bytes" where
  "toy_block iv = map (\<lambda>b. b + 1) iv"

text \<open>
  C12: The encrypted connection refines the plain one: what the gateway writes through it is decrypted by a peer
  with the same secret to the same bytes, whatever the writes were, what such a peer sends is read as it was sent,
  and the first read through the new connection is the read of the decrypted stream. The peer's cipher is the one of the
  source, with the same block function.
\<close>

theorem encrypted_connection_transparent:
  assumes "aes secret = Ok block" and "newMinecraftEncryptedConn aes conn k secret = Ok c" and "sk_written k = []"
    and "EncryptedConn_writes ps c = (True, c')"
    and "script_bytes conn = fst (XORKeyStream (newCFB8 block secret False) message)"
  shows "fst (XORKeyStream (newCFB8 block secret True) (concat (sk_written (ec_out c')))) = concat ps \<and>
    script_bytes (plain_view c) = message \<and>
    conn_Read n (plain_view c) = (case EncryptedConn_Read n c of (r, c1) \<Rightarrow> (r, plain_view c1))"
  using encrypted_writes_decrypted [OF assms(2,4,3,1)] encrypted_reads_plain [OF assms(2,1,5)] EncryptedConn_Read_refines
  by blast

theorem encrypted_connection_transparent_witness:
  "\<exists>c c'. newMinecraftEncryptedConn (\<lambda>_. Ok toy_block) [(fst (XORKeyStream (newCFB8 toy_block [1, 2] False) [9, 8]), None)]
       \<lparr>sk_written = [], sk_budget = 9\<rparr> [1, 2] = Ok c \<and> EncryptedConn_writes [[5], [6, 7]] c = (True, c') \<and>
     fst (XORKeyStream (newCFB8 toy_block [1, 2] True) (concat (sk_written (ec_out c')))) = [5, 6, 7] \<and>
     script_bytes (plain_view c) = [9, 8]"
proof -
  let ?k = "\<lparr>sk_written = [], sk_budget = 9\<rparr>" and ?conn = "[(fst (XORKeyStream (newCFB8 toy_block [1, 2] False) [9, 8]), None)]"
  obtain c where c: "newMinecraftEncryptedConn (\<lambda>_. Ok toy_block) ?conn ?k [1, 2] = Ok c"
    by (simp add: newMinecraftEncryptedConn_def)
  have "ec_out c = ?k" using c by (auto simp: newMinecraftEncryptedConn_def)
  then obtain c' where c': "EncryptedConn_writes [[5], [6, 7]] c = (True, c')"
    using EncryptedConn_writes_ok [of "[[5], [6, 7]]" c] by auto
  show ?thesis using encrypted_connection_transparent [OF _ c _ c', of toy_block "[9, 8]"] c c' by auto
qed

text \<open>
  C28: The server hash of the session protocol is Java's text of the SHA-1 digest as a signed number of 160 bits, and no
  other: among all texts it is the one in canonical form (lower-case digits, no leading zero, a minus sign only
  before a number other than zero) whose value, between \<open>-2\<^sup>1\<^sup>5\<^sup>9\<close> and \<open>2\<^sup>1\<^sup>5\<^sup>9\<close>, is the digest modulo \<open>2\<^sup>1\<^sup>6\<^sup>0\<close>.
\<close>

theorem session_hash_signed:
  assumes "length (sha1 (bytes_of_string serverID @ secret @ publicKey)) = 20"
  shows "t = minecraftServerHash sha1 serverID secret publicKey \<longleftrightarrow>
    canonical_hex t \<and> - (2 ^ 159) \<le> signed_hex_value t \<and> signed_hex_value t < 2 ^ 159 \<and>
    signed_hex_value t mod 2 ^ 160 = SetBytes (sha1 (bytes_of_string serverID @ secret @ publicKey))"
  using assms by (rule minecraftServerHash_iff)

text \<open>The digest of the name \<^verbatim>\<open>simon\<close>: its first digit is zero and is left out.\<close>

theorem session_hash_signed_witness:
  "''88e16a1019277b15d58faf0541e11910eb756f6'' =
   minecraftServerHash (\<lambda>_. [0x08, 0x8e, 0x16, 0xa1, 0x01, 0x92, 0x77, 0xb1, 0x5d, 0x58, 0xfa, 0xf0, 0x54, 0x1e,
     0x11, 0x91, 0x0e, 0xb7, 0x56, 0xf6]) ''simon'' [] []"
proof (subst session_hash_signed)
  show "canonical_hex ''88e16a1019277b15d58faf0541e11910eb756f6'' \<and>
    - (2 ^ 159) \<le> signed_hex_value ''88e16a1019277b15d58faf0541e11910eb756f6'' \<and>
    signed_hex_value ''88e16a1019277b15d58faf0541e11910eb756f6'' < 2 ^ 159 \<and>
    signed_hex_value ''88e16a1019277b15d58faf0541e11910eb756f6'' mod 2 ^ 160 =
    SetBytes [0x08, 0x8e, 0x16, 0xa1, 0x01, 0x92, 0x77, 0xb1, 0x5d, 0x58, 0xfa, 0xf0, 0x54, 0x1e,
     0x11, 0x91, 0x0e, 0xb7, 0x56, 0xf6]"
    by (simp add: canonical_hex_def canonical_digits_def signed_hex_value_def hex_value_def fromHexChar_def SetBytes_def)
qed simp

text \<open>
  A key whose ciphertexts have 128 bytes, as those of the gateway's 1024-bit key: the message after its length, filled with
  zeros. Other byte strings are refused. A session server that knows one player, and a client that answers with a
  secret of sixteen equal bytes.
\<close>

definition toy_encrypt :: "bytes \<Rightarrow> bytes" where
  "toy_encrypt m = word_of_nat (length m) # m @ replicate (127 - length m) 0"

definition toy_decrypt :: "bytes \<Rightarrow> bytes outcome" where
  "toy_decrypt c = (if length c \<noteq> 128 then Fail else Ok (take (unat (hd c)) (tl c)))"

lemma toy_decrypt_encrypt: "length m < 128 \<Longrightarrow> toy_decrypt (toy_encrypt m) = Ok m \<and> length (toy_encrypt m) = 128"
  by (simp add: toy_decrypt_def toy_encrypt_def unat_of_nat)

definition zero_id :: string where "zero_id = replicate 32 (CHR ''0'')"

definition toy_auth :: auth_env where
  "toy_auth = \<lparr>ax_key = Ok ([1], toy_decrypt), ax_token = Ok [7], ax_aes = (\<lambda>_. Ok toy_block), ax_sha1 = (\<lambda>_. replicate 20 0),
     ax_session = \<lparr>sx_url_Parse = (\<lambda>_. Some (''https'', [])), sx_ParseIP = (\<lambda>_. None), sx_fold = (\<lambda>_ _. False),
       sx_ask = (\<lambda>_ _ _. Some \<lparr>sa_StatusCode = 200,
         sa_decoded = Some \<lparr>jp_ID = zero_id, jp_Name = ''A'', jp_Properties = []\<rparr>, sa_trailing = False\<rparr>)\<rparr>\<rparr>"

definition toy_profile :: GameProfile where
  "toy_profile = \<lparr>gp_UUID = replicate 16 0, gp_Name = ''A'', gp_Properties = []\<rparr>"

lemma zero_id_uuid: "parseProfileUUID zero_id = Ok (replicate 16 0)" by code_simp

lemma toy_vouches: "session_vouches (ax_session toy_auth) base ''a'' hash toy_profile"
proof -
  have "EqualFold (\<lambda>_ _. False) ''A'' ''a''" by code_simp
  then show ?thesis
    by (simp add: session_vouches_def toy_auth_def session_address_safe_def zero_id_uuid toy_profile_def)
qed

definition toy_response :: bytes where
  "toy_response = [133, 2, 1] @ encryption_response (toy_encrypt (replicate 16 3)) (toy_encrypt [7])"

lemma varint_128: "EncodeVarInt 128 = [128, 1]" by code_simp

lemma toy_read:
  "ReadPacketWithTimeout stored_zlib (SetState DummyClient ClientStateLogin) [] [(toy_response, None)] =
     (Packet (NewRawPacket PacketServerEncryptionResponse
        (encryption_response (toy_encrypt (replicate 16 3)) (toy_encrypt [7]))) toy_response, [], [])"
proof -
  let ?data = "encryption_response (toy_encrypt (replicate 16 3)) (toy_encrypt [7])"
  have "length ?data = 260"
    using toy_decrypt_encrypt [of "replicate 16 3"] toy_decrypt_encrypt [of "[7]"] varint_128
    by (simp add: encryption_response_def wire_byte_array_def)
  then show ?thesis
    by (simp add: read_run toy_response_def SetState_def PacketServerEncryptionResponse_def)
qed

text \<open>
  C15: A player whose client answers the encryption request honestly, and whose session the session server confirms,
  passes. The client sends ciphertexts of its secret and of the token, under the key it was sent; the session server (the
  configured one, or Mojang's when none is configured) is at an address the gateway trusts and answers with the
  player's name up to case, a UUID, and properties within the bounds. Then \<^verbatim>\<open>authenticateLobbyClient\<close> returns
  exactly that profile, which fits in a packet, and a connection over which the client's further bytes are read as sent.
\<close>

theorem online_login_completes:
  assumes "ax_key ax = Ok (publicKey, decrypt)" and "ax_token ax = Ok verifyToken" and "ax_aes ax secret = Ok block"
    and "decrypt encryptedSecret = Ok secret" and "decrypt encryptedToken = Ok verifyToken" and "length secret = 16"
    and "length encryptedSecret \<le> 512" and "length encryptedToken \<le> 512"
    and "writePacket z client (encryption_request publicKey verifyToken) k = (True, k')"
    and "ReadPacketWithTimeout z client buf conn =
      (Packet (NewRawPacket PacketServerEncryptionResponse (encryption_response encryptedSecret encryptedToken)) raw, [], conn')"
    and "script_bytes conn' = fst (XORKeyStream (newCFB8 block secret False) message)"
    and "base = (if au_SessionServer (cfg_Auth config) = [] then ''https://sessionserver.mojang.com''
      else au_SessionServer (cfg_Auth config))"
    and "sx_url_Parse (ax_session ax) (session_endpoint base) = Some endpoint"
    and "session_address_safe (ax_session ax) endpoint"
    and "sx_ask (ax_session ax) (session_endpoint base) username (minecraftServerHash (ax_sha1 ax) [] secret publicKey) =
      Some \<lparr>sa_StatusCode = 200, sa_decoded = Some wire, sa_trailing = False\<rparr>"
    and "EqualFold (sx_fold (ax_session ax)) (jp_Name wire) username" and "parseProfileUUID (jp_ID wire) = Ok uuid"
    and "0 < length (jp_Name wire)" and "length (jp_Name wire) \<le> 16" and "length (jp_Properties wire) \<le> 64"
    and "list_all profile_property_ok (jp_Properties wire)"
  shows "\<exists>ec profile. authenticateLobbyClient z ax client conn k buf username config = (Ok (ec, profile), [], conn', k') \<and>
    profile = \<lparr>gp_UUID = uuid, gp_Name = jp_Name wire, gp_Properties = jp_Properties wire\<rparr> \<and>
    script_bytes (plain_view ec) = message \<and> profile_fits profile"
proof -
  let ?profile = "\<lparr>gp_UUID = uuid, gp_Name = jp_Name wire, gp_Properties = jp_Properties wire\<rparr>"
  have v: "session_vouches (ax_session ax) (session_base config) username
      (minecraftServerHash (ax_sha1 ax) [] secret publicKey) ?profile"
    using assms(13-21) unfolding session_vouches_def session_base_def assms(12) [symmetric] by auto
  obtain ec where "authenticateLobbyClient z ax client conn k buf username config = (Ok (ec, ?profile), [], conn', k')"
      and ec: "newMinecraftEncryptedConn (ax_aes ax) conn' k' secret = Ok ec"
    using authenticateLobbyClient_honest [OF assms(1-10) v] by blast
  then show ?thesis using encrypted_reads_plain [OF ec assms(3,11)] session_vouches_fits [OF v] by blast
qed

lemma toy_request_written:
  assumes "0 < n"
  shows "\<exists>k'. writePacket stored_zlib (SetState DummyClient ClientStateLogin) (encryption_request [1] [7])
      \<lparr>sk_written = [], sk_budget = n\<rparr> = (True, k') \<and> sk_budget k' = n - 1"
proof -
  have "case EncodeWithLen stored_zlib (encryption_request [1] [7]) (SetState DummyClient ClientStateLogin) of
      Ok _ \<Rightarrow> True | _ \<Rightarrow> False" by code_simp
  then show ?thesis using assms by (auto simp: writePacket_def conn_Write_def split: outcome.splits)
qed

lemma toy_auth_simps:
  "ax_key toy_auth = Ok ([1], toy_decrypt)" "ax_token toy_auth = Ok [7]" "ax_aes toy_auth (replicate 16 3) = Ok toy_block"
  "toy_decrypt (toy_encrypt (replicate 16 3)) = Ok (replicate 16 3)" "toy_decrypt (toy_encrypt [7]) = Ok [7]"
  "length (toy_encrypt (replicate 16 3)) \<le> 512" "length (toy_encrypt [7]) \<le> 512" "length (replicate 16 (3 :: byte)) = 16"
  using toy_decrypt_encrypt [of "replicate 16 3"] toy_decrypt_encrypt [of "[7]"] by (simp_all add: toy_auth_def)

theorem online_login_completes_witness:
  "\<exists>ec k'. authenticateLobbyClient stored_zlib toy_auth (SetState DummyClient ClientStateLogin) [(toy_response, None)]
      \<lparr>sk_written = [], sk_budget = 9\<rparr> [] ''a'' defaultConfig = (Ok (ec, toy_profile), [], [], k')"
proof -
  obtain k' where k: "writePacket stored_zlib (SetState DummyClient ClientStateLogin) (encryption_request [1] [7])
      \<lparr>sk_written = [], sk_budget = 9\<rparr> = (True, k')" using toy_request_written [of 9] by auto
  have fold: "EqualFold (\<lambda>_ _. False) ''A'' ''a''" by code_simp
  let ?wire = "\<lparr>jp_ID = zero_id, jp_Name = ''A'', jp_Properties = []\<rparr>"
  have "\<exists>ec profile. authenticateLobbyClient stored_zlib toy_auth (SetState DummyClient ClientStateLogin) [(toy_response, None)]
      \<lparr>sk_written = [], sk_budget = 9\<rparr> [] ''a'' defaultConfig = (Ok (ec, profile), [], [], k') \<and>
      profile = \<lparr>gp_UUID = replicate 16 0, gp_Name = jp_Name ?wire, gp_Properties = jp_Properties ?wire\<rparr> \<and>
      script_bytes (plain_view ec) = [] \<and> profile_fits profile"
  proof (rule online_login_completes [OF toy_auth_simps(1-5,8,6,7) k toy_read _ refl])
    show "script_bytes [] = fst (XORKeyStream (newCFB8 toy_block (replicate 16 3) False) [])" by simp
    show "sx_ask (ax_session toy_auth) base ''a'' hash = Some \<lparr>sa_StatusCode = 200,
        sa_decoded = Some \<lparr>jp_ID = zero_id, jp_Name = ''A'', jp_Properties = []\<rparr>, sa_trailing = False\<rparr>" for base hash
      by (simp add: toy_auth_def)
    show "sx_url_Parse (ax_session toy_auth) base = Some (''https'', [])" for base by (simp add: toy_auth_def)
    show "EqualFold (sx_fold (ax_session toy_auth)) (jp_Name \<lparr>jp_ID = zero_id, jp_Name = ''A'', jp_Properties = []\<rparr>) ''a''"
      using fold by (simp add: toy_auth_def)
  qed (simp_all add: zero_id_uuid session_address_safe_def)
  then show ?thesis by (auto simp: toy_profile_def)
qed

section \<open>The lobby\<close>

definition lobby_config :: Config where
  "lobby_config = rcon_config\<lparr>cfg_Auth := (cfg_Auth rcon_config)\<lparr>au_OnlineMode := True\<rparr>\<rparr>"

lemma lobby_config_simps [simp]:
  "au_OnlineMode (cfg_Auth lobby_config)" "\<not> sv_Forge (cfg_Server lobby_config)" "au_SessionServer (cfg_Auth lobby_config) \<noteq> []"
  "\<not> ControllerManaged lobby_config" "\<not> FreezeProcess lobby_config"
  by (simp_all add: lobby_config_def rcon_config_def defaultConfig_def)

text \<open>A lobby whose client answers the encryption request and goes away after two packets.\<close>

definition toy_lobby :: lobby_env where
  "toy_lobby = \<lparr>le_zlib = stored_zlib, le_md5 = (\<lambda>_. replicate 16 0), le_hmac = (\<lambda>_ _. []), le_secret = Fail,
     le_auth = toy_auth,
     le_embedded = \<lparr>em_dimensionCodecSNBT = [], em_dimensionSNBT = [], em_ParseFloat = (\<lambda>_. None)\<rparr>,
     le_env = env_at 0, le_remote = OtherAddr, le_local = OtherAddr, le_host = [], le_at_login = NewServerState,
     le_at_replay = NewServerState, le_at_play = NewServerState, le_cache = (\<lambda>_. []), le_hot_states = [], le_states = [],
     le_ticks = 0, le_keepAliveID = 0, le_dial = None, le_connectTimeout = False, le_joinTimeout = False\<rparr>"

definition toy_client :: "nat \<Rightarrow> lobby_state" where
  "toy_client budget = \<lparr>lb_client = SetState DummyClient ClientStateLogin,
     lb_info = EmptyClientInfo\<lparr>ci_Username := Some ''a''\<rparr>, lb_buf = [], lb_in = [(toy_response, None)],
     lb_out = \<lparr>sk_written = [], sk_budget = budget\<rparr>, lb_world = initial_world\<rparr>"


lemma toy_replay: "lobby_replay toy_lobby lobby_config s = (Some False, s)"
  by (simp add: lobby_replay_def)

lemma toy_announcement:
  "EncodeWithLen stored_zlib set_compression_packet (SetState DummyClient ClientStateLogin) = Ok [3, 3, 128, 2]"
  by code_simp

lemma toy_compress:
  assumes "lb_client s = SetState DummyClient ClientStateLogin" and "0 < sk_budget (lb_out s)"
  shows "lobby_compress toy_lobby False s =
    (True, s\<lparr>lb_out := (lb_out s)\<lparr>sk_written := sk_written (lb_out s) @ [[3, 3, 128, 2]], sk_budget := sk_budget (lb_out s) - 1\<rparr>,
      lb_client := SetCompressionThreshold (lb_client s) CompressionThreshold\<rparr>)"
proof -
  have "respondSetCompression stored_zlib (lb_client s) CompressionThreshold k = writePacket stored_zlib (lb_client s) set_compression_packet k" for k
    by (simp add: respondSetCompression_def set_compression_packet_def wire_simps)
  then show ?thesis
    using assms threshold_positive writePacket_ok [OF toy_announcement, of "lb_out s"]
    by (simp add: lobby_compress_def toy_lobby_def)
qed


text \<open>
  C3: In online mode the lobby never acts for a player who was not verified. If serving a lobby client changes the server at all
  (starts it), or ends in a proxied connection, then of the packets read from this client one is a login start, and the
  login it began was verified: the client was sent the gateway's key and token, its next packet is an encryption
  response whose ciphertexts decrypt to a secret and to that token, and the configured session server confirmed the name of
  that login start for the hash of that secret and key. The client goes on under the confirmed profile. When it is proxied, the
  backend the gateway dialled asked for the player in one of the packets it sent, and the signed answer with that profile is one
  of the frames the gateway wrote to it.
\<close>

theorem lobby_verifies_online_players:
  assumes "au_OnlineMode (cfg_Auth config)"
  shows "(\<forall>s'. lobby_end_state (LobbyServe e config queue s) = Some s' \<longrightarrow> lb_world s' \<noteq> lb_world s \<longrightarrow>
      verified_login e config queue s (lb_info s')) \<and>
    (\<forall>s' b res. LobbyServe e config queue s = LobbyProxied s' b res \<longrightarrow>
      verified_login e config queue s (lb_info s') \<and> profile_forwarded e s' b)"
  using LobbyServe_sound [OF assms, of e queue s] unfolding lobby_sound_def .

lemma toy_authenticates:
  "\<exists>ec k'. authenticateLobbyClient stored_zlib toy_auth (SetState DummyClient ClientStateLogin) [(toy_response, None)]
      \<lparr>sk_written = [], sk_budget = 2\<rparr> [] ''a'' lobby_config = (Ok (ec, toy_profile), [], [], k') \<and> sk_budget (ec_out ec) = 1"
proof -
  obtain k' where k: "writePacket stored_zlib (SetState DummyClient ClientStateLogin) (encryption_request [1] [7])
      \<lparr>sk_written = [], sk_budget = 2\<rparr> = (True, k')" "sk_budget k' = 1" using toy_request_written [of 2] by auto
  then show ?thesis
    using authenticateLobbyClient_honest [OF toy_auth_simps(1-5,8,6,7) k(1) toy_read toy_vouches, of lobby_config] by auto
qed

lemma writePacket_full: "sk_budget k = 0 \<Longrightarrow> writePacket z client p k = (False, k)"
  by (simp add: writePacket_def conn_Write_def split: outcome.split)

lemma toy_run:
  "\<exists>s'. LobbyServe toy_lobby lobby_config [3, 0, 1, 97] (toy_client 2) = LobbyClosed s' \<and>
     lb_world s' = snd (Start lobby_config (env_at 0) initial_world)"
proof -
  let ?c = "lobby_config" and ?s = "toy_client 2"
  obtain ec k' where a: "authenticateLobbyClient stored_zlib toy_auth (SetState DummyClient ClientStateLogin) [(toy_response, None)]
      \<lparr>sk_written = [], sk_budget = 2\<rparr> [] ''a'' ?c = (Ok (ec, toy_profile), [], [], k')" and ec: "sk_budget (ec_out ec) = 1"
    using toy_authenticates by blast
  have r: "ReadPacket stored_zlib (SetState DummyClient ClientStateLogin) [3, 0, 1, 97] [(toy_response, None)] =
      (Packet (NewRawPacket 0 [1, 97]) [3, 0, 1, 97], [], [(toy_response, None)])"
    by (simp add: ReadPacket_def read_run SetState_def)
  have l: "DecodeLoginStart [1, 97] = Ok \<lparr>ls_Name = ''a''\<rparr>" by code_simp
  define s1 where "s1 = ?s\<lparr>lb_in := plain_view ec, lb_out := ec_out ec, lb_buf := [],
    lb_info := (lb_info ?s)\<lparr>ci_Profile := Some toy_profile, ci_Username := Some (gp_Name toy_profile)\<rparr>,
    lb_world := snd (Start ?c (env_at 0) initial_world)\<rparr>"
  have "LobbyServe toy_lobby ?c [3, 0, 1, 97] ?s = lobby_cold toy_lobby ?c \<lparr>ls_Name = gp_Name toy_profile\<rparr> s1"
    using a r l
    by (simp add: LobbyServe_def lobby_loop.simps [of _ _ "[3, 0, 1, 97]"] lobby_login_def lobby_authenticate_def Let_def
        toy_client_def toy_lobby_def SetState_def EmptyClientInfo_def NewRawPacket_def PacketServerLoginStart_def s1_def)
  moreover have "\<exists>s'. lobby_cold toy_lobby ?c \<lparr>ls_Name = gp_Name toy_profile\<rparr> s1 = LobbyClosed s' \<and> lb_world s' = lb_world s1"
  proof -
    have "lb_client s1 = SetState DummyClient ClientStateLogin" "sk_budget (lb_out s1) = 1" using ec by (simp_all add: s1_def toy_client_def)
    then show ?thesis
      using toy_compress [of s1] by (simp add: lobby_cold_def toy_replay lobby_play_def respondLoginSuccess_def writePacket_full)
  qed
  moreover have "lb_world s1 = snd (Start ?c (env_at 0) initial_world)" by (simp add: s1_def)
  ultimately show ?thesis by metis
qed

theorem lobby_verifies_online_players_witness:
  "\<exists>s'. LobbyServe toy_lobby lobby_config [3, 0, 1, 97] (toy_client 2) = LobbyClosed s' \<and>
     ss_state (w_srv (lb_world s')) = StateStarting \<and>
     verified_login toy_lobby lobby_config [3, 0, 1, 97] (toy_client 2) (lb_info s')"
proof -
  have "au_OnlineMode (cfg_Auth lobby_config)" by simp
  note sound = lobby_verifies_online_players [OF this, of toy_lobby "[3, 0, 1, 97]" "toy_client 2"]
  obtain s' where s': "LobbyServe toy_lobby lobby_config [3, 0, 1, 97] (toy_client 2) = LobbyClosed s'"
      and w: "lb_world s' = snd (Start lobby_config (env_at 0) initial_world)" using toy_run by blast
  have st: "ss_state (w_srv (snd (Start lobby_config (env_at 0) initial_world))) = StateStarting"
    by (simp add: run_defs)
  then have "lb_world s' \<noteq> lb_world (toy_client 2)"
    by (auto simp: w toy_client_def initial_world_def NewServerState_def)
  then show ?thesis using sound s' w st by (auto simp: lobby_end_state_def)
qed













section \<open>Conversations between the components\<close>

definition open_sink :: sink where "open_sink = \<lparr>sk_written = [], sk_budget = 9\<rparr>"

lemma some_delivery: "\<exists>conn. flows conn \<and> script_bytes conn = bs"
  by (cases "bs = []") (intro exI [of _ "[]"] exI [of _ "[(bs, None)]"]; simp)+

text \<open>
  C11: The monitor of one gateway reads the status another gateway serves: the bytes of its poll, delivered in any pieces, make the
  gateway answer with its status and leave its world as it was, and of the bytes of the answer, again in any pieces, the poll
  parses exactly the JSON text of that status. The poll is sent without a PROXY header, which the gateway does not read; the
  address is an IP address, of at most 16 bytes; and the JSON text is below 16371 bytes, so that the answer's length prefix has two
  bytes: a longer one is rejected when the network splits its prefix.
\<close>

theorem gateway_polled:
  assumes "\<not> sv_SendProxyV2 (cfg_Server config)" and "length (sa_IP addr) \<le> 16"
    and "takes 2 c" and "sent_bytes c = []" and "takes 1 k" and "sent_bytes k = []"
    and "flows conn" and "script_bytes conn = sent_bytes (snd (poll_request z config addr (status_request z) c))"
    and "se_zlib e = z"
    and "json = StatusResponseJSON (se_json_valid e)
      (serverStatusResponse (se_favicon e) (polled_info config addr) served (w_srv w))"
    and "length json < 2 ^ 14 - 13"
  shows "\<exists>s. Serve e served (NewClient peer) conn k w = (ServeBreak s, []) \<and> sc_world s = w \<and>
    (\<forall>reply. flows reply \<longrightarrow> script_bytes reply = sent_bytes (sc_sink s) \<longrightarrow>
       fetchStatus z parse (Suc (Suc fuel)) config addr (Some (reply, c)) = parse json)"
  using assms by (rule gateway_status_conversation)

definition polled_world :: world where
  "polled_world = initial_world\<lparr>w_srv := NewServerState\<lparr>ss_state := StateStarted, ss_status := Some some_status\<rparr>\<rparr>"

theorem gateway_polled_witness:
  "\<exists>conn reply s. flows conn \<and> flows reply \<and>
     script_bytes conn = sent_bytes (snd (poll_request stored_zlib defaultConfig (sv_Address (cfg_Server defaultConfig))
       (status_request stored_zlib) open_sink)) \<and>
     Serve plain_env defaultConfig (NewClient ''1.2.3.4'') conn open_sink polled_world = (ServeBreak s, []) \<and>
     script_bytes reply = sent_bytes (sc_sink s) \<and>
     fetchStatus stored_zlib (\<lambda>_. Some some_status) 2 defaultConfig (sv_Address (cfg_Server defaultConfig))
       (Some (reply, open_sink)) = Some some_status"
proof -
  let ?addr = "sv_Address (cfg_Server defaultConfig)"
  obtain conn where conn: "flows conn"
      "script_bytes conn = sent_bytes (snd (poll_request stored_zlib defaultConfig ?addr (status_request stored_zlib) open_sink))"
    using some_delivery by blast
  have resp: "serverStatusResponse [] (polled_info defaultConfig ?addr) defaultConfig (w_srv polled_world) = some_status"
    by (simp add: serverStatusResponse_def polled_world_def Status_def)
  have served: "\<not> sv_SendProxyV2 (cfg_Server defaultConfig)" "length (sa_IP ?addr) \<le> 16"
    by (simp_all add: defaultConfig_def IPv4_def)
  have json_text: "StatusResponseJSON (\<lambda>_. False) some_status =
      ''{\"version\":{\"name\":\"\",\"protocol\":0},\"players\":{\"max\":0,\"online\":0,\"sample\":[]},\"description\":\"\",\"favicon\":null}''"
    by code_simp
  have "\<exists>s. Serve plain_env defaultConfig (NewClient ''1.2.3.4'') conn open_sink polled_world = (ServeBreak s, []) \<and> sc_world s = polled_world \<and>
    (\<forall>reply. flows reply \<longrightarrow> script_bytes reply = sent_bytes (sc_sink s) \<longrightarrow>
       fetchStatus stored_zlib (\<lambda>_. Some some_status) (Suc (Suc 0)) defaultConfig ?addr (Some (reply, open_sink)) = Some some_status)"
    by (rule gateway_polled [OF served _ _ _ _ conn, of _ plain_env "StatusResponseJSON (\<lambda>_. False) some_status"])
      (simp_all add: plain_env_def resp open_sink_def takes_def sent_bytes_def json_text)
  then show ?thesis using conn some_delivery by (metis numeral_2_eq_2)
qed

text \<open>
  The join-game packet of the mock server has the id of the protocols from 755 (1.17) on, except 763 (1.20.1): for a client of
  another protocol the gateway does not take it for one.
\<close>

lemma mock_join_id:
  assumes "GetProtocol info = Some protocol"
  shows "JoinGamePacketID (GetProtocol info) = 0x26 \<longleftrightarrow> 755 \<le> protocol \<and> protocol \<noteq> 763"
    and "JoinGameIsPacket info 0x26 \<longleftrightarrow> 755 \<le> protocol \<and> protocol \<noteq> 763"
  using assms
  by (auto simp: JoinGamePacketID_def JoinGameIsPacket_def Let_def isV1_20_1_def below_1_17_def ProtocolV1_20_1_def ProtocolV1_17_def
      V1_20_1JoinGame_def V1_17JoinGame_def V1_16_3JoinGame_def not_less)

text \<open>
  C4: The login the gateway performs at a backend and the mock server's side of it fit together, in offline mode and for a client of a
  protocol from 755 (1.17) on other than 763 (1.20.1), which are those whose join-game packet id the mock server uses: the mock
  server takes the bytes the gateway writes, with or without a PROXY header and in any pieces, records the login, enables
  compression and sends its join-game packet, and on these bytes the gateway's login succeeds, having written exactly what the
  mock server has read, and it finds the join-game data, with only the keep-alive of the mock server left. Bounds: the name has at
  most 16 bytes and the host name at most 255, a UUID has 16; the compressed join-game frame is below 16384 bytes; and the
  connections take the writes.
\<close>

theorem mock_login_completes:
  assumes "zlib_inverse (mx_zlib m)" and "carries (mx_zlib m) mock_playing join_packet (framed (mx_zlib m) mock_playing join_packet)"
    and "be_zlib e = mx_zlib m" and "\<not> au_OnlineMode (cfg_Auth config)"
    and "ci_Handshake (be_info e) = Some h" and "length (hs_ServerAddr h) \<le> 255" and "hs_NextState h = ToID ClientStateLogin"
    and "ci_Username (be_info e) = Some name" and "length name \<le> 16"
    and "\<And>p. ci_Profile (be_info e) = Some p \<Longrightarrow> length (gp_UUID p) = 16"
    and "GetProtocol (be_info e) = Some protocol" and "755 \<le> protocol" and "protocol \<noteq> 763"
    and "if sv_SendProxyV2 (cfg_Server config) then header = Ok hdr \<and> proxy_header hdr else hdr = []"
    and "takes 3 c" and "sent_bytes c = []" and "takes 4 k" and "sent_bytes k = []"
    and "flows conn" and "script_bytes conn = login_bytes e hdr h name"
  shows "\<exists>k'. handle m conn k ms = (if hdr = [] then None else Some hdr, k',
      addLogin \<lparr>lg_Username = name, lg_Protocol = hs_ProtocolVersion h, lg_Addr = mx_addr m, lg_Packets = 0\<rparr> ms) \<and>
    (\<forall>reply. flows reply \<longrightarrow> script_bytes reply = sent_bytes k' \<longrightarrow>
       (\<exists>s buf rest buf' rest'. connectToServerNoTimeout e config header (Some (reply, c)) None = (Ok (s, buf, rest), None) \<and>
          sent_bytes (bk_out s) = script_bytes conn \<and>
          waitForServerJoinGame False (be_zlib e) (bk_client s) (be_info e) buf rest = (Ok mock_join_data, buf', rest') \<and>
          buf' @ script_bytes rest' = last_keep_alive m))"
proof -
  have id: "JoinGamePacketID (GetProtocol (be_info e)) = 0x26" using mock_join_id(1) [OF assms(11)] assms(12,13) by blast
  show ?thesis using assms(1-10) id assms(14-20) by (rule mock_login_conversation)
qed

definition mock_host :: mock_env where
  "mock_host = \<lparr>mx_zlib = stored_zlib, mx_addr = ''127.0.0.1:4711'', mx_elapsed = (\<lambda>_. False)\<rparr>"

definition steve_handshake :: Handshake where
  "steve_handshake = \<lparr>hs_ProtocolVersion = 756, hs_ServerAddr = ''localhost'', hs_ServerPort = 25565, hs_NextState = 2\<rparr>"

definition steve :: backend_env where
  "steve = \<lparr>be_zlib = stored_zlib, be_hmac = (\<lambda>_ _. []), be_secret = Fail, be_address = ''10.0.0.9'',
     be_info = \<lparr>ci_Protocol = Some 756, ci_Handshake = Some steve_handshake, ci_Username = Some ''Steve'', ci_Profile = None\<rparr>,
     be_cache = (\<lambda>_. None)\<rparr>"

theorem mock_login_completes_witness:
  "\<exists>conn reply k' s' s buf rest. flows conn \<and> script_bytes conn = login_bytes steve [] steve_handshake ''Steve'' \<and>
     handle mock_host conn open_sink NewState = (None, k', s') \<and> length (ms_Logins s') = 1 \<and>
     flows reply \<and> script_bytes reply = sent_bytes k' \<and>
     connectToServerNoTimeout steve defaultConfig Fail (Some (reply, open_sink)) None = (Ok (s, buf, rest), None) \<and>
     fst (waitForServerJoinGame False stored_zlib (bk_client s) (be_info steve) buf rest) = Ok mock_join_data"
proof -
  obtain conn where conn: "flows conn" "script_bytes conn = login_bytes steve [] steve_handshake ''Steve''"
    using some_delivery by blast
  have joins: "GetProtocol (be_info steve) = Some 756" by (simp add: steve_def GetProtocol_def)
  have off: "\<not> au_OnlineMode (cfg_Auth defaultConfig)" "\<not> sv_SendProxyV2 (cfg_Server defaultConfig)"
    by (simp_all add: defaultConfig_def)
  have "\<exists>k'. handle mock_host conn open_sink NewState = (if [] = ([] :: bytes) then None else Some [], k',
      addLogin \<lparr>lg_Username = ''Steve'', lg_Protocol = hs_ProtocolVersion steve_handshake, lg_Addr = mx_addr mock_host, lg_Packets = 0\<rparr> NewState) \<and>
    (\<forall>reply. flows reply \<longrightarrow> script_bytes reply = sent_bytes k' \<longrightarrow>
       (\<exists>s buf rest buf' rest'. connectToServerNoTimeout steve defaultConfig Fail (Some (reply, open_sink)) None = (Ok (s, buf, rest), None) \<and>
          sent_bytes (bk_out s) = script_bytes conn \<and>
          waitForServerJoinGame False (be_zlib steve) (bk_client s) (be_info steve) buf rest = (Ok mock_join_data, buf', rest') \<and>
          buf' @ script_bytes rest' = last_keep_alive mock_host))"
    using joins off conn stored_join_framed stored_zlib_inverse
    by (intro mock_login_completes [where protocol = 756])
      (simp_all add: mock_host_def steve_def steve_handshake_def open_sink_def takes_def sent_bytes_def)
  then show ?thesis using conn some_delivery by (fastforce simp: addLogin_def NewState_def steve_def)
qed

section \<open>Start-up, files and the command line\<close>

text \<open>
  C19: The start-up makes the backend's properties agree with the gateway's configuration: with the rewrite enabled and a random RCON
  password asked for, the file \<^verbatim>\<open>server.properties\<close> afterwards names the address, the port and the RCON settings the
  gateway itself uses, the password it has drawn included, which has the full length; every property the start-up does not
  set reads as before, and no other file changes. The order in which Go's map gives the changes does not matter. A property
  is read as the gateway reads it, from the first line that sets it: the rewrite changes only that line.
\<close>

theorem startup_writes_properties:
  assumes "prepareRcon draw config0 = Ok config" and "ad_RewriteServerProperties (cfg_Advanced config0)"
    and "dir = ServerDirectory config0" and "dir \<noteq> []" and "fs dir = Some Directory"
    and "file = Join_path [dir, ServerPropertiesFile_name]" and "fs file = Some (Regular contents)"
    and "\<And>cs. distinct cs \<Longrightarrow> distinct (iter cs) \<and> set (iter cs) = set cs"
    and "\<forall>i < rconPasswordLength. \<exists>n < length alphabet. draw i = Some n"
    and "rc_Enabled (cfg_Rcon config0)" and "rc_RandomizePassword (cfg_Rcon config0)"
  shows "\<exists>new. rewriteServerProperties iter True WriteOk config fs = fs(file \<mapsto> Regular new) \<and>
    (\<forall>p. map_of (startup_changes config) (ToLower p) = None \<longrightarrow>
      ReadServerProperties (Some new) p = ReadServerProperties (Some contents) p) \<and>
    ReadServerProperties (Some new) ''server-ip'' = Some (IP_String (sa_IP (sv_Address (cfg_Server config)))) \<and>
    ReadServerProperties (Some new) ''server-port'' = Some (dec_int (sa_Port (sv_Address (cfg_Server config)))) \<and>
    ReadServerProperties (Some new) ''enable-rcon'' = Some ''true'' \<and>
    ReadServerProperties (Some new) ''rcon.port'' = Some (dec_int (uint (rc_Port (cfg_Rcon config)))) \<and>
    ReadServerProperties (Some new) ''rcon.password'' = Some (rc_Password (cfg_Rcon config)) \<and>
    length (rc_Password (cfg_Rcon config)) = rconPasswordLength"
proof -
  note frame = prepareRcon_frame [OF assms(1)]
  note pw = prepareRcon_randomized [OF assms(1,10,11,9)]
  have vis: "list_all visible (rc_Password (cfg_Rcon config))" using pw alphabet_visible by (auto simp: list_all_iff)
  have dir: "ServerDirectory config = dir" using frame(1,4) assms(3) by (simp add: ServerDirectory_def Let_def)
  have "distinct (startup_changes config)" using startup_changes_distinct by (metis distinct_map)
  note perm = assms(8) [OF this]
  obtain new where new: "rewriteServerProperties iter True WriteOk config fs = fs(file \<mapsto> Regular new)"
    and read: "\<And>p. ReadServerProperties (Some new) p =
      (case map_of (startup_changes config) (ToLower p) of
         Some v \<Rightarrow> Some (TrimSpace v) | None \<Rightarrow> ReadServerProperties (Some contents) p)"
    using rewriteServerProperties_read [of config fs "file" contents iter] assms(2,4-7) frame(3) dir perm visible_no_newline [OF vis]
    by auto
  have low: "ToLower ''server-ip'' = ''server-ip''" "ToLower ''server-port'' = ''server-port''"
    "ToLower ''rcon.port'' = ''rcon.port''" "ToLower ''rcon.password'' = ''rcon.password''" "ToLower ''enable-rcon'' = ''enable-rcon''"
    "TrimSpace ''true'' = ''true''"
    by code_simp+
  have on: "rc_Enabled (cfg_Rcon config)" using assms(10) frame(5) by simp
  show ?thesis
    using new pw
    by (intro exI [of _ new])
      (simp add: read low startup_values on TrimSpace_visible vis dec_int_visible IP_String_visible)
qed

lemma server_directory:
  assumes "cfg_Path config = ''/srv/lazymc.toml''" and "sv_Directory (cfg_Server config) = ''.''"
  shows "''/srv'' = ServerDirectory config"
proof -
  have p: "IsAbs ''.'' = False" "Join_path [Dir ''/srv/lazymc.toml'', ''.''] = ''/srv''" by code_simp+
  show ?thesis by (simp add: ServerDirectory_def Let_def assms p)
qed

definition rcon_random :: Config where
  "rcon_random = defaultConfig\<lparr>cfg_Path := ''/srv/lazymc.toml'', cfg_Rcon := (cfg_Rcon defaultConfig)\<lparr>rc_Enabled := True\<rparr>\<rparr>"

theorem startup_writes_properties_witness:
  "\<exists>config new. prepareRcon (\<lambda>i. Some i) rcon_random = Ok config \<and>
     rewriteServerProperties rev True WriteOk config
       [''/srv'' \<mapsto> Directory, ''/srv/server.properties'' \<mapsto> Regular ''motd=hi''] ''/srv/server.properties'' = Some (Regular new) \<and>
     ReadServerProperties (Some new) ''motd'' = Some ''hi'' \<and>
     ReadServerProperties (Some new) ''rcon.password'' = Some ''ABCDEFGHIJKLMNOPQRSTUVWXYZabcdef''"
proof -
  let ?draw = "\<lambda>i :: nat. Some i" and ?fs = "[''/srv'' \<mapsto> Directory, ''/srv/server.properties'' \<mapsto> Regular ''motd=hi'']"
  have gen: "generateRandomPassword ?draw = Ok ''ABCDEFGHIJKLMNOPQRSTUVWXYZabcdef''" by code_simp
  define config where "config = rcon_random\<lparr>cfg_Rcon := (cfg_Rcon rcon_random)\<lparr>rc_Password := ''ABCDEFGHIJKLMNOPQRSTUVWXYZabcdef''\<rparr>\<rparr>"
  have prep: "prepareRcon ?draw rcon_random = Ok config"
    by (simp add: prepareRcon_def gen config_def rcon_random_def defaultConfig_def)
  have dir: "''/srv'' = ServerDirectory rcon_random" by (rule server_directory) (simp_all add: rcon_random_def defaultConfig_def)
  have path: "''/srv/server.properties'' = Join_path [''/srv'', ServerPropertiesFile_name]" by code_simp
  have draws: "\<forall>i < rconPasswordLength. \<exists>n < length alphabet. ?draw i = Some n"
    by (simp add: rconPasswordLength_def alphabet_def)
  have old: "ReadServerProperties (Some ''motd=hi'') ''motd'' = Some ''hi''" "ToLower ''motd'' = ''motd''" by code_simp+
  have none: "map_of (startup_changes config) ''motd'' = None" by (simp add: startup_changes_def Let_def)
  have "ad_RewriteServerProperties (cfg_Advanced rcon_random)" "rc_Enabled (cfg_Rcon rcon_random)"
    "rc_RandomizePassword (cfg_Rcon rcon_random)" by (simp_all add: rcon_random_def defaultConfig_def)
  then obtain new where "rewriteServerProperties rev True WriteOk config ?fs = ?fs(''/srv/server.properties'' \<mapsto> Regular new)"
    "\<forall>p. map_of (startup_changes config) (ToLower p) = None \<longrightarrow> ReadServerProperties (Some new) p = ReadServerProperties (Some ''motd=hi'') p"
    "ReadServerProperties (Some new) ''rcon.password'' = Some (rc_Password (cfg_Rcon config))"
    using startup_writes_properties [OF prep _ dir _ _ path, of ?fs "''motd=hi''" rev] draws by auto
  moreover from this(2) old none have "ReadServerProperties (Some new) ''motd'' = Some ''hi''" by metis
  ultimately show ?thesis using prep by (auto simp: config_def)
qed

text \<open>
  C20: The snapshot of the Forge status is replaced atomically: in every state of the directory while it is saved, the snapshot is the
  old one or all of the new one, and nothing but the temporary file differs otherwise. When a call fails, everything is as
  before and the temporary file is gone; when saving succeeds, the snapshot is the new one, or it already was.
\<close>

theorem forge_snapshot_atomic:
  assumes "persist_trace obj e config raw fs = (ok, trace)" and "forgeStatusPath config = Ok path" and "fresh_temp e config fs"
  shows "(\<forall>fs' \<in> set trace. snapshot_safe fs (px_CreateTemp e) path (TrimSpace raw) fs') \<and>
    (\<not> ok \<longrightarrow> last trace = fs) \<and>
    (ok \<longrightarrow> last trace = fs(path \<mapsto> Regular (TrimSpace raw)) \<or>
       last trace = fs \<and> (\<exists>current. fs path = Some (Regular current) \<and> TrimSpace current = TrimSpace raw))"
  using persist_trace_safe [OF assms(1,3)] assms(2) by auto

text \<open>
  C25: A Forge status that has been saved survives a restart: the start-up reads the snapshot back and seeds the server's status,
  from which the gateway answers, with exactly the bytes saved. The server is not to be woken at the start, and the snapshot on disk
  before was not larger than what loading accepts.
\<close>

theorem forge_snapshot_survives_restart:
  assumes "persistForgeStatusSnapshot obj e config raw fs = (True, fs')" and "obj [] = None"
    and "fresh_temp e config fs"
    and "\<And>path current. forgeStatusPath config = Ok path \<Longrightarrow> fs path = Some (Regular current) \<Longrightarrow>
      length current \<le> maxForgeStatusFileSize"
    and "Service_init secret_ok (loadForgeStatusSnapshot obj True True config fs') env config = Ok (w, a)"
    and "\<not> sv_WakeOnStart (cfg_Server config)"
  shows "\<exists>st. ss_status (w_srv w) = Some st \<and> st_ForgeData st = TrimSpace raw"
proof -
  obtain st where st: "loadForgeStatusSnapshot obj True True config fs' = Ok (Some st)" "st_ForgeData st = TrimSpace raw"
    using persist_load [OF assms(1-3)] assms(4) by blast
  then have "sv_ForgeStatusFile (cfg_Server config) \<noteq> []"
    by (auto simp: loadForgeStatusSnapshot_def forgeStatusPath_def)
  then show ?thesis
    using assms(5,6) st
    by (auto simp: Service_init_def Let_def SeedStatus_def NewServerState_def split: if_splits)
qed


definition toy_object :: json_fields where
  "toy_object s = (if s = ''{m}'' then Some [(''fmlNetworkVersion'', ''3''), (''channels'', ''[]'')] else None)"

definition snapshot_config :: Config where
  "snapshot_config = defaultConfig\<lparr>cfg_Path := ''/srv/lazymc.toml'',
     cfg_Server := (cfg_Server defaultConfig)\<lparr>sv_ForgeStatusFile := ''forge.json''\<rparr>\<rparr>"

definition calls_succeed :: persist_env where
  "calls_succeed = \<lparr>px_readable = True, px_CreateTemp = Some ''/srv/.forge-status-1'', px_Chmod = True, px_Write = WriteOk,
     px_Sync = True, px_Close = True, px_Rename = True\<rparr>"

lemma snapshot_path: "forgeStatusPath snapshot_config = Ok ''/srv/forge.json''"
proof -
  have "IsAbs ''forge.json'' = False" "Clean (Join_path [Dir ''/srv/lazymc.toml'', ''forge.json'']) = ''/srv/forge.json''"
    by code_simp+
  then show ?thesis by (simp add: forgeStatusPath_def snapshot_config_def)
qed

lemma calls_fresh: "fresh_temp calls_succeed snapshot_config [''/srv/forge.json'' \<mapsto> Regular ''{old}'']"
  by (simp add: fresh_temp_def snapshot_path calls_succeed_def)

lemma snapshot_saved:
  "\<exists>trace. persist_trace toy_object calls_succeed snapshot_config ''{m} '' [''/srv/forge.json'' \<mapsto> Regular ''{old}''] = (True, trace)"
proof -
  have t: "TrimSpace ''{m} '' = ''{m}''" "TrimSpace ''{old}'' \<noteq> ''{m}''" by code_simp+
  then have "validateForgeStatusData toy_object ''{m} '' = Ok ''{m}''"
    by (simp add: validateForgeStatusData_def maxForgeStatusFileSize_def toy_object_def raw_member_def)
  with t show ?thesis
    by (simp add: persist_trace_def snapshot_path calls_succeed_def ReadFile_def replace_trace_def Let_def)
qed

theorem forge_snapshot_atomic_witness:
  "\<exists>trace. persist_trace toy_object calls_succeed snapshot_config ''{m} '' [''/srv/forge.json'' \<mapsto> Regular ''{old}''] = (True, trace) \<and>
     last trace ''/srv/forge.json'' = Some (Regular ''{m}'') \<and>
     (\<forall>fs' \<in> set trace. fs' ''/srv/forge.json'' = Some (Regular ''{old}'') \<or> fs' ''/srv/forge.json'' = Some (Regular ''{m}''))"
proof -
  have t: "TrimSpace ''{m} '' = ''{m}''" "TrimSpace ''{old}'' = ''{old}''" by code_simp+
  obtain trace where tr: "persist_trace toy_object calls_succeed snapshot_config ''{m} '' [''/srv/forge.json'' \<mapsto> Regular ''{old}''] = (True, trace)"
    using snapshot_saved by blast
  show ?thesis
    using forge_snapshot_atomic [OF tr snapshot_path calls_fresh] tr t by (auto simp: snapshot_safe_def)
qed

theorem forge_snapshot_survives_restart_witness:
  "\<exists>fs' w a st. persistForgeStatusSnapshot toy_object calls_succeed snapshot_config ''{m} '' [''/srv/forge.json'' \<mapsto> Regular ''{old}''] = (True, fs') \<and>
     Service_init True (loadForgeStatusSnapshot toy_object True True snapshot_config fs') (env_at 0) snapshot_config = Ok (w, a) \<and>
     ss_status (w_srv w) = Some st \<and> st_ForgeData st = ''{m}''"
proof -
  let ?fs = "[''/srv/forge.json'' \<mapsto> Regular ''{old}'']"
  have t: "TrimSpace ''{m} '' = ''{m}''" by code_simp
  obtain fs' where p: "persistForgeStatusSnapshot toy_object calls_succeed snapshot_config ''{m} '' ?fs = (True, fs')"
    using snapshot_saved by (auto simp: persistForgeStatusSnapshot_def)
  have o: "toy_object [] = None" by (simp add: toy_object_def)
  have small: "\<And>path current. forgeStatusPath snapshot_config = Ok path \<Longrightarrow> ?fs path = Some (Regular current) \<Longrightarrow>
      length current \<le> maxForgeStatusFileSize"
    by (auto simp: snapshot_path maxForgeStatusFileSize_def)
  obtain st where "loadForgeStatusSnapshot toy_object True True snapshot_config fs' = Ok (Some st)"
    using persist_load [OF p o calls_fresh] small by blast
  then obtain w a where s: "Service_init True (loadForgeStatusSnapshot toy_object True True snapshot_config fs') (env_at 0) snapshot_config = Ok (w, a)"
    by (simp add: Service_init_def validateControllerManagedConfig_def validateOnlineModeConfig_def snapshot_config_def
        defaultConfig_def Let_def)
  have "\<not> sv_WakeOnStart (cfg_Server snapshot_config)" by (simp add: snapshot_config_def defaultConfig_def)
  from forge_snapshot_survives_restart [OF p o calls_fresh _ s this] small show ?thesis using p s t by auto
qed

text \<open>
  C40: A start the gateway refuses still changes the backend: for a configuration with a controller-managed server and with the
  rewrite of the properties enabled, the service fails its validation, but only after \<^verbatim>\<open>server.properties\<close> has been
  rewritten to the configured address.
\<close>

theorem refused_start_rewrites:
  assumes "LoadConfig (sx_action x) (pa_config args) fs = Returns config"
    and "ControllerManaged config" and "ad_RewriteServerProperties (cfg_Advanced config)" and "\<not> rc_Enabled (cfg_Rcon config)"
    and "CHR 0x0A \<notin> set (rc_Password (cfg_Rcon config))"
    and "dir = ServerDirectory config" and "dir \<noteq> []" and "fs dir = Some Directory"
    and "file = Join_path [dir, ServerPropertiesFile_name]" and "fs file = Some (Regular contents)"
    and "\<And>cs. distinct cs \<Longrightarrow> distinct (sx_iter x cs) \<and> set (sx_iter x cs) = set cs"
    and "sx_readable x" and "sx_written x = WriteOk"
  shows "\<exists>new. invokeStart x args fs = (StartService Fail, fs(file \<mapsto> Regular new)) \<and>
    ReadServerProperties (Some new) ''server-ip'' = Some (IP_String (sa_IP (sv_Address (cfg_Server config)))) \<and>
    ReadServerProperties (Some new) ''server-port'' = Some (dec_int (sa_Port (sv_Address (cfg_Server config))))"
  using assms by (rule invokeStart_refused)

definition managed_config :: Config where
  "managed_config = defaultConfig\<lparr>cfg_Server := (cfg_Server defaultConfig)\<lparr>sv_ControllerManaged := True, sv_Command := ''wake''\<rparr>\<rparr>"

definition managed_files :: files where
  "managed_files = [''/srv/lazymc.toml'' \<mapsto> Regular ''controller_managed'', ''/srv'' \<mapsto> Directory,
     ''/srv/server.properties'' \<mapsto> Regular ''server-ip=10.0.0.9'']"

definition managed_start :: start_env where
  "managed_start = \<lparr>sx_action = \<lparr>ae_tty = False, ae_bin = ''lazymc'', ae_cwd = Some ''/srv'', ae_readable = True,
       ae_decode = (\<lambda>_ _. Some (managed_config, \<lambda>_. True)), ae_template = [], ae_written = WriteOk, ae_answers = [], ae_cause = []\<rparr>,
     sx_draw = (\<lambda>_. None), sx_iter = id, sx_readable = True, sx_written = WriteOk, sx_object = (\<lambda>_. None), sx_secret_ok = True,
     sx_env = env_at 0\<rparr>"

theorem refused_start_rewrites_witness:
  "\<exists>new. invokeStart managed_start \<lparr>pa_subcommand = ''start'', pa_subSubcommand = [], pa_config = ''lazymc.toml''\<rparr> managed_files =
       (StartService Fail, managed_files(''/srv/server.properties'' \<mapsto> Regular new)) \<and>
     ReadServerProperties (Some ''server-ip=10.0.0.9'') ''server-ip'' = Some ''10.0.0.9'' \<and>
     ReadServerProperties (Some new) ''server-ip'' = Some ''127.0.0.1''"
proof -
  let ?args = "\<lparr>pa_subcommand = ''start'', pa_subSubcommand = [], pa_config = ''lazymc.toml''\<rparr>"
  let ?config = "managed_config\<lparr>cfg_Path := ''/srv/lazymc.toml''\<rparr>"
  have "IsAbs ''lazymc.toml'' = False" "Join_path [''/srv'', ''lazymc.toml''] = ''/srv/lazymc.toml''" by code_simp+
  then have path: "canonical (sx_action managed_start) ''lazymc.toml'' = ''/srv/lazymc.toml''"
    by (simp add: canonical_def managed_start_def)
  have load: "LoadConfig (sx_action managed_start) (pa_config ?args) managed_files = Returns ?config"
    by (simp add: LoadConfig_def path isFile_def ConfigLoad_def ReadFile_def managed_files_def Let_def)
      (simp add: managed_start_def)
  have c: "ControllerManaged ?config" "ad_RewriteServerProperties (cfg_Advanced ?config)" "\<not> rc_Enabled (cfg_Rcon ?config)"
    "CHR 0x0A \<notin> set (rc_Password (cfg_Rcon ?config))" "sa_IP (sv_Address (cfg_Server ?config)) = IPv4 127 0 0 1"
    by (simp_all add: managed_config_def defaultConfig_def)
  have dir: "''/srv'' = ServerDirectory ?config" by (rule server_directory) (simp_all add: managed_config_def defaultConfig_def)
  have props: "''/srv/server.properties'' = Join_path [''/srv'', ServerPropertiesFile_name]" by code_simp
  have ip: "IP_String (IPv4 127 0 0 1) = ''127.0.0.1''" "ReadServerProperties (Some ''server-ip=10.0.0.9'') ''server-ip'' = Some ''10.0.0.9''"
    by code_simp+
  show ?thesis
    using refused_start_rewrites [OF load c(1-4) dir _ _ props, of "''server-ip=10.0.0.9''"] c(5) ip
    by (auto simp: managed_files_def managed_start_def)
qed

text \<open>
  C18: The watcher keeps the access lists of the server directory in force: after its first reload and any number of rounds, in
  which the files may change in any way that their times or sizes show, the whitelist and the bans of the gateway are
  those of the last files, wherever these can be read and the checks are enabled. The files do not change between the
  reload and the recording of their first states.
\<close>

theorem watcher_keeps_lists:
  assumes "dir = ServerDirectory config" and "isDir (fst found) dir" and "isDir (fst recorded) dir"
    and "honest dir (recorded # ds)"
    and "\<And>w. file_contents (fst found) (watched_path dir w) = file_contents (fst recorded) (watched_path dir w)"
    and "last (recorded # ds) = now" and "server' = fileWatcherService j readable config found recorded ds server"
  shows "(sv_WakeWhitelist (cfg_Server config) \<longrightarrow>
      (\<forall>w. whitelist_on_disk (disk_dir j readable dir now) = Some w \<longrightarrow> ss_whitelist server' = w)) \<and>
    (sv_BlockBannedIps (cfg_Server config) \<or> sv_DropBannedIps (cfg_Server config) \<longrightarrow>
      (\<forall>b. bans_on_disk (disk_dir j readable dir now) = Some b \<longrightarrow> ss_banned server' = b))"
  using fileWatcherService_lists [OF assms(1-5), of j readable server] assms(6,7) by (simp add: lists_in_force_def)

definition list_decoders :: entry_decoders where
  "list_decoders = \<lparr>ed_whitelist = (\<lambda>s. Some [\<lparr>wu_Username = s, wu_UUID = None\<rparr>]), ed_ops = (\<lambda>_. None), ed_bans = (\<lambda>_. None)\<rparr>"

definition server_disk :: "string \<Rightarrow> int \<Rightarrow> disk" where
  "server_disk name time =
     ([''.'' \<mapsto> Directory, ''server.properties'' \<mapsto> Regular ''white-list=true'', ''whitelist.json'' \<mapsto> Regular name], \<lambda>_. time)"

lemma server_disk_paths:
  "watched_path ''.'' BanFile = ''banned-ips.json''" "watched_path ''.'' WhitelistFile = ''whitelist.json''"
  "watched_path ''.'' OpsFile = ''ops.json''" "watched_path ''.'' ServerPropertiesFile = ''server.properties''"
  by code_simp+

theorem watcher_keeps_lists_witness:
  "ss_whitelist (fileWatcherService list_decoders True defaultConfig (server_disk ''Steve'' 1) (server_disk ''Steve'' 1)
     [server_disk ''Steve'' 1, server_disk ''Alexa'' 2] NewServerState) = Some \<lparr>wl_whitelist = [''Alexa''], wl_ops = []\<rparr>"
proof -
  have dir: "''.'' = ServerDirectory defaultConfig" by (simp add: ServerDirectory_def defaultConfig_def)
  have "disk_states ''.'' (server_disk n t) w = disk_states ''.'' (server_disk n' t') w \<Longrightarrow>
      t = t' \<or> file_contents (fst (server_disk n t)) (watched_path ''.'' w) = file_contents (fst (server_disk n' t')) (watched_path ''.'' w)"
    for n n' t t' w
    by (cases w) (simp_all add: disk_states_def currentFileState_def server_disk_def file_contents_def server_disk_paths)
  then have "honest_stats ''.'' (server_disk ''Steve'' 1) (server_disk ''Alexa'' 2)"
    "honest_stats ''.'' (server_disk ''Alexa'' 2) (server_disk ''Steve'' 1)"
    unfolding honest_stats_def by (metis one_eq_numeral_iff semiring_norm(85))+
  then have h: "honest ''.'' [server_disk ''Steve'' 1, server_disk ''Steve'' 1, server_disk ''Alexa'' 2]"
    by (simp add: honest_def) (simp add: honest_stats_def)
  have d: "isDir (fst (server_disk n t)) ''.''" for n t by (simp add: isDir_def server_disk_def)
  have p: "ReadServerProperties (Some ''white-list=true'') ''white-list'' = Some ''true''" by code_simp
  have w: "whitelist_on_disk (disk_dir list_decoders True ''.'' (server_disk ''Alexa'' 2)) = Some (Some \<lparr>wl_whitelist = [''Alexa''], wl_ops = []\<rparr>)"
    by (simp add: whitelist_on_disk_def whitelist_enabled_def LoadWhitelistDir_def loaded_def disk_dir_def read_server_dir_def Let_def
        server_disk_paths server_disk_def ReadFile_def isFile_def loadWhitelist_def list_decoders_def p)
  have on: "sv_WakeWhitelist (cfg_Server defaultConfig)" by (simp add: defaultConfig_def)
  show ?thesis using watcher_keeps_lists [OF dir d d h refl refl refl, of list_decoders True NewServerState] w on by simp
qed

text \<open>
  C34: The arguments of the program may be mixed freely: with flags that choose the configuration file anywhere between the words,
  in each of their spellings, the command line means what its words mean alone, with the file of the last such flag.
\<close>

theorem flags_anywhere:
  assumes "list_all token_ok ts"
  shows "parseArgs (concat (map token_args ts)) =
    then_run (parseArgs (token_words ts)) (\<lambda>a. Returns (a\<lparr>pa_config := token_file ConfigFile ts\<rparr>))"
  using assms by (rule parseArgs_tokens)

theorem flags_anywhere_witness:
  "parseArgs [''config'', ''-c'', ''a.toml'', ''gen'', ''--config=b.toml''] =
     Returns \<lparr>pa_subcommand = ''config'', pa_subSubcommand = ''generate'', pa_config = ''b.toml''\<rparr>"
proof -
  have c: "classify ''config'' = Positional" "classify ''gen'' = Positional" by (simp_all add: classify_def HasPrefix_def)
  show ?thesis
    using flags_anywhere [of "[Word ''config'', FileFlag ''-c'' ''a.toml'', Word ''gen'', FileValue ''--config='' ''b.toml'']"] c
    by (simp add: parseArgs_def parse_config_command_def)
qed


text \<open>
  C35: Versions are compared as the sequences of their numbers, with zeros after the last one: the comparison of the texts of two
  versions is the sign of their first difference, it never fails, and it is zero only when all numbers agree. The numbers are below
  \<open>2\<^sup>6\<^sup>3\<close>.
\<close>

theorem version_order:
  assumes "ms \<noteq> []" and "ns \<noteq> []" and "\<forall>n \<in> set ms \<union> set ns. n < 2 ^ 63"
    and "f = (\<lambda>i. if i < length ms then int (ms ! i) else 0)" and "g = (\<lambda>i. if i < length ns then int (ns ! i) else 0)"
  shows "compareVersions (version_text ms) (version_text ns) = Ok (if first_less f g then -1 else if first_less g f then 1 else 0) \<and>
    (compareVersions (version_text ms) (version_text ns) = Ok 0 \<longleftrightarrow> f = g)"
proof -
  have "version_numbers (version_text ms) = f" "version_numbers (version_text ns) = g"
    using version_numbers_text [OF assms(1)] version_numbers_text [OF assms(2)] assms(3-5) by auto
  then show ?thesis
    using compareVersions_first [of "version_text ms" "version_text ns"] first_less_total [of f g] first_less_irrefl first_less_asym
    by auto
qed

theorem version_order_witness: "compareVersions ''0.2.9'' ''0.2.11'' = Ok (-1)"
proof -
  have text_of: "version_text [0, 2, 9] = ''0.2.9''" "version_text [0, 2, 11] = ''0.2.11''" by code_simp+
  have "first_less (\<lambda>i. if i < 3 then int ([0, 2, 9] ! i) else 0) (\<lambda>i. if i < 3 then int ([0, 2, 11] ! i) else 0)"
    unfolding first_less_def by (rule exI [of _ 2]) (auto simp: less_Suc_eq numeral_2_eq_2)
  then show ?thesis
    using version_order [of "[0, 2, 9]" "[0, 2, 11]", OF _ _ _ refl refl] by (simp add: text_of numeral_3_eq_3)
qed

end
